(* ===== verification/Prelude.thy ===== *)
theory Prelude
  imports Main "HOL-Library.Multiset" "HOL-Library.List_Lexorder" "HOL-Library.Char_ord"
begin

text \<open>
  The shared vocabulary of the development: results that may throw, the JavaScript array
  operations the sources use (\<open>sort\<close> with a comparator, \<open>Array.from(new Set(xs))\<close>,
  early-exit loops that may throw), ISO-8601 date strings, and decimal rendering of the numbers
  that occur in template literals.
\<close>

named_theorems result_simps \<open>unfolding of the throwing-code combinators\<close>
named_theorems ledger_simps \<open>projections of ledger records through the operations\<close>

section \<open>Code that may throw\<close>

text \<open>
  A function that may throw returns \<open>'e + 'a\<close>: \<open>Inl\<close> is the thrown error. Statement
  sequencing is \<open>and_then\<close>, a guarded \<open>throw\<close> is \<open>throw_if\<close>.
\<close>

definition and_then :: "'e + 'a \<Rightarrow> ('a \<Rightarrow> 'e + 'b) \<Rightarrow> 'e + 'b" where
  "and_then m f = (case m of Inl e \<Rightarrow> Inl e | Inr x \<Rightarrow> f x)"

definition throw_if :: "bool \<Rightarrow> 'e \<Rightarrow> 'e + unit" where
  "throw_if b e = (if b then Inl e else Inr ())"

lemma and_then_simps [simp]:
  "and_then (Inl e) f = Inl e"
  "and_then (Inr x) f = f x"
  by (simp_all add: and_then_def)

text \<open>Evaluation runs the continuation only on the value of the first statement.\<close>

lemma and_then_case [code_unfold]: "and_then m f = (case m of Inl e \<Rightarrow> Inl e | Inr x \<Rightarrow> f x)"
  by (simp add: and_then_def)

lemma let_value [code_unfold]: "Let x f = f x"
  by (simp add: Let_def)

lemma and_then_Inr_iff [result_simps]:
  "and_then m f = Inr y \<longleftrightarrow> (\<exists>x. m = Inr x \<and> f x = Inr y)"
  by (cases m) simp_all

lemma and_then_Inl_iff [result_simps]:
  "and_then m f = Inl e \<longleftrightarrow> m = Inl e \<or> (\<exists>x. m = Inr x \<and> f x = Inl e)"
  by (cases m) simp_all

lemma throw_if_simps [simp]:
  "throw_if True e = Inl e"
  "throw_if False e = Inr ()"
  by (simp_all add: throw_if_def)

lemma throw_if_Inr_iff [result_simps]: "throw_if b e = Inr u \<longleftrightarrow> \<not> b"
  by (simp add: throw_if_def)

lemma throw_if_Inl_iff [result_simps]: "throw_if b e = Inl e' \<longleftrightarrow> b \<and> e' = e"
  by (auto simp: throw_if_def)

text \<open>\<open>xs.map(f)\<close> for a callback that may throw: the first error wins.\<close>

fun traverse :: "('a \<Rightarrow> 'e + 'b) \<Rightarrow> 'a list \<Rightarrow> 'e + 'b list" where
  "traverse f [] = Inr []"
| "traverse f (x # xs) = and_then (f x) (\<lambda>y. and_then (traverse f xs) (\<lambda>ys. Inr (y # ys)))"

lemma traverse_Inr_iff:
  "traverse f xs = Inr ys \<longleftrightarrow> list_all2 (\<lambda>x y. f x = Inr y) xs ys"
  by (induction xs arbitrary: ys) (auto simp: result_simps list_all2_Cons1)

lemma traverse_length: "traverse f xs = Inr ys \<Longrightarrow> length ys = length xs"
  by (simp add: traverse_Inr_iff list_all2_lengthD)

lemma traverse_total:
  "(\<And>x. x \<in> set xs \<Longrightarrow> f x = Inr (g x)) \<Longrightarrow> traverse f xs = Inr (map g xs)"
  by (induction xs) auto

section \<open>JavaScript arrays\<close>

text \<open>
  \<open>Array.prototype.sort\<close> is stable, so for a comparator that is a total preorder its result
  is determined: it is the stable insertion sort below. \<open>localeCompare\<close> and
  number subtraction give the comparators of the sources.
\<close>

fun insert_cmp :: "('a \<Rightarrow> 'a \<Rightarrow> int) \<Rightarrow> 'a \<Rightarrow> 'a list \<Rightarrow> 'a list" where
  "insert_cmp cmp x [] = [x]"
| "insert_cmp cmp x (y # ys) = (if cmp x y \<le> 0 then x # y # ys else y # insert_cmp cmp x ys)"

definition js_sort :: "('a \<Rightarrow> 'a \<Rightarrow> int) \<Rightarrow> 'a list \<Rightarrow> 'a list" where
  "js_sort cmp xs = foldr (insert_cmp cmp) xs []"

lemma js_sort_simps [simp]:
  "js_sort cmp [] = []"
  "js_sort cmp (x # xs) = insert_cmp cmp x (js_sort cmp xs)"
  by (simp_all add: js_sort_def)

lemma mset_insert_cmp [simp]: "mset (insert_cmp cmp x xs) = add_mset x (mset xs)"
  by (induction xs) auto

lemma mset_js_sort [simp]: "mset (js_sort cmp xs) = mset xs"
  by (induction xs) auto

lemma set_js_sort [simp]: "set (js_sort cmp xs) = set xs"
  by (metis mset_js_sort set_mset_mset)

lemma length_js_sort [simp]: "length (js_sort cmp xs) = length xs"
  by (metis mset_js_sort size_mset)

lemma js_sort_Nil_iff [simp]: "js_sort cmp xs = [] \<longleftrightarrow> xs = []"
  by (metis length_0_conv length_js_sort)

lemma distinct_map_js_sort [simp]: "distinct (map f (js_sort cmp xs)) = distinct (map f xs)"
  by (metis mset_js_sort mset_map mset_eq_imp_distinct_iff)

lemma insert_cmp_least:
  "(\<And>y. y \<in> set ys \<Longrightarrow> cmp x y \<le> 0) \<Longrightarrow> insert_cmp cmp x ys = x # ys"
  by (cases ys) auto

lemma js_sort_sorted_id: "sorted_wrt (\<lambda>x y. cmp x y \<le> 0) xs \<Longrightarrow> js_sort cmp xs = xs"
  by (induction xs) (auto intro: insert_cmp_least)

text \<open>What the code relies on of a comparator: it is a total preorder.\<close>

locale comparator =
  fixes cmp :: "'a \<Rightarrow> 'a \<Rightarrow> int"
  assumes cmp_total: "cmp x y > 0 \<Longrightarrow> cmp y x \<le> 0"
    and cmp_trans: "cmp x y \<le> 0 \<Longrightarrow> cmp y z \<le> 0 \<Longrightarrow> cmp x z \<le> 0"
begin

lemma sorted_insert_cmp:
  "sorted_wrt (\<lambda>x y. cmp x y \<le> 0) xs \<Longrightarrow> sorted_wrt (\<lambda>x y. cmp x y \<le> 0) (insert_cmp cmp x xs)"
proof (induction xs)
  case Nil
  then show ?case by simp
next
  case (Cons y ys)
  have set_eq: "set (insert_cmp cmp x ys) = insert x (set ys)"
    by (metis mset_insert_cmp set_mset_add_mset_insert set_mset_mset)
  show ?case
  proof (cases "cmp x y \<le> 0")
    case True
    with Cons.prems show ?thesis by (auto intro: cmp_trans)
  next
    case False
    then have "cmp y x \<le> 0" using cmp_total by simp
    with Cons False show ?thesis by (simp add: set_eq)
  qed
qed

lemma sorted_js_sort: "sorted_wrt (\<lambda>x y. cmp x y \<le> 0) (js_sort cmp xs)"
  by (induction xs) (simp_all add: sorted_insert_cmp)

lemma js_sort_idem: "js_sort cmp (js_sort cmp xs) = js_sort cmp xs"
  by (rule js_sort_sorted_id [OF sorted_js_sort])

end

text \<open>\<open>Array.from(new Set(xs))\<close> keeps the first occurrence of each element.\<close>

definition js_unique :: "'a list \<Rightarrow> 'a list" where
  "js_unique xs = rev (remdups (rev xs))"

lemma js_unique_simps [simp]:
  "set (js_unique xs) = set xs"
  "distinct (js_unique xs)"
  by (simp_all add: js_unique_def)

lemma js_unique_distinct: "distinct xs \<Longrightarrow> js_unique xs = xs"
  by (simp add: js_unique_def distinct_remdups_id)

lemma js_unique_Nil [simp]: "js_unique [] = []"
  by (simp add: js_unique_def)

lemma js_unique_snoc [simp]:
  "js_unique (xs @ [x]) = (if x \<in> set xs then js_unique xs else js_unique xs @ [x])"
  by (simp add: js_unique_def)

text \<open>
  A \<open>Map\<close> from keys to group objects that is filled in a loop
  (\<open>const g = map.get(k); if (g) { extend g } else { map.set(k, create) }\<close>): the list of its
  values in insertion order.
\<close>

fun map_upsert :: "('g \<Rightarrow> 'k) \<Rightarrow> 'k \<Rightarrow> 'g \<Rightarrow> ('g \<Rightarrow> 'g) \<Rightarrow> 'g list \<Rightarrow> 'g list" where
  "map_upsert gkey k create extend [] = [create]"
| "map_upsert gkey k create extend (g # gs) =
     (if gkey g = k then extend g # gs else g # map_upsert gkey k create extend gs)"

lemma map_upsert_list_all:
  "list_all P gs \<Longrightarrow> P create \<Longrightarrow> (\<And>g. P g \<Longrightarrow> gkey g = k \<Longrightarrow> P (extend g)) \<Longrightarrow>
   list_all P (map_upsert gkey k create extend gs)"
  by (induction gs) auto

text \<open>What the loops rely on: a group holds exactly the items of its key, in order.\<close>

locale keyed_groups =
  fixes gkey :: "'g \<Rightarrow> 'k" and items :: "'g \<Rightarrow> 's list" and skey :: "'s \<Rightarrow> 'k"
    and create :: "'s \<Rightarrow> 'g" and extend :: "'s \<Rightarrow> 'g \<Rightarrow> 'g"
  assumes create_key: "gkey (create s) = skey s"
    and create_items: "items (create s) = [s]"
    and extend_key: "gkey (extend s g) = gkey g"
    and extend_items: "items (extend s g) = items g @ [s]"
begin

definition step :: "'g list \<Rightarrow> 's \<Rightarrow> 'g list" where
  "step gs s = map_upsert gkey (skey s) (create s) (extend s) gs"

lemma step_keys:
  "map gkey (step gs s) =
     (if skey s \<in> gkey ` set gs then map gkey gs else map gkey gs @ [skey s])"
  unfolding step_def by (induction gs) (auto simp: create_key extend_key)

lemma step_new: "skey s \<notin> gkey ` set gs \<Longrightarrow> step gs s = gs @ [create s]"
  unfolding step_def by (induction gs) auto

lemma step_old:
  assumes "skey s \<in> gkey ` set gs" "distinct (map gkey gs)"
  shows "step gs s = map (\<lambda>g. if gkey g = skey s then extend s g else g) gs"
  using assms
proof (induction gs)
  case Nil
  then show ?case by simp
next
  case (Cons g gs)
  show ?case
  proof (cases "gkey g = skey s")
    case True
    with Cons.prems have "\<forall>h \<in> set gs. gkey h \<noteq> skey s" by (metis distinct.simps(2) image_eqI list.set_map list.simps(9))
    then have "map (\<lambda>g. if gkey g = skey s then extend s g else g) gs = gs"
      by (intro map_idI) simp
    with True show ?thesis by (simp add: step_def)
  next
    case False
    with Cons.prems have "skey s \<in> gkey ` set gs" "distinct (map gkey gs)" by auto
    from Cons.IH [OF this] False show ?thesis by (simp add: step_def)
  qed
qed

lemma step_items:
  assumes "distinct (map gkey gs)" "\<forall>g \<in> set gs. items g = filter (\<lambda>x. skey x = gkey g) ss"
    and "\<forall>x \<in> set ss. skey x \<in> gkey ` set gs"
  shows "\<forall>g \<in> set (step gs s). items g = filter (\<lambda>x. skey x = gkey g) (ss @ [s])"
proof (cases "skey s \<in> gkey ` set gs")
  case True
  show ?thesis
    unfolding step_old [OF True assms(1)] using assms(2)
    by (auto simp: extend_key extend_items)
next
  case False
  with assms(3) have "\<forall>x \<in> set ss. skey x \<noteq> skey s" by metis
  then have none: "filter (\<lambda>x. skey x = skey s) ss = []" by (simp add: filter_empty_conv)
  from False have "\<forall>g \<in> set gs. skey s \<noteq> gkey g" by (metis image_eqI)
  then show ?thesis
    unfolding step_new [OF False] using assms(2) none by (simp add: create_key create_items)
qed

lemma groups_spec:
  "map gkey (foldl step [] ss) = js_unique (map skey ss)
   \<and> (\<forall>g \<in> set (foldl step [] ss). items g = filter (\<lambda>x. skey x = gkey g) ss)"
proof (induction ss rule: rev_induct)
  case Nil
  show ?case by simp
next
  case (snoc s ss)
  let ?gs = "foldl step [] ss"
  have keys: "gkey ` set ?gs = set (map skey ss)"
    using snoc by (metis js_unique_simps(1) list.set_map)
  have "distinct (map gkey ?gs)" using snoc by simp
  from step_items [OF this, of ss s] keys snoc step_keys [of ?gs s] show ?case by simp
qed

lemma step_mset:
  "mset (concat (map items (step gs s))) = add_mset s (mset (concat (map items gs)))"
  unfolding step_def by (induction gs) (simp_all add: create_items extend_items)

lemma groups_mset: "mset (concat (map items (foldl step [] ss))) = mset ss"
  by (induction ss rule: rev_induct) (simp_all add: step_mset)

lemma step_nonempty:
  "\<forall>g \<in> set gs. items g \<noteq> [] \<Longrightarrow> \<forall>g \<in> set (step gs s). items g \<noteq> []"
  unfolding step_def by (induction gs) (simp_all add: create_items extend_items)

lemma groups_nonempty: "\<forall>g \<in> set (foldl step [] ss). items g \<noteq> []"
  by (induction ss rule: rev_induct) (simp_all add: step_nonempty)

end

lemma find_SomeD: "List.find P xs = Some x \<Longrightarrow> x \<in> set xs \<and> P x"
  by (auto simp: find_Some_iff)

lemma find_None_D: "List.find P xs = None \<Longrightarrow> x \<in> set xs \<Longrightarrow> \<not> P x"
  by (auto simp: find_None_iff)

section \<open>ISO-8601 date strings\<close>

text \<open>
  The sources keep dates as strings \<open>YYYY-MM-DD\<close> followed by nothing or by a time of day.
  \<open>Iso d t\<close> is such a string: \<open>d\<close> is the day its first ten characters name (days since
  1970-01-01) and \<open>t\<close> is the text after them. For four-digit years the text order of the first
  ten characters is the order of the days, so the string comparisons of the sources
  (\<open>===\<close>, \<open><\<close>, \<open>localeCompare\<close>) are equality and the lexicographic order below,
  and \<open>value.slice(0, 10)\<close> is \<open>slice_date\<close>. A string that does not start with a date is
  not represented.
\<close>

datatype iso8601 = Iso (iso_day: int) (iso_time: string)

abbreviation date_only :: "int \<Rightarrow> iso8601" where
  "date_only d \<equiv> Iso d []"

abbreviation utc_midnight :: "int \<Rightarrow> iso8601" where
  "utc_midnight d \<equiv> Iso d ''T00:00:00Z''"

definition slice_date :: "iso8601 \<Rightarrow> iso8601" where
  "slice_date v = date_only (iso_day v)"

lemma slice_date_simps [simp]:
  "iso_day (slice_date v) = iso_day v"
  "slice_date v = slice_date w \<longleftrightarrow> iso_day v = iso_day w"
  "slice_date (slice_date v) = slice_date v"
  by (simp_all add: slice_date_def)

instantiation iso8601 :: linorder
begin

definition less_eq_iso8601 :: "iso8601 \<Rightarrow> iso8601 \<Rightarrow> bool" where
  "v \<le> w \<longleftrightarrow> iso_day v < iso_day w \<or> iso_day v = iso_day w \<and> iso_time v \<le> iso_time w"

definition less_iso8601 :: "iso8601 \<Rightarrow> iso8601 \<Rightarrow> bool" where
  "v < w \<longleftrightarrow> iso_day v < iso_day w \<or> iso_day v = iso_day w \<and> iso_time v < iso_time w"

instance
  by standard (auto simp: less_eq_iso8601_def less_iso8601_def intro: iso8601.expand)

end

lemma iso_le_day: "(v::iso8601) \<le> w \<Longrightarrow> iso_day v \<le> iso_day w"
  by (auto simp: less_eq_iso8601_def)

lemma iso_less_day: "(v::iso8601) < w \<Longrightarrow> iso_day v \<le> iso_day w"
  by (auto simp: less_iso8601_def)

lemma iso_compare_simps [simp]:
  "Iso d t \<le> Iso e u \<longleftrightarrow> d < e \<or> d = e \<and> t \<le> u"
  "Iso d t < Iso e u \<longleftrightarrow> d < e \<or> d = e \<and> t < u"
  by (simp_all add: less_eq_iso8601_def less_iso8601_def)

lemma slice_date_le_iff [simp]:
  "slice_date v \<le> slice_date w \<longleftrightarrow> iso_day v \<le> iso_day w"
  "slice_date v < slice_date w \<longleftrightarrow> iso_day v < iso_day w"
  by (auto simp: slice_date_def)

text \<open>\<open>left.localeCompare(right)\<close> on date strings.\<close>

definition locale_compare :: "'a::linorder \<Rightarrow> 'a \<Rightarrow> int" where
  "locale_compare v w = (if v < w then -1 else if v = w then 0 else 1)"

lemma locale_compare_iff [simp]:
  "locale_compare v w \<le> 0 \<longleftrightarrow> v \<le> w"
  "locale_compare v w < 0 \<longleftrightarrow> v < w"
  "0 < locale_compare v w \<longleftrightarrow> w < v"
  "0 \<le> locale_compare v w \<longleftrightarrow> w \<le> v"
  "locale_compare v w = 0 \<longleftrightarrow> v = w"
  by (auto simp: locale_compare_def)

interpretation locale_order: comparator "locale_compare :: 'a::linorder \<Rightarrow> 'a \<Rightarrow> int"
  by unfold_locales auto

lemma last_sorted_greatest:
  fixes xs :: "'a::linorder list"
  assumes "xs \<noteq> []"
  shows "last (js_sort locale_compare xs) \<in> set xs"
    and "x \<in> set xs \<Longrightarrow> x \<le> last (js_sort locale_compare xs)"
proof -
  let ?ys = "js_sort locale_compare xs"
  have "?ys \<noteq> []" using assms by simp
  then show "last ?ys \<in> set xs" using last_in_set [of ?ys] by simp
  have "sorted_wrt (\<le>) ?ys" using locale_order.sorted_js_sort [of xs] by simp
  moreover from \<open>?ys \<noteq> []\<close> have "?ys = butlast ?ys @ [last ?ys]" by simp
  ultimately have "\<forall>y \<in> set (butlast ?ys). y \<le> last ?ys" by (metis sorted_wrt_append list.set_intros(1))
  moreover have "set xs = insert (last ?ys) (set (butlast ?ys))"
    using \<open>?ys = butlast ?ys @ [last ?ys]\<close>
    by (metis Un_insert_right list.set(1,2) set_append set_js_sort sup_bot_right)
  ultimately show "x \<in> set xs \<Longrightarrow> x \<le> last ?ys" by auto
qed

section \<open>Numbers\<close>

text \<open>\<open>a % b\<close> for integers: the sign of the dividend.\<close>

definition js_rem :: "int \<Rightarrow> int \<Rightarrow> int" where
  "js_rem a b = (if a < 0 then - (- a mod \<bar>b\<bar>) else a mod \<bar>b\<bar>)"

lemma js_rem_nonneg [simp]: "0 \<le> a \<Longrightarrow> 0 < b \<Longrightarrow> js_rem a b = a mod b"
  by (simp add: js_rem_def)

text \<open>A number that is \<open>null\<close>, \<open>undefined\<close> or 0 is falsy.\<close>

definition truthy_number :: "int option \<Rightarrow> bool" where
  "truthy_number v = (case v of None \<Rightarrow> False | Some n \<Rightarrow> n \<noteq> 0)"

lemma truthy_number_simps [simp]: "truthy_number None = False" "truthy_number (Some n) = (n \<noteq> 0)"
  by (simp_all add: truthy_number_def)

text \<open>\<open>v ?? d\<close>\<close>

definition or_else :: "'a option \<Rightarrow> 'a \<Rightarrow> 'a" where
  "or_else v d = (case v of None \<Rightarrow> d | Some x \<Rightarrow> x)"

lemma or_else_simps [simp]: "or_else None d = d" "or_else (Some x) d = x"
  by (simp_all add: or_else_def)

section \<open>Decimal text\<close>

text \<open>Numbers inside template literals: \<open>show_int\<close> is \<open>`${n}`\<close> for an integer.\<close>

definition digit_char :: "int \<Rightarrow> char" where
  "digit_char n = char_of (48 + nat (n mod 10))"

fun show_nat :: "nat \<Rightarrow> string" where
  "show_nat n = (if n < 10 then [digit_char (int n)] else show_nat (n div 10) @ [digit_char (int n)])"

declare show_nat.simps [simp del]

definition show_int :: "int \<Rightarrow> string" where
  "show_int n = (if n < 0 then ''-'' @ show_nat (nat (- n)) else show_nat (nat n))"

text \<open>Zero-padded fields of a date.\<close>

definition pad2 :: "int \<Rightarrow> string" where
  "pad2 n = [digit_char (n div 10), digit_char n]"

definition pad4 :: "int \<Rightarrow> string" where
  "pad4 n = [digit_char (n div 1000), digit_char (n div 100), digit_char (n div 10), digit_char n]"

lemma digit_char_inj: "digit_char m = digit_char n \<longleftrightarrow> m mod 10 = n mod 10"
proof -
  have bound: "48 + nat (k mod 10) < 256" for k :: int by simp
  have "digit_char m = digit_char n \<longleftrightarrow> 48 + nat (m mod 10) = 48 + nat (n mod 10)"
    unfolding digit_char_def using bound
    by (metis char_of_mod_256 mod_less of_char_of)
  also have "\<dots> \<longleftrightarrow> m mod 10 = n mod 10"
    by (simp add: nat_eq_iff)
  finally show ?thesis .
qed

lemma pad2_inj:
  assumes "0 \<le> m" "m < 100" "0 \<le> n" "n < 100"
  shows "pad2 m = pad2 n \<longleftrightarrow> m = n"
proof
  assume "pad2 m = pad2 n"
  then have tens: "m div 10 mod 10 = n div 10 mod 10" and ones: "m mod 10 = n mod 10"
    by (simp_all add: pad2_def digit_char_inj)
  have "m div 10 mod 10 = m div 10" "n div 10 mod 10 = n div 10"
    using assms by (simp_all add: div_pos_pos_trivial mod_pos_pos_trivial pos_imp_zdiv_nonneg_iff)
  with tens ones show "m = n" by (metis div_mult_mod_eq)
qed simp

lemma pad4_inj:
  assumes "0 \<le> m" "m < 10000" "0 \<le> n" "n < 10000"
  shows "pad4 m = pad4 n \<longleftrightarrow> m = n"
proof
  assume "pad4 m = pad4 n"
  then have "pad2 (m div 100) = pad2 (n div 100)" and low: "pad2 m = pad2 n"
    by (simp_all add: pad4_def pad2_def zdiv_zmult2_eq [symmetric])
  then have high: "m div 100 = n div 100"
    using assms by (subst (asm) pad2_inj) (simp_all add: pos_imp_zdiv_nonneg_iff)
  have "pad2 k = pad2 (k mod 100)" for k :: int
  proof -
    have "k mod 100 = 10 * (k div 10 mod 10) + k mod 10"
      using zmod_zmult2_eq [of 10 k 10] by simp
    then have "k mod 100 div 10 = k div 10 mod 10"
      by (intro int_div_pos_eq) auto
    then have "k div 10 mod 10 = k mod 100 div 10 mod 10" by simp
    moreover have "k mod 100 mod 10 = k mod 10" by (rule mod_mod_cancel) simp
    ultimately show ?thesis by (simp only: pad2_def digit_char_inj list.inject simp_thms)
  qed
  with low have "pad2 (m mod 100) = pad2 (n mod 100)" by metis
  then have "m mod 100 = n mod 100" by (subst (asm) pad2_inj) simp_all
  with high show "m = n" by (metis div_mult_mod_eq)
qed simp

end
