(* ===== verification/Temporal_Dates.thy ===== *)
theory Temporal_Dates
  imports Prelude
begin

text \<open>
  Calendar arithmetic. The sources take it from the packages \<open>@js-temporal/polyfill\<close> and
  \<open>date-fns\<close>, which are not part of the repository: the operations they use are the fields of
  the record \<open>temporal\<close>, an argument of every definition that calls them, and what the code
  relies on is the locale \<open>iso_calendar\<close>, the documented behaviour of the ISO-8601 calendar.
  A date (\<open>Temporal.PlainDate\<close>) is its number of days since 1970-01-01, so that
  \<open>PlainDate.compare\<close>, \<open>add({days})\<close> and \<open>since(..).days\<close> are integer arithmetic. The
  second half constructs the proleptic Gregorian calendar and interprets the locale on it, so
  that the hypotheses are met and witnesses compute.
\<close>

record temporal =
  parse_instant :: "iso8601 \<Rightarrow> int option"  \<comment> \<open>\<open>parseISO(s).getTime()\<close>, None for NaN\<close>
  add_months :: "int \<Rightarrow> int \<Rightarrow> int"          \<comment> \<open>\<open>d.add({months})\<close>, day clamped\<close>
  pd_year :: "int \<Rightarrow> int"
  pd_month :: "int \<Rightarrow> int"
  pd_day :: "int \<Rightarrow> int"
  pd_day_of_week :: "int \<Rightarrow> int"
  pd_make :: "int \<Rightarrow> int \<Rightarrow> int \<Rightarrow> int"        \<comment> \<open>\<open>PlainDate.from({year, month, day})\<close>\<close>

definition month_index :: "temporal \<Rightarrow> int \<Rightarrow> int" where
  "month_index td d = 12 * pd_year td d + (pd_month td d - 1)"

definition ms_per_day :: int where
  "ms_per_day = 86400000"

section \<open>What the code relies on\<close>

locale iso_calendar =
  fixes td :: temporal
  assumes parse_midnight: "parse_instant td (utc_midnight d) = Some (d * ms_per_day)"
    and month_range: "1 \<le> pd_month td d \<and> pd_month td d \<le> 12"
    and day_range: "1 \<le> pd_day td d \<and> pd_day td d \<le> 31"
    and fields_mono: "d \<le> e \<Longrightarrow> month_index td d < month_index td e
          \<or> month_index td d = month_index td e \<and> pd_day td e = pd_day td d + (e - d)"
    and make_fields: "1 \<le> m \<Longrightarrow> m \<le> 12 \<Longrightarrow> 1 \<le> k \<Longrightarrow> k \<le> 28 \<Longrightarrow>
          pd_year td (pd_make td y m k) = y \<and> pd_month td (pd_make td y m k) = m
          \<and> pd_day td (pd_make td y m k) = k"
    and add_months_index: "month_index td (add_months td d n) = month_index td d + n"
    and add_months_day: "pd_day td (add_months td d n) \<le> pd_day td d"
    and add_months_day_28: "pd_day td d \<le> 28 \<Longrightarrow> pd_day td (add_months td d n) = pd_day td d"
    and add_months_0: "add_months td d 0 = d"
    and day_of_week_range: "1 \<le> pd_day_of_week td d \<and> pd_day_of_week td d \<le> 7"
    and day_of_week_add: "pd_day_of_week td (d + n) = (pd_day_of_week td d - 1 + n) mod 7 + 1"
begin

lemma date_less_iff:
  "d < e \<longleftrightarrow> month_index td d < month_index td e
     \<or> month_index td d = month_index td e \<and> pd_day td d < pd_day td e"
proof (cases "d < e")
  case True
  with fields_mono [of d e] show ?thesis by auto
next
  case False
  with fields_mono [of e d] show ?thesis by auto
qed

lemma date_le_iff:
  "d \<le> e \<longleftrightarrow> month_index td d < month_index td e
     \<or> month_index td d = month_index td e \<and> pd_day td d \<le> pd_day td e"
  by (subst linorder_not_less [symmetric], subst date_less_iff) auto

lemma date_eqI: "month_index td d = month_index td e \<Longrightarrow> pd_day td d = pd_day td e \<Longrightarrow> d = e"
  using date_less_iff [of d e] date_less_iff [of e d] by (cases d e rule: linorder_cases) auto

lemma month_index_month: "month_index td d mod 12 = pd_month td d - 1"
  using month_range [of d] by (simp add: month_index_def mod_pos_pos_trivial)

lemma month_index_year: "month_index td d div 12 = pd_year td d"
  using month_range [of d] by (simp add: month_index_def div_pos_pos_trivial)

lemma add_months_strict_mono: "m < n \<Longrightarrow> add_months td d m < add_months td d n"
  by (subst date_less_iff) (simp add: add_months_index)

lemma add_months_mono: "m \<le> n \<Longrightarrow> add_months td d m \<le> add_months td d n"
  using add_months_strict_mono [of m n d] by (cases "m = n") auto

lemma add_months_less_iff: "add_months td d m < add_months td d n \<longleftrightarrow> m < n"
  by (meson add_months_mono add_months_strict_mono linorder_not_less)

lemma add_months_gt: "0 < n \<Longrightarrow> d < add_months td d n"
  using add_months_strict_mono [of 0 n d] by (simp add: add_months_0)

lemma make_index:
  "1 \<le> m \<Longrightarrow> m \<le> 12 \<Longrightarrow> 1 \<le> k \<Longrightarrow> k \<le> 28 \<Longrightarrow>
   month_index td (pd_make td y m k) = 12 * y + (m - 1)"
  using make_fields [of m k y] by (simp add: month_index_def)

lemma make_day: "1 \<le> m \<Longrightarrow> m \<le> 12 \<Longrightarrow> 1 \<le> k \<Longrightarrow> k \<le> 28 \<Longrightarrow> pd_day td (pd_make td y m k) = k"
  using make_fields [of m k y] by simp

lemma make_at_month_of:
  assumes "1 \<le> k" "k \<le> 28"
  shows "month_index td (pd_make td (pd_year td d) (pd_month td d) k) = month_index td d"
    and "pd_day td (pd_make td (pd_year td d) (pd_month td d) k) = k"
  using make_index [of "pd_month td d" k "pd_year td d"] make_day [of "pd_month td d" k]
    month_range [of d] assms by (simp_all add: month_index_def)

end

section \<open>The proleptic Gregorian calendar\<close>

definition leap :: "int \<Rightarrow> bool" where
  "leap y \<longleftrightarrow> y mod 4 = 0 \<and> (y mod 100 \<noteq> 0 \<or> y mod 400 = 0)"

definition year_start :: "int \<Rightarrow> int" where
  "year_start y = 365 * y + (y - 1) div 4 - (y - 1) div 100 + (y - 1) div 400 - 719527"

definition month_offset :: "bool \<Rightarrow> int \<Rightarrow> int" where
  "month_offset lp m = (if m = 0 then 0 else if m = 1 then 31 else (if lp then 1 else 0) +
     (if m = 2 then 59 else if m = 3 then 90 else if m = 4 then 120 else if m = 5 then 151
      else if m = 6 then 181 else if m = 7 then 212 else if m = 8 then 243
      else if m = 9 then 273 else if m = 10 then 304 else 334))"

definition month_start :: "int \<Rightarrow> int" where
  "month_start i = year_start (i div 12) + month_offset (leap (i div 12)) (i mod 12)"

lemma div_pred:
  fixes y k :: int
  assumes "0 < k"
  shows "(y - 1) div k = y div k - (if y mod k = 0 then 1 else 0)"
proof (cases "y mod k = 0")
  case True
  then obtain q where q: "y = k * q" by (auto simp: mod_eq_0_iff_dvd elim: dvdE)
  have "y - 1 = k * (q - 1) + (k - 1)" by (simp add: q right_diff_distrib)
  then have "(y - 1) div k = q - 1"
    by (rule int_div_pos_eq) (use assms in simp_all)
  with True assms show ?thesis by (simp add: q)
next
  case False
  have "y - 1 = k * (y div k) + (y mod k - 1)"
    using mult_div_mod_eq [of k y] by (simp add: algebra_simps)
  moreover have "0 \<le> y mod k - 1" "y mod k - 1 < k"
    using assms False pos_mod_sign [of k y] pos_mod_bound [of k y] by linarith+
  ultimately have "(y - 1) div k = y div k" by (rule int_div_pos_eq)
  with False show ?thesis by simp
qed

lemma year_length: "year_start (y + 1) = year_start y + 365 + (if leap y then 1 else 0)"
proof -
  have arith: "365 * (y + 1) + a - b + c - 719527 =
      365 * y + a' - b' + c' - 719527 + 365 + (if p \<and> (\<not> q \<or> r) then 1 else 0)"
    if "a' = a - (if p then 1 else 0)" "b' = b - (if q then 1 else 0)"
      "c' = c - (if r then 1 else 0)" "q \<longrightarrow> p" "r \<longrightarrow> q" for a b c a' b' c' :: int and p q r
    using that by auto
  have "y mod 100 = 0 \<longrightarrow> y mod 4 = 0" "y mod 400 = 0 \<longrightarrow> y mod 100 = 0"
    using dvd_trans [of 4 100 y] dvd_trans [of 100 400 y] by (simp_all add: mod_eq_0_iff_dvd)
  from arith [OF div_pred [of 4 y, OF zero_less_numeral] div_pred [of 100 y, OF zero_less_numeral]
      div_pred [of 400 y, OF zero_less_numeral] this]
  show ?thesis unfolding year_start_def leap_def add_diff_cancel_right' .
qed

lemma month_cases_12:
  fixes m :: int
  assumes "0 \<le> m" "m < 12"
  shows "m = 0 \<or> m = 1 \<or> m = 2 \<or> m = 3 \<or> m = 4 \<or> m = 5 \<or> m = 6 \<or> m = 7
    \<or> m = 8 \<or> m = 9 \<or> m = 10 \<or> m = 11"
  using assms by arith

lemma next_month:
  fixes i :: int
  shows "i mod 12 = 11 \<Longrightarrow> (i + 1) div 12 = i div 12 + 1 \<and> (i + 1) mod 12 = 0"
    and "i mod 12 \<noteq> 11 \<Longrightarrow> (i + 1) div 12 = i div 12 \<and> (i + 1) mod 12 = i mod 12 + 1"
proof -
  have i: "i = 12 * (i div 12) + i mod 12" by simp
  show "(i + 1) div 12 = i div 12 + 1 \<and> (i + 1) mod 12 = 0" if "i mod 12 = 11"
  proof -
    have "i + 1 = 12 * (i div 12 + 1) + 0" using i that by (simp add: distrib_left)
    then show ?thesis
      by (intro conjI int_div_pos_eq [where r = 0] int_mod_pos_eq [where q = "i div 12 + 1"]) simp_all
  qed
  show "(i + 1) div 12 = i div 12 \<and> (i + 1) mod 12 = i mod 12 + 1" if "i mod 12 \<noteq> 11"
  proof -
    have "0 \<le> i mod 12" "i mod 12 < 12" by simp_all
    with that have r: "0 \<le> i mod 12 + 1" "i mod 12 + 1 < 12" by linarith+
    have e: "i + 1 = 12 * (i div 12) + (i mod 12 + 1)" using i by (simp only: add.assoc)
    show ?thesis by (rule conjI [OF int_div_pos_eq [OF e r] int_mod_pos_eq [OF e r]])
  qed
qed

lemma month_offset_step:
  assumes "0 \<le> m" "m < 11"
  shows "month_offset lp m + 28 \<le> month_offset lp (m + 1)"
    and "month_offset lp (m + 1) \<le> month_offset lp m + 31"
proof -
  from assms have "m = 0 \<or> m = 1 \<or> m = 2 \<or> m = 3 \<or> m = 4 \<or> m = 5 \<or> m = 6 \<or> m = 7
    \<or> m = 8 \<or> m = 9 \<or> m = 10" using month_cases_12 [of m] by auto
  then show "month_offset lp m + 28 \<le> month_offset lp (m + 1)"
    and "month_offset lp (m + 1) \<le> month_offset lp m + 31"
    by (elim disjE; simp add: month_offset_def)+
qed

lemma month_length:
  "month_start i + 28 \<le> month_start (i + 1)" "month_start (i + 1) \<le> month_start i + 31"
proof -
  have *: "month_start i + 28 \<le> month_start (i + 1) \<and> month_start (i + 1) \<le> month_start i + 31"
  proof (cases "i mod 12 = 11")
    case True
    have "month_start (i + 1) = month_start i + 31"
      unfolding month_start_def conjunct1 [OF next_month(1) [OF True]]
        conjunct2 [OF next_month(1) [OF True]] True
      by (simp add: month_offset_def year_length)
    then show ?thesis by simp
  next
    case False
    have "0 \<le> i mod 12" "i mod 12 < 12" by simp_all
    with False have "i mod 12 < 11" by arith
    from month_offset_step [OF \<open>0 \<le> i mod 12\<close> this, of "leap (i div 12)"]
    show ?thesis
      unfolding month_start_def conjunct1 [OF next_month(2) [OF False]]
        conjunct2 [OF next_month(2) [OF False]]
      by (simp only: add.assoc add_le_cancel_left)
  qed
  from * show "month_start i + 28 \<le> month_start (i + 1)" by (rule conjunct1)
  from * show "month_start (i + 1) \<le> month_start i + 31" by (rule conjunct2)
qed

lemma month_start_grows: "i \<le> j \<Longrightarrow> month_start i + 28 * (j - i) \<le> month_start j"
proof (induction j rule: int_ge_induct)
  case base
  show ?case by simp
next
  case (step j)
  with month_length(1) [of j] show ?case by (simp only: right_diff_distrib distrib_left)
qed

lemma month_start_less: "i < j \<Longrightarrow> month_start i < month_start j"
  using month_start_grows [of i j] by simp

text \<open>The month that holds a day: from an estimate by the mean month length, step to the month.\<close>

function seek_month :: "int \<Rightarrow> int \<Rightarrow> int" where
  "seek_month d i =
     (if d < month_start i then seek_month d (i - 1)
      else if month_start (i + 1) \<le> d then seek_month d (i + 1) else i)"
  by pat_completeness auto
termination
proof (relation "measures [\<lambda>(d, i). if d < month_start i then 1 else 0,
    \<lambda>(d, i). nat \<bar>d - month_start i\<bar>]", goal_cases)
  case 1
  show ?case by simp
next
  case (2 d i)
  then show ?case using month_start_less [of "i - 1" i] by (auto split: if_splits)
next
  case (3 d i)
  then show ?case using month_start_less [of i "i + 1"] by auto
qed

declare seek_month.simps [simp del]

lemma seek_month_bounds:
  "month_start (seek_month d i) \<le> d \<and> d < month_start (seek_month d i + 1)"
proof (induction d i rule: seek_month.induct)
  case (1 d i)
  then show ?case
    by (cases "d < month_start i"; cases "month_start (i + 1) \<le> d")
      (simp_all add: seek_month.simps [of d i])
qed

definition month_of_day :: "int \<Rightarrow> int" where
  "month_of_day d = seek_month d (23640 + d * 48 div 1461)"

definition day_in_month :: "int \<Rightarrow> int" where
  "day_in_month d = d - month_start (month_of_day d) + 1"

definition date_of_month_index :: "int \<Rightarrow> int \<Rightarrow> int" where
  "date_of_month_index i k = month_start i + min k (month_start (i + 1) - month_start i) - 1"

lemma month_of_day_bounds:
  "month_start (month_of_day d) \<le> d" "d < month_start (month_of_day d + 1)"
  using seek_month_bounds [of d] by (simp_all add: month_of_day_def)

lemma month_of_day_unique:
  assumes "month_start i \<le> d" "d < month_start (i + 1)"
  shows "month_of_day d = i"
proof (rule antisym)
  show "month_of_day d \<le> i"
  proof (rule ccontr)
    assume "\<not> month_of_day d \<le> i"
    then have "month_start (i + 1) \<le> month_start (month_of_day d)"
      using month_start_grows [of "i + 1" "month_of_day d"] by simp
    with assms(2) month_of_day_bounds(1) [of d] show False by simp
  qed
  show "i \<le> month_of_day d"
  proof (rule ccontr)
    assume "\<not> i \<le> month_of_day d"
    then have "month_start (month_of_day d + 1) \<le> month_start i"
      using month_start_grows [of "month_of_day d + 1" i] by simp
    with assms(1) month_of_day_bounds(2) [of d] show False by simp
  qed
qed

lemma date_of_month_index_fields:
  assumes "1 \<le> k"
  shows "month_of_day (date_of_month_index i k) = i"
    and "day_in_month (date_of_month_index i k) = min k (month_start (i + 1) - month_start i)"
proof -
  show 1: "month_of_day (date_of_month_index i k) = i"
    using assms month_length(1) [of i]
    by (intro month_of_day_unique) (simp_all add: date_of_month_index_def)
  show "day_in_month (date_of_month_index i k) = min k (month_start (i + 1) - month_start i)"
    unfolding day_in_month_def 1 by (simp add: date_of_month_index_def)
qed

definition gregorian_instant :: "iso8601 \<Rightarrow> int option" where
  "gregorian_instant v = (if iso_time v \<in> {'''', ''T00:00:00Z'', ''T00:00:00.000Z''}
     then Some (iso_day v * ms_per_day) else None)"

definition gregorian_add_months :: "int \<Rightarrow> int \<Rightarrow> int" where
  "gregorian_add_months d n = date_of_month_index (month_of_day d + n) (day_in_month d)"

definition gregorian_year :: "int \<Rightarrow> int" where
  "gregorian_year d = month_of_day d div 12"

definition gregorian_month :: "int \<Rightarrow> int" where
  "gregorian_month d = month_of_day d mod 12 + 1"

definition gregorian_day_of_week :: "int \<Rightarrow> int" where
  "gregorian_day_of_week d = (d + 3) mod 7 + 1"

definition gregorian_make :: "int \<Rightarrow> int \<Rightarrow> int \<Rightarrow> int" where
  "gregorian_make y m k = date_of_month_index (12 * y + (m - 1)) k"

definition gregorian :: temporal where
  "gregorian = \<lparr>parse_instant = gregorian_instant, add_months = gregorian_add_months,
     pd_year = gregorian_year, pd_month = gregorian_month, pd_day = day_in_month,
     pd_day_of_week = gregorian_day_of_week, pd_make = gregorian_make\<rparr>"

lemma gregorian_fields [simp]:
  "parse_instant gregorian (Iso d t) = (if t \<in> {'''', ''T00:00:00Z'', ''T00:00:00.000Z''}
     then Some (d * ms_per_day) else None)"
  "add_months gregorian d n = date_of_month_index (month_of_day d + n) (day_in_month d)"
  "pd_year gregorian d = month_of_day d div 12"
  "pd_month gregorian d = month_of_day d mod 12 + 1"
  "pd_day gregorian d = day_in_month d"
  "pd_day_of_week gregorian d = (d + 3) mod 7 + 1"
  "pd_make gregorian y m k = date_of_month_index (12 * y + (m - 1)) k"
  by (simp_all add: gregorian_def gregorian_instant_def gregorian_add_months_def
      gregorian_year_def gregorian_month_def gregorian_day_of_week_def gregorian_make_def)

lemma gregorian_month_index [simp]: "month_index gregorian d = month_of_day d"
  by (simp add: month_index_def)

lemma day_in_month_range: "1 \<le> day_in_month d" "day_in_month d \<le> 31"
  using month_of_day_bounds [of d] month_length(2) [of "month_of_day d"]
  by (simp_all add: day_in_month_def)

lemma month_of_day_mono: "d \<le> e \<Longrightarrow> month_of_day d \<le> month_of_day e"
proof (rule ccontr)
  assume "d \<le> e" "\<not> month_of_day d \<le> month_of_day e"
  then have "month_start (month_of_day e + 1) \<le> month_start (month_of_day d)"
    using month_start_grows [of "month_of_day e + 1" "month_of_day d"] by simp
  with \<open>d \<le> e\<close> month_of_day_bounds [of d] month_of_day_bounds [of e] show False by simp
qed

interpretation gregorian: iso_calendar gregorian
proof (unfold_locales, goal_cases)
  case (1 d)
  show ?case by simp
next
  case (2 d)
  have "0 \<le> month_of_day d mod 12" "month_of_day d mod 12 < 12" by simp_all
  then show ?case by simp
next
  case (3 d)
  show ?case using day_in_month_range [of d] by simp
next
  case (4 d e)
  show ?case
  proof (cases "month_of_day d = month_of_day e")
    case True
    then show ?thesis by (simp add: day_in_month_def)
  next
    case False
    with month_of_day_mono [OF 4] show ?thesis by simp
  qed
next
  case (5 m k y)
  have "min k (month_start (12 * y + (m - 1) + 1) - month_start (12 * y + (m - 1))) = k"
    using 5 month_length(1) [of "12 * y + (m - 1)"] by simp
  moreover have "(12 * y + (m - 1)) div 12 = y" "(12 * y + (m - 1)) mod 12 = m - 1"
    using 5 by (simp_all add: div_pos_pos_trivial mod_pos_pos_trivial)
  ultimately show ?case
    using date_of_month_index_fields [of k "12 * y + (m - 1)"] 5 by simp
next
  case (6 d n)
  show ?case unfolding gregorian_month_index
    using date_of_month_index_fields(1) [OF day_in_month_range(1)] by simp
next
  case (7 d n)
  show ?case using date_of_month_index_fields(2) [OF day_in_month_range(1)]
    by simp
next
  case (8 d n)
  then show ?case
    using date_of_month_index_fields(2) [OF day_in_month_range(1)]
      month_length(1) [of "month_of_day d + n"]
    by simp
next
  case (9 d)
  have "day_in_month d \<le> month_start (month_of_day d + 1) - month_start (month_of_day d)"
    using month_of_day_bounds(2) [of d] by (simp add: day_in_month_def)
  then show ?case by (simp add: date_of_month_index_def day_in_month_def)
next
  case (10 d)
  have "0 \<le> (d + 3) mod 7" "(d + 3) mod 7 < 7" by simp_all
  then show ?case by simp
next
  case (11 d n)
  have "(d + n + 3) mod 7 = ((d + 3) mod 7 + n) mod 7" 
    by (simp only: mod_add_left_eq) (simp add: ac_simps)
  then show ?case by simp
qed

lemma gregorian_is_calendar: "iso_calendar gregorian"
  by (rule gregorian.iso_calendar_axioms)

lemma gregorian_examples:
  "pd_make gregorian 1970 1 1 = 0"
  "pd_make gregorian 2026 1 31 = 20484"
  "add_months gregorian 20484 1 = 20512"
  "add_months gregorian 20393 3 = 20485"
  "pd_month gregorian 20512 = 2" "pd_day gregorian 20512 = 28"
  by code_simp+

end
