(* ===== verification/Recurring_Types.thy ===== *)
theory Recurring_Types
  imports Complex_Main Temporal_Dates
begin

text \<open>
  The data model of recurring billing (\<open>packages/types/src/interfaces/recurringTiming.interfaces.ts\<close>
  and the billing-cycle types): string unions are datatypes, interfaces are records (an
  interface that extends another is a record extension), optional and nullable fields are
  options. The errors the modules throw are the datatype \<open>billing_error\<close>, one constructor for
  each throw site, carrying what its message is built from.
\<close>

section \<open>Vocabulary\<close>

datatype cadence_owner = Client | Contract

datatype due_position = Advance | Arrears

text \<open>The type of \<open>semantics\<close> has one value, but the edit flows check it at run time.\<close>

datatype range_semantics = Half_Open | Other_Semantics string

datatype charge_family = Fixed | Product | License | Bucket | Hourly | Usage

datatype obligation_type = Contract_Line | Client_Contract_Line | Template_Line | Preset_Line

datatype metadata_value = M_String string | M_Number int | M_Bool bool | M_Null

type_synonym timing_metadata = "(string \<times> metadata_value) list"

datatype lifecycle_state = Generated | Edited | Skipped | Locked | Billed | Superseded | Archived

datatype billing_cycle = Weekly | Bi_Weekly | Monthly | Quarterly | Semi_Annually | Annually

datatype provenance_kind = P_Generated | P_User_Edited | P_Regenerated | P_Repair

section \<open>Ranges, service periods and invoice windows\<close>

record obligation_ref =
  ob_tenant :: "string option"
  ob_id :: string
  ob_type :: obligation_type
  ob_charge_family :: charge_family

record date_range =
  range_start :: iso8601
  range_end :: iso8601
  range_semantics :: range_semantics

record activity_window =
  aw_start :: "iso8601 option"
  aw_end :: "iso8601 option"
  aw_semantics :: range_semantics

record service_period = date_range +
  sp_cadence_owner :: cadence_owner
  sp_due_position :: due_position
  sp_source_obligation :: obligation_ref
  sp_timing_metadata :: "timing_metadata option"

record invoice_window = date_range +
  iw_cadence_owner :: cadence_owner
  iw_due_position :: due_position
  iw_window_id :: "string option"

record coverage =
  covered_period :: date_range
  covered_days :: int
  total_days :: int
  coverage_ratio :: rat

record due_selection =
  ds_service_period :: service_period
  ds_invoice_window :: invoice_window

record candidate_group =
  cg_group_key :: "iso8601 \<times> iso8601"
  cg_window_start :: iso8601
  cg_window_end :: iso8601
  cg_semantics :: range_semantics
  cg_cadence_owners :: "cadence_owner list"
  cg_due_selections :: "due_selection list"

record scoped_due_selection = due_selection +
  sc_client_id :: "string option"
  sc_client_contract_id :: "string option"
  sc_purchase_order_scope_key :: "string option"
  sc_currency_code :: "string option"
  sc_tax_source :: "string option"
  sc_export_shape_key :: "string option"

datatype split_reason = Single_Contract | Purchase_Order_Scope | Financial_Constraint

record scoped_candidate_group =
  sg_group_key :: "string \<times> iso8601 \<times> iso8601"
  sg_window_start :: iso8601
  sg_window_end :: iso8601
  sg_semantics :: range_semantics
  sg_cadence_owners :: "cadence_owner list"
  sg_client_contract_id :: "string option"
  sg_purchase_order_scope_key :: "string option"
  sg_currency_code :: "string option"
  sg_tax_source :: "string option"
  sg_export_shape_key :: "string option"
  sg_split_reasons :: "split_reason list"
  sg_due_selections :: "scoped_due_selection list"

record settlement =
  st_service_period :: service_period
  st_covered_service_period :: service_period
  st_invoice_window :: invoice_window
  st_coverage :: coverage

record invoice_detail_timing =
  dt_cadence_owner :: cadence_owner
  dt_due_position :: due_position
  dt_source_obligation :: obligation_ref
  dt_service_period_start :: iso8601
  dt_service_period_end :: iso8601
  dt_invoice_window_start :: iso8601
  dt_invoice_window_end :: iso8601

section \<open>Persisted records\<close>

text \<open>
  The four provenance interfaces differ in which of the last two fields are required; a
  database row can carry any combination, which is what \<open>validateRecurringServicePeriodProvenance\<close>
  checks, so the record leaves both optional.
\<close>

record provenance =
  prov_kind :: provenance_kind
  prov_source_rule_version :: string
  prov_reason_code :: string
  prov_source_run_key :: "string option"
  prov_supersedes_record_id :: "string option"

record invoice_linkage =
  link_invoice_id :: string
  link_invoice_charge_id :: string
  link_invoice_charge_detail_id :: string
  link_linked_at :: iso8601

record period_record =
  rec_id :: string
  rec_schedule_key :: string
  rec_period_key :: string
  rec_revision :: int
  rec_source_obligation :: obligation_ref
  rec_cadence_owner :: cadence_owner
  rec_due_position :: due_position
  rec_lifecycle_state :: lifecycle_state
  rec_service_period :: date_range
  rec_invoice_window :: date_range
  rec_activity_window :: "activity_window option"
  rec_timing_metadata :: "timing_metadata option"
  rec_provenance :: provenance
  rec_invoice_linkage :: "invoice_linkage option"
  rec_created_at :: iso8601
  rec_updated_at :: iso8601

section \<open>Errors\<close>

datatype mutation_reason =
    Repair_Before_Lock
  | Future_Unlocked
  | Corrective_Flow
  | Immutable_In_Place
  | Historical_Record

datatype edit_field = Service_Period_Field | Invoice_Window_Field

datatype provenance_error =
    Unsupported_Reason_Code provenance_kind string
  | Generated_Requires_Run_Key
  | Generated_Must_Not_Supersede
  | Edited_Requires_Superseded
  | Regenerated_Requires_Run_Key
  | Regenerated_Requires_Superseded

datatype continuity_error =
    Gap_Before string iso8601
  | Overlap_Before string iso8601
  | Gap_After string iso8601
  | Overlap_After string iso8601

datatype billing_error =
    Invalid_Half_Open_Range
  | Covered_Exceeds_Parent
  | Not_Utc_Midnight iso8601
  | Weekly_Day_Of_Week_Range
  | Monthly_Day_Missing
  | Monthly_Day_Range
  | Month_Of_Year_Missing
  | Month_Of_Year_Range
  | Anchored_Day_Missing
  | Anchored_Day_Range
  | Client_Range_Invalid
  | Client_Transition_Not_Advancing
  | Client_Not_Advancing
  | Contract_Window_Owner
  | Contract_Window_Months
  | Contract_Window_Not_Advancing
  | Contract_Range_Invalid
  | Contract_Not_Advancing
  | Contract_Anchor_Missing
  | Threshold_Not_Below_Horizon
  | Next_Window_Missing
  | Invalid_Time_Value  \<comment> \<open>the RangeError of toISOString on an invalid Date\<close>
  | Does_Not_Return  \<comment> \<open>not an error of the code: the value of a loop that never ends\<close>
  | Mutation_Denied mutation_reason
  | Not_Half_Open edit_field
  | End_Not_After_Start edit_field
  | Activity_Not_Half_Open
  | Activity_Start_Before_Period
  | Activity_End_After_Period
  | Activity_End_Not_After_Start
  | No_Boundary_Change
  | Provenance_Invalid "provenance_error list"
  | Continuity_Broken "continuity_error list"
  | Deferred_Window_Missing
  | Deferred_Not_Half_Open
  | Deferred_End_Not_After_Start
  | Deferred_Unchanged
  | Linkage_On_History string lifecycle_state
  | Already_Linked string string
  | Record_Mismatch string string
  | Schedule_Key_Missing
  | Backfill_Overlaps_History string iso8601
  | Unsupported_Edit_Operation string
  | Unknown_Edit_Operation string
  | Changed_During_Replenishment string
  | Ledger_Constraint_Violated  \<comment> \<open>an insert or update the database refuses\<close>
  | Detail_Missing_Record string string
  | Period_Not_Linked string string string string
  | Periods_Not_Materialized
  | Period_Already_Claimed string string string
  | Period_Not_Claimed string string
  | Obligation_Gone string
  | Line_No_Longer_Matches
  | Unsupported_Schedule_Type string
  | Client_Source_Unresolved
  | Obligation_No_Longer_Matches
  | Schedule_Key_Unsupported string
  | Schedule_Wrong_Tenant string string
  | System_Managed_Schedule
  | Schedule_Not_Found string
  | Contract_Has_Invoices
  | Governance_Denied string

type_synonym 'a result = "billing_error + 'a"

section \<open>Days covered by a range\<close>

text \<open>The specification of a half-open range: the days it bills.\<close>

definition range_days :: "('a date_range_scheme) \<Rightarrow> int set" where
  "range_days r = {iso_day (range_start r) ..< iso_day (range_end r)}"

lemma range_days_iff: "d \<in> range_days r \<longleftrightarrow> iso_day (range_start r) \<le> d \<and> d < iso_day (range_end r)"
  by (simp add: range_days_def)

text \<open>Truthiness of an optional string: \<open>null\<close>, \<open>undefined\<close> and the empty string are falsy.\<close>

definition truthy :: "string option \<Rightarrow> bool" where
  "truthy v = (case v of None \<Rightarrow> False | Some s \<Rightarrow> s \<noteq> [])"

lemma truthy_simps [simp]: "truthy None = False" "truthy (Some s) = (s \<noteq> [])"
  by (simp_all add: truthy_def)

section \<open>Date text\<close>

text \<open>\<open>PlainDate.toString()\<close> for the years 0 to 9999, and the text of a date string.\<close>

definition plain_text :: "temporal \<Rightarrow> int \<Rightarrow> string" where
  "plain_text td d = pad4 (pd_year td d) @ ''-'' @ pad2 (pd_month td d) @ ''-'' @ pad2 (pd_day td d)"

definition iso_text :: "temporal \<Rightarrow> iso8601 \<Rightarrow> string" where
  "iso_text td v = plain_text td (iso_day v) @ iso_time v"

section \<open>Tilings\<close>

text \<open>
  The specification of a generated ladder of periods: non-empty periods that follow each other
  from one day to another without gap or overlap.
\<close>

fun tiles :: "int \<Rightarrow> ('a date_range_scheme) list \<Rightarrow> int \<Rightarrow> bool" where
  "tiles a [] b \<longleftrightarrow> a = b"
| "tiles a (p # ps) b \<longleftrightarrow> iso_day (range_start p) = a \<and> a < iso_day (range_end p)
     \<and> tiles (iso_day (range_end p)) ps b"

lemma tiles_le: "tiles a ps b \<Longrightarrow> a \<le> b"
  by (induction ps arbitrary: a) force+

lemma tiles_member:
  assumes "tiles a ps b" "q \<in> set ps"
  shows "a \<le> iso_day (range_start q) \<and> iso_day (range_start q) < iso_day (range_end q)
    \<and> iso_day (range_end q) \<le> b"
  using assms
proof (induction ps arbitrary: a)
  case (Cons p ps)
  then have "tiles (iso_day (range_end p)) ps b" "iso_day (range_start p) = a" "a < iso_day (range_end p)"
    by simp_all
  with Cons.IH [of "iso_day (range_end p)"] Cons.prems(2) tiles_le [of "iso_day (range_end p)" ps b]
  show ?case by force
qed simp

lemma tiles_append: "tiles a (ps @ qs) c \<longleftrightarrow> (\<exists>b. tiles a ps b \<and> tiles b qs c)"
  by (induction ps arbitrary: a) auto

lemma tiles_days: "tiles a ps b \<Longrightarrow> (\<Union>p \<in> set ps. range_days p) = {a ..< b}"
proof (induction ps arbitrary: a)
  case Nil
  then show ?case by simp
next
  case (Cons p ps)
  let ?e = "iso_day (range_end p)"
  from Cons.prems have p: "range_days p = {a ..< ?e}" "a \<le> ?e" and ps: "tiles ?e ps b"
    by (simp_all add: range_days_def)
  have "{a ..< ?e} \<union> {?e ..< b} = {a ..< b}"
    using p(2) tiles_le [OF ps] by (rule ivl_disj_un_two(3))
  then show ?case using Cons.IH [OF ps] p(1) by simp
qed

lemma tiles_disjoint:
  "tiles a ps b \<Longrightarrow> i < j \<Longrightarrow> j < length ps \<Longrightarrow> range_days (ps ! i) \<inter> range_days (ps ! j) = {}"
proof (induction ps arbitrary: a i j)
  case Nil
  then show ?case by simp
next
  case (Cons p ps)
  let ?e = "iso_day (range_end p)"
  from Cons.prems have p: "range_days p = {a ..< ?e}" and ps: "tiles ?e ps b"
    by (simp_all add: range_days_def)
  obtain k where j: "j = Suc k" using Cons.prems(2) by (cases j) simp_all
  show ?case
  proof (cases i)
    case 0
    have "ps ! k \<in> set ps" using Cons.prems(3) j by simp
    then have "range_days (ps ! k) \<subseteq> {?e ..< b}" using tiles_days [OF ps] by blast
    then show ?thesis using 0 j p by auto
  next
    case (Suc l)
    then show ?thesis using Cons.IH [OF ps, of l k] Cons.prems j by simp
  qed
qed

lemma tiles_each_day_once:
  assumes "tiles a ps b" "a \<le> d" "d < b"
  shows "\<exists>!i. i < length ps \<and> d \<in> range_days (ps ! i)"
proof -
  have "d \<in> (\<Union>p \<in> set ps. range_days p)" using assms tiles_days [OF assms(1)] by simp
  then obtain i where i: "i < length ps" "d \<in> range_days (ps ! i)"
    by (auto simp: in_set_conv_nth)
  moreover have "j = i" if "j < length ps" "d \<in> range_days (ps ! j)" for j
    using that i tiles_disjoint [OF assms(1), of i j] tiles_disjoint [OF assms(1), of j i]
    by (cases i j rule: linorder_cases) auto
  ultimately show ?thesis by blast
qed

end
