(* ===== verification/Cycle_Anchors.thy ===== *)
theory Cycle_Anchors
  imports Recurring_Types
begin

text \<open>
  \<open>shared/billingClients/billingCycleAnchors.ts\<close>: the billing-cycle anchors of a client
  (day of week, reference date, day of month, month of year), their validation, and the billing
  period an anchored or rolling cycle assigns to a date. The locales \<open>period_schedule\<close> and
  \<open>boundary_schedule\<close> are the contract the cadence generators rely on.
\<close>

section \<open>Settings\<close>

record anchor_settings =
  an_day_of_month :: "int option"
  an_month_of_year :: "int option"
  an_day_of_week :: "int option"
  an_reference_date :: "iso8601 option"

text \<open>\<open>parseISO\<close> gives an instant in milliseconds; midnight UTC is a multiple of a day.\<close>

definition ensureUtcMidnightIsoDate :: "temporal \<Rightarrow> iso8601 \<Rightarrow> iso8601 result" where
  "ensureUtcMidnightIsoDate td input = (case parse_instant td input of
     None \<Rightarrow> Inl (Not_Utc_Midnight input)
   | Some ms \<Rightarrow> if ms mod ms_per_day \<noteq> 0 then Inl (Not_Utc_Midnight input)
       else Inr (utc_midnight (ms div ms_per_day)))"

definition getAnchorDefaultsForCycle :: "billing_cycle \<Rightarrow> anchor_settings" where
  "getAnchorDefaultsForCycle cycle = (case cycle of
     Weekly \<Rightarrow> \<lparr>an_day_of_month = None, an_month_of_year = None,
       an_day_of_week = None, an_reference_date = None\<rparr>
   | Bi_Weekly \<Rightarrow> \<lparr>an_day_of_month = None, an_month_of_year = None,
       an_day_of_week = None, an_reference_date = None\<rparr>
   | Monthly \<Rightarrow> \<lparr>an_day_of_month = Some 1, an_month_of_year = None,
       an_day_of_week = None, an_reference_date = None\<rparr>
   | _ \<Rightarrow> \<lparr>an_day_of_month = Some 1, an_month_of_year = Some 1,
       an_day_of_week = None, an_reference_date = None\<rparr>)"

definition first_some :: "'a option \<Rightarrow> 'a option \<Rightarrow> 'a option" where
  "first_some v d = (case v of None \<Rightarrow> d | Some x \<Rightarrow> Some x)"

definition validateAnchorSettingsForCycle ::
    "temporal \<Rightarrow> billing_cycle \<Rightarrow> anchor_settings \<Rightarrow> unit result" where
  "validateAnchorSettingsForCycle td cycle input =
     (let defaults = getAnchorDefaultsForCycle cycle;
          dayOfMonth = first_some (an_day_of_month input) (an_day_of_month defaults);
          monthOfYear = first_some (an_month_of_year input) (an_month_of_year defaults);
          dayOfWeek = first_some (an_day_of_week input) (an_day_of_week defaults);
          referenceDate = first_some (an_reference_date input) (an_reference_date defaults)
      in case cycle of
        Weekly \<Rightarrow> (case dayOfWeek of None \<Rightarrow> Inr ()
          | Some w \<Rightarrow> throw_if (w < 1 \<or> w > 7) Weekly_Day_Of_Week_Range)
      | Bi_Weekly \<Rightarrow> (case referenceDate of None \<Rightarrow> Inr ()
          | Some r \<Rightarrow> and_then (ensureUtcMidnightIsoDate td r) (\<lambda>_. Inr ()))
      | Monthly \<Rightarrow> (case dayOfMonth of None \<Rightarrow> Inl Monthly_Day_Missing
          | Some k \<Rightarrow> throw_if (k < 1 \<or> k > 28) Monthly_Day_Range)
      | _ \<Rightarrow> (case monthOfYear of None \<Rightarrow> Inl Month_Of_Year_Missing
          | Some m \<Rightarrow> and_then (throw_if (m < 1 \<or> m > 12) Month_Of_Year_Range) (\<lambda>_.
              case dayOfMonth of None \<Rightarrow> Inl Anchored_Day_Missing
              | Some k \<Rightarrow> throw_if (k < 1 \<or> k > 28) Anchored_Day_Range)))"

definition normalizeAnchorSettingsForCycle ::
    "temporal \<Rightarrow> billing_cycle \<Rightarrow> anchor_settings \<Rightarrow> anchor_settings result" where
  "normalizeAnchorSettingsForCycle td cycle input =
     (let defaults = getAnchorDefaultsForCycle cycle;
          normalized = \<lparr>
            an_day_of_month = first_some (an_day_of_month input) (an_day_of_month defaults),
            an_month_of_year = first_some (an_month_of_year input) (an_month_of_year defaults),
            an_day_of_week = first_some (an_day_of_week input) (an_day_of_week defaults),
            an_reference_date = first_some (an_reference_date input) (an_reference_date defaults)\<rparr>
      in and_then (validateAnchorSettingsForCycle td cycle normalized) (\<lambda>_.
         case an_reference_date normalized of None \<Rightarrow> Inr normalized
         | Some r \<Rightarrow> and_then (ensureUtcMidnightIsoDate td r) (\<lambda>r'.
             Inr (normalized\<lparr>an_reference_date := Some r'\<rparr>))))"

section \<open>Boundaries\<close>

definition toPlainDate :: "temporal \<Rightarrow> iso8601 \<Rightarrow> int result" where
  "toPlainDate td date = and_then (ensureUtcMidnightIsoDate td date) (\<lambda>d. Inr (iso_day d))"

definition monthsPerCycleFor :: "billing_cycle \<Rightarrow> int" where
  "monthsPerCycleFor cycle = (case cycle of
     Quarterly \<Rightarrow> 3 | Semi_Annually \<Rightarrow> 6 | Annually \<Rightarrow> 12 | _ \<Rightarrow> 1)"

definition addCycle :: "temporal \<Rightarrow> int \<Rightarrow> billing_cycle \<Rightarrow> int" where
  "addCycle td date cycle = (case cycle of
     Weekly \<Rightarrow> date + 7
   | Bi_Weekly \<Rightarrow> date + 14
   | Monthly \<Rightarrow> add_months td date 1
   | Quarterly \<Rightarrow> add_months td date 3
   | Semi_Annually \<Rightarrow> add_months td date 6
   | Annually \<Rightarrow> add_months td date 12)"

text \<open>The months of the loop \<open>for (month = baseMonth; month <= 12; month += monthsPerCycle)\<close>.\<close>

function cycle_months :: "int \<Rightarrow> int \<Rightarrow> int list" where
  "cycle_months month monthsPerCycle =
     (if month \<le> 12 \<and> 0 < monthsPerCycle
      then month # cycle_months (month + monthsPerCycle) monthsPerCycle else [])"
  by pat_completeness auto
termination by (relation "measure (\<lambda>(m, k). nat (13 - m))") auto

declare cycle_months.simps [simp del]

definition latestBoundaryInYearAtOrBefore ::
    "temporal \<Rightarrow> int \<Rightarrow> int \<Rightarrow> int \<Rightarrow> int \<Rightarrow> int \<Rightarrow> int option" where
  "latestBoundaryInYearAtOrBefore td year date baseMonth baseDay monthsPerCycle =
     (let boundaries = map (\<lambda>month. pd_make td year month baseDay)
            (cycle_months baseMonth monthsPerCycle);
          eligible = filter (\<lambda>b. b \<le> date) boundaries
      in if eligible = [] then None else Some (last (js_sort locale_compare eligible)))"

text \<open>\<open>Temporal.PlainDate.from({ year: d.year, month: d.month, day })\<close>\<close>

definition with_day :: "temporal \<Rightarrow> int \<Rightarrow> int \<Rightarrow> int" where
  "with_day td d k = pd_make td (pd_year td d) (pd_month td d) k"

text \<open>The branches of \<open>quarterly\<close>, \<open>semi-annually\<close> and \<open>annually\<close>.\<close>

definition previous_cycle_boundary ::
    "temporal \<Rightarrow> int \<Rightarrow> billing_cycle \<Rightarrow> anchor_settings \<Rightarrow> int result" where
  "previous_cycle_boundary td date cycle anchor =
     (let monthsPerCycle = monthsPerCycleFor cycle;
          baseMonth = or_else (an_month_of_year anchor) 1;
          baseDay = or_else (an_day_of_month anchor) 1
      in case latestBoundaryInYearAtOrBefore td (pd_year td date) date
            baseMonth baseDay monthsPerCycle of
        Some inYear \<Rightarrow> Inr inYear
      | None \<Rightarrow>
          let previousYear = add_months td date (- 12)
          in case latestBoundaryInYearAtOrBefore td (pd_year td previousYear)
                (pd_make td (pd_year td previousYear) 12 28) baseMonth baseDay monthsPerCycle of
            None \<Rightarrow> Inr (pd_make td (pd_year td previousYear) baseMonth baseDay)
          | Some prevYearLast \<Rightarrow> Inr prevYearLast)"

definition next_cycle_boundary ::
    "temporal \<Rightarrow> int \<Rightarrow> billing_cycle \<Rightarrow> anchor_settings \<Rightarrow> int" where
  "next_cycle_boundary td fromDate cycle anchor =
     (let monthsPerCycle = monthsPerCycleFor cycle;
          baseDay = or_else (an_day_of_month anchor) 1;
          baseMonth = or_else (an_month_of_year anchor) 1;
          step = add_months td fromDate monthsPerCycle;
          monthIndex = js_rem (pd_month td step - baseMonth + 12) monthsPerCycle;
          aligned = add_months td step (- monthIndex)
      in with_day td aligned baseDay)"

definition getPreviousBillingBoundaryAtOrBefore ::
    "temporal \<Rightarrow> int \<Rightarrow> billing_cycle \<Rightarrow> anchor_settings \<Rightarrow> int result" where
  "getPreviousBillingBoundaryAtOrBefore td date cycle anchor =
     (case cycle of
        Weekly \<Rightarrow> if \<not> truthy_number (an_day_of_week anchor) then Inr date
          else Inr (date - js_rem (pd_day_of_week td date - the (an_day_of_week anchor) + 7) 7)
      | Bi_Weekly \<Rightarrow> (case an_reference_date anchor of
            None \<Rightarrow> Inr date
          | Some r \<Rightarrow> and_then (toPlainDate td r) (\<lambda>ref.
              Inr (ref + (date - ref) div 14 * 14)))
      | Monthly \<Rightarrow> (let day = or_else (an_day_of_month anchor) 1
          in if pd_day td date \<ge> day then Inr (with_day td date day)
             else let prevMonth = add_months td date (- 1)
               in Inr (with_day td prevMonth day))
      | _ \<Rightarrow> previous_cycle_boundary td date cycle anchor)"

definition getNextBillingBoundaryAfterPlain ::
    "temporal \<Rightarrow> int \<Rightarrow> billing_cycle \<Rightarrow> anchor_settings \<Rightarrow> int" where
  "getNextBillingBoundaryAfterPlain td fromDate cycle anchor =
     (case cycle of
        Weekly \<Rightarrow> if \<not> truthy_number (an_day_of_week anchor) then addCycle td fromDate cycle
          else let nxt = fromDate + 1
            in nxt + js_rem (the (an_day_of_week anchor) - pd_day_of_week td nxt + 7) 7
      | Bi_Weekly \<Rightarrow> (case an_reference_date anchor of
            None \<Rightarrow> addCycle td fromDate cycle | Some r \<Rightarrow> fromDate + 14)
      | Monthly \<Rightarrow> (let day = or_else (an_day_of_month anchor) 1;
              nextMonth = add_months td fromDate 1
          in with_day td nextMonth day)
      | _ \<Rightarrow> next_cycle_boundary td fromDate cycle anchor)"

definition rolling :: "billing_cycle \<Rightarrow> anchor_settings \<Rightarrow> bool" where
  "rolling cycle anchor \<longleftrightarrow>
     cycle = Weekly \<and> \<not> truthy_number (an_day_of_week anchor)
     \<or> cycle = Bi_Weekly \<and> an_reference_date anchor = None"

text \<open>The period of a plain date: the body of \<open>getBillingPeriodForDate\<close> after the conversion.\<close>

definition period_at ::
    "temporal \<Rightarrow> billing_cycle \<Rightarrow> anchor_settings \<Rightarrow> int \<Rightarrow> (int \<times> int) result" where
  "period_at td cycle anchor d =
     (if rolling cycle anchor then Inr (d, addCycle td d cycle)
      else and_then (getPreviousBillingBoundaryAtOrBefore td d cycle anchor) (\<lambda>start.
        Inr (start, getNextBillingBoundaryAfterPlain td start cycle anchor)))"

definition getBillingPeriodForDate ::
    "temporal \<Rightarrow> iso8601 \<Rightarrow> billing_cycle \<Rightarrow> anchor_settings \<Rightarrow> (iso8601 \<times> iso8601) result" where
  "getBillingPeriodForDate td date cycle anchor =
     and_then (toPlainDate td date) (\<lambda>d.
     and_then (period_at td cycle anchor d) (\<lambda>(s, e).
       Inr (utc_midnight s, utc_midnight e)))"

definition getNextBillingBoundaryAfter ::
    "temporal \<Rightarrow> iso8601 \<Rightarrow> billing_cycle \<Rightarrow> anchor_settings \<Rightarrow> iso8601 result" where
  "getNextBillingBoundaryAfter td fromDate cycle anchor =
     and_then (toPlainDate td fromDate) (\<lambda>d.
       if rolling cycle anchor then Inr (utc_midnight (addCycle td d cycle))
       else Inr (utc_midnight (getNextBillingBoundaryAfterPlain td d cycle anchor)))"

section \<open>Schedules\<close>

text \<open>
  The contract of a schedule: every date has a period that contains it, and the end of a period
  starts the next one.
\<close>

locale period_schedule =
  fixes period :: "int \<Rightarrow> 'e + int \<times> int"
  assumes period_contains: "\<exists>s e. period d = Inr (s, e) \<and> s \<le> d \<and> d < e"
    and period_chains: "period d = Inr (s, e) \<Longrightarrow> \<exists>e'. period e = Inr (e, e') \<and> e < e'"
begin

lemma period_bounds: "period d = Inr (s, e) \<Longrightarrow> s \<le> d \<and> d < e"
  using period_contains [of d] by auto

lemma period_total: "\<exists>s e. period d = Inr (s, e)"
  using period_contains [of d] by blast

end

text \<open>
  A schedule given by a set of boundary dates: the previous boundary is the greatest one at or
  before a date, the next one the least one after a boundary.
\<close>

locale boundary_schedule =
  fixes boundary :: "int \<Rightarrow> bool" and prev :: "int \<Rightarrow> 'e + int" and nxt :: "int \<Rightarrow> int"
  assumes prev_greatest: "\<exists>b. prev d = Inr b \<and> boundary b \<and> b \<le> d \<and> (\<forall>c. boundary c \<longrightarrow> c \<le> d \<longrightarrow> c \<le> b)"
    and nxt_boundary: "boundary b \<Longrightarrow> boundary (nxt b) \<and> b < nxt b"
    and nxt_least: "boundary b \<Longrightarrow> boundary c \<Longrightarrow> b < c \<Longrightarrow> nxt b \<le> c"
begin

definition period :: "int \<Rightarrow> 'e + int \<times> int" where
  "period d = and_then (prev d) (\<lambda>s. Inr (s, nxt s))"

lemma prev_of_boundary: "boundary b \<Longrightarrow> prev b = Inr b"
  using prev_greatest [of b] by force

lemma period_of_boundary: "boundary b \<Longrightarrow> period b = Inr (b, nxt b)"
  by (simp add: period_def prev_of_boundary)

lemma period_around:
  "\<exists>s. period d = Inr (s, nxt s) \<and> boundary s \<and> s \<le> d \<and> d < nxt s"
proof -
  obtain b where b: "prev d = Inr b" "boundary b" "b \<le> d"
    and greatest: "\<And>c. boundary c \<Longrightarrow> c \<le> d \<Longrightarrow> c \<le> b"
    using prev_greatest [of d] by blast
  have "d < nxt b" using greatest [of "nxt b"] nxt_boundary [OF b(2)] by linarith
  with b show ?thesis by (auto simp: period_def)
qed

lemma period_unique:
  assumes "period d = Inr (s, e)" "boundary c" "s < c"
  shows "e \<le> c"
  using period_around [of d] assms nxt_least [of s c] by auto

end

sublocale boundary_schedule \<subseteq> period_schedule period
proof
  fix d s e
  show "\<exists>s e. period d = Inr (s, e) \<and> s \<le> d \<and> d < e" using period_around [of d] by blast
  show "\<exists>e'. period e = Inr (e, e') \<and> e < e'" if "period d = Inr (s, e)"
    using period_around [of d] that nxt_boundary period_of_boundary by auto
qed

text \<open>Validated settings, and the boundary dates they describe.\<close>

definition anchor_ok :: "temporal \<Rightarrow> billing_cycle \<Rightarrow> anchor_settings \<Rightarrow> bool" where
  "anchor_ok td cycle anchor = (case cycle of
     Weekly \<Rightarrow> (case an_day_of_week anchor of None \<Rightarrow> True | Some w \<Rightarrow> 1 \<le> w \<and> w \<le> 7)
   | Bi_Weekly \<Rightarrow> (case an_reference_date anchor of None \<Rightarrow> True
       | Some r \<Rightarrow> (case toPlainDate td r of Inl _ \<Rightarrow> False | Inr _ \<Rightarrow> True))
   | Monthly \<Rightarrow> (let k = or_else (an_day_of_month anchor) 1 in 1 \<le> k \<and> k \<le> 28)
   | _ \<Rightarrow> (let k = or_else (an_day_of_month anchor) 1; m = or_else (an_month_of_year anchor) 1
       in 1 \<le> k \<and> k \<le> 28 \<and> 1 \<le> m \<and> m \<le> 12))"

text \<open>
  The search for a boundary inside the calendar year starts at \<open>baseMonth\<close>, so the months before
  it are covered only when \<open>baseMonth\<close> is the first boundary month of the year.
\<close>

definition month_aligned :: "billing_cycle \<Rightarrow> anchor_settings \<Rightarrow> bool" where
  "month_aligned cycle anchor \<longleftrightarrow> cycle \<in> {Quarterly, Semi_Annually, Annually} \<longrightarrow>
     or_else (an_month_of_year anchor) 1 \<le> monthsPerCycleFor cycle"

definition anchor_boundary :: "temporal \<Rightarrow> billing_cycle \<Rightarrow> anchor_settings \<Rightarrow> int \<Rightarrow> bool" where
  "anchor_boundary td cycle anchor d = (case cycle of
     Weekly \<Rightarrow> Some (pd_day_of_week td d) = an_day_of_week anchor
   | Bi_Weekly \<Rightarrow> (case an_reference_date anchor of None \<Rightarrow> False
       | Some r \<Rightarrow> (case toPlainDate td r of Inl _ \<Rightarrow> False | Inr ref \<Rightarrow> (d - ref) mod 14 = 0))
   | Monthly \<Rightarrow> pd_day td d = or_else (an_day_of_month anchor) 1
   | _ \<Rightarrow> pd_day td d = or_else (an_day_of_month anchor) 1
       \<and> monthsPerCycleFor cycle dvd pd_month td d - or_else (an_month_of_year anchor) 1)"

lemma toPlainDate_ok: "ensureUtcMidnightIsoDate td r = Inr r' \<Longrightarrow> toPlainDate td r = Inr (iso_day r')"
  by (simp add: toPlainDate_def)

lemma ensureUtc_Inr:
  "ensureUtcMidnightIsoDate td r = Inr r' \<Longrightarrow> r' = utc_midnight (iso_day r')"
  by (auto simp: ensureUtcMidnightIsoDate_def split: option.splits if_splits)

context iso_calendar
begin

lemma ensureUtc_midnight [simp]:
  "ensureUtcMidnightIsoDate td (utc_midnight d) = Inr (utc_midnight d)"
  by (simp add: ensureUtcMidnightIsoDate_def parse_midnight ms_per_day_def)

lemma toPlainDate_midnight [simp]: "toPlainDate td (utc_midnight d) = Inr d"
  by (simp add: toPlainDate_def)

lemma toPlainDate_normalized:
  assumes "ensureUtcMidnightIsoDate td r = Inr r'"
  shows "toPlainDate td r' = Inr (iso_day r')"
  by (subst ensureUtc_Inr [OF assms]) simp

lemma normalize_anchor_ok:
  assumes "normalizeAnchorSettingsForCycle td cycle input = Inr anchor"
  shows "anchor_ok td cycle anchor"
proof -
  note defs = normalizeAnchorSettingsForCycle_def validateAnchorSettingsForCycle_def anchor_ok_def
    getAnchorDefaultsForCycle_def first_some_def Let_def
  show ?thesis
  proof (cases cycle)
    case Bi_Weekly
    with assms show ?thesis
      by (cases "an_reference_date input")
        (auto simp: defs result_simps toPlainDate_normalized dest: toPlainDate_normalized)
  qed (use assms in \<open>auto simp: defs result_simps split: option.splits\<close>)
qed

end

section \<open>The anchored schedules\<close>

lemma week_delta:
  fixes w a :: int
  assumes "1 \<le> w" "w \<le> 7" "1 \<le> a" "a \<le> 7"
  shows "js_rem (w - a + 7) 7 = (if a \<le> w then w - a else w - a + 7)"
proof (cases "a \<le> w")
  case True
  then have "w - a + 7 = 7 * 1 + (w - a)" by simp
  then have "(w - a + 7) mod 7 = w - a" by (rule int_mod_pos_eq) (use assms True in simp_all)
  with True assms show ?thesis by simp
next
  case False
  then have "(w - a + 7) mod 7 = w - a + 7"
    by (intro mod_pos_pos_trivial) (use assms in simp_all)
  moreover have "0 \<le> w - a + 7" using assms by simp
  ultimately show ?thesis using False by (simp only: js_rem_nonneg zero_less_numeral if_False)
qed

lemma cycle_months_iff:
  "0 < k \<Longrightarrow> m \<in> set (cycle_months b k) \<longleftrightarrow> b \<le> m \<and> m \<le> 12 \<and> k dvd m - b"
proof (induction b k rule: cycle_months.induct)
  case (1 b k)
  show ?case
  proof (cases "b \<le> 12")
    case True
    have "m - (b + k) = m - b - k" by simp
    then have step: "k dvd m - (b + k) \<longleftrightarrow> k dvd m - b"
      by (simp only: dvd_diff_left_iff [OF dvd_refl])
    have "b \<le> m \<and> k dvd m - b \<Longrightarrow> m \<noteq> b \<Longrightarrow> b + k \<le> m"
      using zdvd_imp_le [of k "m - b"] by auto
    with True 1 step show ?thesis
      by (subst cycle_months.simps) auto
  qed (subst cycle_months.simps, auto)
qed

context iso_calendar
begin

lemma same_day_of_week: "pd_day_of_week td (d + n) = pd_day_of_week td d \<longleftrightarrow> 7 dvd n"
proof -
  let ?w = "pd_day_of_week td d - 1"
  have "?w mod 7 = ?w" using day_of_week_range [of d] by (simp add: mod_pos_pos_trivial)
  then have "pd_day_of_week td (d + n) = pd_day_of_week td d \<longleftrightarrow> (?w + n) mod 7 = ?w mod 7"
    unfolding day_of_week_add by linarith
  also have "\<dots> \<longleftrightarrow> 7 dvd ?w + n - ?w" by (rule mod_eq_dvd_iff)
  finally show ?thesis by simp
qed

lemma weekly_schedule:
  assumes "1 \<le> a" "a \<le> 7"
  shows "boundary_schedule (\<lambda>d. pd_day_of_week td d = a)
     (\<lambda>d. Inr (d - js_rem (pd_day_of_week td d - a + 7) 7) :: int result)
     (\<lambda>d. d + 1 + js_rem (a - pd_day_of_week td (d + 1) + 7) 7)"
proof -
  define delta where "delta d = js_rem (pd_day_of_week td d - a + 7) 7" for d
  have delta: "0 \<le> delta d \<and> delta d < 7 \<and> pd_day_of_week td (d - delta d) = a" for d
  proof -
    have w: "1 \<le> pd_day_of_week td d" "pd_day_of_week td d \<le> 7" using day_of_week_range [of d] by auto
    have val: "delta d = (if a \<le> pd_day_of_week td d then pd_day_of_week td d - a
        else pd_day_of_week td d - a + 7)"
      unfolding delta_def by (rule week_delta [OF w assms])
    have "(pd_day_of_week td d - 1 - delta d) mod 7 = a - 1"
      by (rule int_mod_pos_eq [where q = "if a \<le> pd_day_of_week td d then 0 else - 1"])
        (use val assms in \<open>auto split: if_splits\<close>)
    then have "pd_day_of_week td (d - delta d) = a"
      using day_of_week_add [of d "- delta d"] by simp
    with val w assms show ?thesis by (auto split: if_splits)
  qed
  have fwd: "b + 1 + js_rem (a - pd_day_of_week td (b + 1) + 7) 7 = b + 7"
    if "pd_day_of_week td b = a" for b
  proof -
    have w: "1 \<le> pd_day_of_week td (b + 1)" "pd_day_of_week td (b + 1) \<le> 7"
      using day_of_week_range [of "b + 1"] by auto
    have "pd_day_of_week td (b + 1) = (if a = 7 then 1 else a + 1)"
    proof (cases "a = 7")
      case True
      then show ?thesis using day_of_week_add [of b 1] that by simp
    next
      case False
      with assms have "a mod 7 = a" by (simp add: mod_pos_pos_trivial)
      with False show ?thesis using day_of_week_add [of b 1] that by simp
    qed
    with week_delta [OF assms w] assms show ?thesis by (auto split: if_splits)
  qed
  have spacing: "7 dvd c - b" if "pd_day_of_week td b = a" "pd_day_of_week td c = a" for b c
    using same_day_of_week [of b "c - b"] that by simp
  show ?thesis
    unfolding delta_def [symmetric]
  proof (unfold_locales, goal_cases)
    case (1 d)
    have "c \<le> d - delta d" if c: "pd_day_of_week td c = a" "c \<le> d" for c
    proof (rule ccontr)
      assume "\<not> c \<le> d - delta d"
      then have "0 < c - (d - delta d)" by simp
      with spacing [of "d - delta d" c] delta [of d] c have "7 \<le> c - (d - delta d)"
        by (meson zdvd_imp_le)
      with delta [of d] c show False by linarith
    qed
    with delta [of d] show ?case by auto
  next
    case (2 b)
    then show ?case using same_day_of_week [of b 7] unfolding fwd [OF 2] by simp
  next
    case (3 b c)
    have "7 \<le> c - b" by (rule zdvd_imp_le [OF spacing [OF 3(1,2)]]) (use 3(3) in simp)
    then show ?case unfolding fwd [OF 3(1)] by linarith
  qed
qed

lemma biweekly_schedule:
  "boundary_schedule (\<lambda>d. (d - ref) mod 14 = 0)
     (\<lambda>d. Inr (ref + (d - ref) div 14 * 14) :: int result) (\<lambda>d. d + 14)"
proof (unfold_locales, goal_cases)
  case (1 d)
  let ?b = "ref + (d - ref) div 14 * 14"
  have dec: "(d - ref) div 14 * 14 + (d - ref) mod 14 = d - ref" by simp
  have lt: "(d - ref) mod 14 < 14" "0 \<le> (d - ref) mod 14" by simp_all
  have greatest: "c \<le> ?b" if c: "(c - ref) mod 14 = 0" "c \<le> d" for c
  proof -
    have "(c - ref) div 14 \<le> (d - ref) div 14" using c(2) by (intro zdiv_mono1) simp_all
    moreover have "(c - ref) div 14 * 14 = c - ref" using c(1) by (simp add: mod_0_imp_dvd)
    ultimately show ?thesis using mult_right_mono [of "(c - ref) div 14" "(d - ref) div 14" 14] by simp
  qed
  have "?b \<le> d" using dec lt by linarith
  moreover have "(?b - ref) mod 14 = 0" by simp
  ultimately show ?case using greatest by (intro exI [of _ ?b] conjI allI impI) simp_all
next
  case (2 b)
  have "(b + 14 - ref) mod 14 = (b - ref) mod 14"
    using mod_add_self2 [of "b - ref" 14] by (simp add: diff_add_eq)
  with 2 show ?case by simp
next
  case (3 b c)
  then have "14 dvd (c - ref) - (b - ref)" by (metis dvd_diff mod_0_imp_dvd)
  then have "14 dvd c - b" by simp
  then have "14 \<le> c - b" by (rule zdvd_imp_le) (use 3(3) in simp)
  then show ?case by linarith
qed

end

context iso_calendar
begin

lemma day_boundary_le:
  "pd_day td c = k \<Longrightarrow>
   c \<le> d \<longleftrightarrow> month_index td c \<le> month_index td d - (if k \<le> pd_day td d then 0 else 1)"
  by (subst date_le_iff) auto

lemma with_day_fields:
  assumes "1 \<le> k" "k \<le> 28"
  shows "month_index td (with_day td d k) = month_index td d" "pd_day td (with_day td d k) = k"
  using make_at_month_of [OF assms] by (simp_all add: with_day_def)

lemma monthly_schedule:
  assumes k: "1 \<le> k" "k \<le> 28"
  shows "boundary_schedule (\<lambda>d. pd_day td d = k)
     (\<lambda>d. Inr (if pd_day td d \<ge> k then with_day td d k
          else with_day td (add_months td d (- 1)) k)
        :: int result)
     (\<lambda>d. with_day td (add_months td d 1) k)"
proof (unfold_locales, goal_cases)
  case (1 d)
  define b where "b = (if pd_day td d \<ge> k then with_day td d k
    else with_day td (add_months td d (- 1)) k)"
  have b: "month_index td b = month_index td d - (if k \<le> pd_day td d then 0 else 1)" "pd_day td b = k"
    using with_day_fields [OF k] by (simp_all add: b_def add_months_index)
  have "c \<le> d \<longleftrightarrow> c \<le> b" if "pd_day td c = k" for c
    using day_boundary_le [OF that, of d] day_boundary_le [OF that, of b] b by simp
  with b(2) show ?case unfolding b_def [symmetric] by auto
next
  case (2 b)
  with with_day_fields [OF k] show ?case by (simp add: date_less_iff [of b] add_months_index)
next
  case (3 b c)
  let ?n = "with_day td (add_months td b 1) k"
  have n: "month_index td ?n = month_index td b + 1" "pd_day td ?n = k"
    using with_day_fields [OF k] by (simp_all add: add_months_index)
  from 3 have "month_index td b < month_index td c" using date_less_iff [of b c] by simp
  with n 3 show ?case by (subst date_le_iff) auto
qed

lemma month_index_dvd:
  assumes "p dvd 12"
  shows "p dvd month_index td c - month_index td d \<longleftrightarrow> p dvd pd_month td c - pd_month td d"
proof -
  have "month_index td c - month_index td d
      = 12 * (pd_year td c - pd_year td d) + (pd_month td c - pd_month td d)"
    by (simp add: month_index_def)
  then show ?thesis using assms by (simp add: dvd_add_right_iff)
qed

lemma latest_boundary:
  fixes p m k y d :: int
  defines "bnd \<equiv> \<lambda>c. pd_day td c = k \<and> p dvd pd_month td c - m"
  assumes k: "1 \<le> k" "k \<le> 28" and m: "1 \<le> m" "m \<le> p" and p: "0 < p"
  shows "case latestBoundaryInYearAtOrBefore td y d m k p of
      None \<Rightarrow> \<forall>c. bnd c \<and> pd_year td c = y \<longrightarrow> d < c
    | Some b \<Rightarrow> bnd b \<and> pd_year td b = y \<and> b \<le> d
        \<and> (\<forall>c. bnd c \<and> pd_year td c = y \<and> c \<le> d \<longrightarrow> c \<le> b)"
proof -
  let ?bs = "map (\<lambda>month. pd_make td y month k) (cycle_months m p)"
  have mem: "c \<in> set ?bs \<longleftrightarrow> bnd c \<and> pd_year td c = y" for c
  proof
    assume "c \<in> set ?bs"
    then obtain n where "m \<le> n" "n \<le> 12" "p dvd n - m" "c = pd_make td y n k"
      using cycle_months_iff [OF p] by auto
    with make_fields [of n k y] m k show "bnd c \<and> pd_year td c = y" by (simp add: bnd_def)
  next
    assume c: "bnd c \<and> pd_year td c = y"
    note r = month_range [of c]
    have "m \<le> pd_month td c"
    proof (rule ccontr)
      assume "\<not> m \<le> pd_month td c"
      moreover have "p dvd m - pd_month td c" using c by (simp add: bnd_def dvd_diff_commute)
      ultimately have "p \<le> m - pd_month td c" by (intro zdvd_imp_le) simp_all
      with m r show False by linarith
    qed
    moreover have "c = pd_make td y (pd_month td c) k"
    proof (rule date_eqI)
      show "month_index td c = month_index td (pd_make td y (pd_month td c) k)"
        using make_index [of "pd_month td c" k y] r k c by (simp add: month_index_def [of td c])
      show "pd_day td c = pd_day td (pd_make td y (pd_month td c) k)"
        using make_day [of "pd_month td c" k y] r k c by (simp add: bnd_def)
    qed
    moreover have "pd_month td c \<in> set (cycle_months m p)"
      using c r calculation(1) by (simp add: cycle_months_iff [OF p] bnd_def)
    ultimately show "c \<in> set ?bs" by (metis (no_types) image_eqI list.set_map)
  qed
  let ?es = "filter (\<lambda>b. b \<le> d) ?bs"
  show ?thesis
  proof (cases "?es = []")
    case True
    then have "\<forall>c \<in> set ?bs. d < c" by (simp only: filter_empty_conv not_le)
    then have "\<forall>c. bnd c \<and> pd_year td c = y \<longrightarrow> d < c" using mem by blast
    with True show ?thesis
      by (simp only: latestBoundaryInYearAtOrBefore_def Let_def if_True option.case simp_thms)
  next
    case False
    let ?l = "last (js_sort locale_compare ?es)"
    have es: "c \<in> set ?es \<longleftrightarrow> bnd c \<and> pd_year td c = y \<and> c \<le> d" for c
      using mem [of c] by auto
    have "bnd ?l \<and> pd_year td ?l = y \<and> ?l \<le> d"
      using last_sorted_greatest(1) [OF False] unfolding es .
    moreover have "\<forall>c. bnd c \<and> pd_year td c = y \<and> c \<le> d \<longrightarrow> c \<le> ?l"
      using last_sorted_greatest(2) [OF False] unfolding es by blast
    ultimately show ?thesis using False
      by (simp only: latestBoundaryInYearAtOrBefore_def Let_def if_False option.case simp_thms)
  qed
qed

lemma year_earlier: "pd_year td c < pd_year td d \<Longrightarrow> c < d"
  using month_range [of c] month_range [of d] by (subst date_less_iff) (simp add: month_index_def)

lemma add_months_year:
  "pd_year td (add_months td d (12 * n)) = pd_year td d + n"
proof -
  have "month_index td (add_months td d (12 * n)) = 12 * (pd_year td d + n) + (pd_month td d - 1)"
    unfolding add_months_index month_index_def [of td d] by (simp only: distrib_left distrib_right ac_simps)
  then show ?thesis
    using month_range [of d] month_index_year [of "add_months td d (12 * n)"]
      int_div_pos_eq [of _ 12 "pd_year td d + n" "pd_month td d - 1"] by simp
qed

definition multi_prev :: "int \<Rightarrow> int \<Rightarrow> int \<Rightarrow> int \<Rightarrow> int result" where
  "multi_prev m k p date = (case latestBoundaryInYearAtOrBefore td (pd_year td date) date m k p of
      Some inYear \<Rightarrow> Inr inYear
    | None \<Rightarrow> (case latestBoundaryInYearAtOrBefore td (pd_year td (add_months td date (- 12)))
          (pd_make td (pd_year td (add_months td date (- 12))) 12 28) m k p of
        None \<Rightarrow> Inr (pd_make td (pd_year td (add_months td date (- 12))) m k)
      | Some b \<Rightarrow> Inr b))"

lemma multi_prev_greatest:
  fixes p m k d :: int
  assumes k: "1 \<le> k" "k \<le> 28" and m: "1 \<le> m" "m \<le> p" and p: "0 < p" "p dvd 12"
  shows "\<exists>b. multi_prev m k p d = Inr b \<and> (pd_day td b = k \<and> p dvd pd_month td b - m) \<and> b \<le> d
    \<and> (\<forall>c. pd_day td c = k \<and> p dvd pd_month td c - m \<longrightarrow> c \<le> d \<longrightarrow> c \<le> b)"
proof (cases "latestBoundaryInYearAtOrBefore td (pd_year td d) d m k p")
  case (Some b)
  note spec = latest_boundary [OF k m p(1), of "pd_year td d" d, unfolded Some option.case]
  have "c \<le> b" if "pd_day td c = k \<and> p dvd pd_month td c - m" "c \<le> d" for c
  proof (cases "pd_year td c = pd_year td d")
    case True
    with spec that show ?thesis by blast
  next
    case False
    with that(2) year_earlier [of d c] have "pd_year td c < pd_year td b"
      using spec by linarith
    then show ?thesis using year_earlier by fastforce
  qed
  with spec Some show ?thesis by (auto simp: multi_prev_def)
next
  case None
  note none = latest_boundary [OF k m p(1), of "pd_year td d" d, unfolded None option.case]
  let ?y = "pd_year td (add_months td d (- 12))"
  let ?dec = "pd_make td ?y 12 28"
  have y: "?y = pd_year td d - 1" using add_months_year [of d "- 1"] by simp
  have dec: "pd_year td ?dec = ?y" "pd_month td ?dec = 12" "pd_day td ?dec = 28"
    using make_fields [of 12 28 ?y] by simp_all
  have before_dec: "c \<le> ?dec" if "pd_day td c = k" "pd_year td c = ?y" for c
    using that k dec month_range [of c] by (subst date_le_iff) (auto simp: month_index_def)
  note spec = latest_boundary [OF k m p(1), of ?y ?dec]
  have base: "m \<le> 12" using m p zdvd_imp_le by fastforce
  have first: "pd_day td (pd_make td ?y m k) = k \<and> p dvd pd_month td (pd_make td ?y m k) - m
      \<and> pd_year td (pd_make td ?y m k) = ?y"
    using make_fields [of m k ?y] m base k by simp
  obtain b where some: "latestBoundaryInYearAtOrBefore td ?y ?dec m k p = Some b"
  proof (cases "latestBoundaryInYearAtOrBefore td ?y ?dec m k p")
    case None
    with spec first before_dec [of "pd_make td ?y m k"] have False by auto
    then show ?thesis ..
  qed
  note spec' = spec [unfolded some option.case]
  have "c \<le> b" if c: "pd_day td c = k \<and> p dvd pd_month td c - m" "c \<le> d" for c
  proof -
    have "pd_year td c < pd_year td d"
      using c none year_earlier [of d c] by (metis linorder_neqE linorder_not_less)
    then consider "pd_year td c = ?y" | "pd_year td c < pd_year td b" using y spec' by linarith
    then show ?thesis
    proof cases
      case 1
      with c before_dec [of c] spec' show ?thesis by blast
    next
      case 2
      then show ?thesis using year_earlier by fastforce
    qed
  qed
  moreover have "b \<le> d"
    using spec' y year_earlier [of b d] by simp
  ultimately show ?thesis using spec' some None by (auto simp: multi_prev_def)
qed

lemma multi_next:
  fixes p m k b :: int
  defines "nx \<equiv> (let step = add_months td b p;
      aligned = add_months td step (- js_rem (pd_month td step - m + 12) p)
    in with_day td aligned k)"
  assumes k: "1 \<le> k" "k \<le> 28" and m: "1 \<le> m" "m \<le> 12" and p: "0 < p" "p dvd 12"
    and b: "p dvd pd_month td b - m"
  shows "month_index td nx = month_index td b + p" "pd_day td nx = k" "p dvd pd_month td nx - m"
proof -
  let ?step = "add_months td b p"
  have "p dvd pd_month td ?step - pd_month td b"
    using month_index_dvd [OF p(2), of ?step b] by (simp add: add_months_index)
  from dvd_add [OF this b] have "p dvd pd_month td ?step - m" by simp
  then have "p dvd pd_month td ?step - m + 12" using p(2) by (rule dvd_add)
  then have "(pd_month td ?step - m + 12) mod p = 0" by simp
  moreover have "0 \<le> pd_month td ?step - m + 12" using month_range [of ?step] m by simp
  ultimately have "js_rem (pd_month td ?step - m + 12) p = 0" using p(1) by simp
  then have nx: "nx = with_day td ?step k"
    by (simp add: nx_def Let_def add_months_0)
  show idx: "month_index td nx = month_index td b + p" and "pd_day td nx = k"
    unfolding nx using with_day_fields [OF k] by (simp_all add: add_months_index)
  have "p dvd pd_month td nx - pd_month td b"
    using month_index_dvd [OF p(2), of nx b] by (simp add: idx)
  from dvd_add [OF this b] show "p dvd pd_month td nx - m" by simp
qed

lemma multi_schedule:
  fixes p m k :: int
  assumes k: "1 \<le> k" "k \<le> 28" and m: "1 \<le> m" "m \<le> p" and p: "0 < p" "p dvd 12"
  shows "boundary_schedule (\<lambda>d. pd_day td d = k \<and> p dvd pd_month td d - m) (multi_prev m k p)
    (\<lambda>b. let step = add_months td b p;
        aligned = add_months td step (- js_rem (pd_month td step - m + 12) p)
      in with_day td aligned k)"
proof (unfold_locales, goal_cases)
  case (1 d)
  show ?case using multi_prev_greatest [OF k m p] .
next
  case (2 b)
  have m12: "m \<le> 12" using m p zdvd_imp_le by fastforce
  from 2 have "p dvd pd_month td b - m" by simp
  from multi_next [OF k m(1) m12 p this] p(1) show ?case
    by (subst date_less_iff [of b]) simp
next
  case (3 b c)
  have m12: "m \<le> 12" using m p zdvd_imp_le by fastforce
  from 3 have dvd: "p dvd pd_month td b - m" "p dvd pd_month td c - m" by simp_all
  from 3 have lt: "month_index td b < month_index td c" using date_less_iff [of b c] by simp
  have "p dvd month_index td c - month_index td b"
    unfolding month_index_dvd [OF p(2)] using dvd_diff [OF dvd(2,1)] by simp
  then have "p \<le> month_index td c - month_index td b" by (rule zdvd_imp_le) (use lt in simp)
  then have "month_index td b + p < month_index td c \<or> month_index td b + p = month_index td c"
    by linarith
  with multi_next [OF k m(1) m12 p dvd(1)] 3(2) show ?case
    by (subst date_le_iff) simp
qed

end

locale anchored_schedule = iso_calendar td for td :: temporal +
  fixes cycle :: billing_cycle and anchor :: anchor_settings
  assumes anchored: "\<not> rolling cycle anchor"
    and settings_ok: "anchor_ok td cycle anchor" "month_aligned cycle anchor"
begin

lemma schedule_holds:
  "boundary_schedule (anchor_boundary td cycle anchor)
     (\<lambda>d. getPreviousBillingBoundaryAtOrBefore td d cycle anchor)
     (\<lambda>d. getNextBillingBoundaryAfterPlain td d cycle anchor)"
proof (cases cycle)
  case Weekly
  with anchored obtain a where a: "an_day_of_week anchor = Some a" "a \<noteq> 0"
    by (cases "an_day_of_week anchor") (auto simp: rolling_def)
  have "1 \<le> a" "a \<le> 7" using settings_ok a Weekly by (simp_all add: anchor_ok_def)
  from weekly_schedule [OF this] show ?thesis
    using a Weekly by (simp add: anchor_boundary_def [abs_def] getPreviousBillingBoundaryAtOrBefore_def
        getNextBillingBoundaryAfterPlain_def Let_def)
next
  case Bi_Weekly
  with anchored settings_ok obtain r ref where "an_reference_date anchor = Some r"
    "toPlainDate td r = Inr ref"
    by (auto simp: rolling_def anchor_ok_def split: option.splits sum.splits)
  with biweekly_schedule [of ref] Bi_Weekly show ?thesis
    by (simp add: anchor_boundary_def [abs_def] getPreviousBillingBoundaryAtOrBefore_def
        getNextBillingBoundaryAfterPlain_def)
next
  case Monthly
  with settings_ok monthly_schedule [of "or_else (an_day_of_month anchor) 1"] show ?thesis
    by (simp add: anchor_ok_def anchor_boundary_def [abs_def] getPreviousBillingBoundaryAtOrBefore_def
        getNextBillingBoundaryAfterPlain_def Let_def if_distrib [of Inr]
        cong: if_cong)
qed (use settings_ok multi_schedule [of "or_else (an_day_of_month anchor) 1"
      "or_else (an_month_of_year anchor) 1" "monthsPerCycleFor cycle"] in
    \<open>simp_all add: anchor_ok_def month_aligned_def anchor_boundary_def [abs_def] multi_prev_def [abs_def]
      getPreviousBillingBoundaryAtOrBefore_def getNextBillingBoundaryAfterPlain_def
      previous_cycle_boundary_def next_cycle_boundary_def Let_def monthsPerCycleFor_def cong: option.case_cong\<close>)

end

sublocale anchored_schedule \<subseteq> boundary_schedule "anchor_boundary td cycle anchor"
    "\<lambda>d. getPreviousBillingBoundaryAtOrBefore td d cycle anchor"
    "\<lambda>d. getNextBillingBoundaryAfterPlain td d cycle anchor"
  by (rule schedule_holds)

section \<open>The periods of a date\<close>

context anchored_schedule
begin

lemma period_at_eq: "period_at td cycle anchor = period"
  by (intro ext) (simp add: period_at_def period_def anchored)

lemma period_at_is_schedule: "period_schedule (period_at td cycle anchor)"
  unfolding period_at_eq by (rule period_schedule_axioms)

lemma period_at_tight:
  assumes "period_at td cycle anchor d = Inr (s, e)"
  shows "anchor_boundary td cycle anchor s" "anchor_boundary td cycle anchor e"
    and "\<not> (\<exists>c. anchor_boundary td cycle anchor c \<and> s < c \<and> c < e)"
  using assms period_around [of d] nxt_boundary nxt_least [of s]
  unfolding period_at_eq by fastforce+

end

lemma period_at_schedule:
  assumes "iso_calendar td" "anchor_ok td cycle anchor" "month_aligned cycle anchor"
  shows "period_schedule (period_at td cycle anchor)"
proof (cases "rolling cycle anchor")
  case True
  then show ?thesis
    by unfold_locales (auto simp: period_at_def addCycle_def rolling_def)
next
  case False
  with assms have "anchored_schedule td cycle anchor"
    by (simp add: anchored_schedule_def anchored_schedule_axioms_def)
  then show ?thesis by (rule anchored_schedule.period_at_is_schedule)
qed

interpretation default_monthly: anchored_schedule gregorian Monthly "getAnchorDefaultsForCycle Monthly"
  by unfold_locales (simp_all add: rolling_def anchor_ok_def month_aligned_def getAnchorDefaultsForCycle_def)

interpretation default_weekly: period_schedule "period_at gregorian Weekly (getAnchorDefaultsForCycle Weekly)"
  by (rule period_at_schedule)
    (simp_all add: gregorian_is_calendar anchor_ok_def month_aligned_def getAnchorDefaultsForCycle_def)

lemma getBillingPeriodForDate_midnight:
  assumes "iso_calendar td"
  shows "getBillingPeriodForDate td (utc_midnight d) cycle anchor =
     and_then (period_at td cycle anchor d) (\<lambda>(s, e). Inr (utc_midnight s, utc_midnight e))"
  by (simp add: getBillingPeriodForDate_def iso_calendar.toPlainDate_midnight [OF assms])

text \<open>
  C12: for settings that normalise, with a base month among the first cycle of the year, the billing
  period of a date contains it, and the date on which it ends starts the next period.
\<close>

theorem billing_period_contains_date:
  assumes "iso_calendar td" "normalizeAnchorSettingsForCycle td cycle input = Inr anchor"
    and "month_aligned cycle anchor"
  shows "\<exists>s e e'. getBillingPeriodForDate td (utc_midnight d) cycle anchor
        = Inr (utc_midnight s, utc_midnight e)
      \<and> s \<le> d \<and> d < e
      \<and> getBillingPeriodForDate td (utc_midnight e) cycle anchor
        = Inr (utc_midnight e, utc_midnight e') \<and> e < e'"
proof -
  have sched: "period_schedule (period_at td cycle anchor)"
    using assms by (intro period_at_schedule iso_calendar.normalize_anchor_ok)
  obtain s e where se: "period_at td cycle anchor d = Inr (s, e)" "s \<le> d" "d < e"
    using period_schedule.period_contains [OF sched] by blast
  moreover obtain e' where "period_at td cycle anchor e = Inr (e, e')" "e < e'"
    using period_schedule.period_chains [OF sched se(1)] by blast
  ultimately show ?thesis
    by (simp add: getBillingPeriodForDate_midnight [OF assms(1)])
qed

text \<open>Quarterly from February the 10th: the period of 2026-01-31 is [2025-11-10, 2026-02-10).\<close>

theorem billing_period_contains_date_witness:
  "let anchor = \<lparr>an_day_of_month = Some 10, an_month_of_year = Some 2, an_day_of_week = None,
         an_reference_date = None\<rparr>
   in normalizeAnchorSettingsForCycle gregorian Quarterly anchor = Inr anchor
    \<and> (\<exists>s e. getBillingPeriodForDate gregorian (utc_midnight 20484) Quarterly anchor
         = Inr (utc_midnight s, utc_midnight e) \<and> s \<le> 20484 \<and> 20484 < e)"
proof -
  let ?anchor = "\<lparr>an_day_of_month = Some 10, an_month_of_year = Some 2, an_day_of_week = None,
         an_reference_date = None\<rparr>"
  have norm: "normalizeAnchorSettingsForCycle gregorian Quarterly ?anchor = Inr ?anchor"
    by code_simp
  have "month_aligned Quarterly ?anchor" by code_simp
  from billing_period_contains_date [OF gregorian_is_calendar norm this, of 20484] norm
  show ?thesis unfolding Let_def by blast
qed

text \<open>
  An anchored billing period starts and ends on the dates its settings name (the day of week,
  every second week from the reference date, the day of the month in a cycle month), and no such
  date lies strictly between them.
\<close>

theorem anchored_period_boundaries:
  assumes "iso_calendar td" "normalizeAnchorSettingsForCycle td cycle input = Inr anchor"
    and "month_aligned cycle anchor" "\<not> rolling cycle anchor"
    and "getBillingPeriodForDate td (utc_midnight d) cycle anchor = Inr (v, w)"
  shows "anchor_boundary td cycle anchor (iso_day v) \<and> anchor_boundary td cycle anchor (iso_day w)
    \<and> \<not> (\<exists>c. anchor_boundary td cycle anchor c \<and> iso_day v < c \<and> c < iso_day w)"
proof -
  have sched: "anchored_schedule td cycle anchor"
    using assms by (simp add: anchored_schedule_def anchored_schedule_axioms_def
        iso_calendar.normalize_anchor_ok)
  obtain s e where "period_at td cycle anchor d = Inr (s, e)" "v = utc_midnight s" "w = utc_midnight e"
    using assms(5) by (auto simp: getBillingPeriodForDate_midnight [OF assms(1)] result_simps)
  with anchored_schedule.period_at_tight [OF sched, of d s e] show ?thesis by auto
qed

theorem anchored_period_boundaries_witness:
  "let anchor = getAnchorDefaultsForCycle Monthly
   in getBillingPeriodForDate gregorian (utc_midnight 20484) Monthly anchor
       = Inr (utc_midnight 20454, utc_midnight 20485)
    \<and> anchor_boundary gregorian Monthly anchor 20454 \<and> anchor_boundary gregorian Monthly anchor 20485"
proof -
  let ?anchor = "getAnchorDefaultsForCycle Monthly"
  have norm: "normalizeAnchorSettingsForCycle gregorian Monthly ?anchor = Inr ?anchor" by code_simp
  have period: "getBillingPeriodForDate gregorian (utc_midnight 20484) Monthly ?anchor
      = Inr (utc_midnight 20454, utc_midnight 20485)" by code_simp
  have "month_aligned Monthly ?anchor" "\<not> rolling Monthly ?anchor" by code_simp+
  from anchored_period_boundaries [OF gregorian_is_calendar norm this period] period
  show ?thesis by (simp add: Let_def)
qed

text \<open>
  Validation accepts a quarterly anchor in November, but the billing period of 2026-02-15 then
  ends on 2026-02-01, before the date: the months before the base month of the year are skipped.
\<close>

theorem misaligned_quarter_misses_date:
  "let anchor = \<lparr>an_day_of_month = Some 1, an_month_of_year = Some 11, an_day_of_week = None,
         an_reference_date = None\<rparr>
   in normalizeAnchorSettingsForCycle gregorian Quarterly anchor = Inr anchor
    \<and> getBillingPeriodForDate gregorian (utc_midnight 20499) Quarterly anchor
        = Inr (utc_midnight 20393, utc_midnight 20485)"
  by code_simp

end
