(* ===== verification/Contract_Cadence.thy ===== *)
theory Contract_Cadence
  imports Cycle_Anchors
begin

text \<open>
  \<open>shared/billingClients/contractCadenceServicePeriods.ts\<close>: service periods counted in whole
  cycles from a contract line's anchor date, and the invoice window of a contract period.
\<close>

datatype contract_lifecycle_mode = New_Assignment | Renew_In_Place | Renewed_Contract

definition DEFAULT_CONTRACT_CADENCE_GENERATION_MAX_PERIODS :: int where
  "DEFAULT_CONTRACT_CADENCE_GENERATION_MAX_PERIODS = 100"

definition resolveContractCadenceAnchorDate ::
    "temporal \<Rightarrow> iso8601 \<Rightarrow> contract_lifecycle_mode option \<Rightarrow> iso8601 option \<Rightarrow> iso8601 result" where
  "resolveContractCadenceAnchorDate td assignmentStartDate lifecycleMode previousAnchorDate =
     and_then (ensureUtcMidnightIsoDate td assignmentStartDate) (\<lambda>start.
       case previousAnchorDate of
         Some prev \<Rightarrow> if lifecycleMode = Some Renew_In_Place then ensureUtcMidnightIsoDate td prev
                      else Inr start
       | None \<Rightarrow> Inr start)"

section \<open>The boundary index\<close>

text \<open>
  The two \<open>while\<close> loops of \<open>resolveBoundaryIndexAtOrBefore\<close>. Whether they end depends on the
  calendar, so they are partial: \<open>None\<close> is a loop that never ends.
\<close>

definition nth_boundary :: "temporal \<Rightarrow> int \<Rightarrow> int \<Rightarrow> int \<Rightarrow> int" where
  "nth_boundary td anchor monthsPerPeriod k = add_months td anchor (k * monthsPerPeriod)"

partial_function (option) walk_back ::
    "temporal \<Rightarrow> int \<Rightarrow> int \<Rightarrow> int \<Rightarrow> int \<Rightarrow> int option" where
  "walk_back td anchor monthsPerPeriod target index =
     (if nth_boundary td anchor monthsPerPeriod index > target
      then walk_back td anchor monthsPerPeriod target (index - 1) else Some index)"

partial_function (option) walk_forward ::
    "temporal \<Rightarrow> int \<Rightarrow> int \<Rightarrow> int \<Rightarrow> int \<Rightarrow> int option" where
  "walk_forward td anchor monthsPerPeriod target index =
     (if nth_boundary td anchor monthsPerPeriod (index + 1) \<le> target
      then walk_forward td anchor monthsPerPeriod target (index + 1) else Some index)"

definition resolveBoundaryIndexAtOrBefore :: "temporal \<Rightarrow> int \<Rightarrow> int \<Rightarrow> int \<Rightarrow> int result" where
  "resolveBoundaryIndexAtOrBefore td anchor target monthsPerPeriod =
     (if target \<le> anchor then Inr 0
      else case walk_back td anchor monthsPerPeriod target
          (((pd_year td target - pd_year td anchor) * 12
             + (pd_month td target - pd_month td anchor)) div monthsPerPeriod) of
        None \<Rightarrow> Inl Does_Not_Return
      | Some index \<Rightarrow> (case walk_forward td anchor monthsPerPeriod target index of
            None \<Rightarrow> Inl Does_Not_Return
          | Some index' \<Rightarrow> Inr (max index' 0)))"

section \<open>Periods and invoice windows\<close>

definition contract_service_period ::
    "temporal \<Rightarrow> iso8601 \<Rightarrow> iso8601 \<Rightarrow> obligation_ref \<Rightarrow> due_position \<Rightarrow> iso8601 \<Rightarrow> service_period" where
  "contract_service_period td start finish sourceObligation duePosition anchorDate =
     \<lparr>range_start = start, range_end = finish, range_semantics = Half_Open,
      sp_cadence_owner = Contract, sp_due_position = duePosition,
      sp_source_obligation = sourceObligation,
      sp_timing_metadata = Some [(''anchorDate'', M_String (iso_text td anchorDate)),
        (''boundarySource'', M_String ''assignment_start_date'')]\<rparr>"

fun contract_periods_from ::
    "temporal \<Rightarrow> iso8601 \<Rightarrow> int \<Rightarrow> int \<Rightarrow> obligation_ref \<Rightarrow> due_position \<Rightarrow> int \<Rightarrow> nat
       \<Rightarrow> service_period list result" where
  "contract_periods_from td anchorDate rangeEnd monthsPerPeriod ob dp index 0 = Inr []"
| "contract_periods_from td anchorDate rangeEnd monthsPerPeriod ob dp index (Suc n) =
     (let periodStart = nth_boundary td (iso_day anchorDate) monthsPerPeriod index;
          periodEnd = add_months td (iso_day anchorDate) (index * monthsPerPeriod + monthsPerPeriod)
      in if periodStart \<ge> rangeEnd then Inr []
         else if periodEnd \<le> periodStart then Inl Contract_Not_Advancing
         else and_then (contract_periods_from td anchorDate rangeEnd monthsPerPeriod ob dp (index + 1) n)
           (\<lambda>periods. Inr (contract_service_period td (utc_midnight periodStart)
              (utc_midnight periodEnd) ob dp anchorDate # periods)))"

definition contract_period_limit :: "int option \<Rightarrow> nat" where
  "contract_period_limit maxPeriods = nat (case maxPeriods of
     Some n \<Rightarrow> if n > 0 then n else DEFAULT_CONTRACT_CADENCE_GENERATION_MAX_PERIODS
   | None \<Rightarrow> DEFAULT_CONTRACT_CADENCE_GENERATION_MAX_PERIODS)"

definition buildContractCadenceServicePeriods ::
    "temporal \<Rightarrow> iso8601 \<Rightarrow> iso8601 \<Rightarrow> obligation_ref \<Rightarrow> due_position \<Rightarrow> iso8601 \<Rightarrow> int option
       \<Rightarrow> int \<Rightarrow> service_period list result" where
  "buildContractCadenceServicePeriods td rangeStart rangeEnd ob dp anchorDate maxPeriods
       monthsPerPeriod =
     and_then (ensureUtcMidnightIsoDate td rangeStart) (\<lambda>rangeStart.
     and_then (ensureUtcMidnightIsoDate td rangeEnd) (\<lambda>rangeEnd.
     and_then (ensureUtcMidnightIsoDate td anchorDate) (\<lambda>anchorDate.
     and_then (throw_if (iso_day rangeEnd \<le> iso_day rangeStart) Contract_Range_Invalid) (\<lambda>_.
     if iso_day anchorDate \<ge> iso_day rangeEnd then Inr []
     else and_then (resolveBoundaryIndexAtOrBefore td (iso_day anchorDate) (iso_day rangeStart)
            monthsPerPeriod) (\<lambda>startIndex.
       contract_periods_from td anchorDate (iso_day rangeEnd) monthsPerPeriod ob dp startIndex
         (contract_period_limit maxPeriods))))))"

definition generateMonthlyContractCadenceServicePeriods ::
    "temporal \<Rightarrow> iso8601 \<Rightarrow> iso8601 \<Rightarrow> obligation_ref \<Rightarrow> due_position \<Rightarrow> iso8601 \<Rightarrow> int option
       \<Rightarrow> service_period list result" where
  "generateMonthlyContractCadenceServicePeriods td rangeStart rangeEnd ob dp anchorDate maxPeriods =
     buildContractCadenceServicePeriods td rangeStart rangeEnd ob dp anchorDate maxPeriods 1"

definition generateQuarterlyContractCadenceServicePeriods ::
    "temporal \<Rightarrow> iso8601 \<Rightarrow> iso8601 \<Rightarrow> obligation_ref \<Rightarrow> due_position \<Rightarrow> iso8601 \<Rightarrow> int option
       \<Rightarrow> service_period list result" where
  "generateQuarterlyContractCadenceServicePeriods td rangeStart rangeEnd ob dp anchorDate maxPeriods =
     buildContractCadenceServicePeriods td rangeStart rangeEnd ob dp anchorDate maxPeriods 3"

definition generateSemiAnnualContractCadenceServicePeriods ::
    "temporal \<Rightarrow> iso8601 \<Rightarrow> iso8601 \<Rightarrow> obligation_ref \<Rightarrow> due_position \<Rightarrow> iso8601 \<Rightarrow> int option
       \<Rightarrow> service_period list result" where
  "generateSemiAnnualContractCadenceServicePeriods td rangeStart rangeEnd ob dp anchorDate maxPeriods =
     buildContractCadenceServicePeriods td rangeStart rangeEnd ob dp anchorDate maxPeriods 6"

definition generateAnnualContractCadenceServicePeriods ::
    "temporal \<Rightarrow> iso8601 \<Rightarrow> iso8601 \<Rightarrow> obligation_ref \<Rightarrow> due_position \<Rightarrow> iso8601 \<Rightarrow> int option
       \<Rightarrow> service_period list result" where
  "generateAnnualContractCadenceServicePeriods td rangeStart rangeEnd ob dp anchorDate maxPeriods =
     buildContractCadenceServicePeriods td rangeStart rangeEnd ob dp anchorDate maxPeriods 12"

definition contractCadenceMonthlyBoundaryGenerator ::
    "temporal \<Rightarrow> iso8601 \<Rightarrow> iso8601 \<Rightarrow> obligation_ref \<Rightarrow> due_position \<Rightarrow> iso8601 option
       \<Rightarrow> service_period list result" where
  "contractCadenceMonthlyBoundaryGenerator td rangeStart rangeEnd ob dp anchorDate =
     (case anchorDate of None \<Rightarrow> Inl Contract_Anchor_Missing
      | Some a \<Rightarrow> generateMonthlyContractCadenceServicePeriods td rangeStart rangeEnd ob dp a None)"

definition resolveContractCadenceInvoiceWindowForServicePeriod ::
    "temporal \<Rightarrow> service_period \<Rightarrow> iso8601 \<Rightarrow> int \<Rightarrow> string option \<Rightarrow> invoice_window result" where
  "resolveContractCadenceInvoiceWindowForServicePeriod td sp anchorDate monthsPerPeriod windowId =
     and_then (throw_if (sp_cadence_owner sp \<noteq> Contract) Contract_Window_Owner) (\<lambda>_.
     and_then (throw_if (monthsPerPeriod \<le> 0) Contract_Window_Months) (\<lambda>_.
     and_then (ensureUtcMidnightIsoDate td anchorDate) (\<lambda>anchorDate.
     if sp_due_position sp = Advance then
       Inr \<lparr>range_start = range_start sp, range_end = range_end sp, range_semantics = Half_Open,
            iw_cadence_owner = Contract, iw_due_position = Advance, iw_window_id = windowId\<rparr>
     else
       and_then (resolveBoundaryIndexAtOrBefore td (iso_day anchorDate) (iso_day (range_start sp))
           monthsPerPeriod) (\<lambda>periodIndex.
         let invoiceWindowEnd = utc_midnight
               (nth_boundary td (iso_day anchorDate) monthsPerPeriod (periodIndex + 2))
         in and_then (throw_if (iso_day invoiceWindowEnd \<le> iso_day (range_end sp))
               Contract_Window_Not_Advancing) (\<lambda>_.
           Inr \<lparr>range_start = range_end sp, range_end = invoiceWindowEnd,
                range_semantics = Half_Open, iw_cadence_owner = Contract,
                iw_due_position = Arrears, iw_window_id = windowId\<rparr>)))))"

section \<open>Correctness\<close>

declare walk_back.simps [code] walk_forward.simps [code]

context iso_calendar
begin

lemma nth_boundary_less_iff:
  assumes "0 < p"
  shows "nth_boundary td a p j < nth_boundary td a p k \<longleftrightarrow> j < k"
  using assms by (simp add: nth_boundary_def add_months_less_iff)

lemma nth_boundary_0 [simp]: "nth_boundary td a p 0 = a"
  by (simp add: nth_boundary_def add_months_0)

lemma nth_boundary_index: "month_index td (nth_boundary td a p k) = month_index td a + k * p"
  by (simp add: nth_boundary_def add_months_index)

lemma resolve_index_spec:
  assumes p: "0 < p"
  obtains k where "resolveBoundaryIndexAtOrBefore td a t p = Inr k" "0 \<le> k"
    "t < nth_boundary td a p (k + 1)" "a \<le> t \<Longrightarrow> nth_boundary td a p k \<le> t" "t \<le> a \<Longrightarrow> k = 0"
proof (cases "t \<le> a")
  case True
  moreover have "a < nth_boundary td a p 1" using nth_boundary_less_iff [OF p, of a 0 1] by simp
  ultimately show ?thesis by (intro that [of 0]) (simp_all add: resolveBoundaryIndexAtOrBefore_def)
next
  case False
  let ?m = "month_index td t - month_index td a"
  define i where "i = ?m div p"
  define r where "r = ?m mod p"
  let ?b = "nth_boundary td a p"
  have start: "(pd_year td t - pd_year td a) * 12 + (pd_month td t - pd_month td a) = ?m"
    by (simp add: month_index_def)
  have "p * i + r = ?m" by (simp add: i_def r_def)
  then have m: "month_index td t = month_index td a + i * p + r" "0 \<le> r" "r < p"
    using p by (simp_all add: r_def mult.commute)
  have above: "t < ?b (i + 1)"
    using m by (subst date_less_iff) (simp add: nth_boundary_index distrib_right)
  obtain k where bwd: "walk_back td a p t i = Some k" and k: "?b k \<le> t" "t < ?b (k + 1)"
  proof (cases "?b i \<le> t")
    case True
    then show ?thesis using above by (intro that [of i]) (simp_all add: walk_back.simps [of td a p t i])
  next
    case False
    have "?b (i - 1) < t"
      using m p by (subst date_less_iff) (simp add: nth_boundary_index left_diff_distrib)
    with False show ?thesis
      by (intro that [of "i - 1"])
        (simp_all add: walk_back.simps [of td a p t i] walk_back.simps [of td a p t "i - 1"])
  qed
  have fwd: "walk_forward td a p t k = Some k" using k by (simp add: walk_forward.simps)
  have "?b 0 < ?b (k + 1)" using k False by simp
  then have "0 \<le> k" unfolding nth_boundary_less_iff [OF p] by simp
  then have "resolveBoundaryIndexAtOrBefore td a t p = Inr k"
    unfolding resolveBoundaryIndexAtOrBefore_def start i_def [symmetric] bwd using fwd False by simp
  with \<open>0 \<le> k\<close> k False show ?thesis by (intro that [of k]) simp_all
qed

lemma contract_periods_from_spec:
  fixes ob :: obligation_ref
  assumes p: "0 < p"
  shows "\<exists>ps. contract_periods_from td anchor e p ob dp k n = Inr ps
    \<and> length ps \<le> n
    \<and> (length ps < n \<longrightarrow> e \<le> nth_boundary td (iso_day anchor) p (k + int (length ps)))
    \<and> (\<forall>i < length ps. ps ! i = contract_service_period td
          (utc_midnight (nth_boundary td (iso_day anchor) p (k + int i)))
          (utc_midnight (nth_boundary td (iso_day anchor) p (k + int i + 1))) ob dp anchor
        \<and> nth_boundary td (iso_day anchor) p (k + int i) < e)"
proof (induction n arbitrary: k)
  case 0
  show ?case by simp
next
  case (Suc n)
  let ?b = "nth_boundary td (iso_day anchor) p"
  have step: "add_months td (iso_day anchor) (k * p + p) = ?b (k + 1)"
    by (simp add: nth_boundary_def distrib_right)
  show ?case
  proof (cases "e \<le> ?b k")
    case True
    then show ?thesis by (simp add: Let_def)
  next
    case False
    obtain ps where ps: "contract_periods_from td anchor e p ob dp (k + 1) n = Inr ps"
      and len: "length ps \<le> n" "length ps < n \<longrightarrow> e \<le> ?b (k + 1 + int (length ps))"
      and nth: "\<forall>i < length ps. ps ! i = contract_service_period td (utc_midnight (?b (k + 1 + int i)))
          (utc_midnight (?b (k + 1 + int i + 1))) ob dp anchor \<and> ?b (k + 1 + int i) < e"
      using Suc.IH [of "k + 1"] by blast
    have lt: "?b k < ?b (k + 1)" using nth_boundary_less_iff [OF p] by simp
    let ?ps = "contract_service_period td (utc_midnight (?b k)) (utc_midnight (?b (k + 1))) ob dp anchor # ps"
    have "contract_periods_from td anchor e p ob dp k (Suc n) = Inr ?ps"
      using False ps lt by (simp add: Let_def step)
    moreover have "?ps ! i = contract_service_period td (utc_midnight (?b (k + int i)))
          (utc_midnight (?b (k + int i + 1))) ob dp anchor \<and> ?b (k + int i) < e"
      if "i < length ?ps" for i
    proof (cases i)
      case 0
      with False show ?thesis by simp
    next
      case (Suc j)
      have "k + int (Suc j) = k + 1 + int j" by simp
      with Suc that nth show ?thesis by (simp only: nth_Cons_Suc) simp
    qed
    moreover have "length ?ps < Suc n \<longrightarrow> e \<le> ?b (k + int (length ?ps))"
      using len(2) by (simp add: add.assoc)
    ultimately show ?thesis using len(1) by (intro exI [of _ ?ps]) auto
  qed
qed

lemma contract_service_periods_tile:
  assumes p: "0 < p"
    and nth: "\<forall>i < length ps. ps ! i = contract_service_period td
          (utc_midnight (nth_boundary td a p (k + int i)))
          (utc_midnight (nth_boundary td a p (k + int i + 1))) ob dp anchor"
  shows "tiles (nth_boundary td a p k) ps (nth_boundary td a p (k + int (length ps)))"
  using nth
proof (induction ps arbitrary: k)
  case Nil
  show ?case by simp
next
  case (Cons sp ps)
  have "k + int (Suc i) = k + 1 + int i" for i by simp
  then have "\<forall>i < length ps. ps ! i = contract_service_period td
          (utc_midnight (nth_boundary td a p (k + 1 + int i)))
          (utc_midnight (nth_boundary td a p (k + 1 + int i + 1))) ob dp anchor"
    using Cons.prems by (metis Suc_less_eq length_Cons nth_Cons_Suc)
  note tail = Cons.IH [OF this]
  have "sp = contract_service_period td (utc_midnight (nth_boundary td a p k))
          (utc_midnight (nth_boundary td a p (k + 1))) ob dp anchor"
    using Cons.prems by force
  with tail nth_boundary_less_iff [OF p, of a k "k + 1"] show ?case
    by (simp add: contract_service_period_def add.assoc)
qed

lemma contract_window_at:
  fixes dp :: due_position and j :: int
  assumes p: "0 < p" and j: "0 \<le> j"
  defines "base \<equiv> (if dp = Arrears then j + 1 else j)"
  shows "resolveContractCadenceInvoiceWindowForServicePeriod td
      (contract_service_period td (utc_midnight (nth_boundary td a p j))
        (utc_midnight (nth_boundary td a p (j + 1))) ob dp anchor) (utc_midnight a) p windowId
    = Inr \<lparr>range_start = utc_midnight (nth_boundary td a p base),
        range_end = utc_midnight (nth_boundary td a p (base + 1)), range_semantics = Half_Open,
        iw_cadence_owner = Contract, iw_due_position = dp, iw_window_id = windowId\<rparr>"
proof (cases dp)
  case Advance
  then show ?thesis using p
    by (simp add: resolveContractCadenceInvoiceWindowForServicePeriod_def contract_service_period_def
        base_def)
next
  case Arrears
  let ?b = "nth_boundary td a p"
  note mono = nth_boundary_less_iff [OF p, of a]
  obtain k where k: "resolveBoundaryIndexAtOrBefore td a (?b j) p = Inr k"
    "?b j < ?b (k + 1)" "a \<le> ?b j \<Longrightarrow> ?b k \<le> ?b j"
    using resolve_index_spec [OF p, of a "?b j"] by metis
  have "\<not> ?b j < ?b 0" using j unfolding mono by simp
  then have "\<not> ?b j < ?b k" using k(3) by simp
  then have "\<not> j < k" unfolding mono .
  moreover have "j < k + 1" using k(2) unfolding mono .
  ultimately have idx: "resolveBoundaryIndexAtOrBefore td a (?b j) p = Inr j" using k(1) by simp
  have "?b (j + 1) < ?b (2 + j)" "?b (2 + j) = ?b (j + 2)" unfolding mono by (simp_all add: add.commute)
  moreover have "base + 1 = 2 + j" "base = j + 1" using Arrears by (simp_all add: base_def)
  ultimately show ?thesis
    using idx p Arrears by (simp add: resolveContractCadenceInvoiceWindowForServicePeriod_def
        contract_service_period_def Let_def)
qed

lemma build_contract_spec:
  assumes p: "0 < p" and range: "s < e" "a < e"
  obtains ps k where
    "buildContractCadenceServicePeriods td (utc_midnight s) (utc_midnight e) ob dp (utc_midnight a)
       maxPeriods p = Inr ps"
    "0 \<le> k" "s < nth_boundary td a p (k + 1)" "a \<le> s \<Longrightarrow> nth_boundary td a p k \<le> s" "s \<le> a \<Longrightarrow> k = 0"
    "length ps \<le> contract_period_limit maxPeriods" "length ps < contract_period_limit maxPeriods \<Longrightarrow> e \<le> nth_boundary td a p (k + int (length ps))"
    "\<forall>i < length ps. ps ! i = contract_service_period td
          (utc_midnight (nth_boundary td a p (k + int i)))
          (utc_midnight (nth_boundary td a p (k + int i + 1))) ob dp (utc_midnight a)
        \<and> nth_boundary td a p (k + int i) < e"
proof -
  obtain k where k: "resolveBoundaryIndexAtOrBefore td a s p = Inr k" "0 \<le> k"
    "s < nth_boundary td a p (k + 1)" "a \<le> s \<Longrightarrow> nth_boundary td a p k \<le> s" "s \<le> a \<Longrightarrow> k = 0"
    using resolve_index_spec [OF p] by blast
  obtain ps where ps: "contract_periods_from td (utc_midnight a) e p ob dp k (contract_period_limit maxPeriods) = Inr ps"
    "length ps \<le> contract_period_limit maxPeriods" "length ps < contract_period_limit maxPeriods \<longrightarrow> e \<le> nth_boundary td a p (k + int (length ps))"
    "\<forall>i < length ps. ps ! i = contract_service_period td
          (utc_midnight (nth_boundary td a p (k + int i)))
          (utc_midnight (nth_boundary td a p (k + int i + 1))) ob dp (utc_midnight a)
        \<and> nth_boundary td a p (k + int i) < e"
    using contract_periods_from_spec [OF p, of "utc_midnight a" e ob dp k "contract_period_limit maxPeriods"] by auto
  have "buildContractCadenceServicePeriods td (utc_midnight s) (utc_midnight e) ob dp (utc_midnight a)
       maxPeriods p = Inr ps"
    using range k(1) ps(1) by (simp add: buildContractCadenceServicePeriods_def)
  with k ps show ?thesis by (intro that) auto
qed

end

text \<open>
  Contract cadence generation over a range that reaches past the anchor returns periods that
  follow each other without gap or overlap, start at the anchor or at the last boundary at or
  before the range start, all meet the range, and cover it to its end unless the cap on their
  number is reached.
\<close>

theorem contract_periods_tile_range:
  assumes "iso_calendar td" "0 < p" "s < e" "a < e"
  shows "\<exists>ps first last.
      buildContractCadenceServicePeriods td (utc_midnight s) (utc_midnight e) ob dp (utc_midnight a)
        maxPeriods p = Inr ps
    \<and> tiles first ps last
    \<and> (a \<le> s \<longrightarrow> first \<le> s) \<and> (s \<le> a \<longrightarrow> first = a)
    \<and> length ps \<le> contract_period_limit maxPeriods
    \<and> (length ps < contract_period_limit maxPeriods \<longrightarrow> e \<le> last)
    \<and> (\<forall>sp \<in> set ps. s < iso_day (range_end sp) \<and> iso_day (range_start sp) < e)"
proof -
  let ?b = "nth_boundary td a p"
  obtain ps k where build: "buildContractCadenceServicePeriods td (utc_midnight s) (utc_midnight e)
      ob dp (utc_midnight a) maxPeriods p = Inr ps"
    and k: "s < ?b (k + 1)" "a \<le> s \<Longrightarrow> ?b k \<le> s" "s \<le> a \<Longrightarrow> k = 0"
    and len: "length ps \<le> contract_period_limit maxPeriods"
      "length ps < contract_period_limit maxPeriods \<Longrightarrow> e \<le> ?b (k + int (length ps))"
    and nth: "\<forall>i < length ps. ps ! i = contract_service_period td (utc_midnight (?b (k + int i)))
        (utc_midnight (?b (k + int i + 1))) ob dp (utc_midnight a) \<and> ?b (k + int i) < e"
    using iso_calendar.build_contract_spec [OF assms(1-4)] by metis
  have "tiles (?b k) ps (?b (k + int (length ps)))"
    by (rule iso_calendar.contract_service_periods_tile [OF assms(1,2)]) (use nth in blast)
  moreover have "s < iso_day (range_end sp) \<and> iso_day (range_start sp) < e" if sp: "sp \<in> set ps" for sp
  proof -
    obtain i where "i < length ps" "sp = ps ! i" using sp by (metis in_set_conv_nth)
    moreover have "?b (k + 1) \<le> ?b (k + int i + 1)"
      using iso_calendar.nth_boundary_less_iff [OF assms(1,2), of a "k + int i + 1" "k + 1"] by linarith
    ultimately show ?thesis using nth k(1) by (simp add: contract_service_period_def)
  qed
  moreover have "?b 0 = a" by (rule iso_calendar.nth_boundary_0 [OF assms(1)])
  ultimately show ?thesis using build k len by blast
qed

definition sample_obligation :: obligation_ref where
  "sample_obligation = \<lparr>ob_tenant = Some ''t1'', ob_id = ''line-1'', ob_type = Contract_Line,
     ob_charge_family = Fixed\<rparr>"

theorem contract_periods_tile_range_witness:
  "\<exists>ps first last. generateMonthlyContractCadenceServicePeriods gregorian (utc_midnight 20484)
       (utc_midnight 20600) sample_obligation Advance (utc_midnight 20470) None = Inr ps
     \<and> tiles first ps last \<and> first \<le> 20484"
  using contract_periods_tile_range [OF gregorian_is_calendar, of 1 20484 20600 20470
      sample_obligation Advance None]
  unfolding generateMonthlyContractCadenceServicePeriods_def by auto

text \<open>
  The invoice window of a generated contract period is the period itself when it is due in
  advance, and the range of the next generated period when it is due in arrears.
\<close>

theorem contract_invoice_window_range:
  assumes "iso_calendar td" "0 < p"
    and "buildContractCadenceServicePeriods td (utc_midnight s) (utc_midnight e) ob dp (utc_midnight a)
      maxPeriods p = Inr ps"
    and "Suc i < length ps"
  shows "\<exists>w. resolveContractCadenceInvoiceWindowForServicePeriod td (ps ! i) (utc_midnight a) p windowId
        = Inr w
      \<and> iw_due_position w = dp
      \<and> range_start w = range_start (ps ! (if dp = Arrears then Suc i else i))
      \<and> range_end w = range_end (ps ! (if dp = Arrears then Suc i else i))"
proof -
  let ?b = "nth_boundary td a p"
  have "s < e" "a < e"
    using assms(3,4) iso_calendar.ensureUtc_midnight [OF assms(1)]
    by (auto simp: buildContractCadenceServicePeriods_def result_simps split: if_splits)
  then obtain ps' k where "buildContractCadenceServicePeriods td (utc_midnight s) (utc_midnight e) ob dp
      (utc_midnight a) maxPeriods p = Inr ps'"
    and k: "0 \<le> k" and nth': "\<forall>i < length ps'. ps' ! i = contract_service_period td
        (utc_midnight (?b (k + int i))) (utc_midnight (?b (k + int i + 1))) ob dp (utc_midnight a)
        \<and> ?b (k + int i) < e"
    by (rule iso_calendar.build_contract_spec [OF assms(1,2), of s e a ob dp maxPeriods])
  with assms(3) have nth: "\<forall>i < length ps. ps ! i = contract_service_period td
        (utc_midnight (?b (k + int i))) (utc_midnight (?b (k + int i + 1))) ob dp (utc_midnight a)
        \<and> ?b (k + int i) < e" by simp
  have window: "resolveContractCadenceInvoiceWindowForServicePeriod td (ps ! i) (utc_midnight a) p windowId
    = Inr \<lparr>range_start = utc_midnight (?b (if dp = Arrears then k + int i + 1 else k + int i)),
        range_end = utc_midnight (?b ((if dp = Arrears then k + int i + 1 else k + int i) + 1)),
        range_semantics = Half_Open, iw_cadence_owner = Contract, iw_due_position = dp,
        iw_window_id = windowId\<rparr>"
    using nth assms(4) k iso_calendar.contract_window_at [OF assms(1,2), of "k + int i" a ob dp] by simp
  have "k + int (Suc i) = k + int i + 1" by simp
  with nth assms(4) have "ps ! Suc i = contract_service_period td (utc_midnight (?b (k + int i + 1)))
      (utc_midnight (?b (k + int i + 1 + 1))) ob dp (utc_midnight a)" by metis
  moreover have "ps ! i = contract_service_period td (utc_midnight (?b (k + int i)))
      (utc_midnight (?b (k + int i + 1))) ob dp (utc_midnight a)" using nth assms(4) by simp
  ultimately show ?thesis unfolding window by (simp add: contract_service_period_def)
qed

text \<open>Monthly from 2026-01-17: the period in hand is invoiced in arrears in the next one.\<close>

theorem contract_invoice_window_range_witness:
  "\<exists>ps w. buildContractCadenceServicePeriods gregorian (utc_midnight 20484) (utc_midnight 20550)
       sample_obligation Arrears (utc_midnight 20470) None 1 = Inr ps
     \<and> resolveContractCadenceInvoiceWindowForServicePeriod gregorian (ps ! 0) (utc_midnight 20470) 1 None
        = Inr w
     \<and> range_start w = range_start (ps ! 1) \<and> range_end w = range_end (ps ! 1)"
proof -
  have len: "(case buildContractCadenceServicePeriods gregorian (utc_midnight 20484)
      (utc_midnight 20550) sample_obligation Arrears (utc_midnight 20470) None 1 of
      Inl _ \<Rightarrow> False | Inr ps \<Rightarrow> Suc 0 < length ps)" by code_simp
  then obtain ps where ps: "buildContractCadenceServicePeriods gregorian (utc_midnight 20484)
      (utc_midnight 20550) sample_obligation Arrears (utc_midnight 20470) None 1 = Inr ps"
    "Suc 0 < length ps" by (auto split: sum.splits)
  from contract_invoice_window_range [OF gregorian_is_calendar _ this, of None] ps
  show ?thesis by auto
qed

text \<open>
  C40: the search for the boundary at or before a date always ends, although neither of its two loops has a
  bound, and finds the last boundary that is not after the date, or the anchor itself for a date before it.
\<close>

theorem boundary_search_terminates:
  assumes "iso_calendar td" "0 < monthsPerPeriod"
  shows "\<exists>k. resolveBoundaryIndexAtOrBefore td anchor target monthsPerPeriod = Inr k \<and> 0 \<le> k
    \<and> target < nth_boundary td anchor monthsPerPeriod (k + 1)
    \<and> (if anchor \<le> target then nth_boundary td anchor monthsPerPeriod k \<le> target else k = 0)"
proof -
  obtain k where "resolveBoundaryIndexAtOrBefore td anchor target monthsPerPeriod = Inr k" "0 \<le> k"
    "target < nth_boundary td anchor monthsPerPeriod (k + 1)"
    "anchor \<le> target \<Longrightarrow> nth_boundary td anchor monthsPerPeriod k \<le> target" "target \<le> anchor \<Longrightarrow> k = 0"
    using iso_calendar.resolve_index_spec [OF assms] by blast
  then show ?thesis by auto
qed

theorem boundary_search_terminates_witness:
  "\<exists>k. resolveBoundaryIndexAtOrBefore gregorian 20484 20513 1 = Inr k \<and> nth_boundary gregorian 20484 1 k \<le> 20513"
  using boundary_search_terminates [OF gregorian_is_calendar, of 1 20484 20513] by auto

end
