(* ===== verification/Client_Cadence.thy ===== *)
theory Client_Cadence
  imports Cycle_Anchors
begin

text \<open>
  \<open>shared/billingClients/clientCadenceServicePeriods.ts\<close>: service periods on the client's billing
  cycle. Historical cycles are taken over as they are; the gaps between them, and the range after
  them, are filled with the periods of the anchored or rolling cycle.
\<close>

section \<open>The generator\<close>

definition isValidHalfOpenRange :: "iso8601 \<Rightarrow> iso8601 \<Rightarrow> bool" where
  "isValidHalfOpenRange start finish \<longleftrightarrow> iso_day finish > iso_day start"

definition client_service_period ::
    "iso8601 \<Rightarrow> iso8601 \<Rightarrow> obligation_ref \<Rightarrow> due_position \<Rightarrow> service_period" where
  "client_service_period start finish sourceObligation duePosition =
     \<lparr>range_start = start, range_end = finish, range_semantics = Half_Open,
      sp_cadence_owner = Client, sp_due_position = duePosition,
      sp_source_obligation = sourceObligation, sp_timing_metadata = None\<rparr>"

record historical_cycle =
  hc_start :: iso8601
  hc_end :: iso8601
  hc_billing_cycle_id :: "string option"

definition midnight_cycle :: "temporal \<Rightarrow> historical_cycle \<Rightarrow> historical_cycle result" where
  "midnight_cycle td cycle =
     and_then (ensureUtcMidnightIsoDate td (hc_start cycle)) (\<lambda>start.
     and_then (ensureUtcMidnightIsoDate td (hc_end cycle)) (\<lambda>finish.
       Inr (cycle\<lparr>hc_start := start, hc_end := finish\<rparr>)))"

definition cycle_compare :: "historical_cycle \<Rightarrow> historical_cycle \<Rightarrow> int" where
  "cycle_compare left right = locale_compare (iso_day (hc_start left)) (iso_day (hc_start right))"

definition push_cycle :: "historical_cycle list \<Rightarrow> historical_cycle \<Rightarrow> historical_cycle list" where
  "push_cycle normalized cycle =
     (if normalized \<noteq> [] \<and> iso_day (hc_start cycle) < iso_day (hc_end (last normalized))
      then normalized else normalized @ [cycle])"

definition normalizeHistoricalCycles ::
    "temporal \<Rightarrow> historical_cycle list \<Rightarrow> historical_cycle list result" where
  "normalizeHistoricalCycles td cycles =
     and_then (traverse (midnight_cycle td) cycles) (\<lambda>cs.
       Inr (foldl push_cycle []
         (js_sort cycle_compare (filter (\<lambda>c. isValidHalfOpenRange (hc_start c) (hc_end c)) cs))))"

text \<open>
  The two loops of \<open>generateAnchoredPeriodsForGap\<close>; both make at most 100 iterations. \<open>seen\<close>
  holds the start and end of the periods pushed so far.
\<close>

definition MAX_GAP_ITERATIONS :: nat where
  "MAX_GAP_ITERATIONS = 100"

fun gap_from_boundary ::
    "temporal \<Rightarrow> billing_cycle \<Rightarrow> anchor_settings \<Rightarrow> obligation_ref \<Rightarrow> due_position \<Rightarrow> iso8601
       \<Rightarrow> (iso8601 \<times> iso8601) list \<Rightarrow> iso8601 \<Rightarrow> nat \<Rightarrow> service_period list result" where
  "gap_from_boundary td cycle anchor ob dp gapEnd seen cursor 0 = Inr []"
| "gap_from_boundary td cycle anchor ob dp gapEnd seen cursor (Suc n) =
     (if iso_day cursor \<ge> iso_day gapEnd then Inr []
      else and_then (getBillingPeriodForDate td cursor cycle anchor) (\<lambda>(_, nextBoundary).
        if iso_day nextBoundary \<le> iso_day cursor then Inl Client_Transition_Not_Advancing
        else and_then (gap_from_boundary td cycle anchor ob dp gapEnd
              ((cursor, nextBoundary) # seen) nextBoundary n) (\<lambda>generated.
            Inr ((if (cursor, nextBoundary) \<in> set seen then []
                  else [client_service_period cursor nextBoundary ob dp]) @ generated))))"

fun gap_from_period ::
    "temporal \<Rightarrow> billing_cycle \<Rightarrow> anchor_settings \<Rightarrow> obligation_ref \<Rightarrow> due_position \<Rightarrow> iso8601
       \<Rightarrow> (iso8601 \<times> iso8601) list \<Rightarrow> iso8601 \<Rightarrow> nat \<Rightarrow> service_period list result" where
  "gap_from_period td cycle anchor ob dp gapEnd seen cursor 0 = Inr []"
| "gap_from_period td cycle anchor ob dp gapEnd seen cursor (Suc n) =
     and_then (getBillingPeriodForDate td cursor cycle anchor) (\<lambda>(periodStart, periodEnd).
       if iso_day periodStart \<ge> iso_day gapEnd then Inr []
       else if iso_day periodEnd \<le> iso_day cursor then Inl Client_Not_Advancing
       else and_then (gap_from_period td cycle anchor ob dp gapEnd
             ((periodStart, periodEnd) # seen) periodEnd n) (\<lambda>generated.
           Inr ((if (periodStart, periodEnd) \<in> set seen then []
                 else [client_service_period periodStart periodEnd ob dp]) @ generated)))"

definition generateAnchoredPeriodsForGap ::
    "temporal \<Rightarrow> billing_cycle \<Rightarrow> iso8601 \<Rightarrow> iso8601 \<Rightarrow> obligation_ref \<Rightarrow> due_position
       \<Rightarrow> anchor_settings option \<Rightarrow> bool \<Rightarrow> service_period list result" where
  "generateAnchoredPeriodsForGap td cycle gapStart gapEnd ob dp anchorSettings treatGapStartAsBoundary =
     (if iso_day gapStart \<ge> iso_day gapEnd then Inr []
      else and_then (normalizeAnchorSettingsForCycle td cycle (or_else anchorSettings
          \<lparr>an_day_of_month = None, an_month_of_year = None, an_day_of_week = None,
           an_reference_date = None\<rparr>)) (\<lambda>anchor.
        if treatGapStartAsBoundary
        then gap_from_boundary td cycle anchor ob dp gapEnd [] gapStart MAX_GAP_ITERATIONS
        else gap_from_period td cycle anchor ob dp gapEnd [] gapStart MAX_GAP_ITERATIONS))"

text \<open>The loop over the historical cycles, with the periods so far and the cursor as its state.\<close>

fun historical_periods ::
    "temporal \<Rightarrow> billing_cycle \<Rightarrow> iso8601 \<Rightarrow> obligation_ref \<Rightarrow> due_position \<Rightarrow> anchor_settings option
       \<Rightarrow> (iso8601 \<Rightarrow> bool) \<Rightarrow> historical_cycle list \<Rightarrow> service_period list \<Rightarrow> iso8601
       \<Rightarrow> (service_period list \<times> iso8601) result" where
  "historical_periods td cycle rangeEnd ob dp anchorSettings hasBoundaryAt [] periods cursor =
     Inr (periods, cursor)"
| "historical_periods td cycle rangeEnd ob dp anchorSettings hasBoundaryAt (c # cs) periods cursor =
     (if iso_day (hc_end c) \<le> iso_day cursor
      then historical_periods td cycle rangeEnd ob dp anchorSettings hasBoundaryAt cs periods cursor
      else if iso_day (hc_start c) \<ge> iso_day rangeEnd then Inr (periods, cursor)
      else and_then (if iso_day (hc_start c) > iso_day cursor
            then generateAnchoredPeriodsForGap td cycle cursor (hc_start c) ob dp anchorSettings
              (periods \<noteq> [] \<or> hasBoundaryAt cursor)
            else Inr []) (\<lambda>gap.
          historical_periods td cycle rangeEnd ob dp anchorSettings hasBoundaryAt cs
            (periods @ gap @ [client_service_period (hc_start c) (hc_end c) ob dp]) (hc_end c)))"

definition generateClientCadenceServicePeriods ::
    "temporal \<Rightarrow> billing_cycle \<Rightarrow> iso8601 \<Rightarrow> iso8601 \<Rightarrow> obligation_ref \<Rightarrow> due_position
       \<Rightarrow> anchor_settings option \<Rightarrow> historical_cycle list \<Rightarrow> service_period list result" where
  "generateClientCadenceServicePeriods td cycle rangeStart rangeEnd ob dp anchorSettings
       historicalCycles =
     and_then (ensureUtcMidnightIsoDate td rangeStart) (\<lambda>rangeStart.
     and_then (ensureUtcMidnightIsoDate td rangeEnd) (\<lambda>rangeEnd.
     and_then (throw_if (\<not> isValidHalfOpenRange rangeStart rangeEnd) Client_Range_Invalid) (\<lambda>_.
     and_then (normalizeHistoricalCycles td historicalCycles) (\<lambda>normalizedHistorical.
       let hasHistoricalBoundaryAt =
             (\<lambda>date. \<exists>c \<in> set normalizedHistorical. iso_day (hc_end c) = iso_day date)
       in and_then (historical_periods td cycle rangeEnd ob dp anchorSettings
            hasHistoricalBoundaryAt normalizedHistorical [] rangeStart) (\<lambda>(periods, cursor).
          and_then (generateAnchoredPeriodsForGap td cycle cursor rangeEnd ob dp anchorSettings
              (periods \<noteq> [] \<or> hasHistoricalBoundaryAt cursor)) (\<lambda>rest.
            Inr (periods @ rest)))))))"

definition clientCadenceBoundaryGenerator ::
    "temporal \<Rightarrow> iso8601 \<Rightarrow> iso8601 \<Rightarrow> obligation_ref \<Rightarrow> due_position \<Rightarrow> service_period list result" where
  "clientCadenceBoundaryGenerator td rangeStart rangeEnd ob dp =
     generateClientCadenceServicePeriods td Monthly rangeStart rangeEnd ob dp None []"

section \<open>Correctness\<close>

text \<open>
  Over a schedule, the two loops emit a ladder of periods from where they start, and stop at or
  past the end of the gap when they have iterations left. \<open>seen\<close> never suppresses a period.
\<close>

locale client_schedule = iso_calendar td + period_schedule "period_at td cycle anchor"
  for td :: temporal and cycle :: billing_cycle and anchor :: anchor_settings
begin

lemma period_of_midnight:
  "\<exists>s e. getBillingPeriodForDate td (utc_midnight d) cycle anchor = Inr (utc_midnight s, utc_midnight e)
     \<and> period_at td cycle anchor d = Inr (s, e) \<and> s \<le> d \<and> d < e"
  using period_contains [of d]
  by (auto simp: getBillingPeriodForDate_midnight [OF iso_calendar_axioms])

lemma gap_from_boundary_spec:
  assumes "\<forall>(s, e) \<in> set seen. iso_day s < d"
  shows "\<exists>ps b. gap_from_boundary td cycle anchor ob dp gapEnd seen (utc_midnight d) n = Inr ps
     \<and> tiles d ps b \<and> length ps \<le> n \<and> (length ps < n \<longrightarrow> iso_day gapEnd \<le> b)"
  using assms
proof (induction n arbitrary: seen d)
  case 0
  show ?case by (simp add: exI [of _ d])
next
  case (Suc n)
  show ?case
  proof (cases "iso_day gapEnd \<le> d")
    case True
    then show ?thesis by (simp add: exI [of _ d])
  next
    case False
    obtain s e where se: "getBillingPeriodForDate td (utc_midnight d) cycle anchor
        = Inr (utc_midnight s, utc_midnight e)" "d < e"
      using period_of_midnight by blast
    from Suc.prems se(2) have "\<forall>(s, e') \<in> set ((utc_midnight d, utc_midnight e) # seen). iso_day s < e"
      by fastforce
    from Suc.IH [OF this] obtain ps b where ps: "gap_from_boundary td cycle anchor ob dp gapEnd
        ((utc_midnight d, utc_midnight e) # seen) (utc_midnight e) n = Inr ps"
      "tiles e ps b" "length ps \<le> n" "length ps < n \<longrightarrow> iso_day gapEnd \<le> b"
      by blast
    have "(utc_midnight d, utc_midnight e) \<notin> set seen" using Suc.prems by fastforce
    with se ps(1) False have "gap_from_boundary td cycle anchor ob dp gapEnd seen (utc_midnight d) (Suc n)
        = Inr (client_service_period (utc_midnight d) (utc_midnight e) ob dp # ps)"
      by simp
    with ps(2-) se(2) show ?thesis
      by (intro exI [of _ "client_service_period (utc_midnight d) (utc_midnight e) ob dp # ps"]
          exI [of _ b]) (simp add: client_service_period_def)
  qed
qed

text \<open>A period of the schedule that starts where it is looked up.\<close>

definition on_schedule :: "obligation_ref \<Rightarrow> due_position \<Rightarrow> service_period \<Rightarrow> bool" where
  "on_schedule ob dp p \<longleftrightarrow> (\<exists>s e. p = client_service_period (utc_midnight s) (utc_midnight e) ob dp
     \<and> period_at td cycle anchor s = Inr (s, e))"

lemma gap_from_period_spec:
  assumes "\<forall>(s, e) \<in> set seen. iso_day s < d" and "period_at td cycle anchor d = Inr (d, e0)"
  shows "\<exists>ps b. gap_from_period td cycle anchor ob dp gapEnd seen (utc_midnight d) n = Inr ps
     \<and> tiles d ps b \<and> length ps \<le> n \<and> (length ps < n \<longrightarrow> iso_day gapEnd \<le> b)
     \<and> (\<forall>p \<in> set ps. on_schedule ob dp p)"
  using assms
proof (induction n arbitrary: seen d e0)
  case 0
  show ?case by (simp add: exI [of _ d])
next
  case (Suc n)
  have period: "getBillingPeriodForDate td (utc_midnight d) cycle anchor
      = Inr (utc_midnight d, utc_midnight e0)"
    using Suc.prems(2) by (simp add: getBillingPeriodForDate_midnight [OF iso_calendar_axioms])
  have lt: "d < e0" using period_bounds [OF Suc.prems(2)] by simp
  obtain e' where next_period: "period_at td cycle anchor e0 = Inr (e0, e')"
    using period_chains [OF Suc.prems(2)] by blast
  show ?case
  proof (cases "iso_day gapEnd \<le> d")
    case True
    with period show ?thesis by (simp add: exI [of _ d])
  next
    case False
    from Suc.prems(1) lt have "\<forall>(s, e') \<in> set ((utc_midnight d, utc_midnight e0) # seen). iso_day s < e0"
      by fastforce
    from Suc.IH [OF this next_period] obtain ps b where
      ps: "gap_from_period td cycle anchor ob dp gapEnd
        ((utc_midnight d, utc_midnight e0) # seen) (utc_midnight e0) n = Inr ps"
      "tiles e0 ps b" "length ps \<le> n" "length ps < n \<longrightarrow> iso_day gapEnd \<le> b"
      "\<forall>p \<in> set ps. on_schedule ob dp p"
      by blast
    have "on_schedule ob dp (client_service_period (utc_midnight d) (utc_midnight e0) ob dp)"
      using Suc.prems(2) by (auto simp: on_schedule_def)
    note ps = ps this
    have "(utc_midnight d, utc_midnight e0) \<notin> set seen" using Suc.prems(1) by fastforce
    with period lt ps(1) False have "gap_from_period td cycle anchor ob dp gapEnd seen (utc_midnight d) (Suc n)
        = Inr (client_service_period (utc_midnight d) (utc_midnight e0) ob dp # ps)"
      by simp
    with ps(2-) lt show ?thesis
      by (intro exI [of _ "client_service_period (utc_midnight d) (utc_midnight e0) ob dp # ps"]
          exI [of _ b]) (simp add: client_service_period_def)
  qed
qed

text \<open>The first period of an open gap may start before it; the walk then goes on from its end.\<close>

lemma gap_from_any_date_spec:
  assumes "d < iso_day gapEnd" "0 < n"
  shows "\<exists>ps a b. gap_from_period td cycle anchor ob dp gapEnd [] (utc_midnight d) n = Inr ps
     \<and> a \<le> d \<and> d < b \<and> tiles a ps b \<and> length ps \<le> n \<and> (length ps < n \<longrightarrow> iso_day gapEnd \<le> b)
     \<and> (\<exists>s e qs. ps = client_service_period (utc_midnight s) (utc_midnight e) ob dp # qs
        \<and> period_at td cycle anchor d = Inr (s, e) \<and> (\<forall>q \<in> set qs. on_schedule ob dp q))"
proof -
  obtain m where n: "n = Suc m" using assms(2) by (cases n) simp_all
  obtain s e where se: "period_at td cycle anchor d = Inr (s, e)" "s \<le> d" "d < e"
    using period_contains [of d] by blast
  then have period: "getBillingPeriodForDate td (utc_midnight d) cycle anchor
      = Inr (utc_midnight s, utc_midnight e)"
    by (simp add: getBillingPeriodForDate_midnight [OF iso_calendar_axioms])
  obtain e' where next_period: "period_at td cycle anchor e = Inr (e, e')"
    using period_chains [OF se(1)] by blast
  have "\<forall>(s', e') \<in> set [(utc_midnight s, utc_midnight e)]. iso_day s' < e" using se by simp
  from gap_from_period_spec [OF this next_period] obtain ps b where
    ps: "gap_from_period td cycle anchor ob dp gapEnd [(utc_midnight s, utc_midnight e)]
        (utc_midnight e) m = Inr ps"
      "tiles e ps b" "length ps \<le> m" "length ps < m \<longrightarrow> iso_day gapEnd \<le> b"
      "\<forall>p \<in> set ps. on_schedule ob dp p"
    by blast
  have "gap_from_period td cycle anchor ob dp gapEnd [] (utc_midnight d) n
      = Inr (client_service_period (utc_midnight s) (utc_midnight e) ob dp # ps)"
    using period se ps(1) assms(1) n by simp
  then show ?thesis
    using ps(2-) se n tiles_le [OF ps(2)]
    by (intro exI [of _ "client_service_period (utc_midnight s) (utc_midnight e) ob dp # ps"]
        exI [of _ s] exI [of _ b]) (simp add: client_service_period_def)
qed

end

interpretation default_monthly_client: client_schedule gregorian Monthly
    "getAnchorDefaultsForCycle Monthly"
  by (intro client_schedule.intro gregorian_is_calendar period_at_schedule)
    (simp_all add: anchor_ok_def month_aligned_def getAnchorDefaultsForCycle_def)

lemma client_scheduleI:
  assumes "iso_calendar td" "normalizeAnchorSettingsForCycle td cycle input = Inr anchor"
    and "month_aligned cycle anchor"
  shows "client_schedule td cycle anchor"
  using assms by (intro client_schedule.intro period_at_schedule iso_calendar.normalize_anchor_ok)










definition unset_anchor :: anchor_settings where
  "unset_anchor = \<lparr>an_day_of_month = None, an_month_of_year = None, an_day_of_week = None,
     an_reference_date = None\<rparr>"

lemma generate_without_history:
  assumes "iso_calendar td" "normalizeAnchorSettingsForCycle td cycle (or_else settings unset_anchor) = Inr anchor"
    and "s < e"
  shows "generateClientCadenceServicePeriods td cycle (utc_midnight s) (utc_midnight e) ob dp settings []
    = gap_from_period td cycle anchor ob dp (utc_midnight e) [] (utc_midnight s) MAX_GAP_ITERATIONS"
proof -
  have unit: "and_then m Inr = m" for m :: "service_period list result" by (cases m) simp_all
  show ?thesis
    using assms(2,3) iso_calendar.ensureUtc_midnight [OF assms(1)]
    by (simp add: generateClientCadenceServicePeriods_def isValidHalfOpenRange_def unit
        normalizeHistoricalCycles_def generateAnchoredPeriodsForGap_def unset_anchor_def)
qed

text \<open>
  Without historical cycles, client cadence generation returns periods that follow each other
  without gap or overlap from the period that contains the range start, and cover the range to its
  end unless the hundred iterations of the loop are used up.
\<close>

theorem client_periods_tile_range:
  assumes "iso_calendar td" "normalizeAnchorSettingsForCycle td cycle (or_else settings unset_anchor) = Inr anchor"
    and "month_aligned cycle anchor" "s < e"
  shows "\<exists>ps a b.
      generateClientCadenceServicePeriods td cycle (utc_midnight s) (utc_midnight e) ob dp settings []
        = Inr ps
    \<and> tiles a ps b \<and> a \<le> s \<and> s < b
    \<and> length ps \<le> MAX_GAP_ITERATIONS \<and> (length ps < MAX_GAP_ITERATIONS \<longrightarrow> e \<le> b)"
proof -
  have sched: "client_schedule td cycle anchor" using assms(1-3) by (rule client_scheduleI)
  obtain ps a b where ps: "gap_from_period td cycle anchor ob dp (utc_midnight e) [] (utc_midnight s)
      MAX_GAP_ITERATIONS = Inr ps"
    "a \<le> s" "s < b" "tiles a ps b" "length ps \<le> MAX_GAP_ITERATIONS"
    "length ps < MAX_GAP_ITERATIONS \<longrightarrow> e \<le> b"
    using client_schedule.gap_from_any_date_spec [OF sched, of s "utc_midnight e" MAX_GAP_ITERATIONS ob dp]
      assms(4) by (auto simp: MAX_GAP_ITERATIONS_def)
  moreover have "generateClientCadenceServicePeriods td cycle (utc_midnight s) (utc_midnight e) ob dp settings []
      = Inr ps"
    unfolding generate_without_history [OF assms(1,2,4)] by (rule ps(1))
  ultimately show ?thesis by blast
qed

theorem client_periods_tile_range_witness:
  "\<exists>ps a b. generateClientCadenceServicePeriods gregorian Bi_Weekly (utc_midnight 20473)
      (utc_midnight 20499) \<lparr>ob_tenant = None, ob_id = ''line-1'', ob_type = Contract_Line,
        ob_charge_family = Fixed\<rparr> Advance
      (Some (unset_anchor\<lparr>an_reference_date := Some (utc_midnight 20455)\<rparr>)) [] = Inr ps
    \<and> tiles a ps b \<and> a \<le> 20473 \<and> 20473 < b"
proof -
  let ?settings = "unset_anchor\<lparr>an_reference_date := Some (utc_midnight 20455)\<rparr>"
  have "normalizeAnchorSettingsForCycle gregorian Bi_Weekly (or_else (Some ?settings) unset_anchor)
      = Inr ?settings" by code_simp
  moreover have "month_aligned Bi_Weekly ?settings" by (simp add: month_aligned_def)
  ultimately show ?thesis
    using client_periods_tile_range [OF gregorian_is_calendar, of Bi_Weekly "Some ?settings" ?settings
        20473 20499] by fastforce
qed



text \<open>
  When a historical cycle starts inside an anchored period, the gap before it is filled with
  whole periods: the generated [2026-01-01, 2026-02-01) overlaps the kept [2026-01-15, 2026-02-01).
\<close>

theorem client_history_gap_overlaps:
  "let ob = \<lparr>ob_tenant = None, ob_id = ''line-1'', ob_type = Contract_Line, ob_charge_family = Fixed\<rparr>
   in generateClientCadenceServicePeriods gregorian Monthly (utc_midnight 20454) (utc_midnight 20513)
       ob Advance None
       [\<lparr>hc_start = utc_midnight 20468, hc_end = utc_midnight 20485, hc_billing_cycle_id = None\<rparr>]
     = Inr [client_service_period (utc_midnight 20454) (utc_midnight 20485) ob Advance,
            client_service_period (utc_midnight 20468) (utc_midnight 20485) ob Advance,
            client_service_period (utc_midnight 20485) (utc_midnight 20513) ob Advance]"
  by code_simp

end
