(* ===== verification/Generation_Horizon.thy ===== *)
theory Generation_Horizon
  imports Recurring_Types
begin

text \<open>
  \<open>shared/billingClients/recurringServicePeriodGenerationHorizon.ts\<close>: how far ahead periods are
  generated, when generation is due again, and the gaps and overlaps of a ladder of periods.
  \<open>shared/billingClients/recurringServicePeriodKeys.ts\<close>: the text keys of schedules and periods.
\<close>

section \<open>Keys\<close>

definition obligation_type_text :: "obligation_type \<Rightarrow> string" where
  "obligation_type_text t = (case t of Contract_Line \<Rightarrow> ''contract_line''
     | Client_Contract_Line \<Rightarrow> ''client_contract_line'' | Template_Line \<Rightarrow> ''template_line''
     | Preset_Line \<Rightarrow> ''preset_line'')"

definition cadence_owner_text :: "cadence_owner \<Rightarrow> string" where
  "cadence_owner_text c = (case c of Client \<Rightarrow> ''client'' | Contract \<Rightarrow> ''contract'')"

definition due_position_text :: "due_position \<Rightarrow> string" where
  "due_position_text d = (case d of Advance \<Rightarrow> ''advance'' | Arrears \<Rightarrow> ''arrears'')"

definition buildRecurringServicePeriodScheduleKey ::
    "obligation_ref \<Rightarrow> cadence_owner \<Rightarrow> due_position \<Rightarrow> string" where
  "buildRecurringServicePeriodScheduleKey ob owner dp =
     ''schedule:'' @ or_else (ob_tenant ob) ''undefined'' @ '':''
       @ obligation_type_text (ob_type ob) @ '':'' @ ob_id ob @ '':''
       @ cadence_owner_text owner @ '':'' @ due_position_text dp"

definition buildRecurringServicePeriodPeriodKey ::
    "temporal \<Rightarrow> ('a date_range_scheme) \<Rightarrow> string" where
  "buildRecurringServicePeriodPeriodKey td period =
     ''period:'' @ plain_text td (iso_day (range_start period)) @ '':''
       @ plain_text td (iso_day (range_end period))"

section \<open>The horizon\<close>

definition DEFAULT_RECURRING_SERVICE_PERIOD_GENERATION_HORIZON_DAYS :: int where
  "DEFAULT_RECURRING_SERVICE_PERIOD_GENERATION_HORIZON_DAYS = 180"

definition DEFAULT_RECURRING_SERVICE_PERIOD_REPLENISHMENT_THRESHOLD_DAYS :: int where
  "DEFAULT_RECURRING_SERVICE_PERIOD_REPLENISHMENT_THRESHOLD_DAYS = 45"

datatype continuity_issue_kind = Gap | Overlap

record continuity_issue =
  ci_kind :: continuity_issue_kind
  ci_previous_end :: iso8601
  ci_next_start :: iso8601

record horizon_window =
  hz_as_of :: iso8601
  hz_target_horizon_end :: iso8601
  hz_replenishment_threshold_end :: iso8601
  hz_target_horizon_days :: int
  hz_replenishment_threshold_days :: int

record coverage_status = horizon_window +
  cv_furthest_generated_end :: "iso8601 option"
  cv_meets_target_horizon :: bool
  cv_needs_replenishment :: bool
  cv_continuity_issues :: "continuity_issue list"

text \<open>A date with a time of its own makes \<open>`${date}T00:00:00.000Z`\<close> an invalid date.\<close>

definition addDays :: "iso8601 \<Rightarrow> int \<Rightarrow> iso8601 result" where
  "addDays date days =
     (if iso_time date = [] then Inr (date_only (iso_day date + days)) else Inl Invalid_Time_Value)"

definition positive_or :: "int option \<Rightarrow> int \<Rightarrow> int" where
  "positive_or v d = (case v of Some n \<Rightarrow> if n > 0 then n else d | None \<Rightarrow> d)"

definition resolveRecurringServicePeriodGenerationHorizon ::
    "iso8601 \<Rightarrow> int option \<Rightarrow> int option \<Rightarrow> horizon_window result" where
  "resolveRecurringServicePeriodGenerationHorizon asOf targetDays thresholdDays =
     (let targetHorizonDays = positive_or targetDays
            DEFAULT_RECURRING_SERVICE_PERIOD_GENERATION_HORIZON_DAYS;
          replenishmentThresholdDays = positive_or thresholdDays
            DEFAULT_RECURRING_SERVICE_PERIOD_REPLENISHMENT_THRESHOLD_DAYS
      in and_then (throw_if (replenishmentThresholdDays \<ge> targetHorizonDays)
           Threshold_Not_Below_Horizon) (\<lambda>_.
         and_then (addDays asOf targetHorizonDays) (\<lambda>targetEnd.
         and_then (addDays asOf replenishmentThresholdDays) (\<lambda>thresholdEnd.
           Inr \<lparr>hz_as_of = asOf, hz_target_horizon_end = targetEnd,
                hz_replenishment_threshold_end = thresholdEnd,
                hz_target_horizon_days = targetHorizonDays,
                hz_replenishment_threshold_days = replenishmentThresholdDays\<rparr>))))"

section \<open>Continuity\<close>

definition period_compare :: "date_range \<Rightarrow> date_range \<Rightarrow> int" where
  "period_compare left right =
     (if range_start left = range_start right
      then locale_compare (range_end left) (range_end right)
      else locale_compare (range_start left) (range_start right))"

fun adjacent_issues :: "date_range list \<Rightarrow> continuity_issue list" where
  "adjacent_issues (previous # current # rest) =
     (if range_end previous < range_start current
      then [\<lparr>ci_kind = Gap, ci_previous_end = range_end previous,
             ci_next_start = range_start current\<rparr>]
      else if range_end previous > range_start current
      then [\<lparr>ci_kind = Overlap, ci_previous_end = range_end previous,
             ci_next_start = range_start current\<rparr>]
      else []) @ adjacent_issues (current # rest)"
| "adjacent_issues _ = []"

definition findRecurringServicePeriodContinuityIssues ::
    "date_range list \<Rightarrow> continuity_issue list" where
  "findRecurringServicePeriodContinuityIssues futurePeriods =
     adjacent_issues (js_sort period_compare futurePeriods)"

definition furthest_end :: "date_range list \<Rightarrow> iso8601 option" where
  "furthest_end periods = (if periods = [] then None
     else Some (range_end (last (js_sort (\<lambda>l r. locale_compare (range_end l) (range_end r)) periods))))"

definition assessRecurringServicePeriodGenerationCoverage ::
    "iso8601 \<Rightarrow> int option \<Rightarrow> int option \<Rightarrow> date_range list \<Rightarrow> coverage_status result" where
  "assessRecurringServicePeriodGenerationCoverage asOf targetDays thresholdDays futurePeriods =
     and_then (resolveRecurringServicePeriodGenerationHorizon asOf targetDays thresholdDays) (\<lambda>horizon.
       let furthest = furthest_end futurePeriods
       in Inr \<lparr>hz_as_of = hz_as_of horizon,
            hz_target_horizon_end = hz_target_horizon_end horizon,
            hz_replenishment_threshold_end = hz_replenishment_threshold_end horizon,
            hz_target_horizon_days = hz_target_horizon_days horizon,
            hz_replenishment_threshold_days = hz_replenishment_threshold_days horizon,
            cv_furthest_generated_end = furthest,
            cv_meets_target_horizon = (case furthest of None \<Rightarrow> False
              | Some e \<Rightarrow> e \<ge> hz_target_horizon_end horizon),
            cv_needs_replenishment = (case furthest of None \<Rightarrow> True
              | Some e \<Rightarrow> e \<le> hz_replenishment_threshold_end horizon),
            cv_continuity_issues = findRecurringServicePeriodContinuityIssues futurePeriods\<rparr>)"

section \<open>Correctness\<close>

interpretation period_order: comparator period_compare
  by unfold_locales (auto simp: period_compare_def split: if_splits)

interpretation end_order: comparator "\<lambda>l r. locale_compare (range_end l) (range_end (r :: date_range))"
  by unfold_locales auto

lemma adjacent_issues_Nil_iff:
  "adjacent_issues ps = [] \<longleftrightarrow> successively (\<lambda>p q. range_end p = range_start q) ps"
  by (induction ps rule: adjacent_issues.induct) auto

text \<open>Whole-day ranges: date-only, not empty.\<close>

definition whole_days :: "date_range \<Rightarrow> bool" where
  "whole_days p \<longleftrightarrow> iso_time (range_start p) = [] \<and> iso_time (range_end p) = []
     \<and> iso_day (range_start p) < iso_day (range_end p)"

lemma whole_days_eq:
  "whole_days p \<Longrightarrow> whole_days q \<Longrightarrow> range_end p = range_start q \<longleftrightarrow> iso_day (range_end p) = iso_day (range_start q)"
  by (auto simp: whole_days_def intro: iso8601.expand)

lemma tiles_successively:
  "list_all whole_days ps \<Longrightarrow> ps \<noteq> [] \<Longrightarrow>
   successively (\<lambda>p q. range_end p = range_start q) ps \<longleftrightarrow> (\<exists>b. tiles (iso_day (range_start (hd ps))) ps b)"
proof (induction ps)
  case (Cons p ps)
  show ?case
  proof (cases ps)
    case Nil
    with Cons.prems show ?thesis by (simp add: whole_days_def)
  next
    case (Cons q qs)
    with Cons.prems Cons.IH whole_days_eq [of p q] show ?thesis
      by (auto simp: whole_days_def)
  qed
qed simp

lemma tiles_sorted:
  assumes "tiles a ps b"
  shows "sorted_wrt (\<lambda>p q. period_compare p q \<le> 0) ps"
  using assms
proof (induction ps arbitrary: a)
  case (Cons p ps)
  from Cons.prems have ps: "tiles (iso_day (range_end p)) ps b"
    "iso_day (range_start p) < iso_day (range_end p)" by simp_all
  have "iso_day (range_start p) < iso_day (range_start q)" if "q \<in> set ps" for q
    using tiles_member [OF ps(1) that] ps(2) by linarith
  then have "\<forall>q \<in> set ps. period_compare p q \<le> 0"
    by (fastforce simp: period_compare_def less_eq_iso8601_def)
  with Cons show ?case by auto
qed simp

lemma furthest_end_iff:
  "(\<exists>e. furthest_end ps = Some e \<and> v \<le> e) \<longleftrightarrow> (\<exists>p \<in> set ps. v \<le> range_end p)"
proof (cases "ps = []")
  case False
  let ?ys = "js_sort (\<lambda>l r. locale_compare (range_end l) (range_end r)) ps"
  have ne: "?ys \<noteq> []" using False by simp
  have mem: "last ?ys \<in> set ps" using last_in_set [OF ne] by simp
  have "range_end p \<le> range_end (last ?ys)" if "p \<in> set ps" for p
  proof -
    have "sorted_wrt (\<lambda>x y. locale_compare (range_end x) (range_end y) \<le> 0) (butlast ?ys @ [last ?ys])"
      using end_order.sorted_js_sort [of ps] ne by simp
    moreover have "p \<in> set (butlast ?ys @ [last ?ys])" using that ne by simp
    ultimately show ?thesis by (auto simp: sorted_wrt_append)
  qed
  with mem False show ?thesis by (auto simp: furthest_end_def intro: order_trans)
qed (simp add: furthest_end_def)

lemma furthest_end_Some:
  assumes "furthest_end ps = Some e"
  shows "e \<in> range_end ` set ps" "\<forall>p \<in> set ps. range_end p \<le> e"
proof -
  let ?ys = "js_sort (\<lambda>l r. locale_compare (range_end l) (range_end r)) ps"
  from assms have "ps \<noteq> []" and e: "e = range_end (last ?ys)"
    by (simp_all add: furthest_end_def split: if_splits)
  then have "last ?ys \<in> set ps" using last_in_set [of ?ys] by simp
  then show "e \<in> range_end ` set ps" unfolding e by (rule imageI)
  show "\<forall>p \<in> set ps. range_end p \<le> e"
  proof
    fix p
    assume "p \<in> set ps"
    then show "range_end p \<le> e" using furthest_end_iff [of ps "range_end p"] assms by auto
  qed
qed

lemma furthest_end_None: "furthest_end ps = None \<longleftrightarrow> ps = []"
  by (simp add: furthest_end_def)

context iso_calendar
begin

lemma plain_text_inj:
  assumes "0 \<le> pd_year td d" "pd_year td d \<le> 9999" "0 \<le> pd_year td e" "pd_year td e \<le> 9999"
  shows "plain_text td d = plain_text td e \<longleftrightarrow> d = e"
proof
  assume "plain_text td d = plain_text td e"
  then have pads: "pad4 (pd_year td d) = pad4 (pd_year td e)" "pad2 (pd_month td d) = pad2 (pd_month td e)"
    "pad2 (pd_day td d) = pad2 (pd_day td e)"
    by (simp_all add: plain_text_def pad4_def pad2_def)
  have month: "0 \<le> pd_month td x" "pd_month td x < 100" for x using month_range [of x] by linarith+
  have day: "0 \<le> pd_day td x" "pd_day td x < 100" for x using day_range [of x] by linarith+
  have year: "pd_year td d < 10000" "pd_year td e < 10000" using assms by linarith+
  have "pd_year td d = pd_year td e"
    by (rule pad4_inj [OF assms(1) year(1) assms(3) year(2), THEN iffD1, OF pads(1)])
  moreover have "pd_month td d = pd_month td e"
    by (rule pad2_inj [OF month month, THEN iffD1, OF pads(2)])
  moreover have "pd_day td d = pd_day td e"
    by (rule pad2_inj [OF day day, THEN iffD1, OF pads(3)])
  ultimately have "pd_year td d = pd_year td e" "pd_month td d = pd_month td e" "pd_day td d = pd_day td e"
    by simp_all
  then show "d = e" by - (rule date_eqI, simp_all add: month_index_def)
qed simp

lemma length_plain_text [simp]: "length (plain_text td d) = 10"
  by (simp add: plain_text_def pad4_def pad2_def)

end

lemma tiles_no_issues:
  assumes "tiles a ps b" "list_all whole_days ps"
  shows "findRecurringServicePeriodContinuityIssues ps = []"
proof (cases "ps = []")
  case False
  have "js_sort period_compare ps = ps" by (rule js_sort_sorted_id [OF tiles_sorted [OF assms(1)]])
  moreover have "iso_day (range_start (hd ps)) = a" using assms(1) False by (cases ps) auto
  ultimately show ?thesis
    using assms tiles_successively [OF assms(2) False]
    by (auto simp: findRecurringServicePeriodContinuityIssues_def adjacent_issues_Nil_iff)
qed (simp add: findRecurringServicePeriodContinuityIssues_def)

lemma horizon_bounds:
  assumes "resolveRecurringServicePeriodGenerationHorizon asOf targetDays thresholdDays = Inr hz"
  shows "iso_day (hz_target_horizon_end hz) = iso_day asOf + hz_target_horizon_days hz"
    and "iso_day (hz_replenishment_threshold_end hz) = iso_day asOf + hz_replenishment_threshold_days hz"
    and "hz_replenishment_threshold_end hz < hz_target_horizon_end hz"
    and "hz_target_horizon_end hz = date_only (iso_day (hz_target_horizon_end hz))"
  using assms
  by (auto simp: resolveRecurringServicePeriodGenerationHorizon_def addDays_def result_simps Let_def
      split: if_splits)

lemma assess_horizon:
  assumes "resolveRecurringServicePeriodGenerationHorizon asOf targetDays thresholdDays = Inr hz"
  obtains st where
    "assessRecurringServicePeriodGenerationCoverage asOf targetDays thresholdDays ps = Inr st"
    "horizon_window.truncate st = hz"
    "cv_meets_target_horizon st \<longleftrightarrow> (\<exists>p \<in> set ps. hz_target_horizon_end hz \<le> range_end p)"
    "cv_needs_replenishment st \<longleftrightarrow> (\<forall>p \<in> set ps. range_end p \<le> hz_replenishment_threshold_end hz)"
    "cv_continuity_issues st = findRecurringServicePeriodContinuityIssues ps"
proof -
  have meets: "(case furthest_end ps of None \<Rightarrow> False | Some e \<Rightarrow> v \<le> e) \<longleftrightarrow> (\<exists>p \<in> set ps. v \<le> range_end p)"
    for v using furthest_end_iff [of ps v] by (auto split: option.splits)
  have needs: "(case furthest_end ps of None \<Rightarrow> True | Some e \<Rightarrow> e \<le> v) \<longleftrightarrow> (\<forall>p \<in> set ps. range_end p \<le> v)"
    for v
  proof (cases "furthest_end ps")
    case None
    then have "ps = []" by (simp only: furthest_end_None)
    with None show ?thesis by simp
  next
    case (Some e)
    with furthest_end_Some [OF Some] show ?thesis by (auto intro: order_trans)
  qed
  obtain st where st: "assessRecurringServicePeriodGenerationCoverage asOf targetDays thresholdDays ps = Inr st"
    using assms by (simp add: assessRecurringServicePeriodGenerationCoverage_def Let_def)
  with assms show ?thesis
    by (intro that [OF st])
      (auto simp: assessRecurringServicePeriodGenerationCoverage_def Let_def meets needs horizon_window.defs)
qed

text \<open>
  C16: for whole-day periods, no continuity issue is reported exactly when the periods, sorted,
  follow each other without gap or overlap.
\<close>

theorem continuity_issues_iff_tiling:
  assumes "ps \<noteq> []" "list_all whole_days ps"
  shows "findRecurringServicePeriodContinuityIssues ps = []
     \<longleftrightarrow> (\<exists>a b. tiles a (js_sort period_compare ps) b)"
proof -
  let ?ys = "js_sort period_compare ps"
  have ys: "list_all whole_days ?ys" "?ys \<noteq> []" using assms by (simp_all add: list_all_iff)
  have "(\<exists>b. tiles (iso_day (range_start (hd ?ys))) ?ys b) \<longleftrightarrow> (\<exists>a b. tiles a ?ys b)"
    using ys(2) by (cases ?ys) auto
  then show ?thesis
    by (simp add: findRecurringServicePeriodContinuityIssues_def adjacent_issues_Nil_iff
        tiles_successively [OF ys])
qed

theorem continuity_issues_iff_tiling_witness:
  "let range = \<lambda>s e. \<lparr>range_start = date_only s, range_end = date_only e, range_semantics = Half_Open\<rparr>
   in findRecurringServicePeriodContinuityIssues [range 20485 20513, range 20454 20485] = []
    \<and> (\<exists>a b. tiles a (js_sort period_compare [range 20485 20513, range 20454 20485]) b)"
proof -
  let ?range = "\<lambda>s e. \<lparr>range_start = date_only s, range_end = date_only e, range_semantics = Half_Open\<rparr>"
  have "findRecurringServicePeriodContinuityIssues [?range 20485 20513, ?range 20454 20485] = []"
    by code_simp
  with continuity_issues_iff_tiling [of "[?range 20485 20513, ?range 20454 20485]"]
  show ?thesis by (simp add: whole_days_def)
qed

text \<open>
  The coverage status measures the horizon in days from its anchor date, meets it exactly when
  some period reaches it, and asks for replenishment exactly when none ends after the threshold,
  which lies strictly before the horizon.
\<close>

theorem coverage_status_correct:
  assumes "assessRecurringServicePeriodGenerationCoverage asOf targetDays thresholdDays ps = Inr st"
  shows "iso_day (hz_target_horizon_end st) = iso_day asOf + hz_target_horizon_days st
    \<and> iso_day (hz_replenishment_threshold_end st) = iso_day asOf + hz_replenishment_threshold_days st
    \<and> hz_replenishment_threshold_end st < hz_target_horizon_end st
    \<and> (cv_meets_target_horizon st \<longleftrightarrow> (\<exists>p \<in> set ps. hz_target_horizon_end st \<le> range_end p))
    \<and> (cv_needs_replenishment st \<longleftrightarrow> (\<forall>p \<in> set ps. range_end p \<le> hz_replenishment_threshold_end st))
    \<and> cv_continuity_issues st = findRecurringServicePeriodContinuityIssues ps"
proof -
  obtain hz where hz: "resolveRecurringServicePeriodGenerationHorizon asOf targetDays thresholdDays = Inr hz"
    using assms by (auto simp: assessRecurringServicePeriodGenerationCoverage_def result_simps)
  obtain st' where st': "assessRecurringServicePeriodGenerationCoverage asOf targetDays thresholdDays ps = Inr st'"
    "horizon_window.truncate st' = hz"
    "cv_meets_target_horizon st' \<longleftrightarrow> (\<exists>p \<in> set ps. hz_target_horizon_end hz \<le> range_end p)"
    "cv_needs_replenishment st' \<longleftrightarrow> (\<forall>p \<in> set ps. range_end p \<le> hz_replenishment_threshold_end hz)"
    "cv_continuity_issues st' = findRecurringServicePeriodContinuityIssues ps"
    using assess_horizon [OF hz] .
  moreover have "st' = st" using assms st'(1) by simp
  ultimately show ?thesis using horizon_bounds(1-3) [OF hz] by (auto simp: horizon_window.defs)
qed

theorem coverage_status_correct_witness:
  "let p = \<lparr>range_start = date_only 20454, range_end = date_only 20485, range_semantics = Half_Open\<rparr>
   in \<exists>st. assessRecurringServicePeriodGenerationCoverage (date_only 20454) (Some 30) (Some 10) [p] = Inr st
     \<and> (cv_meets_target_horizon st \<longleftrightarrow> (\<exists>p \<in> set [p]. hz_target_horizon_end st \<le> range_end p))
     \<and> cv_meets_target_horizon st"
proof -
  let ?p = "\<lparr>range_start = date_only 20454, range_end = date_only 20485, range_semantics = Half_Open\<rparr>"
  have "case assessRecurringServicePeriodGenerationCoverage (date_only 20454) (Some 30) (Some 10) [?p] of
      Inl _ \<Rightarrow> False | Inr st \<Rightarrow> cv_meets_target_horizon st" by code_simp
  then obtain st where "assessRecurringServicePeriodGenerationCoverage (date_only 20454) (Some 30)
      (Some 10) [?p] = Inr st" "cv_meets_target_horizon st" by (auto split: sum.splits)
  with coverage_status_correct [OF this(1)] show ?thesis unfolding Let_def by blast
qed

text \<open>
  Two periods within the years 0 to 9999 have the same period key exactly when they have the
  same start and end dates.
\<close>

theorem period_key_injective:
  assumes "iso_calendar td"
    and "\<forall>v \<in> {range_start p, range_end p, range_start q, range_end q}.
      0 \<le> pd_year td (iso_day v) \<and> pd_year td (iso_day v) \<le> 9999"
  shows "buildRecurringServicePeriodPeriodKey td p = buildRecurringServicePeriodPeriodKey td q
    \<longleftrightarrow> iso_day (range_start p) = iso_day (range_start q) \<and> iso_day (range_end p) = iso_day (range_end q)"
proof -
  have "buildRecurringServicePeriodPeriodKey td p = buildRecurringServicePeriodPeriodKey td q
    \<longleftrightarrow> plain_text td (iso_day (range_start p)) = plain_text td (iso_day (range_start q))
      \<and> plain_text td (iso_day (range_end p)) = plain_text td (iso_day (range_end q))"
    by (simp add: buildRecurringServicePeriodPeriodKey_def iso_calendar.length_plain_text [OF assms(1)])
  then show ?thesis using assms(2) by (simp add: iso_calendar.plain_text_inj [OF assms(1)])
qed

theorem period_key_injective_witness:
  "let range = \<lambda>s e. \<lparr>range_start = date_only s, range_end = date_only e, range_semantics = Half_Open\<rparr>
   in buildRecurringServicePeriodPeriodKey gregorian (range 20454 20485) = ''period:2026-01-01:2026-02-01''
    \<and> buildRecurringServicePeriodPeriodKey gregorian (range 20454 20485)
        \<noteq> buildRecurringServicePeriodPeriodKey gregorian (range 20454 20484)"
proof -
  let ?range = "\<lambda>s e. \<lparr>range_start = date_only s, range_end = date_only e, range_semantics = Half_Open\<rparr>"
  have years: "pd_year gregorian 20454 = 2026" "pd_year gregorian 20485 = 2026" "pd_year gregorian 20484 = 2026"
    by code_simp+
  have "buildRecurringServicePeriodPeriodKey gregorian (?range 20454 20485) = ''period:2026-01-01:2026-02-01''"
    by code_simp
  moreover have "\<forall>v \<in> {range_start (?range 20454 20485), range_end (?range 20454 20485),
      range_start (?range 20454 20484), range_end (?range 20454 20484)}.
      0 \<le> pd_year gregorian (iso_day v) \<and> pd_year gregorian (iso_day v) \<le> 9999"
    by (simp only: date_range.select_convs iso8601.sel years ball_simps insert_iff) simp
  from period_key_injective [OF gregorian_is_calendar this]
  have "buildRecurringServicePeriodPeriodKey gregorian (?range 20454 20485)
        \<noteq> buildRecurringServicePeriodPeriodKey gregorian (?range 20454 20484)" by simp
  ultimately show ?thesis by simp
qed

end
