(* ===== verification/Js_Doubles.thy ===== *)
theory Js_Doubles
  imports Complex_Main
begin

text \<open>
  The doubles of JavaScript: the rounding of an exact result to 53 bits, and what the proofs use of it.
\<close>

section \<open>Double precision\<close>

text \<open>
  A number is the rational that a double holds. Every operation of the code that may be inexact is followed by
  \<open>dbl\<close>, the nearest rational with a significand of 53 bits, ties to even; exponents are not bounded (amounts and
  rates are far from the limits).
\<close>

function bit_length :: "int \<Rightarrow> int" where
  "bit_length n = (if n \<le> 0 then 0 else 1 + bit_length (n div 2))"
  by auto
termination by (relation "measure nat") auto

declare bit_length.simps [simp del]

definition pow2 :: "int \<Rightarrow> rat" where
  "pow2 e = (if e \<ge> 0 then 2 ^ nat e else 1 / 2 ^ nat (- e))"

definition round_half_even :: "rat \<Rightarrow> int" where
  "round_half_even q = (let f = \<lfloor>q\<rfloor>; r = q - of_int f
     in if r < 1 / 2 then f else if r > 1 / 2 then f + 1 else if even f then f else f + 1)"

text \<open>The exponent of the last place: a positive \<open>x\<close> is between \<open>2 ^ 52\<close> and \<open>2 ^ 53\<close> last places.\<close>

definition last_place :: "rat \<Rightarrow> int" where
  "last_place x = (case quotient_of x of (n, d) \<Rightarrow>
     let e = bit_length n - bit_length d
     in if pow2 e \<le> x then e - 52 else e - 53)"

definition positive_dbl :: "rat \<Rightarrow> rat" where
  "positive_dbl x = (let e = last_place x in of_int (round_half_even (x / pow2 e)) * pow2 e)"

definition dbl :: "rat \<Rightarrow> rat" where
  "dbl x = (if x = 0 then 0 else if x > 0 then positive_dbl x else - positive_dbl (- x))"

lemma bit_length_bounds: "0 < n \<Longrightarrow> \<exists>k. bit_length n = int (Suc k) \<and> 2 ^ k \<le> n \<and> n < 2 ^ Suc k"
proof (induction n rule: bit_length.induct)
  case (1 n)
  show ?case
  proof (cases "n div 2 \<le> 0")
    case True
    then have "n = 1" using 1 by simp
    then show ?thesis by (intro exI [of _ 0]) (simp add: bit_length.simps [of 1] bit_length.simps [of 0])
  next
    case False
    then obtain k where "bit_length (n div 2) = int (Suc k)" "2 ^ k \<le> n div 2" "n div 2 < 2 ^ Suc k" using 1 by auto
    moreover have "bit_length n = 1 + bit_length (n div 2)" using 1(2) by (subst bit_length.simps) simp
    ultimately show ?thesis by (intro exI [of _ "Suc k"]) (simp, linarith)
  qed
qed

lemma pow2_pos: "0 < pow2 e"
  by (simp add: pow2_def)

lemma pow2_add: "pow2 (a + b) = pow2 a * pow2 b"
proof -
  have p: "pow2 e = 2 powi e" for e by (simp add: pow2_def power_int_def inverse_eq_divide power_one_over)
  show ?thesis by (simp add: p power_int_add)
qed

lemma pow2_nat: "pow2 (int n) = 2 ^ n"
  by (simp add: pow2_def)

lemma pow2_le: "a \<le> b \<Longrightarrow> pow2 a \<le> pow2 b"
proof -
  assume "a \<le> b"
  then obtain n where n: "b = a + int n" by (metis zle_iff_zadd)
  have "1 \<le> (2::rat) ^ n" by simp
  then show ?thesis unfolding n pow2_add pow2_nat using pow2_pos [of a] by (metis mult_le_cancel_left_pos mult.right_neutral)
qed

lemma last_place_bounds:
  assumes "0 < x"
  shows "pow2 (last_place x) * 2 ^ 52 \<le> x \<and> x < pow2 (last_place x) * 2 ^ 53"
proof -
  obtain n d where q: "quotient_of x = (n, d)" by (cases "quotient_of x")
  have d: "0 < d" by (rule quotient_of_denom_pos [OF q])
  have x: "x = of_int n / of_int d" by (rule quotient_of_div [OF q])
  have n: "0 < n" using assms d unfolding x by (simp add: zero_less_divide_iff)
  obtain a where a: "bit_length n = int (Suc a)" "2 ^ a \<le> n" "n < 2 ^ Suc a" using bit_length_bounds [OF n] by blast
  obtain b where b: "bit_length d = int (Suc b)" "2 ^ b \<le> d" "d < 2 ^ Suc b" using bit_length_bounds [OF d] by blast
  define N where "N = (of_int n :: rat)"
  define D where "D = (of_int d :: rat)"
  have N1: "2 ^ a \<le> N" using a(2) unfolding N_def by (metis of_int_le_iff of_int_numeral of_int_power)
  have N2: "N < 2 ^ Suc a" using a(3) unfolding N_def by (metis of_int_less_iff of_int_numeral of_int_power)
  have D1: "2 ^ b \<le> D" using b(2) unfolding D_def by (metis of_int_le_iff of_int_numeral of_int_power)
  have D2: "D < 2 ^ Suc b" using b(3) unfolding D_def by (metis of_int_less_iff of_int_numeral of_int_power)
  have Dp: "0 < D" using d by (simp add: D_def)
  define e where "e = int a - int b"
  have ea: "pow2 e * 2 ^ b = 2 ^ a" using pow2_add [of e "int b"] by (simp add: e_def pow2_nat)
  have up: "x < pow2 e * 2"
  proof -
    have "N < pow2 e * 2 * 2 ^ b" using N2 ea by simp
    also have "\<dots> \<le> pow2 e * 2 * D" using D1 pow2_pos [of e] by simp
    finally show ?thesis using Dp unfolding x N_def [symmetric] D_def [symmetric] by (simp add: pos_divide_less_eq)
  qed
  have low: "pow2 e < x * 2"
  proof -
    have "pow2 e * D < pow2 e * 2 ^ Suc b" using D2 pow2_pos [of e] by simp
    also have "\<dots> = 2 * 2 ^ a" using ea by simp
    also have "\<dots> \<le> 2 * N" using N1 by simp
    finally show ?thesis using Dp unfolding x N_def [symmetric] D_def [symmetric] by (simp add: field_simps)
  qed
  have p52: "pow2 (e - 52) * 2 ^ 52 = pow2 e" "pow2 (e - 53) * 2 ^ 53 = pow2 e"
    using pow2_add [of "e - 52" 52] pow2_add [of "e - 53" 53] by (simp_all add: pow2_def)
  have half: "pow2 (e - 53) * 2 = pow2 (e - 52)" using pow2_add [of "e - 53" 1] by (simp add: pow2_def)
  have lp: "last_place x = (if pow2 e \<le> x then e - 52 else e - 53)"
    unfolding last_place_def q by (simp add: Let_def e_def a(1) b(1))
  show ?thesis
  proof (cases "pow2 e \<le> x")
    case True
    then show ?thesis using up p52 unfolding lp by (simp add: mult.assoc)
  next
    case False
    then show ?thesis using low p52 half unfolding lp by simp
  qed
qed

lemma round_half_even_near: "\<bar>of_int (round_half_even q) - q\<bar> \<le> 1 / 2"
  unfolding round_half_even_def Let_def by (auto simp: abs_if) linarith+

lemma round_half_even_int [simp]: "round_half_even (of_int n) = n"
  by (simp add: round_half_even_def)

lemma round_half_even_mono: "p \<le> q \<Longrightarrow> round_half_even p \<le> round_half_even q"
proof -
  assume pq: "p \<le> q"
  have f: "\<lfloor>p\<rfloor> \<le> \<lfloor>q\<rfloor>" by (rule floor_mono [OF pq])
  have b: "\<lfloor>x\<rfloor> \<le> round_half_even x \<and> round_half_even x \<le> \<lfloor>x\<rfloor> + 1" for x by (auto simp: round_half_even_def Let_def)
  show ?thesis
  proof (cases "\<lfloor>p\<rfloor> = \<lfloor>q\<rfloor>")
    case True
    then show ?thesis using pq unfolding round_half_even_def Let_def by auto
  next
    case False
    then show ?thesis using f b [of p] b [of q] by linarith
  qed
qed

lemma positive_dbl_near: "0 < x \<Longrightarrow> \<bar>positive_dbl x - x\<bar> \<le> x / 2 ^ 53"
proof -
  assume x: "0 < x"
  define p where "p = pow2 (last_place x)"
  have p: "0 < p" by (simp add: p_def pow2_pos)
  have "\<bar>of_int (round_half_even (x / p)) - x / p\<bar> * p \<le> 1 / 2 * p" using p by (intro mult_right_mono round_half_even_near) simp
  moreover have "\<bar>of_int (round_half_even (x / p)) - x / p\<bar> * p = \<bar>positive_dbl x - x\<bar>"
    using p unfolding positive_dbl_def Let_def p_def [symmetric] by (simp add: abs_mult_pos left_diff_distrib)
  moreover have "p * 2 ^ 52 \<le> x" using last_place_bounds [OF x] by (simp add: p_def)
  ultimately show ?thesis by simp
qed

lemma dbl_near: "\<bar>dbl x - x\<bar> \<le> \<bar>x\<bar> / 2 ^ 53"
  using positive_dbl_near [of x] positive_dbl_near [of "- x"] by (cases x "0 :: rat" rule: linorder_cases) (simp_all add: dbl_def)

lemma positive_dbl_int:
  assumes "0 < n" "n \<le> 2 ^ 53"
  shows "positive_dbl (of_int n) = of_int n"
proof -
  define e where "e = last_place (of_int n)"
  have b: "pow2 e * 2 ^ 52 \<le> of_int n" using last_place_bounds [of "of_int n"] assms by (simp add: e_def)
  have le: "(of_int n :: rat) \<le> 2 ^ 53" using assms(2) by (metis of_int_le_iff of_int_numeral of_int_power)
  have "\<exists>k. (of_int n :: rat) / pow2 e = of_int k"
  proof (cases "e \<le> 0")
    case True
    then have "(of_int n :: rat) / pow2 e = of_int (n * 2 ^ nat (- e))" by (auto simp: pow2_def)
    then show ?thesis by blast
  next
    case False
    then have "pow2 1 \<le> pow2 e" by (intro pow2_le) simp
    moreover have "pow2 1 = 2" by (simp add: pow2_def)
    ultimately have "(2 :: rat) ^ 53 \<le> pow2 e * 2 ^ 52" by simp
    then have "(of_int n :: rat) = pow2 e * 2 ^ 52" using b le by linarith
    then have "(of_int n :: rat) / pow2 e = of_int (2 ^ 52)" using pow2_pos [of e] by (simp add: field_simps)
    then show ?thesis by blast
  qed
  then obtain k where k: "(of_int n :: rat) / pow2 e = of_int k" by blast
  have "positive_dbl (of_int n) = of_int k * pow2 e" unfolding positive_dbl_def Let_def e_def [symmetric] k by simp
  then show ?thesis using k pow2_pos [of e] by (simp add: field_simps)
qed

lemma dbl_int [simp]: "\<bar>n\<bar> \<le> 2 ^ 53 \<Longrightarrow> dbl (of_int n) = of_int n"
  using positive_dbl_int [of n] positive_dbl_int [of "- n"] by (cases n "0 :: int" rule: linorder_cases) (simp_all add: dbl_def)

lemma dbl_numeral [simp]: "numeral k \<le> (2 ^ 53 :: int) \<Longrightarrow> dbl (numeral k) = numeral k"
  using dbl_int [of "numeral k"] by simp

lemma positive_dbl_mono:
  assumes "0 < x" "x \<le> y"
  shows "positive_dbl x \<le> positive_dbl y"
proof -
  define p where "p = last_place x"
  define q where "q = last_place y"
  have x: "pow2 p * 2 ^ 52 \<le> x" "x < pow2 p * 2 ^ 53" using last_place_bounds [of x] assms by (auto simp: p_def)
  have y: "pow2 q * 2 ^ 52 \<le> y" "y < pow2 q * 2 ^ 53" using last_place_bounds [of y] assms by (auto simp: q_def)
  have px: "positive_dbl x = of_int (round_half_even (x / pow2 p)) * pow2 p" by (simp add: positive_dbl_def p_def Let_def)
  have py: "positive_dbl y = of_int (round_half_even (y / pow2 q)) * pow2 q" by (simp add: positive_dbl_def q_def Let_def)
  have "p \<le> q"
  proof (rule ccontr)
    assume "\<not> p \<le> q"
    then have "pow2 (q + 1) \<le> pow2 p" by (intro pow2_le) simp
    moreover have "pow2 (q + 1) = pow2 q * 2" unfolding pow2_add by (simp add: pow2_def)
    ultimately have "pow2 q * 2 ^ 53 \<le> pow2 p * 2 ^ 52" by simp
    then show False using x(1) y(2) assms(2) by (meson leD order.trans)
  qed
  show ?thesis
  proof (cases "p = q")
    case True
    have "round_half_even (x / pow2 q) \<le> round_half_even (y / pow2 q)"
      using assms pow2_pos [of q] by (intro round_half_even_mono) (simp add: divide_right_mono)
    then show ?thesis using pow2_pos [of q] unfolding px py True by simp
  next
    case False
    then have "pow2 (p + 1) \<le> pow2 q" using \<open>p \<le> q\<close> by (intro pow2_le) simp
    moreover have "pow2 (p + 1) = pow2 p * 2" unfolding pow2_add by (simp add: pow2_def)
    ultimately have pq: "pow2 p * 2 \<le> pow2 q" by simp
    have "x / pow2 p \<le> of_int (2 ^ 53)" using x(2) pow2_pos [of p] by (simp add: divide_le_eq mult.commute)
    then have "round_half_even (x / pow2 p) \<le> 2 ^ 53" using round_half_even_mono round_half_even_int by metis
    then have "(of_int (round_half_even (x / pow2 p)) :: rat) \<le> of_int (2 ^ 53)" by (simp only: of_int_le_iff)
    then have a: "positive_dbl x \<le> 2 ^ 53 * pow2 p" using pow2_pos [of p] unfolding px by simp
    have "of_int (2 ^ 52) \<le> y / pow2 q" using y(1) pow2_pos [of q] by (simp add: le_divide_eq mult.commute)
    then have "2 ^ 52 \<le> round_half_even (y / pow2 q)" using round_half_even_mono round_half_even_int by metis
    then have "(of_int (2 ^ 52) :: rat) \<le> of_int (round_half_even (y / pow2 q))" by (simp only: of_int_le_iff)
    then have "2 ^ 52 * pow2 q \<le> positive_dbl y" using pow2_pos [of q] unfolding py by simp
    then show ?thesis using a pq by simp
  qed
qed

lemma positive_dbl_nonneg: "0 < x \<Longrightarrow> 0 \<le> positive_dbl x"
  using last_place_bounds [of x] pow2_pos [of "last_place x"] round_half_even_mono [of 0 "x / pow2 (last_place x)"] round_half_even_int [of 0]
  by (simp add: positive_dbl_def Let_def)

lemma dbl_mono: "x \<le> y \<Longrightarrow> dbl x \<le> dbl y"
proof -
  assume xy: "x \<le> y"
  consider "0 < x" | "x = 0" "0 < y" | "x = 0" "y = 0" | "x < 0" "0 < y" | "x < 0" "y = 0" | "y < 0" using xy by linarith
  then show ?thesis
  proof cases
    case 1
    then show ?thesis using positive_dbl_mono [OF 1 xy] xy by (simp add: dbl_def)
  next
    case 2
    then show ?thesis using positive_dbl_nonneg [of y] by (simp add: dbl_def)
  next
    case 3
    then show ?thesis by simp
  next
    case 4
    then show ?thesis using positive_dbl_nonneg [of y] positive_dbl_nonneg [of "- x"] by (simp add: dbl_def)
  next
    case 5
    then show ?thesis using positive_dbl_nonneg [of "- x"] by (simp add: dbl_def)
  next
    case 6
    then show ?thesis using positive_dbl_mono [of "- y" "- x"] xy by (simp add: dbl_def)
  qed
qed

lemma dbl_zero [simp]: "dbl 0 = 0"
  by (simp add: dbl_def)

lemma dbl_one [simp]: "dbl 1 = 1"
  using dbl_int [of 1] by simp

lemma dbl_nonneg: "0 \<le> x \<Longrightarrow> 0 \<le> dbl x"
  using dbl_mono [of 0 x] by simp

lemma dbl_nonpos: "x \<le> 0 \<Longrightarrow> dbl x \<le> 0"
  using dbl_mono [of x 0] by simp

lemma dbl_at_least: "of_int n \<le> x \<Longrightarrow> \<bar>n\<bar> \<le> 2 ^ 53 \<Longrightarrow> of_int n \<le> dbl x"
  using dbl_mono [of "of_int n" x] by simp

lemma dbl_at_most: "x \<le> of_int n \<Longrightarrow> \<bar>n\<bar> \<le> 2 ^ 53 \<Longrightarrow> dbl x \<le> of_int n"
  using dbl_mono [of x "of_int n"] by simp

lemma dbl_of_int_product [simp]: "\<bar>m * n\<bar> \<le> 2 ^ 53 \<Longrightarrow> dbl (of_int m * of_int n) = of_int m * of_int n"
  using dbl_int [of "m * n"] by simp

lemma dbl_pos: "0 < x \<Longrightarrow> 0 < dbl x"
proof -
  assume x: "0 < x"
  then have "\<bar>dbl x - x\<bar> \<le> x / 2 ^ 53" using dbl_near [of x] by simp
  then have "x - x / 2 ^ 53 \<le> dbl x" by (simp only: abs_le_iff minus_diff_eq diff_le_eq add.commute)
  moreover have "0 < x - x / 2 ^ 53" using x by simp
  ultimately show ?thesis by linarith
qed

end
