(* ===== verification/Recurring_Timing.thy ===== *)
theory Recurring_Timing
  imports Recurring_Types Js_Doubles
begin

text \<open>
  \<open>shared/billingClients/recurringTiming.ts\<close>: half-open service periods, their intersection with
  an assignment's activity window, coverage for proration, which periods are due in an invoice
  window, settlements, and the grouping of due periods into invoice candidates.
\<close>

definition DEFAULT_CADENCE_OWNER :: cadence_owner where
  "DEFAULT_CADENCE_OWNER = Client"

definition assertHalfOpenDateRange :: "('a date_range_scheme) \<Rightarrow> unit result" where
  "assertHalfOpenDateRange r =
     throw_if (iso_day (range_end r) \<le> iso_day (range_start r)) Invalid_Half_Open_Range"

definition resolveCadenceOwner :: "cadence_owner option \<Rightarrow> cadence_owner" where
  "resolveCadenceOwner owner = (case owner of None \<Rightarrow> DEFAULT_CADENCE_OWNER | Some c \<Rightarrow> c)"

definition selectCadenceBoundaryGenerator ::
    "(cadence_owner \<Rightarrow> 'g) \<Rightarrow> cadence_owner option \<Rightarrow> 'g" where
  "selectCadenceBoundaryGenerator generators owner = generators (resolveCadenceOwner owner)"

definition intersectActivityWindow ::
    "service_period \<Rightarrow> activity_window \<Rightarrow> service_period option result" where
  "intersectActivityWindow sp aw =
     and_then (assertHalfOpenDateRange sp) (\<lambda>_.
       let nextStart = (case aw_start aw of
             Some s \<Rightarrow> if s > range_start sp then s else range_start sp
           | None \<Rightarrow> range_start sp);
           nextEnd = (case aw_end aw of
             Some e \<Rightarrow> if e < range_end sp then e else range_end sp
           | None \<Rightarrow> range_end sp)
       in if iso_day nextEnd \<le> iso_day nextStart then Inr None
          else Inr (Some (sp\<lparr>range_start := nextStart, range_end := nextEnd\<rparr>)))"

definition calculateServicePeriodCoverage ::
    "service_period \<Rightarrow> ('a date_range_scheme) \<Rightarrow> coverage result" where
  "calculateServicePeriodCoverage sp cov =
     and_then (assertHalfOpenDateRange sp) (\<lambda>_.
     and_then (assertHalfOpenDateRange cov) (\<lambda>_.
       let totalDays = iso_day (range_end sp) - iso_day (range_start sp);
           coveredDays = iso_day (range_end cov) - iso_day (range_start cov)
       in and_then (throw_if (coveredDays > totalDays) Covered_Exceeds_Parent) (\<lambda>_.
         Inr \<lparr>covered_period = \<lparr>range_start = range_start cov, range_end = range_end cov,
                 range_semantics = Half_Open\<rparr>,
               covered_days = coveredDays,
               total_days = totalDays,
               coverage_ratio = dbl (of_int coveredDays / of_int totalDays)\<rparr>)))"

definition mapServicePeriodToInvoiceWindow ::
    "service_period \<Rightarrow> due_position \<Rightarrow> invoice_window \<Rightarrow> invoice_window option
       \<Rightarrow> due_selection" where
  "mapServicePeriodToInvoiceWindow sp duePosition currentWindow nextWindow =
     \<lparr>ds_service_period = sp,
      ds_invoice_window = (if duePosition = Arrears
        then (case nextWindow of Some w \<Rightarrow> w | None \<Rightarrow> currentWindow) else currentWindow)\<rparr>"

definition rangesOverlap :: "('a date_range_scheme) \<Rightarrow> ('b date_range_scheme) \<Rightarrow> bool" where
  "rangesOverlap left right \<longleftrightarrow>
     iso_day (range_start left) < iso_day (range_end right)
     \<and> iso_day (range_start right) < iso_day (range_end left)"

definition selectDueServicePeriodsForInvoiceWindow ::
    "service_period list \<Rightarrow> due_position \<Rightarrow> invoice_window \<Rightarrow> due_selection list" where
  "selectDueServicePeriodsForInvoiceWindow sps duePosition w =
     map (\<lambda>sp. \<lparr>ds_service_period = sp, ds_invoice_window = w\<rparr>)
       (filter (\<lambda>sp. if duePosition = Advance then rangesOverlap sp w
            else iso_day (range_end sp) = iso_day (range_start w))
         (filter (\<lambda>sp. sp_due_position sp = duePosition) sps))"

definition resolveSettlement ::
    "activity_window \<Rightarrow> due_selection \<Rightarrow> settlement list result" where
  "resolveSettlement aw sel =
     and_then (intersectActivityWindow (ds_service_period sel) aw) (\<lambda>covered.
       case covered of None \<Rightarrow> Inr []
       | Some csp \<Rightarrow>
           and_then (calculateServicePeriodCoverage (ds_service_period sel) csp) (\<lambda>cov.
             if covered_days cov \<le> 0 then Inr []
             else Inr [\<lparr>st_service_period = ds_service_period sel,
                        st_covered_service_period = csp,
                        st_invoice_window = ds_invoice_window sel,
                        st_coverage = cov\<rparr>]))"

definition resolveRecurringSettlementsForInvoiceWindow ::
    "service_period list \<Rightarrow> invoice_window \<Rightarrow> activity_window \<Rightarrow> due_position
       \<Rightarrow> settlement list result" where
  "resolveRecurringSettlementsForInvoiceWindow sps w aw duePosition =
     and_then (traverse (resolveSettlement aw)
         (selectDueServicePeriodsForInvoiceWindow sps duePosition w))
       (\<lambda>parts. Inr (concat parts))"

definition isRecurringLineExpectedInClientCadenceWindow ::
    "due_position \<Rightarrow> iso8601 \<Rightarrow> iso8601 option \<Rightarrow> iso8601 \<Rightarrow> iso8601 \<Rightarrow> bool" where
  "isRecurringLineExpectedInClientCadenceWindow duePosition assignmentStart assignmentEnd
       windowStart windowEnd \<longleftrightarrow>
     (if duePosition = Arrears then iso_day assignmentStart < iso_day windowStart
      else iso_day assignmentStart < iso_day windowEnd
        \<and> (case assignmentEnd of None \<Rightarrow> True
           | Some e \<Rightarrow> iso_day e \<ge> iso_day windowStart))"

definition buildRecurringInvoiceDetailTiming ::
    "service_period \<Rightarrow> invoice_window \<Rightarrow> invoice_detail_timing" where
  "buildRecurringInvoiceDetailTiming sp w =
     \<lparr>dt_cadence_owner = sp_cadence_owner sp,
      dt_due_position = sp_due_position sp,
      dt_source_obligation = sp_source_obligation sp,
      dt_service_period_start = range_start sp,
      dt_service_period_end = range_end sp,
      dt_invoice_window_start = range_start w,
      dt_invoice_window_end = range_end w\<rparr>"

section \<open>Invoice candidate groups\<close>

text \<open>
  The \<open>Map\<close> of groups keeps insertion order: it is the list of groups, an existing group is
  updated in place and a new one appended. Its key, the text of the window's two dates, is the
  pair of them. Owners are sorted by their names, \<open>'client'\<close> before \<open>'contract'\<close>.
\<close>

definition owner_compare :: "cadence_owner \<Rightarrow> cadence_owner \<Rightarrow> int" where
  "owner_compare a b = (if a = b then 0 else if a = Client then -1 else 1)"

definition add_owner :: "cadence_owner \<Rightarrow> cadence_owner list \<Rightarrow> cadence_owner list" where
  "add_owner c owners = (if c \<in> set owners then owners else js_sort owner_compare (owners @ [c]))"

definition window_key :: "('a due_selection_scheme) \<Rightarrow> iso8601 \<times> iso8601" where
  "window_key sel = (range_start (ds_invoice_window sel), range_end (ds_invoice_window sel))"

definition new_group :: "due_selection \<Rightarrow> candidate_group" where
  "new_group sel =
     \<lparr>cg_group_key = window_key sel,
      cg_window_start = range_start (ds_invoice_window sel),
      cg_window_end = range_end (ds_invoice_window sel),
      cg_semantics = range_semantics (ds_invoice_window sel),
      cg_cadence_owners = [sp_cadence_owner (ds_service_period sel)],
      cg_due_selections = [sel]\<rparr>"

definition extend_group :: "due_selection \<Rightarrow> candidate_group \<Rightarrow> candidate_group" where
  "extend_group sel g = g\<lparr>cg_due_selections := cg_due_selections g @ [sel],
     cg_cadence_owners := add_owner (sp_cadence_owner (ds_service_period sel)) (cg_cadence_owners g)\<rparr>"

definition group_due_selection ::
    "candidate_group list \<Rightarrow> due_selection \<Rightarrow> candidate_group list" where
  "group_due_selection gs sel =
     map_upsert cg_group_key (window_key sel) (new_group sel) (extend_group sel) gs"

definition due_selection_compare ::
    "(string \<Rightarrow> string \<Rightarrow> int) \<Rightarrow> ('a due_selection_scheme) \<Rightarrow> ('a due_selection_scheme) \<Rightarrow> int" where
  "due_selection_compare lc left right =
     (if range_start (ds_service_period left) \<noteq> range_start (ds_service_period right)
      then locale_compare (range_start (ds_service_period left))
             (range_start (ds_service_period right))
      else lc (ob_id (sp_source_obligation (ds_service_period left)))
             (ob_id (sp_source_obligation (ds_service_period right))))"

definition group_compare :: "candidate_group \<Rightarrow> candidate_group \<Rightarrow> int" where
  "group_compare left right =
     (if cg_window_start left \<noteq> cg_window_start right
      then locale_compare (cg_window_start left) (cg_window_start right)
      else locale_compare (cg_window_end left) (cg_window_end right))"

definition groupDueServicePeriodsByInvoiceWindow ::
    "(string \<Rightarrow> string \<Rightarrow> int) \<Rightarrow> due_selection list \<Rightarrow> candidate_group list" where
  "groupDueServicePeriodsByInvoiceWindow lc sels =
     js_sort group_compare
       (map (\<lambda>g. g\<lparr>cg_due_selections := js_sort (due_selection_compare lc) (cg_due_selections g)\<rparr>)
         (foldl group_due_selection [] sels))"

section \<open>Scoped invoice candidate groups\<close>

text \<open>
  The second grouping keys a group by client and window, and keeps for each key the sets of
  contracts, purchase orders and financial scopes seen (\<open>windowScopeSummary\<close>); a key with more
  than one of a kind carries the matching split reason.
\<close>

definition client_scope :: "scoped_due_selection \<Rightarrow> string" where
  "client_scope sel = or_else (sc_client_id sel) ''__no_client_scope__''"

definition contract_scope :: "scoped_due_selection \<Rightarrow> string" where
  "contract_scope sel = or_else (sc_client_contract_id sel) ''__no_contract_scope__''"

definition purchase_order_scope :: "scoped_due_selection \<Rightarrow> string" where
  "purchase_order_scope sel = or_else (sc_purchase_order_scope_key sel) ''__no_po_scope__''"

definition financial_scope :: "scoped_due_selection \<Rightarrow> string" where
  "financial_scope sel = or_else (sc_currency_code sel) ''__no_currency__'' @ '':''
     @ or_else (sc_tax_source sel) ''__no_tax_source__'' @ '':'' @ or_else (sc_export_shape_key sel) ''__no_export_shape__''"

text \<open>
  The key of a group is the text of client and window joined by colons; here the tuple of them, which differs only
  for a client identifier that itself contains colons and dates.
\<close>

definition scoped_key :: "scoped_due_selection \<Rightarrow> string \<times> iso8601 \<times> iso8601" where
  "scoped_key sel = (client_scope sel, window_key sel)"

record scope_summary =
  ss_key :: "string \<times> iso8601 \<times> iso8601"
  ss_contract_ids :: "string list"
  ss_purchase_order_keys :: "string list"
  ss_financial_keys :: "string list"
  ss_selections :: "scoped_due_selection list"  \<comment> \<open>ghost: the selections summarised\<close>

definition new_summary :: "scoped_due_selection \<Rightarrow> scope_summary" where
  "new_summary sel = \<lparr>ss_key = scoped_key sel, ss_contract_ids = [contract_scope sel],
     ss_purchase_order_keys = [purchase_order_scope sel],
     ss_financial_keys = [financial_scope sel], ss_selections = [sel]\<rparr>"

definition extend_summary :: "scoped_due_selection \<Rightarrow> scope_summary \<Rightarrow> scope_summary" where
  "extend_summary sel s = s\<lparr>
     ss_contract_ids := List.insert (contract_scope sel) (ss_contract_ids s),
     ss_purchase_order_keys := List.insert (purchase_order_scope sel) (ss_purchase_order_keys s),
     ss_financial_keys := List.insert (financial_scope sel) (ss_financial_keys s),
     ss_selections := ss_selections s @ [sel]\<rparr>"

definition summarise_selection ::
    "scope_summary list \<Rightarrow> scoped_due_selection \<Rightarrow> scope_summary list" where
  "summarise_selection ss sel =
     map_upsert ss_key (scoped_key sel) (new_summary sel) (extend_summary sel) ss"

definition new_scoped_group :: "scoped_due_selection \<Rightarrow> scoped_candidate_group" where
  "new_scoped_group sel =
     \<lparr>sg_group_key = scoped_key sel,
      sg_window_start = range_start (ds_invoice_window sel),
      sg_window_end = range_end (ds_invoice_window sel),
      sg_semantics = range_semantics (ds_invoice_window sel),
      sg_cadence_owners = [sp_cadence_owner (ds_service_period sel)],
      sg_client_contract_id = sc_client_contract_id sel,
      sg_purchase_order_scope_key = sc_purchase_order_scope_key sel,
      sg_currency_code = sc_currency_code sel,
      sg_tax_source = sc_tax_source sel,
      sg_export_shape_key = sc_export_shape_key sel,
      sg_split_reasons = [],
      sg_due_selections = [sel]\<rparr>"

definition extend_scoped_group ::
    "scoped_due_selection \<Rightarrow> scoped_candidate_group \<Rightarrow> scoped_candidate_group" where
  "extend_scoped_group sel g = g\<lparr>sg_due_selections := sg_due_selections g @ [sel],
     sg_cadence_owners := add_owner (sp_cadence_owner (ds_service_period sel)) (sg_cadence_owners g)\<rparr>"

definition group_scoped_selection ::
    "scoped_candidate_group list \<Rightarrow> scoped_due_selection \<Rightarrow> scoped_candidate_group list" where
  "group_scoped_selection gs sel =
     map_upsert sg_group_key (scoped_key sel) (new_scoped_group sel) (extend_scoped_group sel) gs"

definition split_reasons_of :: "scope_summary option \<Rightarrow> split_reason list" where
  "split_reasons_of summary =
     (case summary of None \<Rightarrow> []
      | Some s \<Rightarrow>
          (if length (ss_contract_ids s) > 1 then [Single_Contract] else [])
          @ (if length (ss_purchase_order_keys s) > 1 then [Purchase_Order_Scope] else [])
          @ (if length (ss_financial_keys s) > 1 then [Financial_Constraint] else []))"

definition finish_scoped_group ::
    "(string \<Rightarrow> string \<Rightarrow> int) \<Rightarrow> scope_summary list \<Rightarrow> scoped_candidate_group
       \<Rightarrow> scoped_candidate_group" where
  "finish_scoped_group lc summaries g =
     (let sels = js_sort (due_selection_compare lc) (sg_due_selections g);
          key = (case sels of [] \<Rightarrow> ''__no_client_scope__'' | sel # _ \<Rightarrow> client_scope sel,
                 sg_window_start g, sg_window_end g)
      in g\<lparr>sg_due_selections := sels,
           sg_split_reasons := split_reasons_of (List.find (\<lambda>s. ss_key s = key) summaries)\<rparr>)"

definition first_client_id :: "scoped_candidate_group \<Rightarrow> string" where
  "first_client_id g = (case sg_due_selections g of [] \<Rightarrow> []
     | sel # _ \<Rightarrow> or_else (sc_client_id sel) [])"

definition scoped_group_compare ::
    "(string \<Rightarrow> string \<Rightarrow> int) \<Rightarrow> scoped_candidate_group \<Rightarrow> scoped_candidate_group \<Rightarrow> int" where
  "scoped_group_compare lc left right =
     (if sg_window_start left \<noteq> sg_window_start right
      then locale_compare (sg_window_start left) (sg_window_start right)
      else if first_client_id left \<noteq> first_client_id right
      then lc (first_client_id left) (first_client_id right)
      else if or_else (sg_client_contract_id left) [] \<noteq> or_else (sg_client_contract_id right) []
      then lc (or_else (sg_client_contract_id left) []) (or_else (sg_client_contract_id right) [])
      else if or_else (sg_purchase_order_scope_key left) []
          \<noteq> or_else (sg_purchase_order_scope_key right) []
      then lc (or_else (sg_purchase_order_scope_key left) [])
             (or_else (sg_purchase_order_scope_key right) [])
      else locale_compare (sg_window_end left) (sg_window_end right))"

definition groupDueServicePeriodsForInvoiceCandidates ::
    "(string \<Rightarrow> string \<Rightarrow> int) \<Rightarrow> scoped_due_selection list \<Rightarrow> scoped_candidate_group list" where
  "groupDueServicePeriodsForInvoiceCandidates lc sels =
     js_sort (scoped_group_compare lc)
       (map (finish_scoped_group lc (foldl summarise_selection [] sels))
         (foldl group_scoped_selection [] sels))"

definition groupDueServicePeriodsByInvoiceWindowAndContract ::
    "(string \<Rightarrow> string \<Rightarrow> int) \<Rightarrow> scoped_due_selection list \<Rightarrow> scoped_candidate_group list" where
  "groupDueServicePeriodsByInvoiceWindowAndContract lc sels =
     groupDueServicePeriodsForInvoiceCandidates lc sels"

section \<open>Half-open periods\<close>

lemma assertHalfOpen_iff:
  "assertHalfOpenDateRange r = Inr u \<longleftrightarrow> iso_day (range_start r) < iso_day (range_end r)"
  by (auto simp: assertHalfOpenDateRange_def result_simps)

lemma assertHalfOpen_nonempty: "assertHalfOpenDateRange r = Inr u \<longleftrightarrow> range_days r \<noteq> {}"
  by (simp add: assertHalfOpen_iff range_days_def)

lemma rangesOverlap_iff:
  assumes "range_days a \<noteq> {}" "range_days b \<noteq> {}"
  shows "rangesOverlap a b \<longleftrightarrow> range_days a \<inter> range_days b \<noteq> {}"
  using assms unfolding rangesOverlap_def range_days_def by (auto simp: Int_atLeastLessThan)

text \<open>The days an activity window admits: no bound where it has none.\<close>

definition window_days :: "activity_window \<Rightarrow> int set" where
  "window_days aw = {d. (\<forall>s. aw_start aw = Some s \<longrightarrow> iso_day s \<le> d)
     \<and> (\<forall>e. aw_end aw = Some e \<longrightarrow> d < iso_day e)}"

lemma range_days_update [simp]:
  "range_days (r\<lparr>range_start := s, range_end := e\<rparr>) = {iso_day s ..< iso_day e}"
  by (simp add: range_days_def)

lemma iso_day_later: "iso_day (if r < s then s else r) = max (iso_day r) (iso_day s)"
  by (auto simp: less_iso8601_def)

lemma iso_day_earlier: "iso_day (if s < r then s else r) = min (iso_day r) (iso_day s)"
  by (auto simp: less_iso8601_def)

lemma intersectActivityWindow_days:
  assumes "intersectActivityWindow sp aw = Inr res"
  shows "(case res of None \<Rightarrow> range_days sp \<inter> window_days aw = {}
     | Some csp \<Rightarrow> range_days csp = range_days sp \<inter> window_days aw \<and> range_days csp \<noteq> {})"
proof -
  define s where "s = (case aw_start aw of
    Some s \<Rightarrow> if s > range_start sp then s else range_start sp | None \<Rightarrow> range_start sp)"
  define e where "e = (case aw_end aw of
    Some e \<Rightarrow> if e < range_end sp then e else range_end sp | None \<Rightarrow> range_end sp)"
  have days: "{iso_day s ..< iso_day e} = range_days sp \<inter> window_days aw"
    unfolding s_def e_def range_days_def window_days_def
    by (cases "aw_start aw"; cases "aw_end aw")
      (auto simp: iso_day_later iso_day_earlier simp del: if_split)
  have res: "res = (if iso_day e \<le> iso_day s then None
      else Some (sp\<lparr>range_start := s, range_end := e\<rparr>))"
    using assms by (simp add: intersectActivityWindow_def result_simps Let_def s_def e_def
        split: if_splits)
  show ?thesis
  proof (cases "iso_day e \<le> iso_day s")
    case True
    then show ?thesis using res days [symmetric] by simp
  next
    case False
    then have "{iso_day s ..< iso_day e} \<noteq> {}" by simp
    with False show ?thesis by (simp add: res days)
  qed
qed

lemma intersectActivityWindow_total:
  "range_days sp \<noteq> {} \<Longrightarrow> \<exists>res. intersectActivityWindow sp aw = Inr res"
  by (auto simp: intersectActivityWindow_def assertHalfOpenDateRange_def range_days_def Let_def)

section \<open>Coverage and settlements\<close>

definition coverage_of :: "('a date_range_scheme) \<Rightarrow> ('b date_range_scheme) \<Rightarrow> coverage \<Rightarrow> bool" where
  "coverage_of sp csp cov \<longleftrightarrow>
     covered_days cov = int (card (range_days csp)) \<and> total_days cov = int (card (range_days sp))
     \<and> coverage_ratio cov = dbl (of_int (covered_days cov) / of_int (total_days cov))
     \<and> 0 < coverage_ratio cov \<and> coverage_ratio cov \<le> 1"

lemma calculateServicePeriodCoverage_ok:
  "(\<exists>cov. calculateServicePeriodCoverage sp csp = Inr cov) \<longleftrightarrow>
     range_days sp \<noteq> {} \<and> range_days csp \<noteq> {} \<and> card (range_days csp) \<le> card (range_days sp)"
  by (auto simp: calculateServicePeriodCoverage_def result_simps assertHalfOpen_iff range_days_def
      Let_def)

lemma calculateServicePeriodCoverage_spec:
  assumes "calculateServicePeriodCoverage sp csp = Inr cov"
  shows "coverage_of sp csp cov"
proof -
  have cov: "range_days sp \<noteq> {}" "range_days csp \<noteq> {}" "covered_days cov \<le> total_days cov"
    "covered_days cov = int (card (range_days csp))" "total_days cov = int (card (range_days sp))"
    "coverage_ratio cov = dbl (of_int (covered_days cov) / of_int (total_days cov))"
    using assms by (auto simp: calculateServicePeriodCoverage_def result_simps assertHalfOpen_iff range_days_def Let_def)
  have "0 < covered_days cov" using cov(2,4) by (simp add: range_days_def card_gt_0_iff)
  then have "0 < (of_int (covered_days cov) / of_int (total_days cov) :: rat)"
    "of_int (covered_days cov) / of_int (total_days cov) \<le> (of_int 1 :: rat)" using cov(3) by simp_all
  then show ?thesis unfolding coverage_of_def using cov(4-6) dbl_pos dbl_at_most [of _ 1] by fastforce
qed

lemma resolveSettlement_spec:
  assumes "range_days (ds_service_period sel) \<noteq> {}"
  shows "\<exists>out. resolveSettlement aw sel = Inr out \<and>
    (if range_days (ds_service_period sel) \<inter> window_days aw = {} then out = []
     else \<exists>csp cov. out = [\<lparr>st_service_period = ds_service_period sel,
            st_covered_service_period = csp, st_invoice_window = ds_invoice_window sel,
            st_coverage = cov\<rparr>]
          \<and> range_days csp = range_days (ds_service_period sel) \<inter> window_days aw
          \<and> coverage_of (ds_service_period sel) csp cov)"
proof -
  let ?sp = "ds_service_period sel"
  obtain res where res: "intersectActivityWindow ?sp aw = Inr res"
    using intersectActivityWindow_total [OF assms] by blast
  note days = intersectActivityWindow_days [OF res]
  show ?thesis
  proof (cases res)
    case None
    with res days show ?thesis by (simp add: resolveSettlement_def)
  next
    case (Some csp)
    with days have csp: "range_days csp = range_days ?sp \<inter> window_days aw" "range_days csp \<noteq> {}"
      by (auto simp only: option.case)
    have "card (range_days csp) \<le> card (range_days ?sp)"
      unfolding csp(1) by (rule card_mono) (simp_all add: range_days_def)
    with csp(2) assms obtain cov where cov: "calculateServicePeriodCoverage ?sp csp = Inr cov"
      using calculateServicePeriodCoverage_ok by blast
    note spec = calculateServicePeriodCoverage_spec [OF cov]
    have "0 < card (range_days csp)" using csp(2) by (simp add: range_days_def card_gt_0_iff)
    with spec have "\<not> covered_days cov \<le> 0" by (simp add: coverage_of_def)
    with res Some cov spec have out: "resolveSettlement aw sel = Inr [\<lparr>st_service_period = ?sp,
        st_covered_service_period = csp, st_invoice_window = ds_invoice_window sel,
        st_coverage = cov\<rparr>]"
      by (simp add: resolveSettlement_def)
    from csp have "range_days ?sp \<inter> window_days aw \<noteq> {}" by metis
    then show ?thesis using out csp(1) spec by auto
  qed
qed

lemma selectDue_iff:
  "sel \<in> set (selectDueServicePeriodsForInvoiceWindow sps dp w) \<longleftrightarrow>
     ds_invoice_window sel = w \<and> ds_service_period sel \<in> set sps
     \<and> sp_due_position (ds_service_period sel) = dp
     \<and> (if dp = Advance then rangesOverlap (ds_service_period sel) w
        else iso_day (range_end (ds_service_period sel)) = iso_day (range_start w))"
  by (cases sel) (auto simp: selectDueServicePeriodsForInvoiceWindow_def)

section \<open>Grouping\<close>

interpretation due_groups: keyed_groups cg_group_key cg_due_selections window_key new_group extend_group
  by unfold_locales (simp_all add: new_group_def extend_group_def)

interpretation scoped_groups: keyed_groups sg_group_key sg_due_selections scoped_key
    new_scoped_group extend_scoped_group
  by unfold_locales (simp_all add: new_scoped_group_def extend_scoped_group_def)

interpretation summaries: keyed_groups ss_key ss_selections scoped_key new_summary extend_summary
  by unfold_locales (simp_all add: new_summary_def extend_summary_def)

lemma grouping_steps:
  "group_due_selection = due_groups.step"
  "group_scoped_selection = scoped_groups.step"
  "summarise_selection = summaries.step"
  by (intro ext, simp add: group_due_selection_def due_groups.step_def
      group_scoped_selection_def scoped_groups.step_def summarise_selection_def summaries.step_def)+

interpretation group_order: comparator group_compare
  by unfold_locales (auto simp: group_compare_def split: if_splits)

lemma mset_concat_js_sort:
  assumes "\<And>g. items (finish g) = js_sort c (items g)"
  shows "mset (concat (map items (js_sort d (map finish gs)))) = mset (concat (map items gs))"
proof -
  have sum: "mset (concat (map f xs)) = (\<Sum>x\<in>#mset xs. mset (f x))" for f :: "'a \<Rightarrow> 'b list" and xs
    by (induction xs) auto
  show ?thesis unfolding sum by (simp add: multiset.map_comp o_def assms)
qed

lemma groupDue_mset:
  "mset (concat (map cg_due_selections (groupDueServicePeriodsByInvoiceWindow lc sels))) = mset sels"
  unfolding groupDueServicePeriodsByInvoiceWindow_def
  by (subst mset_concat_js_sort) (simp_all add: grouping_steps due_groups.groups_mset)

lemma groupDue_keys:
  "mset (map cg_group_key (groupDueServicePeriodsByInvoiceWindow lc sels)) =
     mset (js_unique (map window_key sels))"
proof -
  have "map cg_group_key (foldl due_groups.step [] sels) = js_unique (map window_key sels)"
    using due_groups.groups_spec [of sels] by simp
  then have "image_mset cg_group_key (mset (foldl due_groups.step [] sels))
      = mset (js_unique (map window_key sels))"
    by (metis mset_map)
  then show ?thesis
    by (simp add: groupDueServicePeriodsByInvoiceWindow_def grouping_steps multiset.map_comp o_def)
qed

lemma groupDue_members:
  assumes "g \<in> set (groupDueServicePeriodsByInvoiceWindow lc sels)"
  shows "mset (cg_due_selections g) = mset (filter (\<lambda>sel. window_key sel = cg_group_key g) sels)"
  using assms due_groups.groups_spec [of sels]
  by (auto simp: groupDueServicePeriodsByInvoiceWindow_def grouping_steps)

lemma groupDue_sorted:
  "sorted_wrt (\<lambda>a b. group_compare a b \<le> 0) (groupDueServicePeriodsByInvoiceWindow lc sels)"
  unfolding groupDueServicePeriodsByInvoiceWindow_def by (rule group_order.sorted_js_sort)

text \<open>The scoped grouping: the summaries hold the distinct scopes of the group's members.\<close>

definition summary_wf :: "scope_summary \<Rightarrow> bool" where
  "summary_wf s \<longleftrightarrow>
     distinct (ss_contract_ids s) \<and> set (ss_contract_ids s) = contract_scope ` set (ss_selections s)
     \<and> distinct (ss_purchase_order_keys s)
     \<and> set (ss_purchase_order_keys s) = purchase_order_scope ` set (ss_selections s)
     \<and> distinct (ss_financial_keys s) \<and> set (ss_financial_keys s) = financial_scope ` set (ss_selections s)"

lemma summaries_wf: "list_all summary_wf (foldl summarise_selection [] sels)"
proof (induction sels rule: rev_induct)
  case Nil
  show ?case by simp
next
  case (snoc sel sels)
  have "summary_wf (new_summary sel)" by (simp add: summary_wf_def new_summary_def)
  moreover have "summary_wf (extend_summary sel s)" if "summary_wf s" for s
    using that by (simp add: summary_wf_def extend_summary_def)
  ultimately show ?case
    using snoc by (simp add: summarise_selection_def map_upsert_list_all)
qed

lemma traverse_concat_spec:
  assumes "\<And>x. x \<in> set xs \<Longrightarrow> \<exists>out. f x = Inr out \<and> (if P x then \<exists>y. out = [y] \<and> Q x y else out = [])"
  shows "\<exists>parts. traverse f xs = Inr parts \<and> list_all2 Q (filter P xs) (concat parts)"
  using assms
proof (induction xs)
  case Nil
  show ?case by simp
next
  case (Cons x xs)
  obtain out where "f x = Inr out" "if P x then \<exists>y. out = [y] \<and> Q x y else out = []"
    using Cons.prems [of x] by auto
  moreover obtain parts where "traverse f xs = Inr parts" "list_all2 Q (filter P xs) (concat parts)"
    using Cons.IH Cons.prems by auto
  ultimately show ?case by (auto split: if_splits)
qed

text \<open>What a settlement of a due period must be.\<close>

definition settles :: "activity_window \<Rightarrow> due_selection \<Rightarrow> settlement \<Rightarrow> bool" where
  "settles aw sel st \<longleftrightarrow> st_service_period st = ds_service_period sel
     \<and> st_invoice_window st = ds_invoice_window sel
     \<and> range_days (st_covered_service_period st) = range_days (ds_service_period sel) \<inter> window_days aw
     \<and> coverage_of (ds_service_period sel) (st_covered_service_period st) (st_coverage st)"

text \<open>
  C13: settling an invoice window returns, in order, one settlement for each due period with a day in
  the activity window and none for the others; it covers exactly the active days of the period, and
  its proration ratio is the double nearest to the number of those days over the length of the period,
  above 0 and at most 1.
\<close>

theorem settlements_cover_active_days:
  assumes "\<forall>sp \<in> set sps. range_days sp \<noteq> {}"
  shows "\<exists>out. resolveRecurringSettlementsForInvoiceWindow sps w aw dp = Inr out
    \<and> list_all2 (settles aw)
        (filter (\<lambda>sel. range_days (ds_service_period sel) \<inter> window_days aw \<noteq> {})
          (selectDueServicePeriodsForInvoiceWindow sps dp w)) out"
proof -
  let ?sels = "selectDueServicePeriodsForInvoiceWindow sps dp w"
  have step: "\<exists>out. resolveSettlement aw sel = Inr out \<and>
      (if range_days (ds_service_period sel) \<inter> window_days aw \<noteq> {} then \<exists>st. out = [st] \<and> settles aw sel st
       else out = [])"
    if "sel \<in> set (selectDueServicePeriodsForInvoiceWindow sps dp w)" for sel
  proof -
    have "range_days (ds_service_period sel) \<noteq> {}"
      using that assms by (auto simp: selectDue_iff)
    from resolveSettlement_spec [OF this, of aw] show ?thesis
      by (auto simp: settles_def split: if_splits)
  qed
  obtain parts where "traverse (resolveSettlement aw) ?sels = Inr parts"
    "list_all2 (settles aw) (filter (\<lambda>sel. range_days (ds_service_period sel) \<inter> window_days aw \<noteq> {}) ?sels)
      (concat parts)"
    using traverse_concat_spec [of ?sels "resolveSettlement aw", OF step] by blast
  then show ?thesis by (simp add: resolveRecurringSettlementsForInvoiceWindow_def)
qed

text \<open>January 2026 in advance, for an assignment that starts on the 15th: 17 of 31 days.\<close>

theorem settlements_cover_active_days_witness:
  "let sp = \<lparr>range_start = utc_midnight 20454, range_end = utc_midnight 20485, range_semantics = Half_Open,
         sp_cadence_owner = Client, sp_due_position = Advance,
         sp_source_obligation = \<lparr>ob_tenant = None, ob_id = ''line-1'', ob_type = Contract_Line,
           ob_charge_family = Fixed\<rparr>, sp_timing_metadata = None\<rparr>;
       w = \<lparr>range_start = utc_midnight 20454, range_end = utc_midnight 20485, range_semantics = Half_Open,
         iw_cadence_owner = Client, iw_due_position = Advance, iw_window_id = None\<rparr>;
       aw = \<lparr>aw_start = Some (utc_midnight 20468), aw_end = None, aw_semantics = Half_Open\<rparr>
   in \<exists>out. resolveRecurringSettlementsForInvoiceWindow [sp] w aw Advance = Inr out
     \<and> map (\<lambda>st. covered_days (st_coverage st)) out = [17]
     \<and> list_all2 (settles aw) (filter (\<lambda>sel. range_days (ds_service_period sel) \<inter> window_days aw \<noteq> {})
          (selectDueServicePeriodsForInvoiceWindow [sp] Advance w)) out"
proof -
  let ?sp = "\<lparr>range_start = utc_midnight 20454, range_end = utc_midnight 20485, range_semantics = Half_Open,
         sp_cadence_owner = Client, sp_due_position = Advance,
         sp_source_obligation = \<lparr>ob_tenant = None, ob_id = ''line-1'', ob_type = Contract_Line,
           ob_charge_family = Fixed\<rparr>, sp_timing_metadata = None\<rparr>"
  let ?w = "\<lparr>range_start = utc_midnight 20454, range_end = utc_midnight 20485, range_semantics = Half_Open,
         iw_cadence_owner = Client, iw_due_position = Advance, iw_window_id = None\<rparr>"
  let ?aw = "\<lparr>aw_start = Some (utc_midnight 20468), aw_end = None, aw_semantics = Half_Open\<rparr>"
  have "\<forall>sp \<in> set [?sp]. range_days sp \<noteq> {}" by (simp add: range_days_def)
  from settlements_cover_active_days [OF this, of ?w ?aw Advance] obtain out where
    out: "resolveRecurringSettlementsForInvoiceWindow [?sp] ?w ?aw Advance = Inr out"
      "list_all2 (settles ?aw) (filter (\<lambda>sel. range_days (ds_service_period sel) \<inter> window_days ?aw \<noteq> {})
          (selectDueServicePeriodsForInvoiceWindow [?sp] Advance ?w)) out" by blast
  have "case resolveRecurringSettlementsForInvoiceWindow [?sp] ?w ?aw Advance of Inl _ \<Rightarrow> False
    | Inr out \<Rightarrow> map (\<lambda>st. covered_days (st_coverage st)) out = [17]" by code_simp
  with out show ?thesis unfolding Let_def by auto
qed

text \<open>
  Grouping due periods by invoice window loses and duplicates none; each window has one group,
  which holds exactly the periods due in it, ordered by service-period start then obligation, and the
  groups are ordered by window.
\<close>

theorem due_groups_partition:
  "mset (concat (map cg_due_selections (groupDueServicePeriodsByInvoiceWindow lc sels))) = mset sels
   \<and> distinct (map cg_group_key (groupDueServicePeriodsByInvoiceWindow lc sels))
   \<and> (\<forall>g \<in> set (groupDueServicePeriodsByInvoiceWindow lc sels). cg_due_selections g
        = js_sort (due_selection_compare lc) (filter (\<lambda>sel. window_key sel = cg_group_key g) sels))
   \<and> sorted_wrt (\<lambda>a b. group_compare a b \<le> 0) (groupDueServicePeriodsByInvoiceWindow lc sels)"
proof (intro conjI)
  have "mset (map cg_group_key (groupDueServicePeriodsByInvoiceWindow lc sels))
      = mset (js_unique (map window_key sels))" by (rule groupDue_keys)
  then show "distinct (map cg_group_key (groupDueServicePeriodsByInvoiceWindow lc sels))"
    by (metis js_unique_simps(2) mset_eq_imp_distinct_iff)
  show "\<forall>g \<in> set (groupDueServicePeriodsByInvoiceWindow lc sels). cg_due_selections g
      = js_sort (due_selection_compare lc) (filter (\<lambda>sel. window_key sel = cg_group_key g) sels)"
    using due_groups.groups_spec [of sels]
    by (auto simp: groupDueServicePeriodsByInvoiceWindow_def grouping_steps)
qed (rule groupDue_mset groupDue_sorted)+

text \<open>One line due in January, another due in January and February: two groups, of two and one.\<close>

definition sample_selection :: "string \<Rightarrow> int \<Rightarrow> int \<Rightarrow> due_selection" where
  "sample_selection line s e =
     \<lparr>ds_service_period = \<lparr>range_start = utc_midnight s, range_end = utc_midnight e, range_semantics = Half_Open,
         sp_cadence_owner = Client, sp_due_position = Advance,
         sp_source_obligation = \<lparr>ob_tenant = None, ob_id = line, ob_type = Contract_Line,
           ob_charge_family = Fixed\<rparr>, sp_timing_metadata = None\<rparr>,
      ds_invoice_window = \<lparr>range_start = utc_midnight s, range_end = utc_midnight e,
         range_semantics = Half_Open, iw_cadence_owner = Client, iw_due_position = Advance,
         iw_window_id = None\<rparr>\<rparr>"

theorem due_groups_partition_witness:
  "let january = sample_selection ''a'' 20454 20485; february = sample_selection ''a'' 20485 20513;
       other = sample_selection ''b'' 20454 20485;
       gs = groupDueServicePeriodsByInvoiceWindow (\<lambda>x y. if x = y then 0 else if x < y then - 1 else 1)
         [other, february, january]
   in mset (concat (map cg_due_selections gs)) = {#other, february, january#}
    \<and> map (\<lambda>g. length (cg_due_selections g)) gs = [2, 1]"
proof -
  have "map (\<lambda>g. length (cg_due_selections g)) (groupDueServicePeriodsByInvoiceWindow
      (\<lambda>x y. if x = y then 0 else if x < y then - 1 else 1)
      [sample_selection ''b'' 20454 20485, sample_selection ''a'' 20485 20513, sample_selection ''a'' 20454 20485])
      = [2, 1]" by code_simp
  then show ?thesis unfolding Let_def
    using due_groups_partition [of "\<lambda>x y. if x = y then 0 else if x < y then - 1 else 1"
        "[sample_selection ''b'' 20454 20485, sample_selection ''a'' 20485 20513, sample_selection ''a'' 20454 20485]"]
    by simp
qed

section \<open>Scoped grouping\<close>

definition members :: "scoped_due_selection list \<Rightarrow> string \<times> iso8601 \<times> iso8601 \<Rightarrow> scoped_due_selection list" where
  "members sels key = filter (\<lambda>sel. scoped_key sel = key) sels"

lemma summary_of_key:
  assumes "key \<in> set (map scoped_key sels)"
  obtains s where "List.find (\<lambda>s. ss_key s = key) (foldl summarise_selection [] sels) = Some s"
    "summary_wf s" "ss_selections s = members sels key"
proof -
  let ?ss = "foldl summarise_selection [] sels"
  have keys: "map ss_key ?ss = js_unique (map scoped_key sels)"
    and items: "\<forall>s \<in> set ?ss. ss_selections s = filter (\<lambda>x. scoped_key x = ss_key s) sels"
    using summaries.groups_spec [of sels] by (simp_all add: grouping_steps)
  have "key \<in> ss_key ` set ?ss" using assms keys by (metis js_unique_simps(1) list.set_map)
  then obtain s where s: "List.find (\<lambda>s. ss_key s = key) ?ss = Some s"
    by (cases "List.find (\<lambda>s. ss_key s = key) ?ss") (auto simp: find_None_iff)
  then have "s \<in> set ?ss" "ss_key s = key" using find_SomeD by fast+
  with that [OF s] items summaries_wf [of sels] show ?thesis by (simp add: list_all_iff members_def)
qed

lemma many_iff:
  assumes "distinct xs" "set xs = f ` A"
  shows "length xs > 1 \<longleftrightarrow> (\<exists>a \<in> A. \<exists>b \<in> A. f a \<noteq> f b)"
proof
  assume "length xs > 1"
  then obtain x zs where "xs = x # zs" "zs \<noteq> []" by (cases xs) auto
  moreover from this obtain y ys where "zs = y # ys" by (cases zs) auto
  ultimately have "x \<noteq> y" "x \<in> set xs" "y \<in> set xs" using assms(1) by auto
  then show "\<exists>a \<in> A. \<exists>b \<in> A. f a \<noteq> f b" unfolding assms(2) by blast
next
  assume "\<exists>a \<in> A. \<exists>b \<in> A. f a \<noteq> f b"
  then obtain x y where "x \<in> set xs" "y \<in> set xs" "x \<noteq> y" unfolding assms(2) by blast
  then show "length xs > 1" by (cases xs; cases "tl xs") auto
qed

text \<open>A group keeps the window it was created for.\<close>

lemma scoped_group_windows:
  "list_all (\<lambda>g. snd (sg_group_key g) = (sg_window_start g, sg_window_end g))
     (foldl group_scoped_selection [] sels)"
proof (induction sels rule: rev_induct)
  case (snoc sel sels)
  then show ?case
    by (simp add: group_scoped_selection_def)
      (rule map_upsert_list_all,
        simp_all add: new_scoped_group_def extend_scoped_group_def scoped_key_def window_key_def)
qed simp

definition differ :: "('a \<Rightarrow> 'b) \<Rightarrow> 'a list \<Rightarrow> bool" where
  "differ f xs \<longleftrightarrow> (\<exists>a \<in> set xs. \<exists>b \<in> set xs. f a \<noteq> f b)"

text \<open>
  C15: grouping due periods into invoice candidates loses and duplicates none; each client and window
  has one group, which holds exactly its periods in order; a group names a split reason exactly when
  its periods differ in that scope: the contract, the purchase order, or the financial scope
  (currency, tax source, export shape).
\<close>

theorem invoice_candidates_partition:
  "mset (concat (map sg_due_selections (groupDueServicePeriodsForInvoiceCandidates lc sels))) = mset sels
   \<and> distinct (map sg_group_key (groupDueServicePeriodsForInvoiceCandidates lc sels))
   \<and> (\<forall>g \<in> set (groupDueServicePeriodsForInvoiceCandidates lc sels).
        sg_due_selections g = js_sort (due_selection_compare lc) (members sels (sg_group_key g))
      \<and> sg_split_reasons g =
          (if differ contract_scope (sg_due_selections g) then [Single_Contract] else [])
          @ (if differ purchase_order_scope (sg_due_selections g) then [Purchase_Order_Scope] else [])
          @ (if differ financial_scope (sg_due_selections g) then [Financial_Constraint] else []))"
proof (intro conjI ballI)
  let ?gs = "foldl group_scoped_selection [] sels"
  let ?out = "groupDueServicePeriodsForInvoiceCandidates lc sels"
  let ?finish = "finish_scoped_group lc (foldl summarise_selection [] sels)"
  have finish: "sg_group_key (?finish g) = sg_group_key g"
    "sg_due_selections (?finish g) = js_sort (due_selection_compare lc) (sg_due_selections g)" for g
    by (simp_all add: finish_scoped_group_def Let_def)
  have keys: "map sg_group_key ?gs = js_unique (map scoped_key sels)"
    and items: "\<forall>g \<in> set ?gs. sg_due_selections g = members sels (sg_group_key g)"
    using scoped_groups.groups_spec [of sels] by (simp_all add: grouping_steps members_def)
  show "mset (concat (map sg_due_selections ?out)) = mset sels"
    unfolding groupDueServicePeriodsForInvoiceCandidates_def
    by (subst mset_concat_js_sort, rule finish(2)) (simp add: grouping_steps scoped_groups.groups_mset)
  show "distinct (map sg_group_key ?out)"
    by (simp add: groupDueServicePeriodsForInvoiceCandidates_def o_def finish(1) keys)
  fix g
  assume "g \<in> set ?out"
  then obtain h where h: "h \<in> set ?gs" "g = ?finish h"
    by (auto simp: groupDueServicePeriodsForInvoiceCandidates_def)
  show sels_g: "sg_due_selections g = js_sort (due_selection_compare lc) (members sels (sg_group_key g))"
    using items h finish by simp
  have "sg_group_key h \<in> set (map scoped_key sels)"
    using h(1) keys by (metis image_eqI js_unique_simps(1) list.set_map)
  then obtain s where s: "List.find (\<lambda>s. ss_key s = sg_group_key h) (foldl summarise_selection [] sels) = Some s"
    "summary_wf s" "ss_selections s = members sels (sg_group_key h)" by (rule summary_of_key)
  have set_g: "set (sg_due_selections g) = set (ss_selections s)" using sels_g s(3) h(2) finish(1) by simp
  obtain sel rest where sel: "js_sort (due_selection_compare lc) (sg_due_selections h) = sel # rest"
    using scoped_groups.groups_nonempty [of sels] h(1)
    by (cases "js_sort (due_selection_compare lc) (sg_due_selections h)") (auto simp: grouping_steps)
  have "sel \<in> set (sg_due_selections h)" by (metis list.set_intros(1) sel set_js_sort)
  then have "scoped_key sel = sg_group_key h" using items h(1) by (simp add: members_def)
  moreover have "snd (sg_group_key h) = (sg_window_start h, sg_window_end h)"
    using scoped_group_windows [of sels] h(1) by (simp add: list_all_iff)
  ultimately have "(client_scope sel, sg_window_start h, sg_window_end h) = sg_group_key h"
    by (metis fst_conv prod.collapse scoped_key_def)
  then have reasons: "sg_split_reasons g = split_reasons_of (Some s)"
    using s(1) sel by (simp add: h(2) finish_scoped_group_def Let_def)
  show "sg_split_reasons g =
          (if differ contract_scope (sg_due_selections g) then [Single_Contract] else [])
          @ (if differ purchase_order_scope (sg_due_selections g) then [Purchase_Order_Scope] else [])
          @ (if differ financial_scope (sg_due_selections g) then [Financial_Constraint] else [])"
    using s(2) many_iff [of "ss_contract_ids s" contract_scope "set (ss_selections s)"]
      many_iff [of "ss_purchase_order_keys s" purchase_order_scope "set (ss_selections s)"]
      many_iff [of "ss_financial_keys s" financial_scope "set (ss_selections s)"]
    unfolding reasons differ_def set_g by (simp add: summary_wf_def split_reasons_of_def)
qed

text \<open>Two contracts of one client due in January in the same currency: one group, split by contract.\<close>

definition sample_scoped :: "string \<Rightarrow> string \<Rightarrow> scoped_due_selection" where
  "sample_scoped line contract =
     due_selection.extend (sample_selection line 20454 20485)
       (scoped_due_selection.fields (Some ''client'') (Some contract) None (Some ''USD'') None None)"

theorem invoice_candidates_partition_witness:
  "let sels = [sample_scoped ''a'' ''x'', sample_scoped ''b'' ''y''];
       gs = groupDueServicePeriodsForInvoiceCandidates (\<lambda>x y. if x = y then 0 else if x < y then - 1 else 1) sels
   in mset (concat (map sg_due_selections gs)) = mset sels \<and> distinct (map sg_group_key gs)
    \<and> map sg_split_reasons gs = [[Single_Contract]]"
proof -
  have "map sg_split_reasons (groupDueServicePeriodsForInvoiceCandidates
      (\<lambda>x y. if x = y then 0 else if x < y then - 1 else 1)
      [sample_scoped ''a'' ''x'', sample_scoped ''b'' ''y'']) = [[Single_Contract]]" by code_simp
  then show ?thesis unfolding Let_def
    using invoice_candidates_partition [of "\<lambda>x y. if x = y then 0 else if x < y then - 1 else 1"
        "[sample_scoped ''a'' ''x'', sample_scoped ''b'' ''y'']"]
    by simp
qed

end
