(* ===== verification/Materialization.thy ===== *)
theory Materialization
  imports Contract_Cadence Client_Cadence Generation_Horizon Recurring_Timing
begin

text \<open>
  \<open>materializeContractCadenceServicePeriods.ts\<close>, \<open>materializeClientCadenceServicePeriods.ts\<close> and
  \<open>clipRecurringCandidatesToObligationBounds.ts\<close> of \<open>shared/billingClients\<close>: the generated periods
  become persisted records with their invoice windows, and records are bounded by the days on which
  their obligation is active.
\<close>

section \<open>Records\<close>

type_synonym record_id_factory = "string \<Rightarrow> string \<Rightarrow> int \<Rightarrow> string"

definition defaultRecordIdFactory :: record_id_factory where
  "defaultRecordIdFactory scheduleKey periodKey revision =
     scheduleKey @ '':'' @ periodKey @ '':r'' @ show_int revision"

definition toRecordRange :: "('a date_range_scheme) \<Rightarrow> date_range" where
  "toRecordRange period = \<lparr>range_start = slice_date (range_start period),
     range_end = slice_date (range_end period), range_semantics = Half_Open\<rparr>"

definition initial_record ::
    "temporal \<Rightarrow> record_id_factory \<Rightarrow> string \<Rightarrow> obligation_ref \<Rightarrow> cadence_owner \<Rightarrow> due_position
       \<Rightarrow> string \<Rightarrow> string \<Rightarrow> iso8601 \<Rightarrow> service_period \<Rightarrow> date_range \<Rightarrow> period_record" where
  "initial_record td recordIdFactory scheduleKey ob owner dp sourceRuleVersion sourceRunKey
       materializedAt servicePeriod invoiceWindow =
     (let periodKey = buildRecurringServicePeriodPeriodKey td servicePeriod
      in \<lparr>rec_id = recordIdFactory scheduleKey periodKey 1,
          rec_schedule_key = scheduleKey,
          rec_period_key = periodKey,
          rec_revision = 1,
          rec_source_obligation = ob,
          rec_cadence_owner = owner,
          rec_due_position = dp,
          rec_lifecycle_state = Generated,
          rec_service_period = toRecordRange servicePeriod,
          rec_invoice_window = invoiceWindow,
          rec_activity_window = None,
          rec_timing_metadata = sp_timing_metadata servicePeriod,
          rec_provenance = \<lparr>prov_kind = P_Generated, prov_source_rule_version = sourceRuleVersion,
            prov_reason_code = ''initial_materialization'',
            prov_source_run_key = Some sourceRunKey, prov_supersedes_record_id = None\<rparr>,
          rec_invoice_linkage = None,
          rec_created_at = materializedAt,
          rec_updated_at = materializedAt\<rparr>)"

section \<open>Contract cadence\<close>

datatype supported_contract_cycle =
  Contract_Monthly | Contract_Quarterly | Contract_Semi_Annually | Contract_Annually

definition DEFAULT_CONTRACT_CADENCE_MAX_PERIODS_PER_RUN :: int where
  "DEFAULT_CONTRACT_CADENCE_MAX_PERIODS_PER_RUN = 200"

record contract_plan =
  cp_schedule_key :: string
  cp_coverage :: coverage_status
  cp_records :: "period_record list"
  cp_hit_period_cap :: bool

definition resolveMonthsPerPeriod :: "supported_contract_cycle \<Rightarrow> int" where
  "resolveMonthsPerPeriod cycle = (case cycle of Contract_Monthly \<Rightarrow> 1 | Contract_Quarterly \<Rightarrow> 3
     | Contract_Semi_Annually \<Rightarrow> 6 | Contract_Annually \<Rightarrow> 12)"

definition generateContractCadenceServicePeriods ::
    "temporal \<Rightarrow> supported_contract_cycle \<Rightarrow> iso8601 \<Rightarrow> iso8601 \<Rightarrow> obligation_ref \<Rightarrow> due_position
       \<Rightarrow> iso8601 \<Rightarrow> int \<Rightarrow> service_period list result" where
  "generateContractCadenceServicePeriods td cycle asOf rangeEnd ob dp anchorDate maxPeriods =
     (case cycle of
       Contract_Monthly \<Rightarrow> generateMonthlyContractCadenceServicePeriods
         td asOf rangeEnd ob dp anchorDate (Some maxPeriods)
     | Contract_Quarterly \<Rightarrow> generateQuarterlyContractCadenceServicePeriods
         td asOf rangeEnd ob dp anchorDate (Some maxPeriods)
     | Contract_Semi_Annually \<Rightarrow> generateSemiAnnualContractCadenceServicePeriods
         td asOf rangeEnd ob dp anchorDate (Some maxPeriods)
     | Contract_Annually \<Rightarrow> generateAnnualContractCadenceServicePeriods
         td asOf rangeEnd ob dp anchorDate (Some maxPeriods))"

record contract_materialization =
  cm_as_of :: iso8601
  cm_materialized_at :: iso8601
  cm_billing_cycle :: supported_contract_cycle
  cm_anchor_date :: iso8601
  cm_source_obligation :: obligation_ref
  cm_due_position :: due_position
  cm_source_rule_version :: string
  cm_source_run_key :: string
  cm_coverage_anchor_date :: "iso8601 option"
  cm_target_horizon_days :: "int option"
  cm_replenishment_threshold_days :: "int option"
  cm_max_periods_per_run :: "int option"
  cm_record_id_factory :: "record_id_factory option"

definition contract_record ::
    "temporal \<Rightarrow> contract_materialization \<Rightarrow> string \<Rightarrow> service_period \<Rightarrow> period_record result" where
  "contract_record td inp scheduleKey servicePeriod =
     and_then (resolveContractCadenceInvoiceWindowForServicePeriod td servicePeriod
         (cm_anchor_date inp) (resolveMonthsPerPeriod (cm_billing_cycle inp)) None) (\<lambda>invoiceWindow.
       Inr (initial_record td (or_else (cm_record_id_factory inp) defaultRecordIdFactory) scheduleKey
         (cm_source_obligation inp) Contract (cm_due_position inp) (cm_source_rule_version inp)
         (cm_source_run_key inp) (cm_materialized_at inp) servicePeriod (toRecordRange invoiceWindow)))"

definition materializeContractCadenceServicePeriods ::
    "temporal \<Rightarrow> contract_materialization \<Rightarrow> contract_plan result" where
  "materializeContractCadenceServicePeriods td inp =
     (let coverageAnchor = slice_date (or_else (cm_coverage_anchor_date inp) (cm_as_of inp));
          maxPeriodsPerRun = positive_or (cm_max_periods_per_run inp)
            DEFAULT_CONTRACT_CADENCE_MAX_PERIODS_PER_RUN
      in and_then (resolveRecurringServicePeriodGenerationHorizon coverageAnchor
           (cm_target_horizon_days inp) (cm_replenishment_threshold_days inp)) (\<lambda>horizon.
         and_then (generateContractCadenceServicePeriods td (cm_billing_cycle inp) (cm_as_of inp)
           (utc_midnight (iso_day (hz_target_horizon_end horizon)))
           (cm_source_obligation inp) (cm_due_position inp) (cm_anchor_date inp) maxPeriodsPerRun)
         (\<lambda>servicePeriods.
           let hitPeriodCap = int (length servicePeriods) \<ge> maxPeriodsPerRun
                 \<and> slice_date (range_end (last servicePeriods)) < hz_target_horizon_end horizon;
               scheduleKey = buildRecurringServicePeriodScheduleKey (cm_source_obligation inp)
                 Contract (cm_due_position inp)
           in and_then (traverse (contract_record td inp scheduleKey) servicePeriods) (\<lambda>records.
              and_then (assessRecurringServicePeriodGenerationCoverage coverageAnchor
                  (cm_target_horizon_days inp) (cm_replenishment_threshold_days inp)
                  (map rec_service_period records)) (\<lambda>coverage.
                Inr \<lparr>cp_schedule_key = scheduleKey, cp_coverage = coverage, cp_records = records,
                     cp_hit_period_cap = hitPeriodCap\<rparr>)))))"

section \<open>Client cadence\<close>

record client_materialization =
  lm_as_of :: iso8601
  lm_materialized_at :: iso8601
  lm_billing_cycle :: billing_cycle
  lm_source_obligation :: obligation_ref
  lm_due_position :: due_position
  lm_source_rule_version :: string
  lm_source_run_key :: string
  lm_anchor_settings :: "anchor_settings option"
  lm_historical_cycles :: "historical_cycle list"
  lm_target_horizon_days :: "int option"
  lm_replenishment_threshold_days :: "int option"
  lm_record_id_factory :: "record_id_factory option"

record client_plan =
  lp_schedule_key :: string
  lp_coverage :: coverage_status
  lp_generation_range_end :: iso8601
  lp_records :: "period_record list"

text \<open>
  \<open>resolveNextInvoiceWindow\<close> with its cache, a \<open>Map\<close> threaded through the loop. The other two
  parts of the cache key are the same in every call.
\<close>

definition client_periods_between ::
    "temporal \<Rightarrow> client_materialization \<Rightarrow> iso8601 \<Rightarrow> iso8601 \<Rightarrow> service_period list result" where
  "client_periods_between td inp rangeStart rangeEnd =
     generateClientCadenceServicePeriods td (lm_billing_cycle inp) rangeStart rangeEnd
       (lm_source_obligation inp) (lm_due_position inp) (lm_anchor_settings inp)
       (lm_historical_cycles inp)"

definition resolveNextInvoiceWindow ::
    "temporal \<Rightarrow> client_materialization \<Rightarrow> service_period \<Rightarrow> (iso8601 \<times> date_range) list
       \<Rightarrow> (date_range \<times> (iso8601 \<times> date_range) list) result" where
  "resolveNextInvoiceWindow td inp servicePeriod cache =
     (case map_of cache (range_end servicePeriod) of
        Some cached \<Rightarrow> Inr (cached, cache)
      | None \<Rightarrow> and_then (client_periods_between td inp (range_end servicePeriod)
            (utc_midnight (iso_day (range_end servicePeriod) + 1))) (\<lambda>nextPeriods.
          case nextPeriods of [] \<Rightarrow> Inl Next_Window_Missing
          | nextPeriod # _ \<Rightarrow> Inr (toRecordRange nextPeriod,
              (range_end servicePeriod, toRecordRange nextPeriod) # cache)))"

fun client_records ::
    "temporal \<Rightarrow> client_materialization \<Rightarrow> string \<Rightarrow> (iso8601 \<times> date_range) list
       \<Rightarrow> service_period list \<Rightarrow> period_record list result" where
  "client_records td inp scheduleKey cache [] = Inr []"
| "client_records td inp scheduleKey cache (sp # sps) =
     and_then (if lm_due_position inp = Advance then Inr (toRecordRange sp, cache)
         else resolveNextInvoiceWindow td inp sp cache) (\<lambda>(invoiceWindow, cache').
     and_then (client_records td inp scheduleKey cache' sps) (\<lambda>records.
       Inr (initial_record td (or_else (lm_record_id_factory inp) defaultRecordIdFactory) scheduleKey
           (lm_source_obligation inp) Client (lm_due_position inp) (lm_source_rule_version inp)
           (lm_source_run_key inp) (lm_materialized_at inp) sp invoiceWindow # records)))"

definition materializeClientCadenceServicePeriods ::
    "temporal \<Rightarrow> client_materialization \<Rightarrow> client_plan result" where
  "materializeClientCadenceServicePeriods td inp =
     (let horizonAnchor = (if slice_date (lm_as_of inp) > slice_date (lm_materialized_at inp)
            then slice_date (lm_as_of inp) else slice_date (lm_materialized_at inp))
      in and_then (resolveRecurringServicePeriodGenerationHorizon horizonAnchor
           (lm_target_horizon_days inp) (lm_replenishment_threshold_days inp)) (\<lambda>horizon.
         and_then (client_periods_between td inp (lm_as_of inp)
           (utc_midnight (iso_day (hz_target_horizon_end horizon)))) (\<lambda>servicePeriods.
           let scheduleKey = buildRecurringServicePeriodScheduleKey (lm_source_obligation inp)
                 Client (lm_due_position inp)
           in and_then (client_records td inp scheduleKey [] servicePeriods) (\<lambda>records.
              and_then (assessRecurringServicePeriodGenerationCoverage horizonAnchor
                  (lm_target_horizon_days inp) (lm_replenishment_threshold_days inp)
                  (map rec_service_period records)) (\<lambda>coverage.
                Inr \<lparr>lp_schedule_key = scheduleKey, lp_coverage = coverage,
                     lp_generation_range_end = hz_target_horizon_end horizon,
                     lp_records = records\<rparr>)))))"

section \<open>Obligation bounds\<close>

definition clip_record ::
    "iso8601 \<Rightarrow> iso8601 option \<Rightarrow> period_record \<Rightarrow> period_record list" where
  "clip_record obligationStart obligationEnd r =
     (let sp = rec_service_period r;
          after_end = (case obligationEnd of None \<Rightarrow> False
            | Some e \<Rightarrow> iso_day (range_start sp) \<ge> iso_day e);
          clipStart = (if iso_day obligationStart > iso_day (range_start sp)
            then Some obligationStart else None);
          clipEnd = (case obligationEnd of None \<Rightarrow> None
            | Some e \<Rightarrow> if iso_day e < iso_day (range_end sp) then Some e else None)
      in if after_end then []
         else if iso_day (range_end sp) \<le> iso_day obligationStart then []
         else if clipStart = None \<and> clipEnd = None then [r]
         else [r\<lparr>rec_activity_window := Some \<lparr>
             aw_start = Some (or_else clipStart (range_start sp)),
             aw_end = Some (or_else clipEnd (range_end sp)),
             aw_semantics = range_semantics sp\<rparr>\<rparr>])"

definition clipRecurringCandidatesToObligationBounds ::
    "period_record list \<Rightarrow> iso8601 \<Rightarrow> iso8601 option \<Rightarrow> period_record list" where
  "clipRecurringCandidatesToObligationBounds records obligationStart obligationEnd =
     concat (map (clip_record obligationStart obligationEnd) records)"

section \<open>Correctness of the records\<close>

text \<open>The range of the days from \<open>s\<close> up to, not including, \<open>e\<close>.\<close>

definition day_range :: "int \<Rightarrow> int \<Rightarrow> date_range" where
  "day_range s e = \<lparr>range_start = date_only s, range_end = date_only e, range_semantics = Half_Open\<rparr>"

lemma record_range_days [simp]: "range_days (toRecordRange p) = range_days p"
  by (simp add: range_days_def toRecordRange_def)

lemma tiles_record_ranges: "tiles a (map toRecordRange ps) b \<longleftrightarrow> tiles a ps b"
  by (induction ps arbitrary: a) (simp_all add: toRecordRange_def)

lemma record_ranges_whole: "tiles a ps b \<Longrightarrow> list_all whole_days (map toRecordRange ps)"
  by (induction ps arbitrary: a) (auto simp: toRecordRange_def whole_days_def slice_date_def)

lemma tiles_last: "tiles a ps b \<Longrightarrow> ps \<noteq> [] \<Longrightarrow> iso_day (range_end (last ps)) = b"
  by (induction ps arbitrary: a) auto

lemma initial_record_simps [simp, ledger_simps]:
  "rec_service_period (initial_record td f key ob owner dp v run now sp w) = toRecordRange sp"
  "rec_invoice_window (initial_record td f key ob owner dp v run now sp w) = w"
  "rec_lifecycle_state (initial_record td f key ob owner dp v run now sp w) = Generated"
  "rec_revision (initial_record td f key ob owner dp v run now sp w) = 1"
  "rec_schedule_key (initial_record td f key ob owner dp v run now sp w) = key"
  by (simp_all add: initial_record_def Let_def)

text \<open>The coverage of a ladder of whole-day ranges: its end decides.\<close>

lemma tiles_meets_horizon:
  assumes "tiles a ps b" "ps \<noteq> []"
  shows "(\<exists>p \<in> set (map toRecordRange ps). date_only t \<le> range_end p) \<longleftrightarrow> t \<le> b"
proof
  assume "\<exists>p \<in> set (map toRecordRange ps). date_only t \<le> range_end p"
  then obtain p where "p \<in> set ps" "t \<le> iso_day (range_end p)"
    by (auto simp: toRecordRange_def slice_date_def)
  with tiles_member [OF assms(1)] show "t \<le> b" by fastforce
next
  assume "t \<le> b"
  then have "date_only t \<le> range_end (toRecordRange (last ps))"
    using tiles_last [OF assms] by (simp add: toRecordRange_def slice_date_def le_less)
  with assms(2) show "\<exists>p \<in> set (map toRecordRange ps). date_only t \<le> range_end p"
    by (metis image_eqI last_in_set list.set_map)
qed

lemma resolveMonths_pos: "0 < resolveMonthsPerPeriod c"
  by (simp add: resolveMonthsPerPeriod_def split: supported_contract_cycle.split)

lemma generateContract_eq:
  "generateContractCadenceServicePeriods td c asOf e ob dp a n =
     buildContractCadenceServicePeriods td asOf e ob dp a (Some n) (resolveMonthsPerPeriod c)"
  by (simp add: generateContractCadenceServicePeriods_def resolveMonthsPerPeriod_def
      generateMonthlyContractCadenceServicePeriods_def generateQuarterlyContractCadenceServicePeriods_def
      generateSemiAnnualContractCadenceServicePeriods_def generateAnnualContractCadenceServicePeriods_def
      split: supported_contract_cycle.split)

context iso_calendar
begin

lemma contract_records_spec:
  fixes inp :: contract_materialization
  defines "p \<equiv> resolveMonthsPerPeriod (cm_billing_cycle inp)"
  assumes anchor: "cm_anchor_date inp = utc_midnight a" and k: "0 \<le> k"
    and nth: "\<forall>i < length ps. ps ! i = contract_service_period td
        (utc_midnight (nth_boundary td a p (k + int i)))
        (utc_midnight (nth_boundary td a p (k + int i + 1))) ob (cm_due_position inp) (utc_midnight a)"
  shows "\<exists>rs. traverse (contract_record td inp key) ps = Inr rs
     \<and> map rec_service_period rs = map toRecordRange ps
     \<and> (\<forall>i < length ps. rec_lifecycle_state (rs ! i) = Generated
        \<and> (let j = (if cm_due_position inp = Arrears then k + int i + 1 else k + int i)
           in rec_invoice_window (rs ! i) = \<lparr>range_start = date_only (nth_boundary td a p j),
             range_end = date_only (nth_boundary td a p (j + 1)), range_semantics = Half_Open\<rparr>))"
proof -
  have p: "0 < p" by (simp add: p_def resolveMonths_pos)
  define window where "window i = (let j = (if cm_due_position inp = Arrears then k + int i + 1 else k + int i)
    in \<lparr>range_start = date_only (nth_boundary td a p j), range_end = date_only (nth_boundary td a p (j + 1)),
        range_semantics = Half_Open\<rparr>)" for i
  define rs where "rs = map (\<lambda>i. initial_record td (or_else (cm_record_id_factory inp) defaultRecordIdFactory)
    key (cm_source_obligation inp) Contract (cm_due_position inp) (cm_source_rule_version inp)
    (cm_source_run_key inp) (cm_materialized_at inp) (ps ! i) (window i)) [0 ..< length ps]"
  have "contract_record td inp key (ps ! i) = Inr (rs ! i)" if i: "i < length ps" for i
  proof -
    have "0 \<le> k + int i" using k by simp
    from contract_window_at [OF p this, of a ob "cm_due_position inp" "utc_midnight a" None] nth i
    show ?thesis
      by (simp add: contract_record_def anchor rs_def window_def toRecordRange_def slice_date_def Let_def
          flip: p_def)
  qed
  then have "traverse (contract_record td inp key) ps = Inr rs"
    by (simp add: traverse_Inr_iff list_all2_conv_all_nth rs_def)
  moreover have "map rec_service_period rs = map toRecordRange ps"
    by (intro nth_equalityI) (simp_all add: rs_def)
  ultimately show ?thesis by (intro exI [of _ rs]) (simp add: rs_def window_def)
qed

end

lemma contract_plan_exists:
  fixes inp :: contract_materialization
  defines "p \<equiv> resolveMonthsPerPeriod (cm_billing_cycle inp)"
  assumes "iso_calendar td" "cm_as_of inp = utc_midnight s" "cm_anchor_date inp = utc_midnight a"
    and "resolveRecurringServicePeriodGenerationHorizon
      (slice_date (or_else (cm_coverage_anchor_date inp) (cm_as_of inp)))
      (cm_target_horizon_days inp) (cm_replenishment_threshold_days inp) = Inr hz"
    and "s < iso_day (hz_target_horizon_end hz)" "a < iso_day (hz_target_horizon_end hz)"
  obtains plan k where "materializeContractCadenceServicePeriods td inp = Inr plan"
    "a \<le> s \<Longrightarrow> nth_boundary td a p k \<le> s" "s \<le> a \<Longrightarrow> k = 0"
    "tiles (nth_boundary td a p k) (map rec_service_period (cp_records plan))
       (nth_boundary td a p (k + int (length (cp_records plan))))"
    "cv_continuity_issues (cp_coverage plan) = []"
    "cp_hit_period_cap plan \<longleftrightarrow> \<not> cv_meets_target_horizon (cp_coverage plan)"
    "\<forall>i < length (cp_records plan). rec_service_period (cp_records plan ! i) = \<lparr>range_start =
        date_only (nth_boundary td a p (k + int i)),
        range_end = date_only (nth_boundary td a p (k + int i + 1)), range_semantics = Half_Open\<rparr>
      \<and> (let j = (if cm_due_position inp = Arrears then k + int i + 1 else k + int i)
         in rec_invoice_window (cp_records plan ! i) = \<lparr>range_start = date_only (nth_boundary td a p j),
             range_end = date_only (nth_boundary td a p (j + 1)), range_semantics = Half_Open\<rparr>)"
proof -
  let ?p = "resolveMonthsPerPeriod (cm_billing_cycle inp)"
  let ?b = "nth_boundary td a ?p"
  let ?t = "iso_day (hz_target_horizon_end hz)"
  let ?max = "positive_or (cm_max_periods_per_run inp) DEFAULT_CONTRACT_CADENCE_MAX_PERIODS_PER_RUN"
  let ?key = "buildRecurringServicePeriodScheduleKey (cm_source_obligation inp) Contract (cm_due_position inp)"
  have max: "0 < ?max"
    by (simp add: positive_or_def DEFAULT_CONTRACT_CADENCE_MAX_PERIODS_PER_RUN_def split: option.split)
  then have limit: "contract_period_limit (Some ?max) = nat ?max" by (simp add: contract_period_limit_def)
  obtain ps k where build: "buildContractCadenceServicePeriods td (utc_midnight s) (utc_midnight ?t)
      (cm_source_obligation inp) (cm_due_position inp) (utc_midnight a) (Some ?max) ?p = Inr ps"
    and k: "0 \<le> k" "s < ?b (k + 1)" "a \<le> s \<Longrightarrow> ?b k \<le> s" "s \<le> a \<Longrightarrow> k = 0"
    and len: "length ps \<le> nat ?max" "length ps < nat ?max \<Longrightarrow> ?t \<le> ?b (k + int (length ps))"
    and nth: "\<forall>i < length ps. ps ! i = contract_service_period td (utc_midnight (?b (k + int i)))
        (utc_midnight (?b (k + int i + 1))) (cm_source_obligation inp) (cm_due_position inp) (utc_midnight a)
        \<and> ?b (k + int i) < ?t"
    using iso_calendar.build_contract_spec [OF assms(2) resolveMonths_pos assms(6,7), of
        "cm_source_obligation inp" "cm_due_position inp" "Some ?max" "cm_billing_cycle inp"]
    unfolding limit by blast
  have start: "?b k < ?t"
  proof (cases "a \<le> s")
    case True
    with k(3) assms(6) show ?thesis by simp
  next
    case False
    with k(4) assms(7) show ?thesis by (simp add: iso_calendar.nth_boundary_0 [OF assms(2)])
  qed
  with len(2) max have ne: "ps \<noteq> []" by auto
  have tiles: "tiles (?b k) ps (?b (k + int (length ps)))"
    by (rule iso_calendar.contract_service_periods_tile [OF assms(2) resolveMonths_pos]) (use nth in blast)
  obtain rs where rs: "traverse (contract_record td inp ?key) ps = Inr rs"
    "map rec_service_period rs = map toRecordRange ps"
    and windows: "\<forall>i < length ps. let j = (if cm_due_position inp = Arrears then k + int i + 1 else k + int i)
           in rec_invoice_window (rs ! i) = \<lparr>range_start = date_only (?b j),
             range_end = date_only (?b (j + 1)), range_semantics = Half_Open\<rparr>"
    using iso_calendar.contract_records_spec [OF assms(2,4) k(1), of ps] nth by blast
  obtain st where st: "assessRecurringServicePeriodGenerationCoverage
      (slice_date (or_else (cm_coverage_anchor_date inp) (cm_as_of inp))) (cm_target_horizon_days inp)
      (cm_replenishment_threshold_days inp) (map rec_service_period rs) = Inr st"
    "cv_meets_target_horizon st \<longleftrightarrow> (\<exists>p \<in> set (map rec_service_period rs). hz_target_horizon_end hz \<le> range_end p)"
    "cv_continuity_issues st = findRecurringServicePeriodContinuityIssues (map rec_service_period rs)"
    using assess_horizon [OF assms(5)] by metis
  have meets: "cv_meets_target_horizon st \<longleftrightarrow> ?t \<le> ?b (k + int (length ps))"
    unfolding st(2) rs(2) by (subst horizon_bounds(4) [OF assms(5)]) (rule tiles_meets_horizon [OF tiles ne])
  have issues: "cv_continuity_issues st = []"
    unfolding st(3) rs(2) using tiles
    by (intro tiles_no_issues [of "?b k" _ "?b (k + int (length ps))"])
      (simp_all add: tiles_record_ranges record_ranges_whole)
  let ?hit = "int (length ps) \<ge> ?max \<and> slice_date (range_end (last ps)) < hz_target_horizon_end hz"
  have hit: "?hit \<longleftrightarrow> \<not> cv_meets_target_horizon st"
  proof -
    have "slice_date (range_end (last ps)) < hz_target_horizon_end hz \<longleftrightarrow> ?b (k + int (length ps)) < ?t"
      by (subst horizon_bounds(4) [OF assms(5)]) (simp add: slice_date_def tiles_last [OF tiles ne])
    moreover have "\<not> cv_meets_target_horizon st \<Longrightarrow> ?max \<le> int (length ps)"
      unfolding meets using len(2) by linarith
    ultimately show ?thesis using meets by auto
  qed
  have plan: "materializeContractCadenceServicePeriods td inp = Inr \<lparr>cp_schedule_key = ?key,
      cp_coverage = st, cp_records = rs, cp_hit_period_cap = ?hit\<rparr>"
    using assms(3-5) build rs(1) st(1)
    by (simp add: materializeContractCadenceServicePeriods_def generateContract_eq Let_def)
  have nth_period: "rec_service_period (rs ! i) = \<lparr>range_start = date_only (?b (k + int i)),
      range_end = date_only (?b (k + int i + 1)), range_semantics = Half_Open\<rparr>" if "i < length ps" for i
  proof -
    have "rec_service_period (rs ! i) = toRecordRange (ps ! i)"
      using rs(2) that by (metis length_map nth_map)
    then show ?thesis using nth that by (simp add: toRecordRange_def contract_service_period_def slice_date_def)
  qed
  have len_rs: "length rs = length ps" using rs(2) by (metis length_map)
  have rs_tiles: "tiles (?b k) (map rec_service_period rs) (?b (k + int (length rs)))"
    unfolding rs(2) tiles_record_ranges len_rs by (rule tiles)
  have rs_nth: "\<forall>i < length rs. rec_service_period (rs ! i) = \<lparr>range_start = date_only (?b (k + int i)),
      range_end = date_only (?b (k + int i + 1)), range_semantics = Half_Open\<rparr>
    \<and> (let j = (if cm_due_position inp = Arrears then k + int i + 1 else k + int i)
       in rec_invoice_window (rs ! i) = \<lparr>range_start = date_only (?b j),
           range_end = date_only (?b (j + 1)), range_semantics = Half_Open\<rparr>)"
    unfolding len_rs using nth_period windows by simp
  obtain plan where plan: "materializeContractCadenceServicePeriods td inp = Inr plan"
    "cp_coverage plan = st" "cp_records plan = rs" "cp_hit_period_cap plan \<longleftrightarrow> \<not> cv_meets_target_horizon st"
    using plan hit by simp
  show ?thesis
    by (rule that [of plan k]; (unfold p_def plan(2-4))?)
      (fact plan(1), fact k(3), fact k(4), fact rs_tiles, fact issues, rule refl, fact rs_nth)
qed

text \<open>
  C4: a contract plan whose horizon reaches past the as-of date and the anchor exists. Its records are the periods
  of the anchor from some index on, without gap or overlap: the first starts at the anchor when the as-of date is not
  after it, at or before the as-of date otherwise. Its coverage reports no continuity issue, the period cap is
  reported as hit exactly when the target horizon is not met, and the invoice window of every record, the last one
  included, is its own service period when due in advance, the next period of the anchor when due in arrears.
\<close>

theorem contract_materialization_covers_horizon:
  fixes td :: temporal and a :: int and inp :: contract_materialization
  defines "boundary \<equiv> nth_boundary td a (resolveMonthsPerPeriod (cm_billing_cycle inp))"
  assumes "iso_calendar td" "cm_as_of inp = utc_midnight s" "cm_anchor_date inp = utc_midnight a"
    and "resolveRecurringServicePeriodGenerationHorizon
      (slice_date (or_else (cm_coverage_anchor_date inp) (cm_as_of inp)))
      (cm_target_horizon_days inp) (cm_replenishment_threshold_days inp) = Inr hz"
    and "s < iso_day (hz_target_horizon_end hz)" "a < iso_day (hz_target_horizon_end hz)"
  shows "\<exists>plan k. materializeContractCadenceServicePeriods td inp = Inr plan
    \<and> (a \<le> s \<longrightarrow> boundary k \<le> s) \<and> (s \<le> a \<longrightarrow> boundary k = a)
    \<and> tiles (boundary k) (map rec_service_period (cp_records plan)) (boundary (k + int (length (cp_records plan))))
    \<and> cv_continuity_issues (cp_coverage plan) = []
    \<and> (cp_hit_period_cap plan \<longleftrightarrow> \<not> cv_meets_target_horizon (cp_coverage plan))
    \<and> (\<forall>i < length (cp_records plan).
        rec_service_period (cp_records plan ! i) = day_range (boundary (k + int i)) (boundary (k + int i + 1))
      \<and> rec_invoice_window (cp_records plan ! i) = (if cm_due_position inp = Arrears
          then day_range (boundary (k + int i + 1)) (boundary (k + int i + 2)) else rec_service_period (cp_records plan ! i)))"
proof -
  obtain plan k where plan: "materializeContractCadenceServicePeriods td inp = Inr plan"
    and k: "a \<le> s \<Longrightarrow> boundary k \<le> s" "s \<le> a \<Longrightarrow> k = 0"
    and tiles: "tiles (boundary k) (map rec_service_period (cp_records plan)) (boundary (k + int (length (cp_records plan))))"
    and coverage: "cv_continuity_issues (cp_coverage plan) = []"
      "cp_hit_period_cap plan \<longleftrightarrow> \<not> cv_meets_target_horizon (cp_coverage plan)"
    and nth: "\<forall>i < length (cp_records plan). rec_service_period (cp_records plan ! i) = \<lparr>range_start =
        date_only (boundary (k + int i)), range_end = date_only (boundary (k + int i + 1)), range_semantics = Half_Open\<rparr>
      \<and> (let j = (if cm_due_position inp = Arrears then k + int i + 1 else k + int i)
         in rec_invoice_window (cp_records plan ! i) = \<lparr>range_start = date_only (boundary j),
             range_end = date_only (boundary (j + 1)), range_semantics = Half_Open\<rparr>)"
    using contract_plan_exists [OF assms(2-7)] unfolding boundary_def by (metis (no_types, lifting))
  have windows: "\<forall>i < length (cp_records plan).
        rec_service_period (cp_records plan ! i) = day_range (boundary (k + int i)) (boundary (k + int i + 1))
      \<and> rec_invoice_window (cp_records plan ! i) = (if cm_due_position inp = Arrears
          then day_range (boundary (k + int i + 1)) (boundary (k + int i + 2)) else rec_service_period (cp_records plan ! i))"
    using nth unfolding Let_def by (simp add: day_range_def add.assoc)
  have "s \<le> a \<longrightarrow> boundary k = a" using k(2) by (simp add: boundary_def iso_calendar.nth_boundary_0 [OF assms(2)])
  then show ?thesis using plan k(1) tiles coverage windows by blast
qed

text \<open>Monthly in arrears from the anchor 2026-01-17, thirty days ahead of 2026-01-31.\<close>

definition sample_contract_input :: contract_materialization where
  "sample_contract_input = \<lparr>cm_as_of = utc_midnight 20484, cm_materialized_at = utc_midnight 20484,
     cm_billing_cycle = Contract_Monthly, cm_anchor_date = utc_midnight 20470,
     cm_source_obligation = sample_obligation, cm_due_position = Arrears,
     cm_source_rule_version = ''v1'', cm_source_run_key = ''run-1'', cm_coverage_anchor_date = None,
     cm_target_horizon_days = Some 30, cm_replenishment_threshold_days = Some 10,
     cm_max_periods_per_run = None, cm_record_id_factory = None\<rparr>"

theorem contract_materialization_covers_horizon_witness:
  "\<exists>plan first last. materializeContractCadenceServicePeriods gregorian sample_contract_input = Inr plan
    \<and> tiles first (map rec_service_period (cp_records plan)) last \<and> first \<le> 20484
    \<and> cv_continuity_issues (cp_coverage plan) = []"
proof -
  let ?inp = sample_contract_input
  have "case resolveRecurringServicePeriodGenerationHorizon
      (slice_date (or_else (cm_coverage_anchor_date ?inp) (cm_as_of ?inp)))
      (cm_target_horizon_days ?inp) (cm_replenishment_threshold_days ?inp) of
      Inl _ \<Rightarrow> False | Inr hz \<Rightarrow> iso_day (hz_target_horizon_end hz) = 20514" by code_simp
  then obtain hz where hz: "resolveRecurringServicePeriodGenerationHorizon
      (slice_date (or_else (cm_coverage_anchor_date ?inp) (cm_as_of ?inp)))
      (cm_target_horizon_days ?inp) (cm_replenishment_threshold_days ?inp) = Inr hz"
    "iso_day (hz_target_horizon_end hz) = 20514" by (auto split: sum.splits)
  have "cm_as_of ?inp = utc_midnight 20484" "cm_anchor_date ?inp = utc_midnight 20470"
    by (simp_all add: sample_contract_input_def)
  from contract_materialization_covers_horizon [OF gregorian_is_calendar this hz(1)] hz(2)
  show ?thesis by fastforce
qed

section \<open>Client plans\<close>

lemma tiles_adjacent:
  "tiles a ps b \<Longrightarrow> Suc i < length ps \<Longrightarrow> iso_day (range_end (ps ! i)) = iso_day (range_start (ps ! Suc i))"
proof (induction ps arbitrary: a i)
  case (Cons p ps)
  then show ?case by (cases i; cases ps) auto
qed simp


context client_schedule
begin

definition period_range :: "int \<Rightarrow> int \<Rightarrow> date_range" where
  "period_range s e = \<lparr>range_start = date_only s, range_end = date_only e, range_semantics = Half_Open\<rparr>"

text \<open>The cache holds the period that starts at its key.\<close>

definition cache_ok :: "(iso8601 \<times> date_range) list \<Rightarrow> bool" where
  "cache_ok cache \<longleftrightarrow> (\<forall>(v, w) \<in> set cache. \<forall>e e'. v = utc_midnight e
     \<longrightarrow> period_at td cycle anchor e = Inr (e, e') \<longrightarrow> w = period_range e e')"

lemma next_client_period:
  assumes inp: "lm_billing_cycle inp = cycle" "lm_historical_cycles inp = []"
      "normalizeAnchorSettingsForCycle td cycle (or_else (lm_anchor_settings inp) unset_anchor) = Inr anchor"
    and period: "period_at td cycle anchor e = Inr (e, e')"
  shows "\<exists>rest. client_periods_between td inp (utc_midnight e) (utc_midnight (e + 1)) =
    Inr (client_service_period (utc_midnight e) (utc_midnight e') (lm_source_obligation inp)
      (lm_due_position inp) # rest)"
proof -
  let ?ob = "lm_source_obligation inp" and ?dp = "lm_due_position inp"
  obtain ps a b where ps: "gap_from_period td cycle anchor ?ob ?dp (utc_midnight (e + 1)) [] (utc_midnight e)
      MAX_GAP_ITERATIONS = Inr ps"
    "\<exists>s e'' qs. ps = client_service_period (utc_midnight s) (utc_midnight e'') ?ob ?dp # qs
      \<and> period_at td cycle anchor e = Inr (s, e'')"
    using gap_from_any_date_spec [of e "utc_midnight (e + 1)" MAX_GAP_ITERATIONS ?ob ?dp]
    by (auto simp: MAX_GAP_ITERATIONS_def)
  then show ?thesis
    using inp period
    by (auto simp: client_periods_between_def generate_without_history [OF iso_calendar_axioms inp(3)])
qed

lemma resolve_next_window:
  assumes inp: "lm_billing_cycle inp = cycle" "lm_historical_cycles inp = []"
      "normalizeAnchorSettingsForCycle td cycle (or_else (lm_anchor_settings inp) unset_anchor) = Inr anchor"
    and period: "period_at td cycle anchor e = Inr (e, e')" and sp: "range_end sp = utc_midnight e"
    and cache: "cache_ok cache"
  shows "\<exists>cache'. resolveNextInvoiceWindow td inp sp cache = Inr (period_range e e', cache') \<and> cache_ok cache'"
proof (cases "map_of cache (range_end sp)")
  case None
  obtain rest where "client_periods_between td inp (utc_midnight e) (utc_midnight (e + 1)) =
    Inr (client_service_period (utc_midnight e) (utc_midnight e') (lm_source_obligation inp)
      (lm_due_position inp) # rest)" using next_client_period [OF inp period] by blast
  moreover have "cache_ok ((utc_midnight e, period_range e e') # cache)"
    using cache period by (simp add: cache_ok_def)
  ultimately show ?thesis using None sp
    by (simp add: resolveNextInvoiceWindow_def toRecordRange_def client_service_period_def
        slice_date_def period_range_def)
next
  case (Some w)
  then have "(utc_midnight e, w) \<in> set cache" using sp map_of_SomeD by fastforce
  with cache period have "w = period_range e e'" by (fastforce simp: cache_ok_def)
  with Some cache show ?thesis by (simp add: resolveNextInvoiceWindow_def)
qed

definition window_of :: "due_position \<Rightarrow> service_period \<Rightarrow> date_range \<Rightarrow> bool" where
  "window_of dp sp w \<longleftrightarrow> (if dp = Advance then w = toRecordRange sp
     else \<exists>e e'. range_end sp = utc_midnight e \<and> period_at td cycle anchor e = Inr (e, e')
       \<and> w = period_range e e')"

lemma client_records_spec:
  assumes inp: "lm_billing_cycle inp = cycle" "lm_historical_cycles inp = []"
      "normalizeAnchorSettingsForCycle td cycle (or_else (lm_anchor_settings inp) unset_anchor) = Inr anchor"
    and "\<forall>sp \<in> set sps. \<exists>e e'. range_end sp = utc_midnight e \<and> period_at td cycle anchor e = Inr (e, e')"
    and "cache_ok cache"
  shows "\<exists>rs. client_records td inp key cache sps = Inr rs
    \<and> list_all2 (\<lambda>sp r. rec_service_period r = toRecordRange sp \<and> rec_lifecycle_state r = Generated
        \<and> window_of (lm_due_position inp) sp (rec_invoice_window r)) sps rs"
  using assms(4,5)
proof (induction sps arbitrary: cache)
  case Nil
  show ?case by simp
next
  case (Cons sp sps)
  obtain e e' where e: "range_end sp = utc_midnight e" "period_at td cycle anchor e = Inr (e, e')"
    using Cons.prems(1) by auto
  obtain w cache' where w: "(if lm_due_position inp = Advance then Inr (toRecordRange sp, cache)
      else resolveNextInvoiceWindow td inp sp cache) = Inr (w, cache')"
    "window_of (lm_due_position inp) sp w" "cache_ok cache'"
  proof (cases "lm_due_position inp = Advance")
    case True
    with Cons.prems(2) show ?thesis by (intro that [of "toRecordRange sp" cache]) (simp_all add: window_of_def)
  next
    case False
    obtain cache' where "resolveNextInvoiceWindow td inp sp cache = Inr (period_range e e', cache')"
      "cache_ok cache'" using resolve_next_window [OF inp e(2,1) Cons.prems(2)] by blast
    with False e show ?thesis
      by (intro that [of "period_range e e'" cache']) (auto simp: window_of_def)
  qed
  obtain rs where rs: "client_records td inp key cache' sps = Inr rs"
    "list_all2 (\<lambda>sp r. rec_service_period r = toRecordRange sp \<and> rec_lifecycle_state r = Generated
        \<and> window_of (lm_due_position inp) sp (rec_invoice_window r)) sps rs"
    using Cons.IH [OF _ w(3)] Cons.prems(1) by auto
  show ?case using w(1,2) rs by simp
qed

lemma gap_periods_shape:
  assumes "ps = client_service_period (utc_midnight s') (utc_midnight e') ob dp # qs"
    and "period_at td cycle anchor d = Inr (s', e')" "\<forall>q \<in> set qs. on_schedule ob dp q"
  shows "\<forall>sp \<in> set ps. \<exists>e e'. range_end sp = utc_midnight e \<and> period_at td cycle anchor e = Inr (e, e')"
    and "\<forall>i. Suc i < length ps \<longrightarrow> (\<exists>s e. ps ! Suc i = client_service_period (utc_midnight s) (utc_midnight e) ob dp
      \<and> period_at td cycle anchor s = Inr (s, e))"
proof -
  have "\<exists>e e'. range_end q = utc_midnight e \<and> period_at td cycle anchor e = Inr (e, e')" if q: "q \<in> set qs" for q
  proof -
    obtain s e where "q = client_service_period (utc_midnight s) (utc_midnight e) ob dp"
      "period_at td cycle anchor s = Inr (s, e)"
      using assms(3) q unfolding on_schedule_def by blast
    then show ?thesis using period_chains [of s s e] by (auto simp: client_service_period_def)
  qed
  moreover have "\<exists>e''. period_at td cycle anchor e' = Inr (e', e'')" using period_chains [OF assms(2)] by blast
  ultimately show "\<forall>sp \<in> set ps. \<exists>e e'. range_end sp = utc_midnight e \<and> period_at td cycle anchor e = Inr (e, e')"
    using assms(1) by (auto simp: client_service_period_def)
  show "\<forall>i. Suc i < length ps \<longrightarrow> (\<exists>s e. ps ! Suc i = client_service_period (utc_midnight s) (utc_midnight e) ob dp
      \<and> period_at td cycle anchor s = Inr (s, e))"
    using assms(1,3) by (auto simp: on_schedule_def)
qed

text \<open>The invoice window of an arrears record is the service period of the record after it.\<close>

lemma windows_follow:
  assumes "tiles a ps b" "\<forall>i. Suc i < length ps \<longrightarrow> (\<exists>s e. ps ! Suc i = client_service_period (utc_midnight s)
      (utc_midnight e) ob dp \<and> period_at td cycle anchor s = Inr (s, e))"
    and "list_all2 (\<lambda>sp r. rec_service_period r = toRecordRange sp \<and> window_of dp sp (rec_invoice_window r)) ps rs"
    and i: "Suc i < length rs"
  shows "rec_invoice_window (rs ! i) = rec_service_period (rs ! (if dp = Arrears then Suc i else i))"
proof -
  note nth = assms(3) [THEN list_all2_nthD2]
  have len: "length ps = length rs" using assms(3) by (rule list_all2_lengthD)
  show ?thesis
  proof (cases dp)
    case Advance
    with nth [of i] i show ?thesis by (simp add: window_of_def)
  next
    case Arrears
    obtain s e where se: "ps ! Suc i = client_service_period (utc_midnight s) (utc_midnight e) ob dp"
      "period_at td cycle anchor s = Inr (s, e)" using assms(2) i len by auto
    obtain d d' where d: "range_end (ps ! i) = utc_midnight d" "period_at td cycle anchor d = Inr (d, d')"
      "rec_invoice_window (rs ! i) = period_range d d'"
      using nth [of i] i Arrears by (auto simp: window_of_def)
    have "d = s"
      using tiles_adjacent [OF assms(1), of i] i len se(1) d(1) by (simp add: client_service_period_def)
    with d se nth [of "Suc i"] i Arrears show ?thesis
      by (simp add: period_range_def toRecordRange_def client_service_period_def slice_date_def)
  qed
qed

lemma every_window:
  assumes "list_all2 (\<lambda>sp r. rec_service_period r = toRecordRange sp \<and> rec_lifecycle_state r = Generated
        \<and> window_of dp sp (rec_invoice_window r)) ps rs"
  shows "\<forall>r \<in> set rs. if dp = Arrears
        then \<exists>e e'. range_end (rec_service_period r) = date_only e \<and> rec_invoice_window r = day_range e e'
          \<and> period_at td cycle anchor e = Inr (e, e')
        else rec_invoice_window r = rec_service_period r"
proof
  fix r
  assume "r \<in> set rs"
  then obtain sp where "rec_service_period r = toRecordRange sp" "window_of dp sp (rec_invoice_window r)"
    using assms by (auto simp: list_all2_conv_all_nth in_set_conv_nth)
  then show "if dp = Arrears
        then \<exists>e e'. range_end (rec_service_period r) = date_only e \<and> rec_invoice_window r = day_range e e'
          \<and> period_at td cycle anchor e = Inr (e, e')
        else rec_invoice_window r = rec_service_period r"
    by (cases dp) (auto simp: window_of_def toRecordRange_def slice_date_def period_range_def day_range_def)
qed

end

text \<open>
  C5: a client plan without history exists when its horizon reaches past the as-of date and its anchor settings
  are accepted and, for a quarterly, semi-annual or annual cycle, name a month that the cycle can start in
  (\<open>month_aligned\<close>). Its records follow each other without gap or overlap from the period of the as-of date,
  its coverage reports no continuity issue and meets the target horizon when fewer than a hundred periods were
  generated. The invoice window of every record, the last one included, is its own service period in advance, and in
  arrears the period of the schedule that starts where the record ends, which is that of the next record if there is one.
\<close>

theorem client_materialization_covers_horizon:
  assumes "iso_calendar td" "lm_as_of inp = utc_midnight s" "lm_historical_cycles inp = []"
    and "normalizeAnchorSettingsForCycle td (lm_billing_cycle inp)
      (or_else (lm_anchor_settings inp) unset_anchor) = Inr anchor"
    and "month_aligned (lm_billing_cycle inp) anchor"
    and "resolveRecurringServicePeriodGenerationHorizon
      (if slice_date (lm_as_of inp) > slice_date (lm_materialized_at inp)
       then slice_date (lm_as_of inp) else slice_date (lm_materialized_at inp))
      (lm_target_horizon_days inp) (lm_replenishment_threshold_days inp) = Inr hz"
    and "s < iso_day (hz_target_horizon_end hz)"
  shows "\<exists>plan first last. materializeClientCadenceServicePeriods td inp = Inr plan
    \<and> tiles first (map rec_service_period (lp_records plan)) last \<and> first \<le> s \<and> s < last
    \<and> cv_continuity_issues (lp_coverage plan) = []
    \<and> (length (lp_records plan) < MAX_GAP_ITERATIONS \<longrightarrow> cv_meets_target_horizon (lp_coverage plan))
    \<and> (\<forall>i. Suc i < length (lp_records plan) \<longrightarrow> rec_invoice_window (lp_records plan ! i) =
        rec_service_period (lp_records plan ! (if lm_due_position inp = Arrears then Suc i else i)))
    \<and> (\<forall>r \<in> set (lp_records plan). if lm_due_position inp = Arrears
        then \<exists>e e'. range_end (rec_service_period r) = date_only e \<and> rec_invoice_window r = day_range e e'
          \<and> period_at td (lm_billing_cycle inp) anchor e = Inr (e, e')
        else rec_invoice_window r = rec_service_period r)"
proof -
  let ?t = "iso_day (hz_target_horizon_end hz)"
  let ?cycle = "lm_billing_cycle inp" and ?ob = "lm_source_obligation inp" and ?dp = "lm_due_position inp"
  have sched: "client_schedule td ?cycle anchor" using assms(1,4,5) by (rule client_scheduleI)
  obtain ps a b where gap: "gap_from_period td ?cycle anchor ?ob ?dp (utc_midnight ?t) [] (utc_midnight s)
      MAX_GAP_ITERATIONS = Inr ps"
    and ps: "a \<le> s" "s < b" "tiles a ps b" "length ps < MAX_GAP_ITERATIONS \<longrightarrow> ?t \<le> b"
    and shape: "\<exists>s' e' qs. ps = client_service_period (utc_midnight s') (utc_midnight e') ?ob ?dp # qs
      \<and> period_at td ?cycle anchor s = Inr (s', e')
      \<and> (\<forall>q \<in> set qs. client_schedule.on_schedule td ?cycle anchor ?ob ?dp q)"
  proof -
    have "s < iso_day (utc_midnight ?t)" "0 < MAX_GAP_ITERATIONS"
      using assms(7) by (simp_all add: MAX_GAP_ITERATIONS_def)
    from client_schedule.gap_from_any_date_spec [OF sched this, of ?ob ?dp] that show ?thesis by auto
  qed
  obtain s' e' qs where qs: "ps = client_service_period (utc_midnight s') (utc_midnight e') ?ob ?dp # qs"
    "period_at td ?cycle anchor s = Inr (s', e')"
    "\<forall>q \<in> set qs. client_schedule.on_schedule td ?cycle anchor ?ob ?dp q"
    using shape by blast
  note shape = client_schedule.gap_periods_shape [OF sched qs]
  have "client_schedule.cache_ok td ?cycle anchor []" by (simp add: client_schedule.cache_ok_def [OF sched])
  from client_schedule.client_records_spec [OF sched refl assms(3,4) shape(1) this] obtain rs where
    rs: "client_records td inp (buildRecurringServicePeriodScheduleKey ?ob Client ?dp) [] ps = Inr rs"
      "list_all2 (\<lambda>sp r. rec_service_period r = toRecordRange sp \<and> rec_lifecycle_state r = Generated
        \<and> client_schedule.window_of td ?cycle anchor ?dp sp (rec_invoice_window r)) ps rs" by blast
  have ranges: "map rec_service_period rs = map toRecordRange ps"
    using rs(2) by (induction rule: list_all2_induct) auto
  obtain st where st: "assessRecurringServicePeriodGenerationCoverage
      (if slice_date (lm_as_of inp) > slice_date (lm_materialized_at inp)
       then slice_date (lm_as_of inp) else slice_date (lm_materialized_at inp)) (lm_target_horizon_days inp)
      (lm_replenishment_threshold_days inp) (map rec_service_period rs) = Inr st"
    "cv_meets_target_horizon st \<longleftrightarrow> (\<exists>p \<in> set (map rec_service_period rs). hz_target_horizon_end hz \<le> range_end p)"
    "cv_continuity_issues st = findRecurringServicePeriodContinuityIssues (map rec_service_period rs)"
    using assess_horizon [OF assms(6)] by metis
  have "ps \<noteq> []" using qs(1) by simp
  have "cv_meets_target_horizon st \<longleftrightarrow> ?t \<le> b"
    unfolding st(2) ranges by (subst horizon_bounds(4) [OF assms(6)]) (rule tiles_meets_horizon [OF ps(3) \<open>ps \<noteq> []\<close>])
  moreover have "cv_continuity_issues st = []"
    unfolding st(3) ranges using ps(3)
    by (intro tiles_no_issues [of a _ b]) (simp_all add: tiles_record_ranges record_ranges_whole)
  moreover obtain plan where "materializeClientCadenceServicePeriods td inp = Inr plan"
    "lp_coverage plan = st" "lp_records plan = rs"
    using assms(2,3,6,7) gap rs(1) st(1)
    by (simp add: materializeClientCadenceServicePeriods_def client_periods_between_def Let_def
        generate_without_history [OF assms(1,4)])
  moreover have "tiles a (map rec_service_period rs) b" unfolding ranges tiles_record_ranges by (rule ps(3))
  moreover have "length rs = length ps" using ranges by (metis length_map)
  moreover have "\<forall>i. Suc i < length rs \<longrightarrow> rec_invoice_window (rs ! i) =
      rec_service_period (rs ! (if ?dp = Arrears then Suc i else i))"
    using client_schedule.windows_follow [OF sched ps(3) shape(2) list_all2_mono [OF rs(2)]] by blast
  moreover have "\<forall>r \<in> set rs. if ?dp = Arrears
        then \<exists>e e'. range_end (rec_service_period r) = date_only e \<and> rec_invoice_window r = day_range e e'
          \<and> period_at td ?cycle anchor e = Inr (e, e')
        else rec_invoice_window r = rec_service_period r"
    using rs(2) by (rule client_schedule.every_window [OF sched])
  ultimately show ?thesis using ps(1,2,4) by fastforce
qed

text \<open>Monthly in arrears on the default anchor, as of 2026-01-15, thirty days ahead.\<close>

definition sample_client_input :: client_materialization where
  "sample_client_input = \<lparr>lm_as_of = utc_midnight 20468, lm_materialized_at = date_only 20468,
     lm_billing_cycle = Monthly, lm_source_obligation = sample_obligation, lm_due_position = Arrears,
     lm_source_rule_version = ''v1'', lm_source_run_key = ''run-1'', lm_anchor_settings = None,
     lm_historical_cycles = [], lm_target_horizon_days = Some 30,
     lm_replenishment_threshold_days = Some 10, lm_record_id_factory = None\<rparr>"

theorem client_materialization_covers_horizon_witness:
  "\<exists>plan first last. materializeClientCadenceServicePeriods gregorian sample_client_input = Inr plan
    \<and> tiles first (map rec_service_period (lp_records plan)) last \<and> first \<le> 20468 \<and> 20468 < last"
proof -
  let ?inp = sample_client_input
  let ?anchor = "getAnchorDefaultsForCycle Monthly"
  let ?date = "if slice_date (lm_as_of ?inp) > slice_date (lm_materialized_at ?inp)
    then slice_date (lm_as_of ?inp) else slice_date (lm_materialized_at ?inp)"
  have "case resolveRecurringServicePeriodGenerationHorizon ?date
      (lm_target_horizon_days ?inp) (lm_replenishment_threshold_days ?inp) of
      Inl _ \<Rightarrow> False | Inr hz \<Rightarrow> iso_day (hz_target_horizon_end hz) = 20498" by code_simp
  then obtain hz where hz: "resolveRecurringServicePeriodGenerationHorizon ?date
      (lm_target_horizon_days ?inp) (lm_replenishment_threshold_days ?inp) = Inr hz"
    "iso_day (hz_target_horizon_end hz) = 20498" by (auto split: sum.splits)
  have norm: "normalizeAnchorSettingsForCycle gregorian (lm_billing_cycle ?inp)
      (or_else (lm_anchor_settings ?inp) unset_anchor) = Inr ?anchor" by code_simp
  have "month_aligned (lm_billing_cycle ?inp) ?anchor" by code_simp
  moreover have "lm_as_of ?inp = utc_midnight 20468" "lm_historical_cycles ?inp = []"
    by (simp_all add: sample_client_input_def)
  ultimately show ?thesis
    using client_materialization_covers_horizon [OF gregorian_is_calendar _ _ norm _ hz(1)] hz(2) by fastforce
qed

section \<open>Obligation bounds\<close>

definition obligation_days :: "iso8601 \<Rightarrow> iso8601 option \<Rightarrow> int set" where
  "obligation_days s e = {d. iso_day s \<le> d \<and> (\<forall>v. e = Some v \<longrightarrow> d < iso_day v)}"

definition billable_days :: "period_record \<Rightarrow> int set" where
  "billable_days r = range_days (rec_service_period r) \<inter>
     (case rec_activity_window r of None \<Rightarrow> UNIV | Some w \<Rightarrow> window_days w)"

definition clipped_to :: "int set \<Rightarrow> period_record \<Rightarrow> period_record \<Rightarrow> bool" where
  "clipped_to days r r' \<longleftrightarrow> r' = r\<lparr>rec_activity_window := rec_activity_window r'\<rparr>
     \<and> billable_days r' = range_days (rec_service_period r) \<inter> days"

lemma clipped_to_same:
  "rec_activity_window r = None \<Longrightarrow> range_days (rec_service_period r) \<subseteq> days \<Longrightarrow> clipped_to days r r"
  by (auto simp: clipped_to_def billable_days_def)

lemma clipped_to_window:
  assumes "range_days (rec_service_period r) \<inter> {iso_day s ..< iso_day e} = range_days (rec_service_period r) \<inter> days"
  shows "clipped_to days r (r\<lparr>rec_activity_window := Some \<lparr>aw_start = Some s, aw_end = Some e, aw_semantics = x\<rparr>\<rparr>)"
proof -
  have "window_days \<lparr>aw_start = Some s, aw_end = Some e, aw_semantics = x\<rparr> = {iso_day s ..< iso_day e}"
    by (auto simp: window_days_def)
  then show ?thesis using assms by (simp add: clipped_to_def billable_days_def)
qed

lemma clip_record_cases:
  assumes "range_days (rec_service_period r) \<noteq> {}" "rec_activity_window r = None"
    and "\<forall>e. obEnd = Some e \<longrightarrow> iso_day obStart < iso_day e"
  shows "if range_days (rec_service_period r) \<inter> obligation_days obStart obEnd = {}
     then clip_record obStart obEnd r = []
     else \<exists>r'. clip_record obStart obEnd r = [r'] \<and> clipped_to (obligation_days obStart obEnd) r r'"
proof -
  let ?sp = "rec_service_period r"
  let ?s = "iso_day (range_start ?sp)" and ?e = "iso_day (range_end ?sp)" and ?o = "iso_day obStart"
  have se: "?s < ?e" using assms(1) by (simp add: range_days_def)
  define ub where "ub = (case obEnd of None \<Rightarrow> ?e | Some v \<Rightarrow> min ?e (iso_day v))"
  have common: "range_days ?sp \<inter> obligation_days obStart obEnd = {max ?s ?o ..< ub}"
    by (cases obEnd) (auto simp: range_days_def obligation_days_def ub_def)
  show ?thesis
  proof (cases "max ?s ?o < ub")
    case False
    then have "(\<exists>v. obEnd = Some v \<and> ?s \<ge> iso_day v) \<or> ?e \<le> ?o"
      using se assms(3) by (cases obEnd) (auto simp: ub_def max_def min_def split: if_splits)
    then have "clip_record obStart obEnd r = []" by (auto simp: clip_record_def Let_def)
    with False common show ?thesis by simp
  next
    case True
    then have inside: "\<not> ?e \<le> ?o" "\<forall>v. obEnd = Some v \<longrightarrow> \<not> iso_day v \<le> ?s"
      using se by (cases obEnd; simp add: ub_def)+
    have kept: "clipped_to (obligation_days obStart obEnd) r r" if "?o \<le> ?s" "ub = ?e"
      using that common assms(2)
      by (intro clipped_to_same) (auto simp: range_days_def max_def)
    have cut: "clipped_to (obligation_days obStart obEnd) r (r\<lparr>rec_activity_window :=
        Some \<lparr>aw_start = Some v, aw_end = Some w, aw_semantics = range_semantics ?sp\<rparr>\<rparr>)"
      if "iso_day v = max ?s ?o" "iso_day w = ub" for v w
      using that by (intro clipped_to_window, unfold common) (auto simp: range_days_def ub_def split: option.splits)
    have "\<exists>r'. clip_record obStart obEnd r = [r'] \<and> clipped_to (obligation_days obStart obEnd) r r'"
    proof (cases obEnd)
      case None
      then have "ub = ?e" by (simp add: ub_def)
      with None inside(1) kept cut [of obStart "range_end ?sp"] show ?thesis
        by (cases "?o \<le> ?s") (simp_all add: clip_record_def Let_def)
    next
      case (Some v)
      have "ub = (if iso_day v < ?e then iso_day v else ?e)" using Some by (simp add: ub_def)
      with Some inside kept cut [of obStart "range_end ?sp"] cut [of obStart v] cut [of "range_start ?sp" v]
      show ?thesis
        by (cases "?o \<le> ?s"; cases "iso_day v < ?e") (simp_all add: clip_record_def Let_def)
    qed
    moreover have "range_days ?sp \<inter> obligation_days obStart obEnd \<noteq> {}" using True unfolding common by simp
    ultimately show ?thesis by simp
  qed
qed

text \<open>
  Bounding candidates to an obligation keeps, in order, exactly the records with a day in
  common with it, changes nothing but their activity window, and leaves each one billing exactly the
  days of its service period on which the obligation is active.
\<close>

theorem clip_keeps_active_days:
  assumes "\<forall>r \<in> set records. range_days (rec_service_period r) \<noteq> {} \<and> rec_activity_window r = None"
    and "\<forall>e. obEnd = Some e \<longrightarrow> iso_day obStart < iso_day e"
  shows "list_all2 (clipped_to (obligation_days obStart obEnd))
    (filter (\<lambda>r. range_days (rec_service_period r) \<inter> obligation_days obStart obEnd \<noteq> {}) records)
    (clipRecurringCandidatesToObligationBounds records obStart obEnd)"
  using assms(1)
proof (induction records)
  case Nil
  show ?case by (simp add: clipRecurringCandidatesToObligationBounds_def)
next
  case (Cons r rs)
  with clip_record_cases [OF _ _ assms(2), of r] show ?case
    by (auto simp: clipRecurringCandidatesToObligationBounds_def split: if_splits)
qed

text \<open>A contract line that starts on 2026-01-15 and ends on 2026-02-10, two calendar months.\<close>

theorem clip_keeps_active_days_witness:
  "let rec = \<lambda>s e. initial_record gregorian defaultRecordIdFactory ''key'' sample_obligation Client Advance
       ''v1'' ''run'' (utc_midnight 20454)
       (client_service_period (utc_midnight s) (utc_midnight e) sample_obligation Advance)
       \<lparr>range_start = date_only s, range_end = date_only e, range_semantics = Half_Open\<rparr>;
     records = [rec 20454 20485, rec 20485 20513]
   in list_all2 (clipped_to (obligation_days (date_only 20468) (Some (date_only 20494))))
     (filter (\<lambda>r. range_days (rec_service_period r) \<inter>
        obligation_days (date_only 20468) (Some (date_only 20494)) \<noteq> {}) records)
     (clipRecurringCandidatesToObligationBounds records (date_only 20468) (Some (date_only 20494)))"
proof -
  let ?rec = "\<lambda>s e. initial_record gregorian defaultRecordIdFactory ''key'' sample_obligation Client Advance
       ''v1'' ''run'' (utc_midnight 20454)
       (client_service_period (utc_midnight s) (utc_midnight e) sample_obligation Advance)
       \<lparr>range_start = date_only s, range_end = date_only e, range_semantics = Half_Open\<rparr>"
  have "\<forall>r \<in> set [?rec 20454 20485, ?rec 20485 20513].
      range_days (rec_service_period r) \<noteq> {} \<and> rec_activity_window r = None"
    by (simp add: client_service_period_def range_days_def initial_record_def Let_def toRecordRange_def)
  from clip_keeps_active_days [OF this, of "Some (date_only 20494)" "date_only 20468"]
  show ?thesis unfolding Let_def by fastforce
qed

end
