(* ===== verification/Period_Lifecycle.thy ===== *)
theory Period_Lifecycle
  imports Recurring_Types
begin

text \<open>
  The rules of a ledger record's life, from \<open>shared/billingClients\<close>: the transition table
  (\<open>recurringServicePeriodLifecycle.ts\<close>), which mutations a state admits (\<open>..Mutations.ts\<close>), the
  edit operations (\<open>..EditCapabilities.ts\<close>), the link to an invoice (\<open>..InvoiceLinkage.ts\<close>), the
  validation of provenance (\<open>..Provenance.ts\<close>), permissions and audit (\<open>..Governance.ts\<close>), the
  displayed state (\<open>..DisplayState.ts\<close>) and who owns which setting (\<open>..AuthorityBoundary.ts\<close>).
\<close>

section \<open>States and transitions\<close>

definition RECURRING_SERVICE_PERIOD_TERMINAL_STATES :: "lifecycle_state list" where
  "RECURRING_SERVICE_PERIOD_TERMINAL_STATES = [Billed, Superseded, Archived]"

fun RECURRING_SERVICE_PERIOD_LIFECYCLE_TRANSITIONS :: "lifecycle_state \<Rightarrow> lifecycle_state list" where
  "RECURRING_SERVICE_PERIOD_LIFECYCLE_TRANSITIONS Generated =
     [Edited, Skipped, Locked, Billed, Superseded, Archived]"
| "RECURRING_SERVICE_PERIOD_LIFECYCLE_TRANSITIONS Edited = [Skipped, Locked, Billed, Superseded, Archived]"
| "RECURRING_SERVICE_PERIOD_LIFECYCLE_TRANSITIONS Skipped = [Edited, Locked, Superseded, Archived]"
| "RECURRING_SERVICE_PERIOD_LIFECYCLE_TRANSITIONS Locked = [Billed, Superseded, Archived]"
| "RECURRING_SERVICE_PERIOD_LIFECYCLE_TRANSITIONS Billed = [Archived]"
| "RECURRING_SERVICE_PERIOD_LIFECYCLE_TRANSITIONS Superseded = [Archived]"
| "RECURRING_SERVICE_PERIOD_LIFECYCLE_TRANSITIONS Archived = []"

definition canTransitionRecurringServicePeriodState :: "lifecycle_state \<Rightarrow> lifecycle_state \<Rightarrow> bool" where
  "canTransitionRecurringServicePeriodState start to \<longleftrightarrow>
     to \<in> set (RECURRING_SERVICE_PERIOD_LIFECYCLE_TRANSITIONS start)"

definition isRecurringServicePeriodStateTerminal :: "lifecycle_state \<Rightarrow> bool" where
  "isRecurringServicePeriodStateTerminal state \<longleftrightarrow> state \<in> set RECURRING_SERVICE_PERIOD_TERMINAL_STATES"

fun lifecycle_text :: "lifecycle_state \<Rightarrow> string" where
  "lifecycle_text Generated = ''generated''"
| "lifecycle_text Edited = ''edited''"
| "lifecycle_text Skipped = ''skipped''"
| "lifecycle_text Locked = ''locked''"
| "lifecycle_text Billed = ''billed''"
| "lifecycle_text Superseded = ''superseded''"
| "lifecycle_text Archived = ''archived''"

section \<open>Mutations\<close>

datatype mutation_operation =
    Edit_Boundaries
  | Skip_Period
  | Defer_Period
  | Regenerate_Period
  | Invoice_Linkage_Repair
  | Archive_Period

record mutation_decision =
  md_allowed :: bool
  md_reason :: mutation_reason

fun mutation_reason_text :: "mutation_reason \<Rightarrow> string" where
  "mutation_reason_text Repair_Before_Lock =
     ''Invoice linkage repair is only valid after the service period is locked or billed.''"
| "mutation_reason_text Future_Unlocked =
     ''Future unlocked service periods can still be updated through normal edit or regeneration flows.''"
| "mutation_reason_text Corrective_Flow =
     ''Locked or billed service periods are immutable except through explicitly allowed corrective flows.''"
| "mutation_reason_text Immutable_In_Place =
     ''Locked or billed service periods cannot be edited, skipped, deferred, or regenerated in place.''"
| "mutation_reason_text Historical_Record =
     ''Superseded or archived service periods are historical records and cannot be mutated further.''"

definition evaluateRecurringServicePeriodMutationPermission ::
    "period_record \<Rightarrow> mutation_operation \<Rightarrow> mutation_decision" where
  "evaluateRecurringServicePeriodMutationPermission r operation =
     (if rec_lifecycle_state r \<in> {Generated, Edited, Skipped}
      then if operation = Invoice_Linkage_Repair
        then \<lparr>md_allowed = False, md_reason = Repair_Before_Lock\<rparr>
        else \<lparr>md_allowed = True, md_reason = Future_Unlocked\<rparr>
      else if rec_lifecycle_state r \<in> {Locked, Billed}
      then if operation = Invoice_Linkage_Repair \<or> operation = Archive_Period
        then \<lparr>md_allowed = True, md_reason = Corrective_Flow\<rparr>
        else \<lparr>md_allowed = False, md_reason = Immutable_In_Place\<rparr>
      else \<lparr>md_allowed = False, md_reason = Historical_Record\<rparr>)"

section \<open>Edit operations\<close>

definition RECURRING_SERVICE_PERIOD_SUPPORTED_EDIT_OPERATIONS :: "string list" where
  "RECURRING_SERVICE_PERIOD_SUPPORTED_EDIT_OPERATIONS = [''boundary_adjustment'', ''skip'', ''defer'']"

definition RECURRING_SERVICE_PERIOD_UNSUPPORTED_V1_EDIT_OPERATIONS :: "string list" where
  "RECURRING_SERVICE_PERIOD_UNSUPPORTED_V1_EDIT_OPERATIONS = [''split'', ''merge'']"

definition isRecurringServicePeriodV1EditOperationSupported :: "string \<Rightarrow> bool" where
  "isRecurringServicePeriodV1EditOperationSupported operation \<longleftrightarrow>
     operation \<in> set RECURRING_SERVICE_PERIOD_SUPPORTED_EDIT_OPERATIONS"

definition assertRecurringServicePeriodV1EditOperationSupported :: "string \<Rightarrow> unit result" where
  "assertRecurringServicePeriodV1EditOperationSupported operation =
     (if isRecurringServicePeriodV1EditOperationSupported operation then Inr ()
      else if operation \<in> set RECURRING_SERVICE_PERIOD_UNSUPPORTED_V1_EDIT_OPERATIONS
      then Inl (Unsupported_Edit_Operation operation)
      else Inl (Unknown_Edit_Operation operation))"

section \<open>Invoice linkage\<close>

definition hasRecurringServicePeriodInvoiceLinkage :: "period_record \<Rightarrow> bool" where
  "hasRecurringServicePeriodInvoiceLinkage r \<longleftrightarrow> rec_invoice_linkage r \<noteq> None"

definition same_linkage :: "invoice_linkage \<Rightarrow> invoice_linkage \<Rightarrow> bool" where
  "same_linkage l k \<longleftrightarrow> link_invoice_id l = link_invoice_id k
     \<and> link_invoice_charge_id l = link_invoice_charge_id k
     \<and> link_invoice_charge_detail_id l = link_invoice_charge_detail_id k"

definition applyRecurringServicePeriodInvoiceLinkage ::
    "period_record \<Rightarrow> invoice_linkage \<Rightarrow> period_record result" where
  "applyRecurringServicePeriodInvoiceLinkage r linkage =
     and_then (throw_if (rec_lifecycle_state r = Superseded \<or> rec_lifecycle_state r = Archived)
       (Linkage_On_History (rec_id r) (rec_lifecycle_state r))) (\<lambda>_.
     and_then (case rec_invoice_linkage r of None \<Rightarrow> Inr ()
         | Some l \<Rightarrow> throw_if (\<not> same_linkage l linkage)
             (Already_Linked (rec_id r) (link_invoice_charge_detail_id l))) (\<lambda>_.
       Inr (r\<lparr>rec_lifecycle_state := Billed, rec_invoice_linkage := Some linkage,
              rec_updated_at := link_linked_at linkage\<rparr>)))"

section \<open>Provenance\<close>

fun RECURRING_SERVICE_PERIOD_PROVENANCE_REASON_CODES :: "provenance_kind \<Rightarrow> string list" where
  "RECURRING_SERVICE_PERIOD_PROVENANCE_REASON_CODES P_Generated =
     [''initial_materialization'', ''backfill_materialization'']"
| "RECURRING_SERVICE_PERIOD_PROVENANCE_REASON_CODES P_User_Edited =
     [''boundary_adjustment'', ''invoice_window_adjustment'', ''activity_window_adjustment'',
      ''skip'', ''defer'']"
| "RECURRING_SERVICE_PERIOD_PROVENANCE_REASON_CODES P_Regenerated =
     [''source_rule_changed'', ''billing_schedule_changed'', ''cadence_owner_changed'',
      ''activity_window_changed'', ''backfill_realignment'']"
| "RECURRING_SERVICE_PERIOD_PROVENANCE_REASON_CODES P_Repair =
     [''integrity_repair'', ''invoice_linkage_repair'', ''admin_correction'']"

definition isRecurringServicePeriodProvenanceReasonCode :: "provenance_kind \<Rightarrow> string \<Rightarrow> bool" where
  "isRecurringServicePeriodProvenanceReasonCode kind reasonCode \<longleftrightarrow>
     reasonCode \<in> set (RECURRING_SERVICE_PERIOD_PROVENANCE_REASON_CODES kind)"

definition isRecurringServicePeriodProvenanceDivergent :: "provenance \<Rightarrow> bool" where
  "isRecurringServicePeriodProvenanceDivergent p \<longleftrightarrow> prov_kind p \<noteq> P_Generated"

definition validateRecurringServicePeriodProvenance :: "provenance \<Rightarrow> provenance_error list" where
  "validateRecurringServicePeriodProvenance p =
     (if \<not> isRecurringServicePeriodProvenanceReasonCode (prov_kind p) (prov_reason_code p)
      then [Unsupported_Reason_Code (prov_kind p) (prov_reason_code p)] else [])
     @ (case prov_kind p of
          P_Generated \<Rightarrow>
            (if \<not> truthy (prov_source_run_key p) then [Generated_Requires_Run_Key] else [])
            @ (if prov_supersedes_record_id p \<noteq> None then [Generated_Must_Not_Supersede] else [])
        | P_User_Edited \<Rightarrow>
            (if \<not> truthy (prov_supersedes_record_id p) then [Edited_Requires_Superseded] else [])
        | P_Regenerated \<Rightarrow>
            (if \<not> truthy (prov_source_run_key p) then [Regenerated_Requires_Run_Key] else [])
            @ (if \<not> truthy (prov_supersedes_record_id p) then [Regenerated_Requires_Superseded] else [])
        | P_Repair \<Rightarrow> [])"

section \<open>Governance\<close>

datatype governance_action = View | Mutation mutation_operation

definition RECURRING_SERVICE_PERIOD_GOVERNANCE_ACTIONS :: "governance_action list" where
  "RECURRING_SERVICE_PERIOD_GOVERNANCE_ACTIONS = [View, Mutation Edit_Boundaries, Mutation Skip_Period,
     Mutation Defer_Period, Mutation Regenerate_Period, Mutation Invoice_Linkage_Repair,
     Mutation Archive_Period]"

datatype permission_key = Permit_View | Permit_Manage_Future | Permit_Regenerate | Permit_Correct_History

datatype audit_event = Viewed | Boundary_Adjusted | Skipped_Event | Deferred_Event | Regenerated_Event
  | Invoice_Linkage_Repaired | Archived_Event

fun resolveGovernanceMetadata :: "governance_action \<Rightarrow> permission_key \<times> audit_event \<times> bool" where
  "resolveGovernanceMetadata View = (Permit_View, Viewed, False)"
| "resolveGovernanceMetadata (Mutation Edit_Boundaries) = (Permit_Manage_Future, Boundary_Adjusted, True)"
| "resolveGovernanceMetadata (Mutation Skip_Period) = (Permit_Manage_Future, Skipped_Event, True)"
| "resolveGovernanceMetadata (Mutation Defer_Period) = (Permit_Manage_Future, Deferred_Event, True)"
| "resolveGovernanceMetadata (Mutation Regenerate_Period) = (Permit_Regenerate, Regenerated_Event, True)"
| "resolveGovernanceMetadata (Mutation Invoice_Linkage_Repair) =
     (Permit_Correct_History, Invoice_Linkage_Repaired, True)"
| "resolveGovernanceMetadata (Mutation Archive_Period) = (Permit_Correct_History, Archived_Event, True)"

record governance_requirement =
  gv_action :: governance_action
  gv_permission_key :: permission_key
  gv_audit_event :: audit_event
  gv_audit_required :: bool
  gv_allowed :: bool
  gv_reason :: string

definition getRecurringServicePeriodGovernanceRequirement ::
    "period_record \<Rightarrow> governance_action \<Rightarrow> governance_requirement" where
  "getRecurringServicePeriodGovernanceRequirement r action =
     (case resolveGovernanceMetadata action of (permissionKey, auditEvent, auditRequired) \<Rightarrow>
       (case action of
          View \<Rightarrow> \<lparr>gv_action = action, gv_permission_key = permissionKey, gv_audit_event = auditEvent,
            gv_audit_required = auditRequired, gv_allowed = True,
            gv_reason = ''Service-period rows remain inspectable across lifecycle states when the caller has view permission.''\<rparr>
        | Mutation operation \<Rightarrow>
            (let mutationDecision = evaluateRecurringServicePeriodMutationPermission r operation
             in \<lparr>gv_action = action, gv_permission_key = permissionKey, gv_audit_event = auditEvent,
                  gv_audit_required = auditRequired, gv_allowed = md_allowed mutationDecision,
                  gv_reason = mutation_reason_text (md_reason mutationDecision)\<rparr>)))"

definition listRecurringServicePeriodGovernanceRequirements ::
    "period_record \<Rightarrow> governance_requirement list" where
  "listRecurringServicePeriodGovernanceRequirements r =
     map (getRecurringServicePeriodGovernanceRequirement r) RECURRING_SERVICE_PERIOD_GOVERNANCE_ACTIONS"

section \<open>Display\<close>

datatype display_tone = Neutral | Accent | Warning | Success | Muted

record display_state =
  dsp_lifecycle_state :: lifecycle_state
  dsp_label :: string
  dsp_tone :: display_tone
  dsp_detail :: string
  dsp_reason_label :: "string option"

definition HUMANIZED_REASON_CODES :: "(string \<times> string) list" where
  "HUMANIZED_REASON_CODES =
    [(''boundary_adjustment'', ''Boundary adjusted''),
     (''invoice_window_adjustment'', ''Invoice window adjusted''),
     (''activity_window_adjustment'', ''Activity window adjusted''),
     (''skip'', ''Skipped by billing staff''),
     (''defer'', ''Deferred to a later invoice window''),
     (''source_rule_changed'', ''Regenerated after source rule change''),
     (''billing_schedule_changed'', ''Regenerated after billing schedule change''),
     (''cadence_owner_changed'', ''Regenerated after cadence-owner change''),
     (''activity_window_changed'', ''Regenerated after activity-window change''),
     (''backfill_realignment'', ''Realigned during backfill''),
     (''integrity_repair'', ''Repaired for integrity''),
     (''invoice_linkage_repair'', ''Repaired after invoice-linkage correction''),
     (''admin_correction'', ''Corrected administratively''),
     (''initial_materialization'', ''Generated from source cadence''),
     (''backfill_materialization'', ''Generated during backfill'')]"

definition humanizeReasonCode :: "string \<Rightarrow> string" where
  "humanizeReasonCode reasonCode =
     (case map_of HUMANIZED_REASON_CODES reasonCode of Some label \<Rightarrow> label
      | None \<Rightarrow> map (\<lambda>c. if c = CHR ''_'' then CHR '' '' else c) reasonCode)"

definition getRecurringServicePeriodDisplayState :: "period_record \<Rightarrow> display_state" where
  "getRecurringServicePeriodDisplayState r =
     (let reasonLabel = Some (humanizeReasonCode (prov_reason_code (rec_provenance r)));
          display = (\<lambda>label tone detail. \<lparr>dsp_lifecycle_state = rec_lifecycle_state r, dsp_label = label,
            dsp_tone = tone, dsp_detail = detail, dsp_reason_label = reasonLabel\<rparr>)
      in case rec_lifecycle_state r of
        Generated \<Rightarrow> display ''Generated'' Neutral
          ''Matches the current cadence rules and is awaiting billing or review.''
      | Edited \<Rightarrow> display ''Edited'' Accent
          ''A later revision changed the generated schedule and remains active.''
      | Skipped \<Rightarrow> display ''Skipped'' Warning
          ''This future period is intentionally excluded from due selection until re-edited.''
      | Locked \<Rightarrow> display ''Locked'' Warning
          ''This period is frozen for ordinary edits while awaiting billing or correction.''
      | Billed \<Rightarrow> display ''Billed'' Success
          (case rec_invoice_linkage r of
             Some l \<Rightarrow> ''Linked to invoice detail '' @ link_invoice_charge_detail_id l @ ''.''
           | None \<Rightarrow> ''Linked to billed history.'')
      | Superseded \<Rightarrow> display ''Superseded'' Muted
          ''A newer revision replaced this period and this row remains for audit history.''
      | Archived \<Rightarrow> display ''Archived'' Muted
          ''This historical row is retained only for audit and reconciliation.'')"

section \<open>Authority\<close>

datatype authority_layer = Source_Rule | Materialized_Override | Ledger_State

datatype change_channel = Edit_Source_Rule | Edit_Materialized_Period | Corrective_Channel

datatype future_effect = Regenerate_Unedited_Future | Supersede_Current_Revision | Corrective_Only

datatype authority_subject = Cadence_Owner_Subject | Billing_Frequency_Subject | Due_Position_Subject
  | Activity_Window_Subject | Service_Period_Boundary_Subject | Invoice_Window_Boundary_Subject
  | Skip_Disposition_Subject | Defer_Disposition_Subject | Lifecycle_State_Subject
  | Invoice_Linkage_Subject | Provenance_Subject

record authority_boundary =
  ab_subject :: authority_subject
  ab_layer :: authority_layer
  ab_channel :: change_channel
  ab_effect :: future_effect
  ab_reason :: string

definition AUTHORITY_BOUNDARIES :: "authority_boundary list" where
  "AUTHORITY_BOUNDARIES =
    [\<lparr>ab_subject = Cadence_Owner_Subject, ab_layer = Source_Rule, ab_channel = Edit_Source_Rule,
      ab_effect = Regenerate_Unedited_Future,
      ab_reason = ''Cadence owner belongs to the source recurring obligation and future materialized periods follow it through regeneration.''\<rparr>,
     \<lparr>ab_subject = Billing_Frequency_Subject, ab_layer = Source_Rule, ab_channel = Edit_Source_Rule,
      ab_effect = Regenerate_Unedited_Future,
      ab_reason = ''Billing frequency defines the canonical service-period cadence and belongs to the source rule set.''\<rparr>,
     \<lparr>ab_subject = Due_Position_Subject, ab_layer = Source_Rule, ab_channel = Edit_Source_Rule,
      ab_effect = Regenerate_Unedited_Future,
      ab_reason = ''Advance versus arrears remains a source timing rule that remaps invoice windows for future periods.''\<rparr>,
     \<lparr>ab_subject = Activity_Window_Subject, ab_layer = Source_Rule, ab_channel = Edit_Source_Rule,
      ab_effect = Regenerate_Unedited_Future,
      ab_reason = ''Assignment activity windows come from source contract state and regenerate future coverage clipping when they change.''\<rparr>,
     \<lparr>ab_subject = Service_Period_Boundary_Subject, ab_layer = Materialized_Override,
      ab_channel = Edit_Materialized_Period, ab_effect = Supersede_Current_Revision,
      ab_reason = ''User-adjusted service-period boundaries are explicit persisted overrides, not new source cadence rules.''\<rparr>,
     \<lparr>ab_subject = Invoice_Window_Boundary_Subject, ab_layer = Materialized_Override,
      ab_channel = Edit_Materialized_Period, ab_effect = Supersede_Current_Revision,
      ab_reason = ''Moved due windows such as defer operations live on the materialized row revision and supersede the prior future row.''\<rparr>,
     \<lparr>ab_subject = Skip_Disposition_Subject, ab_layer = Materialized_Override,
      ab_channel = Edit_Materialized_Period, ab_effect = Supersede_Current_Revision,
      ab_reason = ''Skipping a future period is an explicit persisted override on one generated row, not a mutation of the source cadence.''\<rparr>,
     \<lparr>ab_subject = Defer_Disposition_Subject, ab_layer = Materialized_Override,
      ab_channel = Edit_Materialized_Period, ab_effect = Supersede_Current_Revision,
      ab_reason = ''Deferring a period creates a superseding edited row with a moved invoice window rather than altering the source schedule.''\<rparr>,
     \<lparr>ab_subject = Lifecycle_State_Subject, ab_layer = Ledger_State, ab_channel = Corrective_Channel,
      ab_effect = Corrective_Only,
      ab_reason = ''Lifecycle transitions describe persisted-ledger state and stay outside ordinary source-rule or override edits once history exists.''\<rparr>,
     \<lparr>ab_subject = Invoice_Linkage_Subject, ab_layer = Ledger_State, ab_channel = Corrective_Channel,
      ab_effect = Corrective_Only,
      ab_reason = ''Invoice linkage is billed-history lineage and changes only through explicit corrective flows such as linkage repair.''\<rparr>,
     \<lparr>ab_subject = Provenance_Subject, ab_layer = Ledger_State, ab_channel = Corrective_Channel,
      ab_effect = Corrective_Only,
      ab_reason = ''Provenance records why a row exists and is additive ledger truth, not an independent source recurrence setting.''\<rparr>]"

definition getRecurringServicePeriodAuthorityBoundary :: "authority_subject \<Rightarrow> authority_boundary option" where
  "getRecurringServicePeriodAuthorityBoundary subject =
     List.find (\<lambda>b. ab_subject b = subject) AUTHORITY_BOUNDARIES"

definition listRecurringServicePeriodAuthorityBoundaries :: "authority_boundary list" where
  "listRecurringServicePeriodAuthorityBoundaries = AUTHORITY_BOUNDARIES"

section \<open>A sample record\<close>

text \<open>The record the witnesses evaluate the operations on.\<close>

definition sample_record :: "string \<Rightarrow> int \<Rightarrow> lifecycle_state \<Rightarrow> int \<Rightarrow> int \<Rightarrow> period_record" where
  "sample_record rid revision state s e =
     \<lparr>rec_id = rid, rec_schedule_key = ''schedule'', rec_period_key = ''period'', rec_revision = revision,
      rec_source_obligation = \<lparr>ob_tenant = Some ''t'', ob_id = ''line-1'', ob_type = Contract_Line,
        ob_charge_family = Fixed\<rparr>,
      rec_cadence_owner = Client, rec_due_position = Advance, rec_lifecycle_state = state,
      rec_service_period = \<lparr>range_start = date_only s, range_end = date_only e, range_semantics = Half_Open\<rparr>,
      rec_invoice_window = \<lparr>range_start = date_only s, range_end = date_only e, range_semantics = Half_Open\<rparr>,
      rec_activity_window = None, rec_timing_metadata = None,
      rec_provenance = \<lparr>prov_kind = P_Generated, prov_source_rule_version = ''v1'',
        prov_reason_code = ''initial_materialization'', prov_source_run_key = Some ''run'',
        prov_supersedes_record_id = None\<rparr>,
      rec_invoice_linkage = None, rec_created_at = date_only s, rec_updated_at = date_only s\<rparr>"

section \<open>Transitions\<close>

lemma can_transition_cases:
  "canTransitionRecurringServicePeriodState a b \<Longrightarrow>
     (a = Archived \<longrightarrow> False) \<and> (a \<in> {Billed, Superseded} \<longrightarrow> b = Archived) \<and> b \<noteq> Generated
     \<and> (a = Locked \<longrightarrow> b \<in> {Billed, Superseded, Archived})"
  by (cases a) (auto simp: canTransitionRecurringServicePeriodState_def)

lemma terminal_iff: "isRecurringServicePeriodStateTerminal s \<longleftrightarrow> s \<in> {Billed, Superseded, Archived}"
  by (auto simp: isRecurringServicePeriodStateTerminal_def RECURRING_SERVICE_PERIOD_TERMINAL_STATES_def)

lemma terminal_stays:
  assumes "canTransitionRecurringServicePeriodState\<^sup>*\<^sup>* a b" "a \<in> {Billed, Superseded, Archived}"
  shows "b = a \<or> b = Archived"
  using assms by induction (auto dest: can_transition_cases)

lemma never_generated_again:
  "canTransitionRecurringServicePeriodState\<^sup>*\<^sup>* a Generated \<Longrightarrow> a = Generated"
  by (erule rtranclp.cases) (auto dest: can_transition_cases)

lemma always_archivable: "canTransitionRecurringServicePeriodState\<^sup>*\<^sup>* a Archived"
  by (cases a) (auto simp: canTransitionRecurringServicePeriodState_def intro: r_into_rtranclp)

text \<open>
  Along the transition table, a billed or superseded record can only become archived and an
  archived one never changes; no record returns to generated, a locked record is never edited or
  skipped again, and from every state the record can still be archived.
\<close>

theorem lifecycle_history_final:
  "(isRecurringServicePeriodStateTerminal a \<and> canTransitionRecurringServicePeriodState\<^sup>*\<^sup>* a b
      \<longrightarrow> b = a \<or> b = Archived)
   \<and> (canTransitionRecurringServicePeriodState\<^sup>*\<^sup>* a Generated \<longrightarrow> a = Generated)
   \<and> (canTransitionRecurringServicePeriodState\<^sup>*\<^sup>* Locked b \<longrightarrow> b \<noteq> Edited \<and> b \<noteq> Skipped)
   \<and> canTransitionRecurringServicePeriodState\<^sup>*\<^sup>* a Archived"
proof (intro conjI impI)
  assume "isRecurringServicePeriodStateTerminal a \<and> canTransitionRecurringServicePeriodState\<^sup>*\<^sup>* a b"
  then show "b = a \<or> b = Archived" using terminal_stays unfolding terminal_iff by blast
next
  assume "canTransitionRecurringServicePeriodState\<^sup>*\<^sup>* Locked b"
  then show "b \<noteq> Edited" "b \<noteq> Skipped"
    by (cases rule: converse_rtranclpE; auto dest!: can_transition_cases terminal_stays)+
qed (simp_all add: never_generated_again always_archivable)

theorem lifecycle_history_final_witness:
  "\<not> canTransitionRecurringServicePeriodState\<^sup>*\<^sup>* Billed Edited
   \<and> canTransitionRecurringServicePeriodState\<^sup>*\<^sup>* Skipped Archived"
  using lifecycle_history_final [of Billed Edited] lifecycle_history_final [of Skipped Archived]
  by (auto simp: terminal_iff)

section \<open>Mutations and governance\<close>

text \<open>The state the mutated record takes: replaced by a new revision, or archived.\<close>

fun mutated_state :: "mutation_operation \<Rightarrow> lifecycle_state option" where
  "mutated_state Invoice_Linkage_Repair = None"
| "mutated_state Archive_Period = Some Archived"
| "mutated_state _ = Some Superseded"

lemma allowed_iff:
  "md_allowed (evaluateRecurringServicePeriodMutationPermission r operation) \<longleftrightarrow>
     rec_lifecycle_state r \<in> {Generated, Edited, Skipped} \<and> operation \<noteq> Invoice_Linkage_Repair
     \<or> rec_lifecycle_state r \<in> {Locked, Billed} \<and> operation \<in> {Invoice_Linkage_Repair, Archive_Period}"
  by (auto simp: evaluateRecurringServicePeriodMutationPermission_def)

text \<open>
  The governance requirement of an action allows only what the transition table allows: the
  state the record takes is one it can reach in one step; a locked or billed record can only be
  changed with the permission to correct history, superseded and archived ones not at all, and every
  action but viewing is audited.
\<close>

theorem governance_respects_lifecycle:
  assumes "gv_allowed (getRecurringServicePeriodGovernanceRequirement r action)" "action \<noteq> View"
  shows "(\<exists>operation. action = Mutation operation \<and> (\<forall>to. mutated_state operation = Some to
        \<longrightarrow> canTransitionRecurringServicePeriodState (rec_lifecycle_state r) to))
    \<and> (rec_lifecycle_state r \<in> {Locked, Billed}
        \<longrightarrow> gv_permission_key (getRecurringServicePeriodGovernanceRequirement r action) = Permit_Correct_History)
    \<and> rec_lifecycle_state r \<notin> {Superseded, Archived}
    \<and> gv_audit_required (getRecurringServicePeriodGovernanceRequirement r action)"
proof -
  obtain operation where op: "action = Mutation operation" using assms(2) by (cases action) simp_all
  have allowed: "md_allowed (evaluateRecurringServicePeriodMutationPermission r operation)"
    using assms(1) by (auto simp: getRecurringServicePeriodGovernanceRequirement_def op Let_def split: prod.splits)
  have "mutated_state operation = Some to \<Longrightarrow> canTransitionRecurringServicePeriodState (rec_lifecycle_state r) to" for to
    using allowed by (cases operation)
      (auto simp: allowed_iff canTransitionRecurringServicePeriodState_def)
  moreover have "gv_audit_required (getRecurringServicePeriodGovernanceRequirement r action)"
    by (cases operation) (simp_all add: getRecurringServicePeriodGovernanceRequirement_def op Let_def)
  moreover have "gv_permission_key (getRecurringServicePeriodGovernanceRequirement r action) = Permit_Correct_History"
    if "rec_lifecycle_state r \<in> {Locked, Billed}"
    using that allowed by (cases operation)
      (auto simp: getRecurringServicePeriodGovernanceRequirement_def op Let_def allowed_iff)
  ultimately show ?thesis using allowed by (auto simp: op allowed_iff)
qed

theorem governance_respects_lifecycle_witness:
  "let r = sample_record ''r'' 1 Billed 20454 20485;
       g = getRecurringServicePeriodGovernanceRequirement r (Mutation Archive_Period)
   in gv_allowed g \<and> gv_permission_key g = Permit_Correct_History \<and> gv_audit_required g"
proof -
  have "gv_allowed (getRecurringServicePeriodGovernanceRequirement (sample_record ''r'' 1 Billed 20454 20485)
      (Mutation Archive_Period))" by code_simp
  from this governance_respects_lifecycle [OF this] show ?thesis
    unfolding Let_def by (simp add: sample_record_def)
qed

section \<open>Invoice linkage\<close>

text \<open>
  A record accepts the link to an invoice detail exactly when it is neither superseded nor
  archived and has no link to another one; it becomes billed and keeps everything else, the same
  link is accepted again, and any other link is then refused.
\<close>

theorem invoice_linkage_once:
  "(rec_lifecycle_state r \<notin> {Superseded, Archived}
      \<and> (\<forall>l. rec_invoice_linkage r = Some l \<longrightarrow> same_linkage l k)
    \<longleftrightarrow> (\<exists>r'. applyRecurringServicePeriodInvoiceLinkage r k = Inr r'))
   \<and> (\<forall>r'. applyRecurringServicePeriodInvoiceLinkage r k = Inr r' \<longrightarrow>
        r' = r\<lparr>rec_lifecycle_state := Billed, rec_invoice_linkage := Some k, rec_updated_at := link_linked_at k\<rparr>
      \<and> applyRecurringServicePeriodInvoiceLinkage r' k = Inr r'
      \<and> (\<forall>k'. \<not> same_linkage k k' \<longrightarrow> applyRecurringServicePeriodInvoiceLinkage r' k'
          = Inl (Already_Linked (rec_id r) (link_invoice_charge_detail_id k))))"
  by (cases "rec_invoice_linkage r")
    (auto simp: applyRecurringServicePeriodInvoiceLinkage_def result_simps same_linkage_def)

theorem invoice_linkage_once_witness:
  "let r = sample_record ''r'' 1 Locked 20454 20485;
       k = \<lparr>link_invoice_id = ''i'', link_invoice_charge_id = ''c'', link_invoice_charge_detail_id = ''d'',
         link_linked_at = utc_midnight 20485\<rparr>;
       r' = r\<lparr>rec_lifecycle_state := Billed, rec_invoice_linkage := Some k, rec_updated_at := utc_midnight 20485\<rparr>
   in applyRecurringServicePeriodInvoiceLinkage r k = Inr r'
    \<and> applyRecurringServicePeriodInvoiceLinkage r' (k\<lparr>link_invoice_id := ''j''\<rparr>) = Inl (Already_Linked ''r'' ''d'')"
proof -
  let ?r = "sample_record ''r'' 1 Locked 20454 20485"
  let ?k = "\<lparr>link_invoice_id = ''i'', link_invoice_charge_id = ''c'', link_invoice_charge_detail_id = ''d'',
         link_linked_at = utc_midnight 20485\<rparr>"
  let ?r' = "?r\<lparr>rec_lifecycle_state := Billed, rec_invoice_linkage := Some ?k, rec_updated_at := utc_midnight 20485\<rparr>"
  note spec = invoice_linkage_once [of ?r ?k]
  have "rec_lifecycle_state ?r \<notin> {Superseded, Archived}
      \<and> (\<forall>l. rec_invoice_linkage ?r = Some l \<longrightarrow> same_linkage l ?k)" by (simp add: sample_record_def)
  then obtain r' where ok: "applyRecurringServicePeriodInvoiceLinkage ?r ?k = Inr r'"
    using spec [THEN conjunct1] by blast
  have spec': "r' = ?r'
      \<and> (\<forall>k'. \<not> same_linkage ?k k' \<longrightarrow> applyRecurringServicePeriodInvoiceLinkage r' k'
          = Inl (Already_Linked (rec_id ?r) (link_invoice_charge_detail_id ?k)))"
    using spec [THEN conjunct2, rule_format, OF ok] by (simp only: invoice_linkage.select_convs) blast
  have "\<not> same_linkage ?k (?k\<lparr>link_invoice_id := ''j''\<rparr>)" by (simp add: same_linkage_def)
  with spec' have "applyRecurringServicePeriodInvoiceLinkage ?r' (?k\<lparr>link_invoice_id := ''j''\<rparr>)
      = Inl (Already_Linked (rec_id ?r) (link_invoice_charge_detail_id ?k))" by blast
  moreover have "rec_id ?r = ''r''" by (simp add: sample_record_def)
  ultimately show ?thesis unfolding Let_def using ok spec' by simp
qed

end
