(* ===== verification/Period_Edits.thy ===== *)
theory Period_Edits
  imports Period_Lifecycle Materialization
begin

text \<open>
  Editing one ledger record (\<open>shared/billingClients\<close>): the continuity check against the other
  records of its schedule (\<open>recurringServicePeriodEditValidation.ts\<close>), the boundary edit
  (\<open>editRecurringServicePeriodBoundaries.ts\<close>), skip and defer
  (\<open>skipOrDeferRecurringServicePeriod.ts\<close>), and the request that wraps them and turns their error
  messages into validation issues (\<open>recurringServicePeriodEditRequests.ts\<close>).
\<close>

section \<open>Continuity with the sibling records\<close>

definition compareDateOnly :: "iso8601 \<Rightarrow> iso8601 \<Rightarrow> int" where
  "compareDateOnly left right = locale_compare (slice_date left) (slice_date right)"

definition record_compare :: "period_record \<Rightarrow> period_record \<Rightarrow> int" where
  "record_compare left right =
     (if range_start (rec_service_period left) \<noteq> range_start (rec_service_period right)
      then locale_compare (range_start (rec_service_period left)) (range_start (rec_service_period right))
      else if range_end (rec_service_period left) \<noteq> range_end (rec_service_period right)
      then locale_compare (range_end (rec_service_period left)) (range_end (rec_service_period right))
      else rec_revision left - rec_revision right)"

definition sortRecords :: "period_record list \<Rightarrow> period_record list" where
  "sortRecords records = js_sort record_compare records"

definition active_sibling :: "period_record \<Rightarrow> string option \<Rightarrow> period_record \<Rightarrow> bool" where
  "active_sibling editedRecord supersededRecordId r \<longleftrightarrow>
     rec_schedule_key r = rec_schedule_key editedRecord
     \<and> rec_lifecycle_state r \<noteq> Archived \<and> rec_lifecycle_state r \<noteq> Superseded
     \<and> rec_id r \<noteq> rec_id editedRecord \<and> Some (rec_id r) \<noteq> supersededRecordId"

definition validateRecurringServicePeriodEditContinuity ::
    "period_record \<Rightarrow> period_record list \<Rightarrow> string option \<Rightarrow> continuity_error list" where
  "validateRecurringServicePeriodEditContinuity editedRecord siblingRecords supersededRecordId =
     (let activeSiblingRecords = sortRecords
            (filter (active_sibling editedRecord supersededRecordId) siblingRecords);
          sp = rec_service_period editedRecord;
          previousRecord = List.find
            (\<lambda>r. compareDateOnly (range_start (rec_service_period r)) (range_start sp) < 0)
            (rev activeSiblingRecords);
          nextRecord = List.find
            (\<lambda>r. compareDateOnly (range_start (rec_service_period r)) (range_start sp) > 0)
            activeSiblingRecords
      in (case previousRecord of None \<Rightarrow> []
          | Some p \<Rightarrow>
              let previousEnd = range_end (rec_service_period p);
                  relation = compareDateOnly previousEnd (range_start sp)
              in if relation < 0 then [Gap_Before (rec_period_key editedRecord) previousEnd]
                 else if relation > 0 then [Overlap_Before (rec_period_key editedRecord) previousEnd]
                 else [])
         @ (case nextRecord of None \<Rightarrow> []
          | Some n \<Rightarrow>
              let nextStart = range_start (rec_service_period n);
                  relation = compareDateOnly (range_end sp) nextStart
              in if relation < 0 then [Gap_After (rec_period_key editedRecord) nextStart]
                 else if relation > 0 then [Overlap_After (rec_period_key editedRecord) nextStart]
                 else []))"

section \<open>Boundary edits\<close>

definition validateRange :: "edit_field \<Rightarrow> date_range \<Rightarrow> unit result" where
  "validateRange name r =
     and_then (throw_if (range_semantics r \<noteq> Half_Open) (Not_Half_Open name)) (\<lambda>_.
       throw_if (compareDateOnly (range_start r) (range_end r) \<ge> 0) (End_Not_After_Start name))"

definition validateActivityWindow :: "activity_window option \<Rightarrow> date_range \<Rightarrow> unit result" where
  "validateActivityWindow activityWindow servicePeriod =
     (case activityWindow of None \<Rightarrow> Inr ()
      | Some w \<Rightarrow>
          and_then (throw_if (aw_semantics w \<noteq> Half_Open) Activity_Not_Half_Open) (\<lambda>_.
          and_then (case aw_start w of None \<Rightarrow> Inr ()
            | Some s \<Rightarrow> throw_if (compareDateOnly s (range_start servicePeriod) < 0)
                Activity_Start_Before_Period) (\<lambda>_.
          and_then (case aw_end w of None \<Rightarrow> Inr ()
            | Some e \<Rightarrow> throw_if (compareDateOnly e (range_end servicePeriod) > 0)
                Activity_End_After_Period) (\<lambda>_.
          (case (aw_start w, aw_end w) of
             (Some s, Some e) \<Rightarrow> throw_if (compareDateOnly s e \<ge> 0) Activity_End_Not_After_Start
           | _ \<Rightarrow> Inr ())))))"

definition haveSameRange :: "date_range \<Rightarrow> date_range \<Rightarrow> bool" where
  "haveSameRange left right \<longleftrightarrow> range_start left = range_start right \<and> range_end left = range_end right
     \<and> range_semantics left = range_semantics right"

text \<open>
  The code compares the JSON texts of the two windows, which for windows whose keys are in the
  same order is their equality.
\<close>

definition haveSameActivityWindow :: "activity_window option \<Rightarrow> activity_window option \<Rightarrow> bool" where
  "haveSameActivityWindow left right \<longleftrightarrow> left = right"

definition resolveReasonCode :: "period_record \<Rightarrow> date_range \<Rightarrow> date_range \<Rightarrow> string" where
  "resolveReasonCode priorRecord servicePeriod invoiceWindow =
     (if \<not> haveSameRange (rec_service_period priorRecord) servicePeriod then ''boundary_adjustment''
      else if \<not> haveSameRange (rec_invoice_window priorRecord) invoiceWindow
      then ''invoice_window_adjustment''
      else ''activity_window_adjustment'')"

text \<open>\<open>updatedActivityWindow\<close> is \<open>undefined\<close> (None), \<open>null\<close> (Some None) or a window.\<close>

record edit_context =
  ec_edited_at :: iso8601
  ec_source_rule_version :: string
  ec_source_run_key :: "string option"
  ec_sibling_records :: "period_record list option"
  ec_record_id_factory :: "record_id_factory option"

text \<open>The new revision both edit flows create.\<close>

definition edited_revision ::
    "edit_context \<Rightarrow> period_record \<Rightarrow> lifecycle_state \<Rightarrow> date_range \<Rightarrow> date_range
       \<Rightarrow> activity_window option \<Rightarrow> string \<Rightarrow> period_record" where
  "edited_revision ctx r state servicePeriod invoiceWindow activityWindow reasonCode =
     (let revision = rec_revision r + 1;
          recordIdFactory = or_else (ec_record_id_factory ctx) defaultRecordIdFactory
      in r\<lparr>rec_id := recordIdFactory (rec_schedule_key r) (rec_period_key r) revision,
           rec_revision := revision,
           rec_lifecycle_state := state,
           rec_service_period := servicePeriod,
           rec_invoice_window := invoiceWindow,
           rec_activity_window := activityWindow,
           rec_provenance := \<lparr>prov_kind = P_User_Edited,
             prov_source_rule_version = ec_source_rule_version ctx,
             prov_reason_code = reasonCode,
             prov_source_run_key = ec_source_run_key ctx,
             prov_supersedes_record_id = Some (rec_id r)\<rparr>,
           rec_invoice_linkage := None,
           rec_created_at := ec_edited_at ctx,
           rec_updated_at := ec_edited_at ctx\<rparr>)"

text \<open>The two validations of the new revision and the pair both flows return.\<close>

definition finish_edit ::
    "edit_context \<Rightarrow> period_record \<Rightarrow> period_record \<Rightarrow> (period_record \<times> period_record) result" where
  "finish_edit ctx r editedRecord =
     (let errors = validateRecurringServicePeriodProvenance (rec_provenance editedRecord);
          siblings = or_else (ec_sibling_records ctx) [];
          continuity = (if siblings = [] then []
            else validateRecurringServicePeriodEditContinuity editedRecord siblings (Some (rec_id r)))
      in and_then (throw_if (errors \<noteq> []) (Provenance_Invalid errors)) (\<lambda>_.
         and_then (throw_if (continuity \<noteq> []) (Continuity_Broken continuity)) (\<lambda>_.
           Inr (r\<lparr>rec_lifecycle_state := Superseded, rec_updated_at := ec_edited_at ctx\<rparr>, editedRecord))))"

definition editRecurringServicePeriodBoundaries ::
    "edit_context \<Rightarrow> period_record \<Rightarrow> date_range option \<Rightarrow> date_range option
       \<Rightarrow> activity_window option option \<Rightarrow> (period_record \<times> period_record) result" where
  "editRecurringServicePeriodBoundaries ctx r updatedServicePeriod updatedInvoiceWindow
       updatedActivityWindow =
     (let permission = evaluateRecurringServicePeriodMutationPermission r Edit_Boundaries;
          servicePeriod = or_else updatedServicePeriod (rec_service_period r);
          invoiceWindow = or_else updatedInvoiceWindow (rec_invoice_window r);
          activityWindow = or_else updatedActivityWindow (rec_activity_window r)
      in and_then (throw_if (\<not> md_allowed permission) (Mutation_Denied (md_reason permission))) (\<lambda>_.
         and_then (validateRange Service_Period_Field servicePeriod) (\<lambda>_.
         and_then (validateRange Invoice_Window_Field invoiceWindow) (\<lambda>_.
         and_then (validateActivityWindow activityWindow servicePeriod) (\<lambda>_.
         and_then (throw_if (haveSameRange servicePeriod (rec_service_period r)
             \<and> haveSameRange invoiceWindow (rec_invoice_window r)
             \<and> haveSameActivityWindow activityWindow (rec_activity_window r)) No_Boundary_Change) (\<lambda>_.
           finish_edit ctx r (edited_revision ctx r Edited servicePeriod invoiceWindow activityWindow
             (resolveReasonCode r servicePeriod invoiceWindow))))))))"

section \<open>Skip and defer\<close>

datatype disposition = Skip | Defer

definition validateDeferredInvoiceWindow :: "date_range \<Rightarrow> unit result" where
  "validateDeferredInvoiceWindow r =
     and_then (throw_if (range_semantics r \<noteq> Half_Open) Deferred_Not_Half_Open) (\<lambda>_.
       throw_if (compareDateOnly (range_start r) (range_end r) \<ge> 0) Deferred_End_Not_After_Start)"

definition skipOrDeferRecurringServicePeriod ::
    "edit_context \<Rightarrow> period_record \<Rightarrow> disposition \<Rightarrow> date_range option
       \<Rightarrow> (period_record \<times> period_record) result" where
  "skipOrDeferRecurringServicePeriod ctx r operation deferredInvoiceWindow =
     (let permission = evaluateRecurringServicePeriodMutationPermission r
            (if operation = Skip then Skip_Period else Defer_Period)
      in and_then (throw_if (\<not> md_allowed permission) (Mutation_Denied (md_reason permission))) (\<lambda>_.
         and_then (case operation of
             Skip \<Rightarrow> Inr (Skipped, ''skip'', rec_invoice_window r)
           | Defer \<Rightarrow> (case deferredInvoiceWindow of
               None \<Rightarrow> Inl Deferred_Window_Missing
             | Some w \<Rightarrow> and_then (validateDeferredInvoiceWindow w) (\<lambda>_.
                 and_then (throw_if (haveSameRange w (rec_invoice_window r)) Deferred_Unchanged) (\<lambda>_.
                   Inr (Edited, ''defer'', w))))) (\<lambda>(lifecycleState, reasonCode, invoiceWindow).
           finish_edit ctx r (edited_revision ctx r lifecycleState (rec_service_period r) invoiceWindow
             (rec_activity_window r) reasonCode))))"

section \<open>The continuity check\<close>

lemma compareDateOnly_iff [simp]:
  "compareDateOnly v w < 0 \<longleftrightarrow> iso_day v < iso_day w"
  "0 < compareDateOnly v w \<longleftrightarrow> iso_day w < iso_day v"
  "0 \<le> compareDateOnly v w \<longleftrightarrow> iso_day w \<le> iso_day v"
  "compareDateOnly v w \<le> 0 \<longleftrightarrow> iso_day v \<le> iso_day w"
  by (simp_all add: compareDateOnly_def)

lemma record_compare_le:
  "record_compare l r \<le> 0 \<longleftrightarrow>
     range_start (rec_service_period l) < range_start (rec_service_period r)
     \<or> range_start (rec_service_period l) = range_start (rec_service_period r)
       \<and> (range_end (rec_service_period l) < range_end (rec_service_period r)
         \<or> range_end (rec_service_period l) = range_end (rec_service_period r)
           \<and> rec_revision l \<le> rec_revision r)"
  by (auto simp: record_compare_def)

interpretation record_order: comparator record_compare
proof
  show "record_compare x y > 0 \<Longrightarrow> record_compare y x \<le> 0" for x y
    using record_compare_le [of x y] record_compare_le [of y x] by fastforce
  show "record_compare x y \<le> 0 \<Longrightarrow> record_compare y z \<le> 0 \<Longrightarrow> record_compare x z \<le> 0" for x y z
    unfolding record_compare_le by (elim disjE conjE) (auto dest: order.strict_trans)
qed

abbreviation start_day :: "period_record \<Rightarrow> int" where
  "start_day r \<equiv> iso_day (range_start (rec_service_period r))"

abbreviation end_day :: "period_record \<Rightarrow> int" where
  "end_day r \<equiv> iso_day (range_end (rec_service_period r))"

lemma sortRecords_sorted: "sorted_wrt (\<lambda>l r. start_day l \<le> start_day r) (sortRecords rs)"
proof -
  have "record_compare l r \<le> 0 \<Longrightarrow> start_day l \<le> start_day r" for l r
    by (auto simp: record_compare_le dest: iso_less_day)
  then show ?thesis
    unfolding sortRecords_def using record_order.sorted_js_sort sorted_wrt_mono_rel by (metis (no_types, lifting))
qed

lemma set_sortRecords [simp]: "set (sortRecords rs) = set rs"
  by (simp add: sortRecords_def)

text \<open>The first match of a sorted list is the least one, the last match the greatest.\<close>

lemma find_least:
  assumes "sorted_wrt (\<lambda>l r. f l \<le> (f r :: int)) xs" "List.find P xs = Some n"
  shows "n \<in> set xs \<and> P n \<and> (\<forall>q \<in> set xs. P q \<longrightarrow> f n \<le> f q)"
  using assms by (induction xs) (auto split: if_splits)

lemma find_greatest:
  assumes "sorted_wrt (\<lambda>l r. f l \<le> (f r :: int)) xs" "List.find P (rev xs) = Some p"
  shows "p \<in> set xs \<and> P p \<and> (\<forall>q \<in> set xs. P q \<longrightarrow> f q \<le> f p)"
proof -
  have "sorted_wrt (\<lambda>l r. - f l \<le> - f r) (rev xs)" using assms(1) by (simp add: sorted_wrt_rev)
  from find_least [OF this assms(2)] show ?thesis by simp
qed

definition active_siblings :: "period_record \<Rightarrow> period_record list \<Rightarrow> string option \<Rightarrow> period_record set" where
  "active_siblings e siblings sid = {q \<in> set siblings. active_sibling e sid q}"

text \<open>
  What an empty error list means: the greatest sibling that starts before the edited period ends
  where it starts, and the least one that starts after it starts where it ends.
\<close>

lemma continuity_previous:
  assumes "validateRecurringServicePeriodEditContinuity e siblings sid = []"
    and "q \<in> active_siblings e siblings sid" "start_day q < start_day e"
  shows "\<exists>p \<in> active_siblings e siblings sid. start_day q \<le> start_day p \<and> start_day p < start_day e
    \<and> end_day p = start_day e"
proof -
  let ?xs = "sortRecords (filter (active_sibling e sid) siblings)"
  let ?P = "\<lambda>r. compareDateOnly (range_start (rec_service_period r)) (range_start (rec_service_period e)) < 0"
  have mem: "q' \<in> set ?xs \<longleftrightarrow> q' \<in> active_siblings e siblings sid" for q'
    by (auto simp: active_siblings_def)
  obtain p where p: "List.find ?P (rev ?xs) = Some p"
    using find_None_D [of ?P "rev ?xs" q] assms(2,3) mem by (cases "List.find ?P (rev ?xs)") auto
  from find_greatest [OF sortRecords_sorted p] have "p \<in> active_siblings e siblings sid"
    "start_day p < start_day e" "start_day q \<le> start_day p" using mem assms(2,3) by auto
  moreover have "end_day p = start_day e"
    using assms(1) p by (auto simp: validateRecurringServicePeriodEditContinuity_def Let_def split: if_splits)
  ultimately show ?thesis by blast
qed

lemma continuity_next:
  assumes "validateRecurringServicePeriodEditContinuity e siblings sid = []"
    and "q \<in> active_siblings e siblings sid" "start_day e < start_day q"
  shows "\<exists>n \<in> active_siblings e siblings sid. start_day n \<le> start_day q \<and> start_day n = end_day e"
proof -
  let ?xs = "sortRecords (filter (active_sibling e sid) siblings)"
  let ?P = "\<lambda>r. compareDateOnly (range_start (rec_service_period r)) (range_start (rec_service_period e)) > 0"
  have mem: "q' \<in> set ?xs \<longleftrightarrow> q' \<in> active_siblings e siblings sid" for q'
    by (auto simp: active_siblings_def)
  obtain n where n: "List.find ?P ?xs = Some n"
    using find_None_D [of ?P ?xs q] assms(2,3) mem by (cases "List.find ?P ?xs") auto
  from find_least [OF sortRecords_sorted n] have "n \<in> active_siblings e siblings sid"
    "start_day n \<le> start_day q" using mem assms(2,3) by auto
  moreover have "start_day n = end_day e"
    using assms(1) n by (auto simp: validateRecurringServicePeriodEditContinuity_def Let_def split: if_splits)
  ultimately show ?thesis by blast
qed

lemma continuity_no_overlap:
  assumes valid: "validateRecurringServicePeriodEditContinuity e siblings sid = []"
    and nonempty: "\<forall>q \<in> active_siblings e siblings sid. start_day q < end_day q"
    and disjoint: "\<forall>q \<in> active_siblings e siblings sid. \<forall>q' \<in> active_siblings e siblings sid.
      q \<noteq> q' \<longrightarrow> range_days (rec_service_period q) \<inter> range_days (rec_service_period q') = {}"
    and q: "q \<in> active_siblings e siblings sid" "start_day q \<noteq> start_day e"
  shows "range_days (rec_service_period q) \<inter> range_days (rec_service_period e) = {}"
proof (cases "start_day q < start_day e")
  case True
  from continuity_previous [OF valid q(1) True] obtain p where p: "p \<in> active_siblings e siblings sid"
    "start_day q \<le> start_day p" "start_day p < start_day e" "end_day p = start_day e" by blast
  have "end_day q \<le> start_day e"
  proof (cases "q = p")
    case False
    then have "start_day p \<notin> range_days (rec_service_period q) \<inter> range_days (rec_service_period p)"
      using disjoint q(1) p(1) by simp
    then show ?thesis using p by (auto simp: range_days_def)
  qed (simp add: p(4))
  then show ?thesis by (auto simp: range_days_def)
next
  case False
  then have "start_day e < start_day q" using q(2) by simp
  from continuity_next [OF valid q(1) this] show ?thesis by (auto simp: range_days_def)
qed

section \<open>What an edit returns\<close>

definition half_open_days :: "date_range \<Rightarrow> bool" where
  "half_open_days r \<longleftrightarrow> range_semantics r = Half_Open \<and> range_days r \<noteq> {}"

definition window_within :: "date_range \<Rightarrow> activity_window \<Rightarrow> bool" where
  "window_within sp w \<longleftrightarrow> aw_semantics w = Half_Open
     \<and> (\<forall>s. aw_start w = Some s \<longrightarrow> iso_day (range_start sp) \<le> iso_day s)
     \<and> (\<forall>e. aw_end w = Some e \<longrightarrow> iso_day e \<le> iso_day (range_end sp))
     \<and> (\<forall>s e. aw_start w = Some s \<and> aw_end w = Some e \<longrightarrow> iso_day s < iso_day e)"

lemma validateRange_iff: "validateRange f r = Inr u \<longleftrightarrow> half_open_days r"
  by (auto simp: validateRange_def result_simps half_open_days_def range_days_def)

lemma validateDeferred_iff: "validateDeferredInvoiceWindow r = Inr u \<longleftrightarrow> half_open_days r"
  by (auto simp: validateDeferredInvoiceWindow_def result_simps half_open_days_def range_days_def)

lemma validateActivityWindow_iff:
  "validateActivityWindow aw sp = Inr u \<longleftrightarrow> (\<forall>w. aw = Some w \<longrightarrow> window_within sp w)"
  by (auto simp: validateActivityWindow_def result_simps window_within_def split: option.splits)

lemma haveSameRange_iff: "haveSameRange l r \<longleftrightarrow> l = r"
  by (cases l; cases r) (auto simp: haveSameRange_def)

lemma finish_edit_Inr:
  "finish_edit ctx r e = Inr (old, new) \<longleftrightarrow>
     validateRecurringServicePeriodProvenance (rec_provenance e) = []
     \<and> (or_else (ec_sibling_records ctx) [] = []
        \<or> validateRecurringServicePeriodEditContinuity e (or_else (ec_sibling_records ctx) []) (Some (rec_id r)) = [])
     \<and> old = r\<lparr>rec_lifecycle_state := Superseded, rec_updated_at := ec_edited_at ctx\<rparr> \<and> new = e"
  by (auto simp: finish_edit_def result_simps Let_def)

lemma boundary_edit_Inr:
  "editRecurringServicePeriodBoundaries ctx r sp iw aw = Inr (old, new) \<longleftrightarrow>
     rec_lifecycle_state r \<in> {Generated, Edited, Skipped}
     \<and> half_open_days (or_else sp (rec_service_period r)) \<and> half_open_days (or_else iw (rec_invoice_window r))
     \<and> (\<forall>w. or_else aw (rec_activity_window r) = Some w \<longrightarrow> window_within (or_else sp (rec_service_period r)) w)
     \<and> \<not> (or_else sp (rec_service_period r) = rec_service_period r
          \<and> or_else iw (rec_invoice_window r) = rec_invoice_window r
          \<and> or_else aw (rec_activity_window r) = rec_activity_window r)
     \<and> finish_edit ctx r (edited_revision ctx r Edited (or_else sp (rec_service_period r))
         (or_else iw (rec_invoice_window r)) (or_else aw (rec_activity_window r))
         (resolveReasonCode r (or_else sp (rec_service_period r)) (or_else iw (rec_invoice_window r))))
       = Inr (old, new)"
  by (simp add: editRecurringServicePeriodBoundaries_def result_simps Let_def allowed_iff validateRange_iff
      validateActivityWindow_iff haveSameRange_iff haveSameActivityWindow_def)

lemma skip_Inr:
  "skipOrDeferRecurringServicePeriod ctx r Skip w = Inr (old, new) \<longleftrightarrow>
     rec_lifecycle_state r \<in> {Generated, Edited, Skipped}
     \<and> finish_edit ctx r (edited_revision ctx r Skipped (rec_service_period r) (rec_invoice_window r)
         (rec_activity_window r) ''skip'') = Inr (old, new)"
  by (simp add: skipOrDeferRecurringServicePeriod_def result_simps Let_def allowed_iff)

lemma defer_Inr:
  "skipOrDeferRecurringServicePeriod ctx r Defer dw = Inr (old, new) \<longleftrightarrow>
     rec_lifecycle_state r \<in> {Generated, Edited, Skipped}
     \<and> (\<exists>w. dw = Some w \<and> half_open_days w \<and> w \<noteq> rec_invoice_window r
       \<and> finish_edit ctx r (edited_revision ctx r Edited (rec_service_period r) w
           (rec_activity_window r) ''defer'') = Inr (old, new))"
  by (cases dw) (auto simp: skipOrDeferRecurringServicePeriod_def result_simps Let_def allowed_iff
      validateDeferred_iff haveSameRange_iff)

lemma edited_revision_simps [simp]:
  "rec_id (edited_revision ctx r st sp iw aw rc)
    = or_else (ec_record_id_factory ctx) defaultRecordIdFactory (rec_schedule_key r) (rec_period_key r) (rec_revision r + 1)"
  "rec_schedule_key (edited_revision ctx r st sp iw aw rc) = rec_schedule_key r"
  "rec_period_key (edited_revision ctx r st sp iw aw rc) = rec_period_key r"
  "rec_revision (edited_revision ctx r st sp iw aw rc) = rec_revision r + 1"
  "rec_source_obligation (edited_revision ctx r st sp iw aw rc) = rec_source_obligation r"
  "rec_cadence_owner (edited_revision ctx r st sp iw aw rc) = rec_cadence_owner r"
  "rec_due_position (edited_revision ctx r st sp iw aw rc) = rec_due_position r"
  "rec_lifecycle_state (edited_revision ctx r st sp iw aw rc) = st"
  "rec_service_period (edited_revision ctx r st sp iw aw rc) = sp"
  "rec_invoice_window (edited_revision ctx r st sp iw aw rc) = iw"
  "rec_activity_window (edited_revision ctx r st sp iw aw rc) = aw"
  "rec_invoice_linkage (edited_revision ctx r st sp iw aw rc) = None"
  "prov_supersedes_record_id (rec_provenance (edited_revision ctx r st sp iw aw rc)) = Some (rec_id r)"
  by (simp_all add: edited_revision_def Let_def)

section \<open>Properties of the edits\<close>

text \<open>
  An accepted boundary edit never overlaps an active sibling that starts on another day, when
  the siblings do not overlap one another; where siblings start before (after) it, one of them ends
  (starts) exactly where the edited period starts (ends).
\<close>

theorem boundary_edit_no_overlap:
  assumes "editRecurringServicePeriodBoundaries ctx r sp iw aw = Inr (old, new)"
    and "A = active_siblings new (or_else (ec_sibling_records ctx) []) (Some (rec_id r))"
    and "\<forall>q \<in> A. start_day q < end_day q"
    and "\<forall>q \<in> A. \<forall>q' \<in> A. q \<noteq> q' \<longrightarrow> range_days (rec_service_period q) \<inter> range_days (rec_service_period q') = {}"
  shows "(\<forall>q \<in> A. start_day q \<noteq> start_day new
        \<longrightarrow> range_days (rec_service_period q) \<inter> range_days (rec_service_period new) = {})
    \<and> ((\<exists>q \<in> A. start_day q < start_day new) \<longrightarrow> (\<exists>q \<in> A. end_day q = start_day new))
    \<and> ((\<exists>q \<in> A. start_day new < start_day q) \<longrightarrow> (\<exists>q \<in> A. start_day q = end_day new))"
proof (cases "or_else (ec_sibling_records ctx) [] = []")
  case True
  then show ?thesis using assms(2) by (simp add: active_siblings_def)
next
  case False
  then have valid: "validateRecurringServicePeriodEditContinuity new (or_else (ec_sibling_records ctx) [])
      (Some (rec_id r)) = []"
    using assms(1) by (auto simp: boundary_edit_Inr finish_edit_Inr)
  show ?thesis
    using continuity_no_overlap [OF valid, folded assms(2)] continuity_previous [OF valid, folded assms(2)]
      continuity_next [OF valid, folded assms(2)] assms(3,4) by blast
qed

definition sample_context :: "period_record list \<Rightarrow> edit_context" where
  "sample_context siblings = \<lparr>ec_edited_at = utc_midnight 20460, ec_source_rule_version = ''v1'',
     ec_source_run_key = None, ec_sibling_records = Some siblings, ec_record_id_factory = None\<rparr>"

definition sample_range :: "int \<Rightarrow> int \<Rightarrow> date_range" where
  "sample_range s e = \<lparr>range_start = date_only s, range_end = date_only e, range_semantics = Half_Open\<rparr>"

text \<open>The last period of January and February is extended to the middle of March.\<close>

theorem boundary_edit_no_overlap_witness:
  "let january = sample_record ''a'' 1 Generated 20454 20485; february = sample_record ''b'' 1 Generated 20485 20513
   in \<exists>old new. editRecurringServicePeriodBoundaries (sample_context [january]) february
         (Some (sample_range 20485 20527)) None None = Inr (old, new)
      \<and> range_days (rec_service_period january) \<inter> range_days (rec_service_period new) = {}
      \<and> end_day january = start_day new"
proof -
  let ?jan = "sample_record ''a'' 1 Generated 20454 20485" and ?feb = "sample_record ''b'' 1 Generated 20485 20513"
  let ?ctx = "sample_context [?jan]"
  let ?edit = "editRecurringServicePeriodBoundaries ?ctx ?feb (Some (sample_range 20485 20527)) None None"
  have "case ?edit of Inl _ \<Rightarrow> False | Inr (old, new) \<Rightarrow> start_day new = 20485
      \<and> active_sibling new (Some ''b'') ?jan" by code_simp
  then obtain old new where edit: "?edit = Inr (old, new)" and new: "start_day new = 20485"
    "active_sibling new (Some ''b'') ?jan" by (auto split: sum.splits)
  have A: "{?jan} = active_siblings new (or_else (ec_sibling_records ?ctx) []) (Some (rec_id ?feb))"
    using new(2) by (auto simp: active_siblings_def sample_context_def sample_record_def)
  have jan: "start_day ?jan = 20454" "end_day ?jan = 20485" by (simp_all add: sample_record_def)
  have "(\<forall>q \<in> {?jan}. start_day q \<noteq> start_day new
        \<longrightarrow> range_days (rec_service_period q) \<inter> range_days (rec_service_period new) = {})
    \<and> ((\<exists>q \<in> {?jan}. start_day q < start_day new) \<longrightarrow> (\<exists>q \<in> {?jan}. end_day q = start_day new))
    \<and> ((\<exists>q \<in> {?jan}. start_day new < start_day q) \<longrightarrow> (\<exists>q \<in> {?jan}. start_day q = end_day new))"
    by (rule boundary_edit_no_overlap [OF edit A]) (simp_all add: jan)
  then show ?thesis unfolding Let_def using edit jan new(1) by auto
qed

text \<open>
  The check looks only at the siblings that start before and after the edited period. Of the
  periods January, February, March, February may be moved to April, which leaves February without a
  period, and it may be moved to [January 1, March 1), which overlaps January.
\<close>

theorem boundary_edit_check_is_local:
  "let january = sample_record ''a'' 1 Generated 20454 20485; february = sample_record ''b'' 1 Generated 20485 20513;
       march = sample_record ''c'' 1 Generated 20513 20544;
       edit = (\<lambda>s e. editRecurringServicePeriodBoundaries (sample_context [january, march]) february
         (Some (sample_range s e)) None None)
   in map_sum id (\<lambda>(old, new). rec_service_period new) (edit 20544 20574) = Inr (sample_range 20544 20574)
    \<and> map_sum id (\<lambda>(old, new). rec_service_period new) (edit 20454 20513) = Inr (sample_range 20454 20513)
    \<and> range_days (sample_range 20454 20513) \<inter> range_days (rec_service_period january) \<noteq> {}"
proof -
  let ?jan = "sample_record ''a'' 1 Generated 20454 20485" and ?feb = "sample_record ''b'' 1 Generated 20485 20513"
    and ?mar = "sample_record ''c'' 1 Generated 20513 20544"
  let ?edit = "\<lambda>s e. editRecurringServicePeriodBoundaries (sample_context [?jan, ?mar]) ?feb
         (Some (sample_range s e)) None None"
  have "map_sum id (\<lambda>(old, new). rec_service_period new) (?edit 20544 20574) = Inr (sample_range 20544 20574)"
    by code_simp
  moreover have "map_sum id (\<lambda>(old, new). rec_service_period new) (?edit 20454 20513) = Inr (sample_range 20454 20513)"
    by code_simp
  moreover have "20454 \<in> range_days (sample_range 20454 20513) \<inter> range_days (rec_service_period ?jan)"
    by (simp add: range_days_def sample_range_def sample_record_def)
  ultimately show ?thesis unfolding Let_def by blast
qed

text \<open>
  A well-formed record: its ranges are half-open and not empty, its activity window lies within
  its service period, its provenance is valid, and only a record that can no longer be edited has
  a link to an invoice.
\<close>

definition record_wf :: "period_record \<Rightarrow> bool" where
  "record_wf r \<longleftrightarrow> half_open_days (rec_service_period r) \<and> half_open_days (rec_invoice_window r)
     \<and> (\<forall>w. rec_activity_window r = Some w \<longrightarrow> window_within (rec_service_period r) w)
     \<and> validateRecurringServicePeriodProvenance (rec_provenance r) = []
     \<and> (rec_invoice_linkage r \<noteq> None \<longrightarrow> rec_lifecycle_state r \<notin> {Generated, Edited, Skipped})"

definition edit_results ::
    "edit_context \<Rightarrow> period_record \<Rightarrow> (period_record \<times> period_record) set" where
  "edit_results ctx r =
     {res. \<exists>sp iw aw. editRecurringServicePeriodBoundaries ctx r sp iw aw = Inr res}
   \<union> {res. \<exists>operation w. skipOrDeferRecurringServicePeriod ctx r operation w = Inr res}"

lemma edit_results_cases:
  assumes "(old, new) \<in> edit_results ctx r"
  obtains (moved) sp iw aw where "editRecurringServicePeriodBoundaries ctx r sp iw aw = Inr (old, new)"
  | (skipped) w where "skipOrDeferRecurringServicePeriod ctx r Skip w = Inr (old, new)"
  | (deferred) w where "skipOrDeferRecurringServicePeriod ctx r Defer w = Inr (old, new)"
  using assms unfolding edit_results_def by (smt (verit) Un_iff disposition.exhaust mem_Collect_eq)

text \<open>The old record is superseded, the new one is the next revision of the same period.\<close>

lemma edit_results_spec:
  assumes "(old, new) \<in> edit_results ctx r"
  obtains st sp iw aw rc where "rec_lifecycle_state r \<in> {Generated, Edited, Skipped}"
    "old = r\<lparr>rec_lifecycle_state := Superseded, rec_updated_at := ec_edited_at ctx\<rparr>"
    "new = edited_revision ctx r st sp iw aw rc" "st \<in> {Edited, Skipped}"
    "validateRecurringServicePeriodProvenance (rec_provenance new) = []"
    "record_wf r \<Longrightarrow> half_open_days sp \<and> half_open_days iw \<and> (\<forall>w. aw = Some w \<longrightarrow> window_within sp w)"
  using assms
proof (cases rule: edit_results_cases)
  case moved
  then show ?thesis using that unfolding boundary_edit_Inr finish_edit_Inr by blast
next
  case skipped
  then show ?thesis using that unfolding skip_Inr finish_edit_Inr record_wf_def by blast
next
  case deferred
  then show ?thesis using that unfolding defer_Inr finish_edit_Inr record_wf_def by blast
qed

text \<open>
  C22: skip, defer and boundary edits keep records well-formed. The edited record becomes superseded
  and keeps everything but its state and time stamp; the new one is edited or skipped, has the next
  revision number, names the edited record as the one it supersedes, and belongs to the same period of
  the same schedule and obligation.
\<close>

theorem edits_preserve_wf:
  assumes "(old, new) \<in> edit_results ctx r" "record_wf r"
  shows "record_wf old \<and> record_wf new
    \<and> old = r\<lparr>rec_lifecycle_state := Superseded, rec_updated_at := ec_edited_at ctx\<rparr>
    \<and> canTransitionRecurringServicePeriodState (rec_lifecycle_state r) (rec_lifecycle_state old)
    \<and> rec_lifecycle_state new \<in> {Edited, Skipped}
    \<and> rec_revision new = rec_revision r + 1
    \<and> prov_supersedes_record_id (rec_provenance new) = Some (rec_id r)
    \<and> (rec_schedule_key new, rec_period_key new, rec_source_obligation new)
      = (rec_schedule_key r, rec_period_key r, rec_source_obligation r)"
proof -
  from edit_results_spec [OF assms(1)] obtain st sp iw aw rc where
    r: "rec_lifecycle_state r \<in> {Generated, Edited, Skipped}"
    and old: "old = r\<lparr>rec_lifecycle_state := Superseded, rec_updated_at := ec_edited_at ctx\<rparr>"
    and new: "new = edited_revision ctx r st sp iw aw rc" "st \<in> {Edited, Skipped}"
    "validateRecurringServicePeriodProvenance (rec_provenance new) = []"
    and wf: "half_open_days sp \<and> half_open_days iw \<and> (\<forall>w. aw = Some w \<longrightarrow> window_within sp w)"
    using assms(2) by metis
  have "record_wf old" using assms(2) unfolding record_wf_def old by simp
  moreover have "record_wf new" using wf new(3) by (simp add: record_wf_def new(1))
  moreover have "canTransitionRecurringServicePeriodState (rec_lifecycle_state r) (rec_lifecycle_state old)"
    using r by (auto simp: old canTransitionRecurringServicePeriodState_def)
  ultimately show ?thesis using old new(2) by (simp add: new(1))
qed

theorem edits_preserve_wf_witness:
  "\<exists>old new. skipOrDeferRecurringServicePeriod (sample_context []) (sample_record ''b'' 1 Generated 20485 20513)
      Skip None = Inr (old, new) \<and> record_wf new \<and> rec_revision new = 2"
proof -
  let ?r = "sample_record ''b'' 1 Generated 20485 20513"
  let ?res = "skipOrDeferRecurringServicePeriod (sample_context []) ?r Skip None"
  have "case ?res of Inl _ \<Rightarrow> False | Inr _ \<Rightarrow> True" by code_simp
  then obtain old new where res: "?res = Inr (old, new)" by (cases ?res) auto
  then have mem: "(old, new) \<in> edit_results (sample_context []) ?r" by (auto simp: edit_results_def)
  have "validateRecurringServicePeriodProvenance (rec_provenance ?r) = []" by code_simp
  then have wf: "record_wf ?r"
    by (simp add: record_wf_def half_open_days_def range_days_def) (simp add: sample_record_def)
  have "rec_revision ?r = 1" by (simp add: sample_record_def)
  with res edits_preserve_wf [OF mem wf] show ?thesis by auto
qed
end
