(* ===== verification/Edit_Requests.thy ===== *)
theory Edit_Requests
  imports Period_Edits
begin

text \<open>
  \<open>shared/billingClients/recurringServicePeriodEditRequests.ts\<close>: an edit request is applied to its
  record, and an error of the edit flow is turned into validation issues by looking at its message.
  The messages are rendered as the flows build them, and the regular expression is the scanner
  \<open>extractContinuityIssues\<close>.
\<close>

section \<open>Requests and responses\<close>

datatype edit_operation = Boundary_Adjustment_Request | Skip_Request | Defer_Request

datatype edit_request =
    Boundary_Adjustment string "date_range option" "date_range option" "activity_window option option"
  | Skip_Edit string
  | Defer_Edit string "date_range option"

fun request_operation :: "edit_request \<Rightarrow> edit_operation" where
  "request_operation (Boundary_Adjustment _ _ _ _) = Boundary_Adjustment_Request"
| "request_operation (Skip_Edit _) = Skip_Request"
| "request_operation (Defer_Edit _ _) = Defer_Request"

fun request_record_id :: "edit_request \<Rightarrow> string" where
  "request_record_id (Boundary_Adjustment i _ _ _) = i"
| "request_record_id (Skip_Edit i) = i"
| "request_record_id (Defer_Edit i _) = i"

datatype issue_code =
    Record_Mismatch_Issue
  | Immutable_Record_Issue
  | No_Changes_Issue
  | Invalid_Service_Period_Range_Issue
  | Invalid_Invoice_Window_Range_Issue
  | Invalid_Activity_Window_Range_Issue
  | Missing_Deferred_Window_Issue
  | Invalid_Deferred_Window_Issue
  | Unchanged_Deferred_Window_Issue
  | Continuity_Gap_Before
  | Continuity_Overlap_Before
  | Continuity_Gap_After
  | Continuity_Overlap_After
  | Unknown_Validation_Issue

datatype issue_field = On_Record_Id | On_Service_Period | On_Invoice_Window | On_Activity_Window
  | On_Deferred_Window | On_Operation

record validation_issue =
  vi_code :: issue_code
  vi_field :: issue_field
  vi_message :: string

datatype edit_response =
    Edit_Success edit_operation string period_record period_record provenance
  | Edit_Failure edit_operation string "validation_issue list"

section \<open>The messages of the edit flows\<close>

fun provenance_kind_text :: "provenance_kind \<Rightarrow> string" where
  "provenance_kind_text P_Generated = ''generated''"
| "provenance_kind_text P_User_Edited = ''user_edited''"
| "provenance_kind_text P_Regenerated = ''regenerated''"
| "provenance_kind_text P_Repair = ''repair''"

fun provenance_error_text :: "provenance_error \<Rightarrow> string" where
  "provenance_error_text (Unsupported_Reason_Code kind code) =
     ''Unsupported reason code '' @ [CHR 0x22] @ code @ [CHR 0x22] @ '' for provenance kind ''
       @ [CHR 0x22] @ provenance_kind_text kind @ [CHR 0x22]"
| "provenance_error_text Generated_Requires_Run_Key = ''Generated provenance requires sourceRunKey''"
| "provenance_error_text Generated_Must_Not_Supersede =
     ''Generated provenance must not supersede an earlier record''"
| "provenance_error_text Edited_Requires_Superseded =
     ''User-edited provenance requires supersedesRecordId''"
| "provenance_error_text Regenerated_Requires_Run_Key = ''Regenerated provenance requires sourceRunKey''"
| "provenance_error_text Regenerated_Requires_Superseded =
     ''Regenerated provenance requires supersedesRecordId''"

fun continuity_error_text :: "temporal \<Rightarrow> continuity_error \<Rightarrow> string" where
  "continuity_error_text td (Gap_Before periodKey e) =
     ''Edit would create a service-period gap before '' @ periodKey @ '': previous period ends '' @ iso_text td e @ ''.''"
| "continuity_error_text td (Overlap_Before periodKey e) =
     ''Edit would create a service-period overlap before '' @ periodKey @ '': previous period ends '' @ iso_text td e @ ''.''"
| "continuity_error_text td (Gap_After periodKey s) =
     ''Edit would create a service-period gap after '' @ periodKey @ '': next period starts '' @ iso_text td s @ ''.''"
| "continuity_error_text td (Overlap_After periodKey s) =
     ''Edit would create a service-period overlap after '' @ periodKey @ '': next period starts '' @ iso_text td s @ ''.''"

text \<open>\<open>errors.join(' ')\<close>\<close>

fun join_space :: "string list \<Rightarrow> string" where
  "join_space [] = []"
| "join_space [s] = s"
| "join_space (s # t # ts) = s @ '' '' @ join_space (t # ts)"

fun edit_field_text :: "edit_field \<Rightarrow> string" where
  "edit_field_text Service_Period_Field = ''servicePeriod''"
| "edit_field_text Invoice_Window_Field = ''invoiceWindow''"

text \<open>The errors the edit flows throw; the remaining constructors belong to other modules.\<close>

definition edit_error_text :: "temporal \<Rightarrow> billing_error \<Rightarrow> string" where
  "edit_error_text td e = (case e of
     Mutation_Denied reason \<Rightarrow> mutation_reason_text reason
   | Not_Half_Open field \<Rightarrow> edit_field_text field @ '' must keep half_open semantics.''
   | End_Not_After_Start field \<Rightarrow> edit_field_text field @ '' must have an end date after its start date.''
   | Activity_Not_Half_Open \<Rightarrow> ''activityWindow must keep half_open semantics.''
   | Activity_Start_Before_Period \<Rightarrow> ''activityWindow.start cannot be before the service period start.''
   | Activity_End_After_Period \<Rightarrow> ''activityWindow.end cannot be after the service period end.''
   | Activity_End_Not_After_Start \<Rightarrow> ''activityWindow must have an end date after its start date.''
   | No_Boundary_Change \<Rightarrow> ''Boundary adjustment must change at least one persisted boundary.''
   | Provenance_Invalid errors \<Rightarrow> join_space (map provenance_error_text errors)
   | Continuity_Broken errors \<Rightarrow> join_space (map (continuity_error_text td) errors)
   | Deferred_Window_Missing \<Rightarrow> ''Deferring a service period requires an explicit deferred invoice window.''
   | Deferred_Not_Half_Open \<Rightarrow> ''Deferred invoice window must keep half_open semantics.''
   | Deferred_End_Not_After_Start \<Rightarrow> ''Deferred invoice window must have an end date after its start date.''
   | Deferred_Unchanged \<Rightarrow> ''Defer operation must move the invoice window.''
   | Record_Mismatch target loaded \<Rightarrow>
       ''Record mismatch: request targets '' @ target @ '' but loaded record is '' @ loaded @ ''.''
   | _ \<Rightarrow> [])"

section \<open>From messages to issues\<close>

definition CONTINUITY_PATTERNS :: "(string \<times> issue_code) list" where
  "CONTINUITY_PATTERNS =
    [(''Edit would create a service-period gap before '', Continuity_Gap_Before),
     (''Edit would create a service-period gap after '', Continuity_Gap_After),
     (''Edit would create a service-period overlap before '', Continuity_Overlap_Before),
     (''Edit would create a service-period overlap after '', Continuity_Overlap_After)]"

definition starts_with :: "string \<Rightarrow> string \<Rightarrow> bool" where
  "starts_with s p \<longleftrightarrow> take (length p) s = p"

text \<open>One match of the pattern at the start of the text: a prefix, then \<open>[^.]+\<close>, then a dot.\<close>

definition match_here :: "string \<Rightarrow> (issue_code \<times> string \<times> string) option" where
  "match_here s =
     (case List.find (\<lambda>(p, _). starts_with s p) CONTINUITY_PATTERNS of
        None \<Rightarrow> None
      | Some (p, code) \<Rightarrow>
          let rest = drop (length p) s;
              body = takeWhile (\<lambda>c. c \<noteq> CHR ''.'') rest;
              after = dropWhile (\<lambda>c. c \<noteq> CHR ''.'') rest
          in if body \<noteq> [] \<and> after \<noteq> [] then Some (code, p @ body @ ''.'', tl after) else None)"

lemma match_here_shorter: "match_here s = Some (code, m, rest) \<Longrightarrow> length rest < length s"
proof -
  assume m: "match_here s = Some (code, m, rest)"
  then obtain pc where "List.find (\<lambda>(p, _). starts_with s p) CONTINUITY_PATTERNS = Some pc"
    by (cases "List.find (\<lambda>(p, _). starts_with s p) CONTINUITY_PATTERNS") (simp_all add: match_here_def)
  moreover obtain p code' where "pc = (p, code')" by (cases pc)
  ultimately have "dropWhile (\<lambda>c. c \<noteq> CHR ''.'') (drop (length p) s) \<noteq> []
    \<and> rest = tl (dropWhile (\<lambda>c. c \<noteq> CHR ''.'') (drop (length p) s))"
    using m by (simp add: match_here_def Let_def del: dropWhile_eq_Nil_conv split: if_splits)
  then have "dropWhile (\<lambda>c. c \<noteq> CHR ''.'') (drop (length p) s) \<noteq> []"
    "rest = tl (dropWhile (\<lambda>c. c \<noteq> CHR ''.'') (drop (length p) s))" by simp_all
  moreover from this have "length rest < length (dropWhile (\<lambda>c. c \<noteq> CHR ''.'') (drop (length p) s))"
    by (metis length_tl diff_less length_greater_0_conv zero_less_one)
  moreover have "length (dropWhile (\<lambda>c. c \<noteq> CHR ''.'') (drop (length p) s)) \<le> length s"
    by (metis diff_le_self le_trans length_drop length_dropWhile_le)
  ultimately show ?thesis by linarith
qed

function scan_issues :: "string \<Rightarrow> (issue_code \<times> string) list" where
  "scan_issues s = (if s = [] then []
     else case match_here s of
       Some (code, m, rest) \<Rightarrow> (code, m) # scan_issues rest
     | None \<Rightarrow> scan_issues (tl s))"
  by pat_completeness auto
termination by (relation "measure length") (auto dest: match_here_shorter)

declare scan_issues.simps [simp del]

definition extractContinuityIssues :: "string \<Rightarrow> validation_issue list" where
  "extractContinuityIssues message =
     map (\<lambda>(code, m). \<lparr>vi_code = code, vi_field = On_Service_Period, vi_message = m\<rparr>) (scan_issues message)"

text \<open>The rest of \<open>mapRecurringServicePeriodEditError\<close>, when no continuity issue is found.\<close>

definition message_issue :: "string \<Rightarrow> validation_issue" where
  "message_issue message =
     (let issue = (\<lambda>code field. \<lparr>vi_code = code, vi_field = field, vi_message = message\<rparr>)
      in if starts_with message ''Record mismatch: request targets''
      then issue Record_Mismatch_Issue On_Record_Id
      else if starts_with message ''Locked or billed service periods cannot be edited''
      then issue Immutable_Record_Issue On_Operation
      else if message = ''Boundary adjustment must change at least one persisted boundary.''
      then issue No_Changes_Issue On_Operation
      else if starts_with message ''servicePeriod must keep half_open semantics.''
        \<or> starts_with message ''servicePeriod must have an end date after its start date.''
      then issue Invalid_Service_Period_Range_Issue On_Service_Period
      else if starts_with message ''invoiceWindow must keep half_open semantics.''
        \<or> starts_with message ''invoiceWindow must have an end date after its start date.''
      then issue Invalid_Invoice_Window_Range_Issue On_Invoice_Window
      else if starts_with message ''activityWindow must keep half_open semantics.''
        \<or> starts_with message ''activityWindow.start cannot be before the service period start.''
        \<or> starts_with message ''activityWindow.end cannot be after the service period end.''
        \<or> starts_with message ''activityWindow must have an end date after its start date.''
      then issue Invalid_Activity_Window_Range_Issue On_Activity_Window
      else if message = ''Deferring a service period requires an explicit deferred invoice window.''
      then issue Missing_Deferred_Window_Issue On_Deferred_Window
      else if message = ''Deferred invoice window must keep half_open semantics.''
        \<or> message = ''Deferred invoice window must have an end date after its start date.''
      then issue Invalid_Deferred_Window_Issue On_Deferred_Window
      else if message = ''Defer operation must move the invoice window.''
      then issue Unchanged_Deferred_Window_Issue On_Deferred_Window
      else issue Unknown_Validation_Issue On_Operation)"

definition mapRecurringServicePeriodEditError :: "string \<Rightarrow> validation_issue list" where
  "mapRecurringServicePeriodEditError message =
     (let continuityIssues = extractContinuityIssues message
      in if continuityIssues \<noteq> [] then continuityIssues else [message_issue message])"

section \<open>Applying a request\<close>

definition failureResponse :: "edit_request \<Rightarrow> validation_issue list \<Rightarrow> edit_response" where
  "failureResponse request issues =
     Edit_Failure (request_operation request) (request_record_id request) issues"

definition successResponse :: "edit_request \<Rightarrow> period_record \<Rightarrow> period_record \<Rightarrow> edit_response" where
  "successResponse request supersededRecord editedRecord =
     Edit_Success (request_operation request) (request_record_id request) supersededRecord editedRecord
       (rec_provenance editedRecord)"

text \<open>The body of the \<open>try\<close> statement.\<close>

fun run_edit_request ::
    "edit_context \<Rightarrow> period_record \<Rightarrow> edit_request \<Rightarrow> (period_record \<times> period_record) result" where
  "run_edit_request ctx r (Boundary_Adjustment _ sp iw aw) = editRecurringServicePeriodBoundaries ctx r sp iw aw"
| "run_edit_request ctx r (Skip_Edit _) = skipOrDeferRecurringServicePeriod ctx r Skip None"
| "run_edit_request ctx r (Defer_Edit _ w) = skipOrDeferRecurringServicePeriod ctx r Defer w"

definition applyRecurringServicePeriodEditRequest ::
    "temporal \<Rightarrow> edit_context \<Rightarrow> period_record \<Rightarrow> edit_request \<Rightarrow> edit_response" where
  "applyRecurringServicePeriodEditRequest td ctx r request =
     (if request_record_id request \<noteq> rec_id r
      then failureResponse request (mapRecurringServicePeriodEditError
        (edit_error_text td (Record_Mismatch (request_record_id request) (rec_id r))))
      else case run_edit_request ctx r request of
        Inr (supersededRecord, editedRecord) \<Rightarrow> successResponse request supersededRecord editedRecord
      | Inl e \<Rightarrow> failureResponse request (mapRecurringServicePeriodEditError (edit_error_text td e)))"


section \<open>Scanning a message\<close>

lemma pattern_starts: "(p, code) \<in> set CONTINUITY_PATTERNS \<Longrightarrow> \<exists>q. p = CHR ''E'' # q"
  by (auto simp: CONTINUITY_PATTERNS_def)

lemma match_here_E: "s = [] \<or> hd s \<noteq> CHR ''E'' \<Longrightarrow> match_here s = None"
proof -
  assume s: "s = [] \<or> hd s \<noteq> CHR ''E''"
  have "\<not> starts_with s p" if "(p, code) \<in> set CONTINUITY_PATTERNS" for p code
    using pattern_starts [OF that] s by (cases s) (auto simp: starts_with_def)
  then have "List.find (\<lambda>(p, _). starts_with s p) CONTINUITY_PATTERNS = None"
    by (auto simp: find_None_iff)
  then show ?thesis by (simp add: match_here_def)
qed

lemma scan_nil [simp]: "scan_issues [] = []"
  by (simp add: scan_issues.simps)

lemma scan_skip: "CHR ''E'' \<notin> set a \<Longrightarrow> scan_issues (a @ b) = scan_issues b"
proof (induction a)
  case (Cons c a)
  then have "match_here (c # a @ b) = None" by (intro match_here_E) auto
  with Cons show ?case by (subst scan_issues.simps) simp
qed simp

lemma scan_plain: "CHR ''E'' \<notin> set a \<Longrightarrow> scan_issues a = []"
  using scan_skip [of a "[]"] by simp

lemma pattern_found:
  assumes "(p, code) \<in> set CONTINUITY_PATTERNS"
  shows "List.find (\<lambda>(q, _). starts_with (p @ s) q) CONTINUITY_PATTERNS = Some (p, code)"
proof -
  have "List.find (\<lambda>(q, _). starts_with (fst pc @ s) q) CONTINUITY_PATTERNS = Some pc"
    if "pc \<in> set CONTINUITY_PATTERNS" for pc
    using that by (simp add: CONTINUITY_PATTERNS_def starts_with_def) (elim disjE; simp)
  from this [OF assms] show ?thesis by simp
qed

lemma scan_hit:
  assumes p: "(p, code) \<in> set CONTINUITY_PATTERNS"
    and tail: "tl' \<noteq> []" "hd tl' \<noteq> CHR ''.''" "CHR ''E'' \<notin> set tl'"
  shows "\<exists>m. scan_issues (p @ (tl' @ ''.'') @ b) = (code, m) # scan_issues b"
proof -
  let ?s = "p @ (tl' @ ''.'') @ b"
  let ?P = "\<lambda>c. c \<noteq> CHR ''.''"
  let ?body = "takeWhile ?P (tl' @ ''.'')"
  have found: "List.find (\<lambda>(q, _). starts_with ?s q) CONTINUITY_PATTERNS = Some (p, code)"
    using p by (rule pattern_found)
  have dot: "CHR ''.'' \<in> set (tl' @ ''.'')" by simp
  then have body: "takeWhile ?P ((tl' @ ''.'') @ b) = ?body"
    and after: "dropWhile ?P ((tl' @ ''.'') @ b) = dropWhile ?P (tl' @ ''.'') @ b"
    by (auto simp: takeWhile_append dropWhile_append)
  have ne: "?body \<noteq> []" using tail(1,2) by (cases tl') auto
  obtain d rest where drop: "dropWhile ?P (tl' @ ''.'') = d # rest"
    using dot by (cases "dropWhile ?P (tl' @ ''.'')") (auto simp: dropWhile_eq_Nil_conv)
  have "set rest \<subseteq> set (tl' @ ''.'')"
    using drop set_dropWhileD [of _ ?P "tl' @ ''.''"] by (metis list.set_intros(2) subsetI)
  then have restE: "CHR ''E'' \<notin> set rest" using tail(3) by auto
  have dropped: "drop (length p) ?s = (tl' @ ''.'') @ b" by simp
  have "match_here ?s = (if ?body \<noteq> [] \<and> d # rest @ b \<noteq> []
      then Some (code, p @ ?body @ ''.'', tl (d # rest @ b)) else None)"
    unfolding match_here_def found option.case prod.case Let_def dropped body after drop by simp
  then have "match_here ?s = Some (code, p @ ?body @ ''.'', rest @ b)" using ne by simp
  moreover have "?s \<noteq> []" by simp
  ultimately have "scan_issues ?s = (code, p @ ?body @ ''.'') # scan_issues (rest @ b)"
    by (subst scan_issues.simps) simp
  then show ?thesis using scan_skip [OF restE] by simp
qed


section \<open>The issues of an error\<close>

text \<open>The issue codes the request reports for an error of the flow.\<close>

definition issue_codes :: "billing_error \<Rightarrow> issue_code list" where
  "issue_codes e = (case e of
     Continuity_Broken errors \<Rightarrow> map (\<lambda>c. case c of
         Gap_Before _ _ \<Rightarrow> Continuity_Gap_Before | Overlap_Before _ _ \<Rightarrow> Continuity_Overlap_Before
       | Gap_After _ _ \<Rightarrow> Continuity_Gap_After | Overlap_After _ _ \<Rightarrow> Continuity_Overlap_After) errors
   | Record_Mismatch _ _ \<Rightarrow> [Record_Mismatch_Issue]
   | Mutation_Denied Immutable_In_Place \<Rightarrow> [Immutable_Record_Issue]
   | No_Boundary_Change \<Rightarrow> [No_Changes_Issue]
   | Not_Half_Open Service_Period_Field \<Rightarrow> [Invalid_Service_Period_Range_Issue]
   | End_Not_After_Start Service_Period_Field \<Rightarrow> [Invalid_Service_Period_Range_Issue]
   | Not_Half_Open Invoice_Window_Field \<Rightarrow> [Invalid_Invoice_Window_Range_Issue]
   | End_Not_After_Start Invoice_Window_Field \<Rightarrow> [Invalid_Invoice_Window_Range_Issue]
   | Activity_Not_Half_Open \<Rightarrow> [Invalid_Activity_Window_Range_Issue]
   | Activity_Start_Before_Period \<Rightarrow> [Invalid_Activity_Window_Range_Issue]
   | Activity_End_After_Period \<Rightarrow> [Invalid_Activity_Window_Range_Issue]
   | Activity_End_Not_After_Start \<Rightarrow> [Invalid_Activity_Window_Range_Issue]
   | Deferred_Window_Missing \<Rightarrow> [Missing_Deferred_Window_Issue]
   | Deferred_Not_Half_Open \<Rightarrow> [Invalid_Deferred_Window_Issue]
   | Deferred_End_Not_After_Start \<Rightarrow> [Invalid_Deferred_Window_Issue]
   | Deferred_Unchanged \<Rightarrow> [Unchanged_Deferred_Window_Issue]
   | _ \<Rightarrow> [Unknown_Validation_Issue])"

text \<open>
  Text that cannot contain the start of a continuity message: no capital E. Period keys, record
  identifiers and the times of dates are of this kind.
\<close>

abbreviation plain :: "string \<Rightarrow> bool" where
  "plain s \<equiv> CHR ''E'' \<notin> set s"

lemma digit_char_plain: "digit_char n \<noteq> CHR ''E''"
proof
  have "48 + nat (n mod 10) < 58" by simp
  moreover assume "digit_char n = CHR ''E''"
  then have "(of_char (digit_char n) :: nat) = of_char (CHR ''E'')" by simp
  then have "48 + nat (n mod 10) = 69" by (simp add: digit_char_def)
  ultimately show False by simp
qed

lemma iso_text_plain: "plain (iso_time v) \<Longrightarrow> plain (iso_text td v)"
  by (simp add: iso_text_def plain_text_def pad4_def pad2_def digit_char_plain [symmetric])

fun continuity_plain :: "continuity_error \<Rightarrow> bool" where
  "continuity_plain (Gap_Before k v) \<longleftrightarrow> plain k \<and> (k = [] \<or> hd k \<noteq> CHR ''.'') \<and> plain (iso_time v)"
| "continuity_plain (Overlap_Before k v) \<longleftrightarrow> plain k \<and> (k = [] \<or> hd k \<noteq> CHR ''.'') \<and> plain (iso_time v)"
| "continuity_plain (Gap_After k v) \<longleftrightarrow> plain k \<and> (k = [] \<or> hd k \<noteq> CHR ''.'') \<and> plain (iso_time v)"
| "continuity_plain (Overlap_After k v) \<longleftrightarrow> plain k \<and> (k = [] \<or> hd k \<noteq> CHR ''.'') \<and> plain (iso_time v)"

lemma scan_continuity:
  assumes "continuity_plain c"
  shows "\<exists>m. scan_issues (continuity_error_text td c @ b)
    = (hd (issue_codes (Continuity_Broken [c])), m) # scan_issues b"
proof -
  let ?tail = "\<lambda>k mid v. k @ mid @ iso_text td v"
  have hit: "\<exists>m. scan_issues (p @ (?tail k (CHR '':'' # mid) v @ ''.'') @ b) = (code, m) # scan_issues b"
    if "(p, code) \<in> set CONTINUITY_PATTERNS" "plain k" "k = [] \<or> hd k \<noteq> CHR ''.''" "plain (iso_time v)"
      "plain mid" for p code k v mid
    using that by (intro scan_hit) (auto simp: iso_text_plain hd_append)
  show ?thesis
  proof (cases c)
  case (Gap_Before k v)
  then show ?thesis
    using assms hit [of "''Edit would create a service-period gap before ''" Continuity_Gap_Before k v "'' previous period ends ''"]
    by (simp add: CONTINUITY_PATTERNS_def issue_codes_def)
  next
  case (Overlap_Before k v)
  then show ?thesis
    using assms hit [of "''Edit would create a service-period overlap before ''" Continuity_Overlap_Before k v "'' previous period ends ''"]
    by (simp add: CONTINUITY_PATTERNS_def issue_codes_def)
  next
  case (Gap_After k v)
  then show ?thesis
    using assms hit [of "''Edit would create a service-period gap after ''" Continuity_Gap_After k v "'' next period starts ''"]
    by (simp add: CONTINUITY_PATTERNS_def issue_codes_def)
  next
  case (Overlap_After k v)
  then show ?thesis
    using assms hit [of "''Edit would create a service-period overlap after ''" Continuity_Overlap_After k v "'' next period starts ''"]
    by (simp add: CONTINUITY_PATTERNS_def issue_codes_def)
  qed
qed

lemma scan_continuities:
  "list_all continuity_plain cs \<Longrightarrow>
     map fst (scan_issues (join_space (map (continuity_error_text td) cs))) = issue_codes (Continuity_Broken cs)"
proof (induction cs rule: induct_list012)
  case (2 c)
  then show ?case using scan_continuity [of c td "[]"] by (auto simp: issue_codes_def)
next
  case (3 c d cs)
  have "scan_issues ('' '' @ join_space (map (continuity_error_text td) (d # cs)))
      = scan_issues (join_space (map (continuity_error_text td) (d # cs)))"
    by (rule scan_skip) simp
  with 3 scan_continuity [of c td "'' '' @ join_space (map (continuity_error_text td) (d # cs))"]
  show ?case by (auto simp: issue_codes_def)
qed (simp add: issue_codes_def)

section \<open>The errors of the flows\<close>

fun edit_error :: "billing_error \<Rightarrow> bool" where
  "edit_error (Provenance_Invalid errors) \<longleftrightarrow> errors = [Edited_Requires_Superseded]"
| "edit_error (Continuity_Broken errors) \<longleftrightarrow> errors \<noteq> [] \<and> list_all continuity_plain errors"
| "edit_error (Record_Mismatch target loaded) \<longleftrightarrow> plain target \<and> plain loaded"
| "edit_error e \<longleftrightarrow> e \<in> {Activity_Not_Half_Open, Activity_Start_Before_Period, Activity_End_After_Period,
     Activity_End_Not_After_Start, No_Boundary_Change, Deferred_Window_Missing, Deferred_Not_Half_Open,
     Deferred_End_Not_After_Start, Deferred_Unchanged}
     \<or> (\<exists>reason. e = Mutation_Denied reason) \<or> (\<exists>f. e = Not_Half_Open f) \<or> (\<exists>f. e = End_Not_After_Start f)"

text \<open>The errors whose messages are constant.\<close>

definition constant_errors :: "billing_error list" where
  "constant_errors = [Activity_Not_Half_Open, Activity_Start_Before_Period, Activity_End_After_Period,
     Activity_End_Not_After_Start, No_Boundary_Change, Deferred_Window_Missing, Deferred_Not_Half_Open,
     Deferred_End_Not_After_Start, Deferred_Unchanged,
     Mutation_Denied Repair_Before_Lock, Mutation_Denied Future_Unlocked, Mutation_Denied Corrective_Flow,
     Mutation_Denied Immutable_In_Place, Mutation_Denied Historical_Record,
     Not_Half_Open Service_Period_Field, Not_Half_Open Invoice_Window_Field,
     End_Not_After_Start Service_Period_Field, End_Not_After_Start Invoice_Window_Field,
     Provenance_Invalid [Edited_Requires_Superseded]]"

lemma constant_error_codes:
  "list_all (\<lambda>e. plain (edit_error_text gregorian e)
     \<and> [vi_code (message_issue (edit_error_text gregorian e))] = issue_codes e) constant_errors"
  by code_simp

lemma plain_message:
  "plain message \<Longrightarrow> mapRecurringServicePeriodEditError message = [message_issue message]"
  by (simp add: mapRecurringServicePeriodEditError_def extractContinuityIssues_def scan_plain)

lemma constant_error_text: "e \<in> set constant_errors \<Longrightarrow> edit_error_text td e = edit_error_text td' e"
  by (auto simp: constant_errors_def edit_error_text_def)

lemma edit_error_cases:
  assumes "edit_error e"
  obtains "e \<in> set constant_errors"
  | errors where "e = Continuity_Broken errors" "errors \<noteq> []" "list_all continuity_plain errors"
  | target loaded where "e = Record_Mismatch target loaded" "plain target" "plain loaded"
proof (cases e)
  case (Mutation_Denied reason)
  then show ?thesis using that(1) by (cases reason) (simp_all add: constant_errors_def)
next
  case (Not_Half_Open f)
  then show ?thesis using that(1) by (cases f) (simp_all add: constant_errors_def)
next
  case (End_Not_After_Start f)
  then show ?thesis using that(1) by (cases f) (simp_all add: constant_errors_def)
qed (use assms that in \<open>auto simp: constant_errors_def\<close>)

lemma edit_error_codes:
  assumes "edit_error e"
  shows "map vi_code (mapRecurringServicePeriodEditError (edit_error_text td e)) = issue_codes e"
  using assms
proof (cases rule: edit_error_cases)
  case 1
  then show ?thesis
    using constant_error_codes constant_error_text [OF 1, of td gregorian]
    by (simp add: list_all_iff plain_message)
next
  case (2 errors)
  then have codes: "map fst (scan_issues (edit_error_text td e)) = issue_codes e"
    by (simp add: edit_error_text_def scan_continuities)
  then have "scan_issues (edit_error_text td e) \<noteq> []" using 2 by (auto simp: issue_codes_def)
  then show ?thesis
    using codes by (auto simp: mapRecurringServicePeriodEditError_def extractContinuityIssues_def Let_def
        o_def case_prod_beta)
next
  case (3 target loaded)
  let ?text = "edit_error_text td e"
  have msg: "?text = ''Record mismatch: request targets'' @ '' '' @ target @ '' but loaded record is '' @ loaded @ ''.''"
    by (simp add: 3(1) edit_error_text_def)
  have "plain ?text" by (simp add: msg 3(2,3))
  moreover have "starts_with ?text ''Record mismatch: request targets''"
    unfolding msg starts_with_def by simp
  ultimately show ?thesis
    by (simp add: plain_message message_issue_def Let_def issue_codes_def 3(1))
qed

lemma provenance_of_edit:
  assumes "reasonCode \<in> set (RECURRING_SERVICE_PERIOD_PROVENANCE_REASON_CODES P_User_Edited)"
  shows "validateRecurringServicePeriodProvenance (rec_provenance (edited_revision ctx r st sp iw aw reasonCode))
    = (if rec_id r = [] then [Edited_Requires_Superseded] else [])"
  using assms by (simp add: validateRecurringServicePeriodProvenance_def edited_revision_def Let_def
      isRecurringServicePeriodProvenanceReasonCode_def)

definition plain_dates :: "period_record \<Rightarrow> bool" where
  "plain_dates r \<longleftrightarrow> plain (iso_time (range_start (rec_service_period r)))
     \<and> plain (iso_time (range_end (rec_service_period r)))"

lemma continuity_errors_plain:
  assumes "plain (rec_period_key e)" "rec_period_key e = [] \<or> hd (rec_period_key e) \<noteq> CHR ''.''"
    and "list_all plain_dates siblings"
  shows "list_all continuity_plain (validateRecurringServicePeriodEditContinuity e siblings sid)"
proof -
  let ?xs = "sortRecords (filter (active_sibling e sid) siblings)"
  have plain: "plain_dates q" if "List.find P xs = Some q" "set xs = set ?xs" for P xs q
    using find_SomeD [OF that(1)] that(2) assms(3) by (auto simp: list_all_iff)
  show ?thesis
    unfolding validateRecurringServicePeriodEditContinuity_def Let_def
    using assms(1,2) by (auto split: option.splits dest!: plain simp: plain_dates_def)
qed

lemma finish_edit_error:
  assumes "finish_edit ctx r (edited_revision ctx r st sp iw aw rc) = Inl e"
    and "rc \<in> set (RECURRING_SERVICE_PERIOD_PROVENANCE_REASON_CODES P_User_Edited)"
    and "plain (rec_period_key r)" "rec_period_key r = [] \<or> hd (rec_period_key r) \<noteq> CHR ''.''"
    and "list_all plain_dates (or_else (ec_sibling_records ctx) [])"
  shows "edit_error e"
  using assms(1) continuity_errors_plain [of "edited_revision ctx r st sp iw aw rc", OF _ _ assms(5)] assms(3,4)
  by (auto simp: finish_edit_def Let_def result_simps provenance_of_edit [OF assms(2)] split: if_splits)

lemma run_edit_request_error:
  assumes "run_edit_request ctx r request = Inl e"
    and "plain (rec_period_key r)" "rec_period_key r = [] \<or> hd (rec_period_key r) \<noteq> CHR ''.''"
    and "list_all plain_dates (or_else (ec_sibling_records ctx) [])"
  shows "edit_error e"
proof -
  note finish = finish_edit_error [OF _ _ assms(2-4)]
  have codes: "resolveReasonCode r sp iw \<in> set (RECURRING_SERVICE_PERIOD_PROVENANCE_REASON_CODES P_User_Edited)" for sp iw
    by (simp add: resolveReasonCode_def)
  show ?thesis
  proof (cases request)
    case (Boundary_Adjustment i sp iw aw)
    with assms(1) codes show ?thesis
      by (auto simp: editRecurringServicePeriodBoundaries_def Let_def result_simps validateRange_def
          validateActivityWindow_def split: option.splits prod.splits dest: finish)
  next
    case (Skip_Edit i)
    with assms(1) show ?thesis
      by (auto simp: skipOrDeferRecurringServicePeriod_def Let_def result_simps dest: finish)
  next
    case (Defer_Edit i w)
    with assms(1) show ?thesis
      by (auto simp: skipOrDeferRecurringServicePeriod_def Let_def result_simps validateDeferredInvoiceWindow_def
          split: option.splits dest: finish)
  qed
qed

lemma issue_codes_nonempty: "edit_error e \<Longrightarrow> issue_codes e \<noteq> []"
  by (erule edit_error_cases) (auto simp: constant_errors_def issue_codes_def)

text \<open>An identifier of the request itself is read as an issue when it looks like the message of one.\<close>

lemma record_id_read_as_issue:
  "case applyRecurringServicePeriodEditRequest gregorian (sample_context []) (sample_record ''b'' 1 Generated 20485 20513)
      (Skip_Edit ''Edit would create a service-period gap before x.'') of
     Edit_Failure _ _ issues \<Rightarrow> map vi_code issues = [Continuity_Gap_Before]
   | Edit_Success _ _ _ _ _ \<Rightarrow> False"
  by code_simp

text \<open>
  C21: an edit request always gets a response. It succeeds with the records the flow returns when it
  names its record and the flow throws nothing; otherwise it reports at least one issue. The codes of the
  issues are read back from the text of the message; they are those of the error, one for each gap or overlap in
  order, when the text has nothing of the caller that looks like a message: no requested or loaded record
  identifier, no period key and no time suffix of a sibling's date contains the letter E, and the period key does
  not start with a dot.
\<close>

theorem edit_request_reports:
  "(\<exists>old new. request_record_id request = rec_id r \<and> run_edit_request ctx r request = Inr (old, new)
      \<and> applyRecurringServicePeriodEditRequest td ctx r request
        = Edit_Success (request_operation request) (rec_id r) old new (rec_provenance new))
    \<or> (\<exists>e issues. (if request_record_id request \<noteq> rec_id r
          then e = Record_Mismatch (request_record_id request) (rec_id r)
          else run_edit_request ctx r request = Inl e)
      \<and> applyRecurringServicePeriodEditRequest td ctx r request
        = Edit_Failure (request_operation request) (request_record_id request) issues
      \<and> issues \<noteq> []
      \<and> (plain (request_record_id request) \<and> plain (rec_id r) \<and> plain (rec_period_key r)
          \<and> (rec_period_key r = [] \<or> hd (rec_period_key r) \<noteq> CHR ''.'')
          \<and> list_all plain_dates (or_else (ec_sibling_records ctx) [])
        \<longrightarrow> map vi_code issues = issue_codes e))"
proof -
  have some: "mapRecurringServicePeriodEditError message \<noteq> []" for message
    by (simp add: mapRecurringServicePeriodEditError_def Let_def)
  have failure: "failureResponse request (mapRecurringServicePeriodEditError (edit_error_text td e))
        = Edit_Failure (request_operation request) (request_record_id request) issues \<and> issues \<noteq> []
      \<and> (edit_error e \<longrightarrow> map vi_code issues = issue_codes e)"
    if "issues = mapRecurringServicePeriodEditError (edit_error_text td e)" for e issues
    using edit_error_codes [of e td] some by (simp add: failureResponse_def that)
  show ?thesis
  proof (cases "request_record_id request = rec_id r")
    case False
    with failure [OF refl, of "Record_Mismatch (request_record_id request) (rec_id r)"] show ?thesis
      by (simp add: applyRecurringServicePeriodEditRequest_def)
  next
    case True
    show ?thesis
    proof (cases "run_edit_request ctx r request")
      case (Inl e)
      with failure [OF refl, of e] run_edit_request_error [OF Inl] True show ?thesis
        by (simp add: applyRecurringServicePeriodEditRequest_def)
    next
      case (Inr res)
      with True show ?thesis
        by (cases res) (simp add: applyRecurringServicePeriodEditRequest_def successResponse_def)
    qed
  qed
qed

text \<open>February moved to [February 5, March 10) between January and March: a gap and an overlap.\<close>

theorem edit_request_reports_witness:
  "let january = sample_record ''a'' 1 Generated 20454 20485; february = sample_record ''b'' 1 Generated 20485 20513;
       march = sample_record ''c'' 1 Generated 20513 20544;
       request = Boundary_Adjustment ''b'' (Some (sample_range 20489 20522)) None None
   in \<exists>issues. applyRecurringServicePeriodEditRequest gregorian (sample_context [january, march]) february request
       = Edit_Failure Boundary_Adjustment_Request ''b'' issues
     \<and> map vi_code issues = [Continuity_Gap_Before, Continuity_Overlap_After]"
proof -
  let ?jan = "sample_record ''a'' 1 Generated 20454 20485" and ?feb = "sample_record ''b'' 1 Generated 20485 20513"
    and ?mar = "sample_record ''c'' 1 Generated 20513 20544"
  let ?ctx = "sample_context [?jan, ?mar]"
  let ?req = "Boundary_Adjustment ''b'' (Some (sample_range 20489 20522)) None None"
  have run: "run_edit_request ?ctx ?feb ?req = Inl (Continuity_Broken
      [Gap_Before ''period'' (date_only 20485), Overlap_After ''period'' (date_only 20513)])" by code_simp
  have id: "request_record_id ?req = rec_id ?feb" by (simp add: sample_record_def)
  have hyps: "plain (request_record_id ?req)" "plain (rec_id ?feb)" "plain (rec_period_key ?feb)"
    "rec_period_key ?feb = [] \<or> hd (rec_period_key ?feb) \<noteq> CHR ''.''"
    "list_all plain_dates (or_else (ec_sibling_records ?ctx) [])"
    by (simp_all add: sample_record_def sample_context_def plain_dates_def)
  from edit_request_reports [of ?req ?feb ?ctx gregorian] run id hyps show ?thesis
    unfolding Let_def by (auto simp: issue_codes_def)
qed
end
