(* ===== verification/Regeneration.thy ===== *)
theory Regeneration
  imports Period_Edits
begin

text \<open>
  \<open>shared/billingClients/regenerateRecurringServicePeriods.ts\<close>: the reconciliation of the active
  ledger records of a schedule with freshly generated candidates. Records somebody has edited,
  locked, skipped or billed are preserved; the others are kept, replaced or superseded.
\<close>

section \<open>Protection\<close>

definition normalizeRangeForComparison :: "date_range \<Rightarrow> date_range" where
  "normalizeRangeForComparison r =
     r\<lparr>range_start := slice_date (range_start r), range_end := slice_date (range_end r)\<rparr>"

definition normalizeActivityWindowForComparison :: "activity_window option \<Rightarrow> activity_window option" where
  "normalizeActivityWindowForComparison aw =
     map_option (\<lambda>w. w\<lparr>aw_start := map_option slice_date (aw_start w),
       aw_end := map_option slice_date (aw_end w)\<rparr>) aw"

definition buildSchedulePeriodKey :: "period_record \<Rightarrow> string" where
  "buildSchedulePeriodKey r = rec_schedule_key r @ [CHR 0x00] @ rec_period_key r"

text \<open>The \<open>Map\<close> of greatest revisions is the function to its value, 0 for an absent key.\<close>

definition buildMaxRevisionBySchedulePeriod :: "period_record list \<Rightarrow> string \<Rightarrow> int" where
  "buildMaxRevisionBySchedulePeriod records =
     foldl (\<lambda>m r. if rec_revision r > m (buildSchedulePeriodKey r)
         then m(buildSchedulePeriodKey r := rec_revision r) else m) (\<lambda>_. 0) records"

definition resolveNextRevision :: "period_record \<Rightarrow> int \<Rightarrow> (string \<Rightarrow> int) \<Rightarrow> int" where
  "resolveNextRevision r requestedRevision maxRevision =
     max requestedRevision (maxRevision (buildSchedulePeriodKey r) + 1)"

definition isPreservedRecurringServicePeriodRecord :: "period_record \<Rightarrow> bool" where
  "isPreservedRecurringServicePeriodRecord r \<longleftrightarrow>
     prov_kind (rec_provenance r) = P_User_Edited
     \<or> prov_kind (rec_provenance r) = P_Repair
     \<or> rec_lifecycle_state r = Edited
     \<or> rec_lifecycle_state r = Locked
     \<or> rec_lifecycle_state r = Skipped
     \<or> rec_lifecycle_state r = Billed
     \<or> rec_invoice_linkage r \<noteq> None"

definition protects :: "period_record \<Rightarrow> period_record \<Rightarrow> bool" where
  "protects candidate r \<longleftrightarrow>
     ob_tenant (rec_source_obligation r) = ob_tenant (rec_source_obligation candidate)
     \<and> ob_type (rec_source_obligation r) = ob_type (rec_source_obligation candidate)
     \<and> ob_id (rec_source_obligation r) = ob_id (rec_source_obligation candidate)
     \<and> (buildSchedulePeriodKey r = buildSchedulePeriodKey candidate
        \<or> slice_date (range_start (rec_service_period candidate)) < slice_date (range_end (rec_service_period r))
          \<and> slice_date (range_end (rec_service_period candidate)) > slice_date (range_start (rec_service_period r)))"

definition findRecurringServicePeriodCandidateProtection ::
    "period_record \<Rightarrow> period_record list \<Rightarrow> period_record option" where
  "findRecurringServicePeriodCandidateProtection candidate protectedRecords =
     List.find (protects candidate) protectedRecords"

section \<open>Coverage\<close>

record coverage_index =
  cx_identities :: "(iso8601 \<times> iso8601) list"
  cx_slot_keys :: "string list"
  cx_protected_records :: "period_record list"

definition period_identity :: "period_record \<Rightarrow> iso8601 \<times> iso8601" where
  "period_identity r = (slice_date (range_start (rec_service_period r)), slice_date (range_end (rec_service_period r)))"

definition index_record :: "coverage_index \<Rightarrow> period_record \<Rightarrow> coverage_index" where
  "index_record index r =
     (if rec_lifecycle_state r = Superseded \<or> rec_lifecycle_state r = Archived then index
      else index\<lparr>cx_identities := List.insert (period_identity r) (cx_identities index),
        cx_slot_keys := List.insert (buildSchedulePeriodKey r) (cx_slot_keys index),
        cx_protected_records := cx_protected_records index
          @ (if isPreservedRecurringServicePeriodRecord r then [r] else [])\<rparr>)"

definition buildRecurringServicePeriodCoverageIndex :: "period_record list \<Rightarrow> coverage_index" where
  "buildRecurringServicePeriodCoverageIndex records =
     foldl index_record \<lparr>cx_identities = [], cx_slot_keys = [], cx_protected_records = []\<rparr> records"

definition isRecurringServicePeriodCandidateCovered :: "period_record \<Rightarrow> coverage_index \<Rightarrow> bool" where
  "isRecurringServicePeriodCandidateCovered candidate index \<longleftrightarrow>
     (if period_identity candidate \<in> set (cx_identities index) then True
      else if buildSchedulePeriodKey candidate \<in> set (cx_slot_keys index) then True
      else findRecurringServicePeriodCandidateProtection candidate (cx_protected_records index) \<noteq> None)"

definition findUncoveredRecurringServicePeriodCandidates ::
    "period_record list \<Rightarrow> period_record list \<Rightarrow> iso8601 option \<Rightarrow> period_record list" where
  "findUncoveredRecurringServicePeriodCandidates candidateRecords activeRecords coverageFloorEnd =
     (let index = buildRecurringServicePeriodCoverageIndex activeRecords;
          eligible = (case coverageFloorEnd of None \<Rightarrow> candidateRecords
            | Some f \<Rightarrow> filter (\<lambda>c. slice_date (range_end (rec_service_period c)) > slice_date f) candidateRecords)
      in filter (\<lambda>c. \<not> isRecurringServicePeriodCandidateCovered c index) eligible)"

definition startsAtOrAfterCoverageEnd :: "period_record \<Rightarrow> iso8601 option \<Rightarrow> bool" where
  "startsAtOrAfterCoverageEnd r candidateCoverageEnd =
     (case candidateCoverageEnd of None \<Rightarrow> False
      | Some e \<Rightarrow> slice_date (range_start (rec_service_period r)) \<ge> slice_date e)"

section \<open>Comparison with a candidate\<close>

text \<open>
  The code compares JSON texts of objects built with the same keys in the same order: the values
  are compared field by field. The metadata is an association list, so that its order counts as it
  does in the text.
\<close>

definition areEquivalentFutureRecords :: "period_record \<Rightarrow> period_record \<Rightarrow> bool" where
  "areEquivalentFutureRecords existing candidate \<longleftrightarrow>
     rec_cadence_owner existing = rec_cadence_owner candidate
     \<and> rec_due_position existing = rec_due_position candidate
     \<and> normalizeRangeForComparison (rec_service_period existing)
       = normalizeRangeForComparison (rec_service_period candidate)
     \<and> normalizeRangeForComparison (rec_invoice_window existing)
       = normalizeRangeForComparison (rec_invoice_window candidate)
     \<and> normalizeActivityWindowForComparison (rec_activity_window existing)
       = normalizeActivityWindowForComparison (rec_activity_window candidate)
     \<and> rec_timing_metadata existing = rec_timing_metadata candidate"

datatype conflict_kind = Missing_Candidate | Service_Period_Mismatch | Invoice_Window_Mismatch
  | Activity_Window_Mismatch

record regeneration_conflict =
  cf_kind :: conflict_kind
  cf_record_id :: string
  cf_schedule_key :: string
  cf_period_key :: string
  cf_reason :: string

definition buildOverrideConflict :: "period_record \<Rightarrow> period_record option \<Rightarrow> regeneration_conflict option" where
  "buildOverrideConflict existing candidate =
     (let conflict = (\<lambda>kind reason. Some \<lparr>cf_kind = kind, cf_record_id = rec_id existing,
            cf_schedule_key = rec_schedule_key existing, cf_period_key = rec_period_key existing,
            cf_reason = reason\<rparr>)
      in case candidate of
        None \<Rightarrow> conflict Missing_Candidate
          ''No regenerated candidate remains for this preserved override slot.''
      | Some c \<Rightarrow>
          if normalizeRangeForComparison (rec_service_period existing)
            \<noteq> normalizeRangeForComparison (rec_service_period c)
          then conflict Service_Period_Mismatch
            ''The regenerated candidate no longer matches the preserved override service-period boundary.''
          else if normalizeRangeForComparison (rec_invoice_window existing)
            \<noteq> normalizeRangeForComparison (rec_invoice_window c)
          then conflict Invoice_Window_Mismatch
            ''The regenerated candidate no longer matches the preserved override invoice window.''
          else if normalizeActivityWindowForComparison (rec_activity_window existing)
            \<noteq> normalizeActivityWindowForComparison (rec_activity_window c)
          then conflict Activity_Window_Mismatch
            ''The regenerated candidate no longer matches the preserved override activity window.''
          else None)"

section \<open>The plan\<close>

record regeneration_input =
  rg_existing_records :: "period_record list"
  rg_candidate_records :: "period_record list"
  rg_candidate_coverage_end :: "iso8601 option"
  rg_regenerated_at :: iso8601
  rg_source_rule_version :: string
  rg_source_run_key :: string
  rg_reason_code :: "string option"
  rg_record_id_factory :: "record_id_factory option"

record regeneration_plan =
  pl_active :: "period_record list"
  pl_preserved :: "period_record list"
  pl_regenerated :: "period_record list"
  pl_superseded :: "period_record list"
  pl_new :: "period_record list"
  pl_conflicts :: "regeneration_conflict list"

text \<open>
  The arrays the closures of the function push to are the fields of the plan; the closures also see
  the input, the map of revisions and the protected records, which do not change.
\<close>

record regeneration_env =
  en_input :: regeneration_input
  en_max_revision :: "string \<Rightarrow> int"
  en_protected :: "period_record list"

definition protection_of :: "regeneration_env \<Rightarrow> period_record \<Rightarrow> period_record option" where
  "protection_of env candidate = findRecurringServicePeriodCandidateProtection candidate (en_protected env)"

text \<open>The conflict \<open>isProtectedCandidate\<close> pushes when it returns true.\<close>

definition push_protection :: "period_record \<Rightarrow> period_record \<Rightarrow> regeneration_plan \<Rightarrow> regeneration_plan" where
  "push_protection protection candidate plan = plan\<lparr>pl_conflicts := pl_conflicts plan @
     [\<lparr>cf_kind = Service_Period_Mismatch, cf_record_id = rec_id protection,
       cf_schedule_key = rec_schedule_key protection, cf_period_key = rec_period_key candidate,
       cf_reason = ''The candidate overlaps a protected service period or replaces its edited slot; no charge was generated. Review the preserved record before repairing this slot.''\<rparr>]\<rparr>"

definition regeneration_id :: "regeneration_env \<Rightarrow> period_record \<Rightarrow> int \<Rightarrow> string" where
  "regeneration_id env candidate revision =
     or_else (rg_record_id_factory (en_input env)) defaultRecordIdFactory
       (rec_schedule_key candidate) (rec_period_key candidate) revision"

definition buildNewRecord :: "regeneration_env \<Rightarrow> period_record \<Rightarrow> period_record" where
  "buildNewRecord env candidate =
     (let revision = resolveNextRevision candidate (rec_revision candidate) (en_max_revision env)
      in if revision = rec_revision candidate then candidate
         else candidate\<lparr>rec_id := regeneration_id env candidate revision, rec_revision := revision\<rparr>)"

definition appendNewCandidate ::
    "regeneration_env \<Rightarrow> period_record \<Rightarrow> regeneration_plan \<Rightarrow> regeneration_plan" where
  "appendNewCandidate env candidate plan =
     (case protection_of env candidate of
        Some protection \<Rightarrow> push_protection protection candidate plan
      | None \<Rightarrow> let r = buildNewRecord env candidate
          in plan\<lparr>pl_new := pl_new plan @ [r], pl_active := pl_active plan @ [r]\<rparr>)"

text \<open>The \<open>while\<close> loop: candidates that start before the existing record and are not its slot.\<close>

fun emit_before ::
    "regeneration_env \<Rightarrow> period_record \<Rightarrow> period_record list \<Rightarrow> regeneration_plan
       \<Rightarrow> period_record list \<times> regeneration_plan" where
  "emit_before env existing [] plan = ([], plan)"
| "emit_before env existing (c # cs) plan =
     (if slice_date (range_start (rec_service_period c)) < slice_date (range_start (rec_service_period existing))
        \<and> rec_period_key c \<noteq> rec_period_key existing
      then emit_before env existing cs (appendNewCandidate env c plan)
      else (c # cs, plan))"

definition supersede :: "regeneration_env \<Rightarrow> period_record \<Rightarrow> period_record" where
  "supersede env r = r\<lparr>rec_lifecycle_state := Superseded, rec_updated_at := rg_regenerated_at (en_input env)\<rparr>"

definition regenerated_record :: "regeneration_env \<Rightarrow> period_record \<Rightarrow> period_record \<Rightarrow> period_record" where
  "regenerated_record env existing candidate =
     (let revision = resolveNextRevision candidate (rec_revision existing + 1) (en_max_revision env)
      in candidate\<lparr>rec_id := regeneration_id env candidate revision,
           rec_revision := revision,
           rec_lifecycle_state := Generated,
           rec_provenance := \<lparr>prov_kind = P_Regenerated,
             prov_source_rule_version = rg_source_rule_version (en_input env),
             prov_reason_code = or_else (rg_reason_code (en_input env)) ''source_rule_changed'',
             prov_source_run_key = Some (rg_source_run_key (en_input env)),
             prov_supersedes_record_id = Some (rec_id existing)\<rparr>,
           rec_created_at := rg_regenerated_at (en_input env),
           rec_updated_at := rg_regenerated_at (en_input env)\<rparr>)"

text \<open>The body of the loop over the existing records, after the \<open>while\<close> loop.\<close>

definition reconcile_record ::
    "regeneration_env \<Rightarrow> period_record \<Rightarrow> period_record list \<Rightarrow> regeneration_plan
       \<Rightarrow> period_record list \<times> regeneration_plan" where
  "reconcile_record env existing cands plan =
     (if isPreservedRecurringServicePeriodRecord existing
      then let ownedCandidate = (case cands of [] \<Rightarrow> None
             | c # _ \<Rightarrow> if findRecurringServicePeriodCandidateProtection c [existing] \<noteq> None
                 then Some c else None);
             conflict = buildOverrideConflict existing ownedCandidate;
             plan = (case conflict of None \<Rightarrow> plan
               | Some cf \<Rightarrow> plan\<lparr>pl_conflicts := pl_conflicts plan @ [cf]\<rparr>);
             plan = plan\<lparr>pl_preserved := pl_preserved plan @ [existing],
               pl_active := pl_active plan @ [existing]\<rparr>
           in (if ownedCandidate \<noteq> None then tl cands else cands, plan)
      else case cands of
        [] \<Rightarrow> if startsAtOrAfterCoverageEnd existing (rg_candidate_coverage_end (en_input env))
          then ([], plan\<lparr>pl_preserved := pl_preserved plan @ [existing],
            pl_active := pl_active plan @ [existing]\<rparr>)
          else ([], plan\<lparr>pl_superseded := pl_superseded plan @ [supersede env existing]\<rparr>)
      | c # cs \<Rightarrow>
          (case protection_of env c of
            Some protection \<Rightarrow> (cs, (push_protection protection c plan)
              \<lparr>pl_superseded := pl_superseded plan @ [supersede env existing]\<rparr>)
          | None \<Rightarrow>
              if areEquivalentFutureRecords existing c
              then (cs, plan\<lparr>pl_active := pl_active plan @ [existing]\<rparr>)
              else let r = regenerated_record env existing c
                in (cs, plan\<lparr>pl_regenerated := pl_regenerated plan @ [r],
                     pl_superseded := pl_superseded plan @ [supersede env existing],
                     pl_active := pl_active plan @ [r]\<rparr>)))"

fun reconcile_records ::
    "regeneration_env \<Rightarrow> period_record list \<Rightarrow> period_record list \<Rightarrow> regeneration_plan
       \<Rightarrow> period_record list \<times> regeneration_plan" where
  "reconcile_records env [] cands plan = (cands, plan)"
| "reconcile_records env (existing # rest) cands plan =
     (case emit_before env existing cands plan of (cands, plan) \<Rightarrow>
       (case reconcile_record env existing cands plan of (cands, plan) \<Rightarrow>
         reconcile_records env rest cands plan))"

definition regenerateRecurringServicePeriods :: "regeneration_input \<Rightarrow> regeneration_plan" where
  "regenerateRecurringServicePeriods inp =
     (let maxRevision = buildMaxRevisionBySchedulePeriod (rg_existing_records inp);
          existingRecords = sortRecords (filter (\<lambda>r. rec_lifecycle_state r \<noteq> Archived
            \<and> rec_lifecycle_state r \<noteq> Superseded) (rg_existing_records inp));
          candidateRecords = sortRecords (rg_candidate_records inp);
          protectedRecords = filter isPreservedRecurringServicePeriodRecord existingRecords;
          env = \<lparr>en_input = inp, en_max_revision = maxRevision, en_protected = protectedRecords\<rparr>;
          empty = \<lparr>pl_active = [], pl_preserved = [], pl_regenerated = [], pl_superseded = [],
            pl_new = [], pl_conflicts = []\<rparr>
      in case reconcile_records env existingRecords candidateRecords empty of (rest, plan) \<Rightarrow>
        foldl (\<lambda>plan c. appendNewCandidate env c plan) plan rest)"

section \<open>What a plan accounts for\<close>

text \<open>A record created for a candidate no preserved record protects.\<close>

definition created :: "regeneration_env \<Rightarrow> period_record \<Rightarrow> period_record \<Rightarrow> bool" where
  "created env c n \<longleftrightarrow> protection_of env c = None
     \<and> rec_service_period n = rec_service_period c \<and> rec_source_obligation n = rec_source_obligation c
     \<and> rec_schedule_key n = rec_schedule_key c \<and> rec_period_key n = rec_period_key c
     \<and> rec_cadence_owner n = rec_cadence_owner c \<and> rec_invoice_window n = rec_invoice_window c
     \<and> rec_activity_window n = rec_activity_window c \<and> rec_invoice_linkage n = rec_invoice_linkage c
     \<and> en_max_revision env (buildSchedulePeriodKey c) < rec_revision n
     \<and> rec_lifecycle_state n \<in> {rec_lifecycle_state c, Generated}"

text \<open>
  The invariant of the reconciliation: the records done are split into kept and replaced ones, the
  active records are the kept ones and the created ones, the superseded ones are the replaced ones
  with their new state, no replaced record was preserved, and every candidate consumed is protected
  or has an active record of the same dates.
\<close>

definition accounts :: "regeneration_env \<Rightarrow> period_record multiset \<Rightarrow> period_record set \<Rightarrow> regeneration_plan \<Rightarrow> bool" where
  "accounts env D C plan \<longleftrightarrow>
     (\<exists>kept replaced. D = mset kept + mset replaced
        \<and> mset (pl_active plan) = mset kept + mset (pl_regenerated plan) + mset (pl_new plan)
        \<and> pl_superseded plan = map (supersede env) replaced
        \<and> list_all (\<lambda>r. \<not> isPreservedRecurringServicePeriodRecord r) replaced)
   \<and> (\<forall>n \<in> set (pl_regenerated plan) \<union> set (pl_new plan). \<exists>c \<in> C. created env c n)
   \<and> (\<forall>c \<in> C. protection_of env c \<noteq> None \<or> (\<exists>a \<in> set (pl_active plan). period_identity a = period_identity c))"

lemma accountsI:
  assumes "D = mset kept + mset replaced"
    and "mset (pl_active plan) = mset kept + mset (pl_regenerated plan) + mset (pl_new plan)"
    and "pl_superseded plan = map (supersede env) replaced"
    and "list_all (\<lambda>r. \<not> isPreservedRecurringServicePeriodRecord r) replaced"
    and "\<And>n. n \<in> set (pl_regenerated plan) \<union> set (pl_new plan) \<Longrightarrow> \<exists>c \<in> C. created env c n"
    and "\<And>c. c \<in> C \<Longrightarrow> protection_of env c \<noteq> None \<or> (\<exists>a \<in> set (pl_active plan). period_identity a = period_identity c)"
  shows "accounts env D C plan"
  using assms unfolding accounts_def by blast

lemma accountsE:
  assumes "accounts env D C plan"
  obtains kept replaced where "D = mset kept + mset replaced"
    and "mset (pl_active plan) = mset kept + mset (pl_regenerated plan) + mset (pl_new plan)"
    and "pl_superseded plan = map (supersede env) replaced"
    and "list_all (\<lambda>r. \<not> isPreservedRecurringServicePeriodRecord r) replaced"
    and "\<And>n. n \<in> set (pl_regenerated plan) \<union> set (pl_new plan) \<Longrightarrow> \<exists>c \<in> C. created env c n"
    and "\<And>c. c \<in> C \<Longrightarrow> protection_of env c \<noteq> None \<or> (\<exists>a \<in> set (pl_active plan). period_identity a = period_identity c)"
  using assms unfolding accounts_def by blast

text \<open>The changes of a plan, one lemma each.\<close>

lemma accounts_conflict [simp]:
  "accounts env D C (plan\<lparr>pl_conflicts := cfs\<rparr>) = accounts env D C plan"
  "accounts env D C (plan\<lparr>pl_preserved := ps\<rparr>) = accounts env D C plan"
  by (simp_all add: accounts_def)

lemma accounts_protected:
  assumes "accounts env D C plan" "protection_of env c \<noteq> None"
  shows "accounts env D (insert c C) plan"
  using assms(1) by (rule accountsE) (rule accountsI, use assms(2) in auto)

lemma accounts_keep:
  assumes "accounts env D C plan"
  shows "accounts env (add_mset e D) C (plan\<lparr>pl_active := pl_active plan @ [e]\<rparr>)"
  using assms
proof (rule accountsE)
  fix kept replaced
  assume acc: "D = mset kept + mset replaced"
    "mset (pl_active plan) = mset kept + mset (pl_regenerated plan) + mset (pl_new plan)"
    "pl_superseded plan = map (supersede env) replaced"
    "list_all (\<lambda>r. \<not> isPreservedRecurringServicePeriodRecord r) replaced"
    "\<And>n. n \<in> set (pl_regenerated plan) \<union> set (pl_new plan) \<Longrightarrow> \<exists>c \<in> C. created env c n"
    "\<And>c. c \<in> C \<Longrightarrow> protection_of env c \<noteq> None \<or> (\<exists>a \<in> set (pl_active plan). period_identity a = period_identity c)"
  show ?thesis by (rule accountsI [of _ "e # kept" replaced]) (use acc in auto)
qed

lemma accounts_kept_candidate:
  assumes "accounts env D C plan" "period_identity e = period_identity c"
  shows "accounts env (add_mset e D) (insert c C) (plan\<lparr>pl_active := pl_active plan @ [e]\<rparr>)"
  using accounts_keep [OF assms(1), of e] assms(2) unfolding accounts_def by auto

lemma accounts_supersede:
  assumes "accounts env D C plan" "\<not> isPreservedRecurringServicePeriodRecord e"
  shows "accounts env (add_mset e D) C (plan\<lparr>pl_superseded := pl_superseded plan @ [supersede env e]\<rparr>)"
  using assms(1)
proof (rule accountsE)
  fix kept replaced
  assume acc: "D = mset kept + mset replaced"
    "mset (pl_active plan) = mset kept + mset (pl_regenerated plan) + mset (pl_new plan)"
    "pl_superseded plan = map (supersede env) replaced"
    "list_all (\<lambda>r. \<not> isPreservedRecurringServicePeriodRecord r) replaced"
    "\<And>n. n \<in> set (pl_regenerated plan) \<union> set (pl_new plan) \<Longrightarrow> \<exists>c \<in> C. created env c n"
    "\<And>c. c \<in> C \<Longrightarrow> protection_of env c \<noteq> None \<or> (\<exists>a \<in> set (pl_active plan). period_identity a = period_identity c)"
  show ?thesis by (rule accountsI [of _ kept "replaced @ [e]"]) (use acc assms(2) in auto)
qed

lemma created_identity: "created env c n \<Longrightarrow> period_identity n = period_identity c"
  by (simp add: created_def period_identity_def)

lemma accounts_new:
  assumes "accounts env D C plan" "created env c n"
  shows "accounts env D (insert c C) (plan\<lparr>pl_new := pl_new plan @ [n], pl_active := pl_active plan @ [n]\<rparr>)"
  using assms created_identity [OF assms(2)] unfolding accounts_def by (auto simp: add.assoc)

lemma accounts_regenerated:
  assumes "accounts env D C plan" "created env c n"
  shows "accounts env D (insert c C)
    (plan\<lparr>pl_regenerated := pl_regenerated plan @ [n], pl_active := pl_active plan @ [n]\<rparr>)"
  using assms created_identity [OF assms(2)] unfolding accounts_def by (auto simp: add.assoc)

lemma created_new:
  "protection_of env c = None \<Longrightarrow> created env c (buildNewRecord env c)"
  by (auto simp: created_def buildNewRecord_def resolveNextRevision_def Let_def)

lemma created_regenerated:
  "protection_of env c = None \<Longrightarrow> created env c (regenerated_record env e c)"
  by (auto simp: created_def regenerated_record_def resolveNextRevision_def Let_def)

lemma accounts_append:
  "accounts env D C plan \<Longrightarrow> accounts env D (insert c C) (appendNewCandidate env c plan)"
  by (auto simp: appendNewCandidate_def push_protection_def Let_def created_new
      intro!: accounts_protected accounts_new split: option.splits)

lemma accounts_emit_before:
  assumes "emit_before env e cands plan = (cands', plan')" "accounts env D C plan"
  shows "\<exists>used. cands = used @ cands' \<and> accounts env D (C \<union> set used) plan'"
  using assms
proof (induction env e cands plan arbitrary: C rule: emit_before.induct)
  case (2 env e c cs plan)
  show ?case
  proof (cases "slice_date (range_start (rec_service_period c)) < slice_date (range_start (rec_service_period e))
      \<and> rec_period_key c \<noteq> rec_period_key e")
    case True
    with 2 accounts_append [OF 2(3), of c] obtain used where "cs = used @ cands'"
      "accounts env D (insert c C \<union> set used) plan'" by (auto simp del: Un_insert_left)
    then show ?thesis by (intro exI [of _ "c # used"]) simp
  next
    case False
    then show ?thesis using 2 by (intro exI [of _ "[]"]) auto
  qed
qed simp

lemma equivalent_identity: "areEquivalentFutureRecords e c \<Longrightarrow> period_identity e = period_identity c"
proof -
  assume "areEquivalentFutureRecords e c"
  then have eq: "normalizeRangeForComparison (rec_service_period e) = normalizeRangeForComparison (rec_service_period c)"
    by (simp add: areEquivalentFutureRecords_def)
  from arg_cong [OF eq, of range_start] arg_cong [OF eq, of range_end] show ?thesis
    by (simp add: normalizeRangeForComparison_def period_identity_def)
qed

lemma owned_protected:
  "findRecurringServicePeriodCandidateProtection c [e] \<noteq> None \<Longrightarrow> e \<in> set (en_protected env)
     \<Longrightarrow> protection_of env c \<noteq> None"
  by (auto simp: findRecurringServicePeriodCandidateProtection_def protection_of_def find_None_iff split: if_splits)

lemma reconcile_preserved:
  assumes "isPreservedRecurringServicePeriodRecord e"
    and "reconcile_record env e cands plan = (cands', plan')"
  obtains cfs where "plan' = plan\<lparr>pl_conflicts := cfs, pl_preserved := pl_preserved plan @ [e],
      pl_active := pl_active plan @ [e]\<rparr>"
    and "cands' = cands \<or> (\<exists>c. cands = c # cands' \<and> findRecurringServicePeriodCandidateProtection c [e] \<noteq> None)"
proof -
  let ?owned = "case cands of [] \<Rightarrow> None
      | c # _ \<Rightarrow> if findRecurringServicePeriodCandidateProtection c [e] \<noteq> None then Some c else None"
  obtain cfs where cfs: "(case buildOverrideConflict e ?owned of None \<Rightarrow> plan
      | Some cf \<Rightarrow> plan\<lparr>pl_conflicts := pl_conflicts plan @ [cf]\<rparr>) = plan\<lparr>pl_conflicts := cfs\<rparr>"
    by (cases "buildOverrideConflict e ?owned") (auto intro: that [of "pl_conflicts plan"])
  have "plan' = plan\<lparr>pl_conflicts := cfs, pl_preserved := pl_preserved plan @ [e], pl_active := pl_active plan @ [e]\<rparr>"
    using assms(2) unfolding reconcile_record_def Let_def cfs by (simp add: assms(1))
  moreover have "cands' = (if ?owned \<noteq> None then tl cands else cands)"
    using assms(2) unfolding reconcile_record_def Let_def by (simp add: assms(1))
  then have "cands' = cands \<or> (\<exists>c. cands = c # cands' \<and> findRecurringServicePeriodCandidateProtection c [e] \<noteq> None)"
    by (cases cands) (simp_all split: if_splits)
  ultimately show ?thesis by (rule that)
qed

lemma accounts_reconcile_record:
  assumes "reconcile_record env e cands plan = (cands', plan')" "accounts env D C plan"
    and "isPreservedRecurringServicePeriodRecord e \<Longrightarrow> e \<in> set (en_protected env)"
  shows "\<exists>used. cands = used @ cands' \<and> accounts env (add_mset e D) (C \<union> set used) plan'"
proof (cases "isPreservedRecurringServicePeriodRecord e")
  case True
  then obtain cfs where plan': "plan' = plan\<lparr>pl_conflicts := cfs, pl_preserved := pl_preserved plan @ [e],
      pl_active := pl_active plan @ [e]\<rparr>"
    and cands': "cands' = cands \<or> (\<exists>c. cands = c # cands' \<and> findRecurringServicePeriodCandidateProtection c [e] \<noteq> None)"
    using assms(1) by (rule reconcile_preserved)
  have "accounts env D C (plan\<lparr>pl_conflicts := cfs, pl_preserved := pl_preserved plan @ [e]\<rparr>)"
    using assms(2) by simp
  from accounts_keep [OF this, of e] have keep: "accounts env (add_mset e D) C plan'" by (simp add: plan')
  from cands' show ?thesis
  proof (elim disjE exE conjE)
    fix c
    assume "cands = c # cands'" "findRecurringServicePeriodCandidateProtection c [e] \<noteq> None"
    then show ?thesis using accounts_protected [OF keep owned_protected] assms(3) [OF True]
      by (intro exI [of _ "[c]"]) simp
  qed (use keep in \<open>auto intro: exI [of _ "[]"]\<close>)
next
  case False
  show ?thesis
  proof (cases cands)
    case Nil
    have "accounts env (add_mset e D) C plan' \<and> cands' = []"
      using assms(1) accounts_keep [of env D C "plan\<lparr>pl_preserved := pl_preserved plan @ [e]\<rparr>" e]
        accounts_supersede [OF assms(2) False] assms(2)
      by (simp add: reconcile_record_def False Nil split: if_splits)
    then show ?thesis using Nil by simp
  next
    case (Cons c cs)
    have "accounts env (add_mset e D) (insert c C) plan' \<and> cands' = cs"
    proof (cases "protection_of env c")
      case None
      show ?thesis
      proof (cases "areEquivalentFutureRecords e c")
        case True
        then show ?thesis
          using assms(1) accounts_kept_candidate [OF assms(2) equivalent_identity [OF True]]
          by (simp add: reconcile_record_def False Cons None)
      next
        case neq: False
        from accounts_regenerated [OF accounts_supersede [OF assms(2) False] created_regenerated [OF None], of e]
        show ?thesis using assms(1)
          by (cases plan) (simp add: reconcile_record_def False Cons None neq Let_def)
      qed
    next
      case (Some p)
      have "accounts env D C (push_protection p c plan)" using assms(2) by (simp add: push_protection_def)
      from accounts_protected [OF accounts_supersede [OF this False]] Some
      have "accounts env (add_mset e D) (insert c C) (push_protection p c plan
          \<lparr>pl_superseded := pl_superseded (push_protection p c plan) @ [supersede env e]\<rparr>)" by simp
      then show ?thesis
        using assms(1) by (auto simp: reconcile_record_def False Cons Some push_protection_def)
    qed
    then show ?thesis using Cons by (intro exI [of _ "[c]"]) simp
  qed
qed

lemma accounts_reconcile_records:
  assumes "reconcile_records env existing cands plan = (cands', plan')" "accounts env D C plan"
    and "\<And>e. e \<in> set existing \<Longrightarrow> isPreservedRecurringServicePeriodRecord e \<Longrightarrow> e \<in> set (en_protected env)"
  shows "\<exists>used. cands = used @ cands' \<and> accounts env (D + mset existing) (C \<union> set used) plan'"
  using assms
proof (induction existing arbitrary: cands plan D C)
  case (Cons e rest)
  obtain cands1 plan1 where 1: "emit_before env e cands plan = (cands1, plan1)" by fastforce
  obtain cands2 plan2 where 2: "reconcile_record env e cands1 plan1 = (cands2, plan2)" by fastforce
  from accounts_emit_before [OF 1 Cons.prems(2)] obtain used1 where used1: "cands = used1 @ cands1"
    "accounts env D (C \<union> set used1) plan1" by blast
  from accounts_reconcile_record [OF 2 used1(2)] Cons.prems(3) obtain used2 where used2: "cands1 = used2 @ cands2"
    "accounts env (add_mset e D) (C \<union> set used1 \<union> set used2) plan2" by auto
  have "reconcile_records env rest cands2 plan2 = (cands', plan')" using Cons.prems(1) 1 2 by simp
  from Cons.IH [OF this used2(2)] Cons.prems(3) obtain used3 where "cands2 = used3 @ cands'"
    "accounts env (add_mset e D + mset rest) (C \<union> set used1 \<union> set used2 \<union> set used3) plan'" by auto
  then show ?case using used1(1) used2(1)
    by (intro exI [of _ "used1 @ used2 @ used3"]) (simp add: Un_assoc)
qed simp

lemma accounts_append_all:
  "accounts env D C plan \<Longrightarrow>
     accounts env D (C \<union> set cands) (foldl (\<lambda>plan c. appendNewCandidate env c plan) plan cands)"
proof (induction cands arbitrary: plan C)
  case (Cons c cands)
  from Cons.IH [OF accounts_append [OF Cons.prems, of c]] show ?case by simp
qed simp

section \<open>The plan of a regeneration\<close>

definition active_existing :: "regeneration_input \<Rightarrow> period_record list" where
  "active_existing inp = filter (\<lambda>r. rec_lifecycle_state r \<noteq> Archived \<and> rec_lifecycle_state r \<noteq> Superseded)
     (rg_existing_records inp)"

definition regeneration_env_of :: "regeneration_input \<Rightarrow> regeneration_env" where
  "regeneration_env_of inp = \<lparr>en_input = inp,
     en_max_revision = buildMaxRevisionBySchedulePeriod (rg_existing_records inp),
     en_protected = filter isPreservedRecurringServicePeriodRecord (sortRecords (active_existing inp))\<rparr>"

lemma regenerate_accounts:
  "accounts (regeneration_env_of inp) (mset (active_existing inp)) (set (rg_candidate_records inp))
     (regenerateRecurringServicePeriods inp)"
proof -
  let ?env = "regeneration_env_of inp"
  let ?empty = "\<lparr>pl_active = [], pl_preserved = [], pl_regenerated = [], pl_superseded = [],
            pl_new = [], pl_conflicts = []\<rparr>"
  obtain rest plan where rec: "reconcile_records ?env (sortRecords (active_existing inp))
      (sortRecords (rg_candidate_records inp)) ?empty = (rest, plan)" by fastforce
  have "accounts ?env {#} {} ?empty" by (rule accountsI [of _ "[]" "[]"]) simp_all
  from accounts_reconcile_records [OF rec this] obtain used where
    used: "sortRecords (rg_candidate_records inp) = used @ rest"
    and acc: "accounts ?env (mset (active_existing inp)) (set used) plan"
    by (auto simp: regeneration_env_of_def sortRecords_def)
  have "set used \<union> set rest = set (rg_candidate_records inp)"
    using used by (metis set_append set_sortRecords)
  moreover have "regenerateRecurringServicePeriods inp
      = foldl (\<lambda>plan c. appendNewCandidate ?env c plan) plan rest"
    using rec by (simp add: regenerateRecurringServicePeriods_def regeneration_env_of_def
        active_existing_def Let_def)
  ultimately show ?thesis using accounts_append_all [OF acc, of rest] by simp
qed

lemma max_revision_mono: "m k \<le> foldl (\<lambda>m r. if rec_revision r > m (buildSchedulePeriodKey r)
    then m(buildSchedulePeriodKey r := rec_revision r) else m) m rs k"
proof (induction rs arbitrary: m)
  case (Cons r rs)
  show ?case using Cons [of "if rec_revision r > m (buildSchedulePeriodKey r)
      then m(buildSchedulePeriodKey r := rec_revision r) else m"]
    by (auto split: if_splits intro: order_trans [rotated])
qed simp

lemma max_revision_ge:
  "e \<in> set rs \<Longrightarrow> rec_revision e \<le> buildMaxRevisionBySchedulePeriod rs (buildSchedulePeriodKey e)"
  unfolding buildMaxRevisionBySchedulePeriod_def
proof (induction rs rule: rev_induct)
  case (snoc r rs)
  then show ?case by auto
qed simp

lemma protection_None_iff:
  "protection_of (regeneration_env_of inp) c = None \<longleftrightarrow>
     (\<forall>p \<in> set (active_existing inp). isPreservedRecurringServicePeriodRecord p \<longrightarrow> \<not> protects c p)"
  by (auto simp: protection_of_def regeneration_env_of_def findRecurringServicePeriodCandidateProtection_def
      find_None_iff)

definition same_obligation :: "period_record \<Rightarrow> period_record \<Rightarrow> bool" where
  "same_obligation p q \<longleftrightarrow> ob_tenant (rec_source_obligation p) = ob_tenant (rec_source_obligation q)
     \<and> ob_type (rec_source_obligation p) = ob_type (rec_source_obligation q)
     \<and> ob_id (rec_source_obligation p) = ob_id (rec_source_obligation q)"

lemma protects_iff:
  "protects c p \<longleftrightarrow> same_obligation p c \<and> (buildSchedulePeriodKey p = buildSchedulePeriodKey c
     \<or> start_day c < end_day p \<and> start_day p < end_day c)"
  by (auto simp: protects_def same_obligation_def)

lemma not_protects_disjoint:
  "\<not> protects c p \<Longrightarrow> same_obligation p c \<Longrightarrow>
     buildSchedulePeriodKey p \<noteq> buildSchedulePeriodKey c
     \<and> range_days (rec_service_period p) \<inter> range_days (rec_service_period c) = {}"
  by (auto simp: protects_iff range_days_def)

text \<open>
  C17: regeneration loses no active record: each is either still active, unchanged, or superseded, and
  then with nothing changed but its state and time stamp; the active records are those and the created
  ones. A record that was edited, locked, skipped, billed or linked to an invoice is never replaced.
\<close>

theorem regeneration_preserves_overrides:
  "\<exists>kept replaced. mset (active_existing inp) = mset kept + mset replaced
    \<and> mset (pl_active (regenerateRecurringServicePeriods inp)) = mset kept
      + mset (pl_regenerated (regenerateRecurringServicePeriods inp))
      + mset (pl_new (regenerateRecurringServicePeriods inp))
    \<and> pl_superseded (regenerateRecurringServicePeriods inp)
      = map (\<lambda>r. r\<lparr>rec_lifecycle_state := Superseded, rec_updated_at := rg_regenerated_at inp\<rparr>) replaced
    \<and> filter isPreservedRecurringServicePeriodRecord replaced = []"
  using regenerate_accounts [of inp]
proof (rule accountsE)
  fix kept replaced
  assume acc: "mset (active_existing inp) = mset kept + mset replaced"
    "mset (pl_active (regenerateRecurringServicePeriods inp)) = mset kept
      + mset (pl_regenerated (regenerateRecurringServicePeriods inp)) + mset (pl_new (regenerateRecurringServicePeriods inp))"
    "pl_superseded (regenerateRecurringServicePeriods inp) = map (supersede (regeneration_env_of inp)) replaced"
    "list_all (\<lambda>r. \<not> isPreservedRecurringServicePeriodRecord r) replaced"
  have "supersede (regeneration_env_of inp)
      = (\<lambda>r. r\<lparr>rec_lifecycle_state := Superseded, rec_updated_at := rg_regenerated_at inp\<rparr>)"
    by (simp add: supersede_def regeneration_env_of_def fun_eq_iff)
  moreover have "filter isPreservedRecurringServicePeriodRecord replaced = []"
    using acc(4) by (simp add: filter_empty_conv list_all_iff)
  ultimately show ?thesis using acc(1-3) by metis
qed

text \<open>
  A record that regeneration creates has no day in common with a preserved record of the same
  obligation and does not take its slot, and its revision is greater than that of every record of its
  slot, superseded and archived ones included.
\<close>

theorem regeneration_respects_overrides:
  assumes "n \<in> set (pl_new (regenerateRecurringServicePeriods inp))
      \<union> set (pl_regenerated (regenerateRecurringServicePeriods inp))"
  shows "(\<forall>p \<in> set (active_existing inp). isPreservedRecurringServicePeriodRecord p \<and> same_obligation p n
        \<longrightarrow> range_days (rec_service_period p) \<inter> range_days (rec_service_period n) = {}
          \<and> buildSchedulePeriodKey p \<noteq> buildSchedulePeriodKey n)
    \<and> (\<forall>e \<in> set (rg_existing_records inp). buildSchedulePeriodKey e = buildSchedulePeriodKey n
        \<longrightarrow> rec_revision e < rec_revision n)"
proof -
  from assms regenerate_accounts [of inp] obtain c where c: "created (regeneration_env_of inp) c n"
    unfolding accounts_def by blast
  then have free: "protection_of (regeneration_env_of inp) c = None"
    and same: "rec_service_period n = rec_service_period c" "buildSchedulePeriodKey n = buildSchedulePeriodKey c"
      "\<And>p. same_obligation p n \<longleftrightarrow> same_obligation p c"
    and revision: "buildMaxRevisionBySchedulePeriod (rg_existing_records inp) (buildSchedulePeriodKey n) < rec_revision n"
    by (simp_all add: created_def buildSchedulePeriodKey_def same_obligation_def regeneration_env_of_def)
  show ?thesis
  proof (intro conjI ballI impI)
    fix p
    assume "p \<in> set (active_existing inp)" "isPreservedRecurringServicePeriodRecord p \<and> same_obligation p n"
    with free same(3) not_protects_disjoint [of c p]
    show "range_days (rec_service_period p) \<inter> range_days (rec_service_period n) = {}"
      "buildSchedulePeriodKey p \<noteq> buildSchedulePeriodKey n"
      by (auto simp: protection_None_iff same)
  next
    fix e
    assume "e \<in> set (rg_existing_records inp)" "buildSchedulePeriodKey e = buildSchedulePeriodKey n"
    then show "rec_revision e < rec_revision n" using max_revision_ge revision by fastforce
  qed
qed

section \<open>Coverage after a regeneration\<close>

abbreviation live :: "period_record \<Rightarrow> bool" where
  "live r \<equiv> rec_lifecycle_state r \<noteq> Superseded \<and> rec_lifecycle_state r \<noteq> Archived"

lemma index_record_spec:
  "set (cx_identities (index_record index r)) = set (cx_identities index) \<union> (if live r then {period_identity r} else {})"
  "set (cx_slot_keys (index_record index r)) = set (cx_slot_keys index) \<union> (if live r then {buildSchedulePeriodKey r} else {})"
  "set (cx_protected_records (index_record index r))
    = set (cx_protected_records index) \<union> (if live r \<and> isPreservedRecurringServicePeriodRecord r then {r} else {})"
  by (simp_all add: index_record_def)

lemma index_spec:
  "k \<in> set (cx_identities (foldl index_record index rs))
     \<longleftrightarrow> k \<in> set (cx_identities index) \<or> (\<exists>r \<in> set rs. live r \<and> period_identity r = k)"
  "s \<in> set (cx_slot_keys (foldl index_record index rs))
     \<longleftrightarrow> s \<in> set (cx_slot_keys index) \<or> (\<exists>r \<in> set rs. live r \<and> buildSchedulePeriodKey r = s)"
  "p \<in> set (cx_protected_records (foldl index_record index rs))
     \<longleftrightarrow> p \<in> set (cx_protected_records index) \<or> p \<in> set rs \<and> live p \<and> isPreservedRecurringServicePeriodRecord p"
  by (induction rs arbitrary: index) (auto simp: index_record_spec split: if_splits)

lemma covered_iff:
  "isRecurringServicePeriodCandidateCovered c (buildRecurringServicePeriodCoverageIndex rs) \<longleftrightarrow>
     (\<exists>r \<in> set rs. live r \<and> (period_identity r = period_identity c
       \<or> buildSchedulePeriodKey r = buildSchedulePeriodKey c
       \<or> isPreservedRecurringServicePeriodRecord r \<and> protects c r))"
  by (auto simp: isRecurringServicePeriodCandidateCovered_def buildRecurringServicePeriodCoverageIndex_def
      findRecurringServicePeriodCandidateProtection_def find_None_iff index_spec)

text \<open>
  C18: after a regeneration no candidate is uncovered: each is held by an active record of its dates
  or its slot, or protected by a preserved record, whatever floor is applied.
\<close>

theorem regeneration_covers_candidates:
  assumes "list_all live (rg_candidate_records inp)"
  shows "findUncoveredRecurringServicePeriodCandidates (rg_candidate_records inp)
    (pl_active (regenerateRecurringServicePeriods inp)) f = []"
proof -
  let ?env = "regeneration_env_of inp" and ?plan = "regenerateRecurringServicePeriods inp"
  have "isRecurringServicePeriodCandidateCovered c (buildRecurringServicePeriodCoverageIndex (pl_active ?plan))"
    if c: "c \<in> set (rg_candidate_records inp)" for c
  proof -
    note acc = regenerate_accounts [of inp, unfolded accounts_def]
    from acc [THEN conjunct1] obtain kept replaced where
      D: "mset (active_existing inp) = mset kept + mset replaced"
      and active: "mset (pl_active ?plan) = mset kept + mset (pl_regenerated ?plan) + mset (pl_new ?plan)"
      and replaced: "list_all (\<lambda>r. \<not> isPreservedRecurringServicePeriodRecord r) replaced"
      by (elim exE conjE) (rule that)
    have new: "\<exists>c \<in> set (rg_candidate_records inp). created ?env c n"
      if "n \<in> set (pl_regenerated ?plan) \<union> set (pl_new ?plan)" for n
      using acc [THEN conjunct2, THEN conjunct1] that by blast
    have cand: "protection_of ?env c \<noteq> None \<or> (\<exists>a \<in> set (pl_active ?plan). period_identity a = period_identity c)"
      using acc [THEN conjunct2, THEN conjunct2] c by blast
    have kept: "set kept \<union> set replaced = set (active_existing inp)"
      using arg_cong [OF D, of set_mset] by simp
    have set_active: "set (pl_active ?plan) = set kept \<union> set (pl_regenerated ?plan) \<union> set (pl_new ?plan)"
      using arg_cong [OF active, of set_mset] by simp
    have live_active: "live a" if "a \<in> set (pl_active ?plan)" for a
    proof (cases "a \<in> set kept")
      case True
      then show ?thesis using kept by (auto simp: active_existing_def)
    next
      case False
      with that set_active new [of a] obtain c where "c \<in> set (rg_candidate_records inp)" "created ?env c a" by blast
      then show ?thesis using assms by (auto simp: created_def list_all_iff)
    qed
    from cand show ?thesis
    proof
      assume "protection_of ?env c \<noteq> None"
      then obtain p where p: "p \<in> set (active_existing inp)" "isPreservedRecurringServicePeriodRecord p" "protects c p"
        unfolding protection_None_iff by blast
      then have "p \<in> set (pl_active ?plan)" using kept replaced set_active by (auto simp: list_all_iff)
      with p live_active show ?thesis unfolding covered_iff by blast
    next
      assume "\<exists>a \<in> set (pl_active ?plan). period_identity a = period_identity c"
      with live_active show ?thesis unfolding covered_iff by blast
    qed
  qed
  then show ?thesis
    by (auto simp: findUncoveredRecurringServicePeriodCandidates_def Let_def filter_empty_conv split: option.splits)
qed

section \<open>Regenerating twice\<close>

text \<open>Without preserved records the active records match the candidates one by one.\<close>

definition matches_candidate :: "period_record \<Rightarrow> period_record \<Rightarrow> bool" where
  "matches_candidate a c \<longleftrightarrow> areEquivalentFutureRecords a c \<and> \<not> isPreservedRecurringServicePeriodRecord a"

lemma equivalent_refl [simp]: "areEquivalentFutureRecords c c"
  by (simp add: areEquivalentFutureRecords_def)

lemma matches_new:
  "\<not> isPreservedRecurringServicePeriodRecord c \<Longrightarrow> matches_candidate (buildNewRecord env c) c"
  by (auto simp: matches_candidate_def buildNewRecord_def Let_def areEquivalentFutureRecords_def
      isPreservedRecurringServicePeriodRecord_def)

lemma matches_regenerated:
  "\<not> isPreservedRecurringServicePeriodRecord c \<Longrightarrow> matches_candidate (regenerated_record env e c) c"
  by (auto simp: matches_candidate_def regenerated_record_def Let_def areEquivalentFutureRecords_def
      isPreservedRecurringServicePeriodRecord_def)

definition unprotected :: "regeneration_env \<Rightarrow> bool" where
  "unprotected env \<longleftrightarrow> en_protected env = []"

lemma unprotected_None: "unprotected env \<Longrightarrow> protection_of env c = None"
  by (simp add: unprotected_def protection_of_def findRecurringServicePeriodCandidateProtection_def)

text \<open>The records that start at or after the end of the candidates' coverage, which are left alone.\<close>

definition beyond :: "regeneration_env \<Rightarrow> period_record list \<Rightarrow> period_record list" where
  "beyond env rs = filter (\<lambda>r. startsAtOrAfterCoverageEnd r (rg_candidate_coverage_end (en_input env))) rs"

lemma append_matches:
  assumes "unprotected env" "list_all2 matches_candidate (pl_active plan) used"
    and "\<not> isPreservedRecurringServicePeriodRecord c"
  shows "list_all2 matches_candidate (pl_active (appendNewCandidate env c plan)) (used @ [c])"
    and "pl_preserved (appendNewCandidate env c plan) = pl_preserved plan"
  using assms(2) matches_new [OF assms(3)]
  by (simp_all add: appendNewCandidate_def Let_def list_all2_appendI unprotected_None [OF assms(1)])

lemma append_all_matches:
  assumes "unprotected env" "list_all2 matches_candidate (pl_active plan) used"
    and "list_all (\<lambda>c. \<not> isPreservedRecurringServicePeriodRecord c) cands"
  shows "list_all2 matches_candidate (pl_active (foldl (\<lambda>plan c. appendNewCandidate env c plan) plan cands)) (used @ cands)
    \<and> pl_preserved (foldl (\<lambda>plan c. appendNewCandidate env c plan) plan cands) = pl_preserved plan"
  using assms
proof (induction cands arbitrary: plan used)
  case (Cons c cands)
  from Cons.IH [OF Cons.prems(1) append_matches(1) [OF Cons.prems(1,2)]] Cons.prems append_matches(2) show ?case by simp
qed simp

lemma emit_before_matches:
  assumes "emit_before env e cands plan = (cands', plan')" "unprotected env"
    and "list_all2 matches_candidate (pl_active plan) used"
    and "list_all (\<lambda>c. \<not> isPreservedRecurringServicePeriodRecord c) cands"
  shows "\<exists>used'. cands = used' @ cands' \<and> list_all2 matches_candidate (pl_active plan') (used @ used') \<and> pl_preserved plan' = pl_preserved plan"
  using assms
proof (induction env e cands plan arbitrary: used rule: emit_before.induct)
  case (2 env e c cs plan)
  show ?case
  proof (cases "slice_date (range_start (rec_service_period c)) < slice_date (range_start (rec_service_period e))
      \<and> rec_period_key c \<noteq> rec_period_key e")
    case True
    then have run: "emit_before env e cs (appendNewCandidate env c plan) = (cands', plan')" using 2(2) by simp
    have c: "\<not> isPreservedRecurringServicePeriodRecord c" using 2(5) by simp
    note step = append_matches [OF 2(3,4) c]
    from 2(1) [OF True run 2(3) step(1)] 2(5) obtain used' where
      "cs = used' @ cands'" "list_all2 matches_candidate (pl_active plan') ((used @ [c]) @ used')"
      "pl_preserved plan' = pl_preserved (appendNewCandidate env c plan)" by auto
    then show ?thesis using step(2) by (intro exI [of _ "c # used'"]) simp
  next
    case False
    then show ?thesis using 2 by (intro exI [of _ "[]"]) auto
  qed
qed simp

lemma reconcile_record_matches:
  assumes "reconcile_record env e (c # cs) plan = (cands', plan')" "unprotected env"
    and "list_all2 matches_candidate (pl_active plan) used" "\<not> isPreservedRecurringServicePeriodRecord e"
    and "\<not> isPreservedRecurringServicePeriodRecord c"
  shows "cands' = cs \<and> list_all2 matches_candidate (pl_active plan') (used @ [c]) \<and> pl_preserved plan' = pl_preserved plan"
  using assms matches_regenerated [of c env e]
  by (auto simp: reconcile_record_def unprotected_None Let_def matches_candidate_def
      intro!: list_all2_appendI split: if_splits)

text \<open>Without candidates the records beyond the coverage stay, the others go.\<close>

lemma reconcile_records_Nil:
  "list_all (\<lambda>r. \<not> isPreservedRecurringServicePeriodRecord r) existing \<Longrightarrow>
   reconcile_records env existing [] plan = ([], plan\<lparr>pl_active := pl_active plan @ beyond env existing,
     pl_preserved := pl_preserved plan @ beyond env existing,
     pl_superseded := pl_superseded plan @ map (supersede env)
       (filter (\<lambda>r. \<not> startsAtOrAfterCoverageEnd r (rg_candidate_coverage_end (en_input env))) existing)\<rparr>)"
  by (induction existing arbitrary: plan) (simp_all add: beyond_def reconcile_record_def)

lemma reconcile_records_matches:
  assumes "reconcile_records env existing cands plan = (cands', plan')" "unprotected env"
    and "list_all2 matches_candidate (pl_active plan) used"
    and "list_all (\<lambda>r. \<not> isPreservedRecurringServicePeriodRecord r) existing"
    and "list_all (\<lambda>c. \<not> isPreservedRecurringServicePeriodRecord c) cands"
  shows "\<exists>used' rest as. cands = used' @ cands' \<and> list_all2 matches_candidate as (used @ used') \<and> (\<exists>pre. existing = pre @ rest)
    \<and> pl_active plan' = as @ beyond env rest \<and> pl_preserved plan' = pl_preserved plan @ beyond env rest
    \<and> (rest = [] \<or> cands' = [])"
  using assms
proof (induction existing arbitrary: cands plan used)
  case Nil
  then show ?case by (intro exI [of _ "[]"] exI [of _ "pl_active plan"]) (auto simp: beyond_def)
next
  case (Cons e rest)
  obtain cands1 plan1 where 1: "emit_before env e cands plan = (cands1, plan1)" by fastforce
  from emit_before_matches [OF 1 Cons.prems(2,3,5)] obtain used1 where used1: "cands = used1 @ cands1"
    "list_all2 matches_candidate (pl_active plan1) (used @ used1)" "pl_preserved plan1 = pl_preserved plan" by blast
  show ?case
  proof (cases cands1)
    case Nil
    then have "reconcile_records env (e # rest) [] plan1 = (cands', plan')" using Cons.prems(1) 1 by simp
    with reconcile_records_Nil [OF Cons.prems(4), of env plan1] used1 Nil show ?thesis
      by (intro exI [of _ used1] exI [of _ "e # rest"] exI [of _ "pl_active plan1"]) auto
  next
    case (Cons c cs)
    obtain cands2 plan2 where 2: "reconcile_record env e (c # cs) plan1 = (cands2, plan2)" by fastforce
    have plain: "\<not> isPreservedRecurringServicePeriodRecord e" "\<not> isPreservedRecurringServicePeriodRecord c"
      "list_all (\<lambda>r. \<not> isPreservedRecurringServicePeriodRecord r) rest" "list_all (\<lambda>c. \<not> isPreservedRecurringServicePeriodRecord c) cs"
      using Cons.prems(4,5) used1(1) Cons by simp_all
    note step = reconcile_record_matches [OF 2 Cons.prems(2) used1(2) plain(1,2)]
    have run: "reconcile_records env rest cs plan2 = (cands', plan')" using Cons.prems(1) 1 2 step Cons by simp
    from Cons.IH [OF run Cons.prems(2) conjunct1 [OF conjunct2 [OF step]] plain(3,4)] obtain used2 rest2 as where
      "cs = used2 @ cands'" "list_all2 matches_candidate as (((used @ used1) @ [c]) @ used2)" "\<exists>pre. rest = pre @ rest2"
      "pl_active plan' = as @ beyond env rest2" "pl_preserved plan' = pl_preserved plan2 @ beyond env rest2"
      "rest2 = [] \<or> cands' = []" by blast
    then show ?thesis using used1 step Cons
      by (intro exI [of _ "used1 @ c # used2"] exI [of _ rest2] exI [of _ as]) (auto intro: exI [of _ "e # _"])
  qed
qed

text \<open>Records that match the candidates one by one are all kept.\<close>

lemma reconcile_matched:
  assumes "list_all2 matches_candidate existing cands" "unprotected env"
  shows "reconcile_records env (existing @ rest) cands plan
    = reconcile_records env rest [] (plan\<lparr>pl_active := pl_active plan @ existing\<rparr>)"
  using assms
proof (induction existing cands arbitrary: plan rule: list_all2_induct)
  case (Cons e es c cs)
  have "period_identity e = period_identity c"
    using Cons.hyps(1) equivalent_identity by (simp add: matches_candidate_def)
  then have "emit_before env e (c # cs) plan = (c # cs, plan)" by (simp add: period_identity_def)
  moreover have "reconcile_record env e (c # cs) plan = (cs, plan\<lparr>pl_active := pl_active plan @ [e]\<rparr>)"
    using Cons.hyps(1) unprotected_None [OF Cons.prems] by (simp add: reconcile_record_def matches_candidate_def)
  ultimately show ?case using Cons.IH [OF Cons.prems] by simp
qed simp

lemma regenerate_unfold:
  assumes "reconcile_records (regeneration_env_of inp) (sortRecords (active_existing inp))
      (sortRecords (rg_candidate_records inp)) \<lparr>pl_active = [], pl_preserved = [], pl_regenerated = [],
        pl_superseded = [], pl_new = [], pl_conflicts = []\<rparr> = (rest, plan)"
  shows "regenerateRecurringServicePeriods inp
    = foldl (\<lambda>plan c. appendNewCandidate (regeneration_env_of inp) c plan) plan rest"
  using assms by (simp add: regenerateRecurringServicePeriods_def regeneration_env_of_def active_existing_def Let_def)

lemma unprotected_env:
  "filter isPreservedRecurringServicePeriodRecord (active_existing inp) = [] \<Longrightarrow> unprotected (regeneration_env_of inp)"
  by (simp add: unprotected_def regeneration_env_of_def filter_empty_conv)

lemma record_order_sorted: "sorted_wrt (\<lambda>x y. record_compare x y \<le> 0) (sortRecords rs)"
  unfolding sortRecords_def by (rule record_order.sorted_js_sort)

lemma regenerate_matches:
  assumes "filter isPreservedRecurringServicePeriodRecord (active_existing inp) = []"
    and "filter isPreservedRecurringServicePeriodRecord (rg_candidate_records inp) = []"
  obtains as kept where "pl_active (regenerateRecurringServicePeriods inp) = as @ kept"
    "pl_preserved (regenerateRecurringServicePeriods inp) = kept"
    "list_all2 matches_candidate as (sortRecords (rg_candidate_records inp))"
    "beyond (regeneration_env_of inp) kept = kept" "sorted_wrt (\<lambda>x y. record_compare x y \<le> 0) kept"
    "list_all (\<lambda>r. \<not> isPreservedRecurringServicePeriodRecord r) kept"
proof -
  let ?env = "regeneration_env_of inp" and ?cands = "sortRecords (rg_candidate_records inp)"
  let ?empty = "\<lparr>pl_active = [], pl_preserved = [], pl_regenerated = [], pl_superseded = [],
            pl_new = [], pl_conflicts = []\<rparr>"
  note env = unprotected_env [OF assms(1)]
  have plain: "list_all (\<lambda>r. \<not> isPreservedRecurringServicePeriodRecord r) (sortRecords (active_existing inp))"
    "list_all (\<lambda>r. \<not> isPreservedRecurringServicePeriodRecord r) ?cands"
    using assms by (simp_all add: list_all_iff filter_empty_conv)
  obtain rest plan where rec: "reconcile_records ?env (sortRecords (active_existing inp)) ?cands ?empty = (rest, plan)"
    by fastforce
  from reconcile_records_matches [OF rec env _ plain, of "[]"] obtain used more as where
    used: "?cands = used @ rest" "list_all2 matches_candidate as used" "\<exists>pre. sortRecords (active_existing inp) = pre @ more"
      "pl_active plan = as @ beyond ?env more" "pl_preserved plan = beyond ?env more" "more = [] \<or> rest = []" by auto
  obtain pre where pre: "sortRecords (active_existing inp) = pre @ more" using used(3) by blast
  have kept: "beyond ?env (beyond ?env more) = beyond ?env more" "sorted_wrt (\<lambda>x y. record_compare x y \<le> 0) (beyond ?env more)"
    "list_all (\<lambda>r. \<not> isPreservedRecurringServicePeriodRecord r) (beyond ?env more)"
    using record_order_sorted [of "active_existing inp"] plain(1)
    by (simp_all add: beyond_def pre sorted_wrt_append sorted_wrt_filter list_all_iff)
  from used(6) show ?thesis
  proof
    assume "rest = []"
    then show ?thesis using used kept regenerate_unfold [OF rec] that [of as "beyond ?env more"] by simp
  next
    assume "more = []"
    then have act: "list_all2 matches_candidate (pl_active plan) used" "pl_preserved plan = []" using used by (simp_all add: beyond_def)
    have "list_all (\<lambda>c. \<not> isPreservedRecurringServicePeriodRecord c) rest" using plain(2) used(1) by simp
    from append_all_matches [OF env act(1) this] act(2) used(1) regenerate_unfold [OF rec]
      that [of "pl_active (regenerateRecurringServicePeriods inp)" "[]"]
    show ?thesis by (simp add: beyond_def)
  qed
qed

lemma sort_matched:
  assumes "list_all2 matches_candidate as (sortRecords cs)" "distinct (map start_day cs)"
    and "sorted_wrt (\<lambda>x y. record_compare x y \<le> 0) kept" "\<forall>k \<in> set kept. \<forall>c \<in> set cs. start_day c < start_day k"
  shows "sortRecords (as @ kept) = as @ kept"
proof -
  have day: "start_day a = start_day c" if "matches_candidate a c" for a c
    using that equivalent_identity [of a c] by (simp add: matches_candidate_def period_identity_def)
  have "map start_day xs = map start_day ys" if "list_all2 matches_candidate xs ys" for xs ys
    using that by (induction rule: list_all2_induct) (simp_all add: day)
  from this [OF assms(1)] have days: "map start_day as = map start_day (sortRecords cs)" .
  have "sorted (map start_day (sortRecords cs))" using sortRecords_sorted by (simp add: sorted_map)
  moreover have "distinct (map start_day (sortRecords cs))" using assms(2) by (simp add: sortRecords_def)
  ultimately have "sorted_wrt (<) (map start_day as)" by (simp add: days strict_sorted_iff)
  then have "sorted_wrt (\<lambda>x y. start_day x < start_day y) as" by (simp add: sorted_wrt_map)
  then have "sorted_wrt (\<lambda>x y. record_compare x y \<le> 0) as"
    by (rule sorted_wrt_mono_rel [rotated]) (simp add: record_compare_le less_iso8601_def)
  moreover from arg_cong [OF days, of set] have "start_day ` set as = start_day ` set cs" by simp
  then have "start_day a \<in> start_day ` set cs" if "a \<in> set as" for a using that by (metis imageI)
  then have "record_compare a k \<le> 0" if "a \<in> set as" "k \<in> set kept" for a k
    using that assms(4) by (fastforce simp: record_compare_le less_iso8601_def)
  ultimately have "sorted_wrt (\<lambda>x y. record_compare x y \<le> 0) (as @ kept)" using assms(3) by (simp add: sorted_wrt_append)
  then show ?thesis unfolding sortRecords_def by (rule js_sort_sorted_id)
qed

text \<open>
  C20: a second regeneration with the same candidates and the same end of their coverage changes nothing. When the
  active records are not preserved ones, and the candidates are as freshly generated (none is of a preserved kind),
  start on different days and start before the end of their coverage, if one is given, regenerating from the active
  records of the first plan keeps them all, leaves alone the same records beyond the coverage, and creates,
  supersedes and reports nothing.
\<close>

theorem regeneration_idempotent:
  assumes "filter isPreservedRecurringServicePeriodRecord (active_existing inp) = []"
    and "filter isPreservedRecurringServicePeriodRecord (rg_candidate_records inp) = []"
    and "distinct (map start_day (rg_candidate_records inp))"
    and "\<forall>e. rg_candidate_coverage_end inp = Some e \<longrightarrow> (\<forall>c \<in> set (rg_candidate_records inp). start_day c < iso_day e)"
    and "active_existing again = pl_active (regenerateRecurringServicePeriods inp)"
    and "rg_candidate_records again = rg_candidate_records inp"
    and "rg_candidate_coverage_end again = rg_candidate_coverage_end inp"
  shows "regenerateRecurringServicePeriods again
    = \<lparr>pl_active = pl_active (regenerateRecurringServicePeriods inp),
       pl_preserved = pl_preserved (regenerateRecurringServicePeriods inp), pl_regenerated = [],
       pl_superseded = [], pl_new = [], pl_conflicts = []\<rparr>"
proof -
  obtain as kept where plan: "pl_active (regenerateRecurringServicePeriods inp) = as @ kept"
      "pl_preserved (regenerateRecurringServicePeriods inp) = kept"
    and matched: "list_all2 matches_candidate as (sortRecords (rg_candidate_records inp))"
    and kept: "beyond (regeneration_env_of inp) kept = kept" "sorted_wrt (\<lambda>x y. record_compare x y \<le> 0) kept"
      "list_all (\<lambda>r. \<not> isPreservedRecurringServicePeriodRecord r) kept"
    using assms(1,2) by (rule regenerate_matches)
  have "list_all (\<lambda>a. \<not> isPreservedRecurringServicePeriodRecord a) as"
    using matched by (induction rule: list_all2_induct) (simp_all add: matches_candidate_def)
  then have "filter isPreservedRecurringServicePeriodRecord (active_existing again) = []"
    using kept(3) by (simp add: assms(5) plan filter_empty_conv list_all_iff)
  then have env: "unprotected (regeneration_env_of again)" by (rule unprotected_env)
  have stays: "\<forall>k \<in> set kept. startsAtOrAfterCoverageEnd k (rg_candidate_coverage_end inp)"
    using kept(1) unfolding beyond_def by (metis (no_types, lifting) filter_id_conv regeneration_env.select_convs(1) regeneration_env_of_def)
  then have "\<forall>k \<in> set kept. \<forall>c \<in> set (rg_candidate_records inp). start_day c < start_day k"
    using assms(4) by (fastforce simp: startsAtOrAfterCoverageEnd_def slice_date_def less_eq_iso8601_def less_iso8601_def split: option.splits)
  note sorted = sort_matched [OF matched assms(3) kept(2) this]
  have again: "beyond (regeneration_env_of again) kept = kept"
    "filter (\<lambda>r. \<not> startsAtOrAfterCoverageEnd r (rg_candidate_coverage_end (en_input (regeneration_env_of again)))) kept = []"
    using stays by (simp_all add: beyond_def regeneration_env_of_def assms(7) filter_empty_conv)
  have "reconcile_records (regeneration_env_of again) (sortRecords (active_existing again))
      (sortRecords (rg_candidate_records again)) \<lparr>pl_active = [], pl_preserved = [], pl_regenerated = [],
        pl_superseded = [], pl_new = [], pl_conflicts = []\<rparr>
      = ([], \<lparr>pl_active = as @ kept, pl_preserved = kept, pl_regenerated = [], pl_superseded = [], pl_new = [],
          pl_conflicts = []\<rparr>)"
    unfolding assms(5,6) plan sorted reconcile_matched [OF matched env] reconcile_records_Nil [OF kept(3)] again by simp
  from regenerate_unfold [OF this] show ?thesis by (simp add: plan)
qed

section \<open>An example\<close>

text \<open>
  January as generated, and February moved to [February 5, March 5). The candidates are the four
  months to April: January is kept, the candidates of February and March are refused, April is new.
\<close>

definition slot_record :: "string \<Rightarrow> int \<Rightarrow> lifecycle_state \<Rightarrow> int \<Rightarrow> int \<Rightarrow> period_record" where
  "slot_record slot revision state s e =
     (sample_record (''schedule:'' @ slot @ '':r'' @ show_int revision) revision state s e)\<lparr>rec_period_key := slot\<rparr>"

definition sample_regeneration :: regeneration_input where
  "sample_regeneration = \<lparr>rg_existing_records = [slot_record ''jan'' 1 Generated 20454 20485,
       slot_record ''feb'' 1 Superseded 20485 20513, slot_record ''feb'' 2 Edited 20489 20517],
     rg_candidate_records = [slot_record ''jan'' 1 Generated 20454 20485, slot_record ''feb'' 1 Generated 20485 20513,
       slot_record ''mar'' 1 Generated 20513 20544, slot_record ''apr'' 1 Generated 20544 20574],
     rg_candidate_coverage_end = None, rg_regenerated_at = utc_midnight 20460,
     rg_source_rule_version = ''v2'', rg_source_run_key = ''run-2'', rg_reason_code = None,
     rg_record_id_factory = None\<rparr>"

lemma sample_regeneration_plan:
  "map (\<lambda>r. (rec_id r, rec_lifecycle_state r)) (pl_active (regenerateRecurringServicePeriods sample_regeneration))
     = [(''schedule:jan:r1'', Generated), (''schedule:feb:r2'', Edited), (''schedule:apr:r1'', Generated)]
   \<and> pl_new (regenerateRecurringServicePeriods sample_regeneration) = [slot_record ''apr'' 1 Generated 20544 20574]"
  by code_simp

theorem regeneration_respects_overrides_witness:
  "range_days (rec_service_period (slot_record ''feb'' 2 Edited 20489 20517))
     \<inter> range_days (rec_service_period (slot_record ''apr'' 1 Generated 20544 20574)) = {}"
proof -
  let ?n = "slot_record ''apr'' 1 Generated 20544 20574" and ?p = "slot_record ''feb'' 2 Edited 20489 20517"
  have "?n \<in> set (pl_new (regenerateRecurringServicePeriods sample_regeneration))
      \<union> set (pl_regenerated (regenerateRecurringServicePeriods sample_regeneration))"
    using sample_regeneration_plan by simp
  note spec = regeneration_respects_overrides [OF this, THEN conjunct1]
  moreover have "?p \<in> set (active_existing sample_regeneration)"
    by (simp add: active_existing_def sample_regeneration_def slot_record_def sample_record_def)
  moreover have "isPreservedRecurringServicePeriodRecord ?p" "same_obligation ?p ?n"
    by (simp_all add: slot_record_def sample_record_def isPreservedRecurringServicePeriodRecord_def same_obligation_def)
  ultimately show ?thesis by blast
qed

theorem regeneration_covers_candidates_witness:
  "findUncoveredRecurringServicePeriodCandidates (rg_candidate_records sample_regeneration)
     (pl_active (regenerateRecurringServicePeriods sample_regeneration)) None = []
   \<and> length (rg_candidate_records sample_regeneration) = 4"
proof -
  have "list_all live (rg_candidate_records sample_regeneration)"
    by (simp add: sample_regeneration_def slot_record_def sample_record_def)
  from regeneration_covers_candidates [OF this, of None] show ?thesis by (simp add: sample_regeneration_def)
qed

theorem regeneration_idempotent_witness:
  "let inp = sample_regeneration\<lparr>rg_existing_records := [slot_record ''jan'' 1 Generated 20454 20485,
         slot_record ''feb'' 1 Generated 20485 20520, slot_record ''jun'' 1 Generated 20605 20635],
         rg_candidate_coverage_end := Some (date_only 20574)\<rparr>;
       again = inp\<lparr>rg_existing_records := pl_active (regenerateRecurringServicePeriods inp)\<rparr>
   in length (pl_superseded (regenerateRecurringServicePeriods inp)) = 1
    \<and> length (pl_preserved (regenerateRecurringServicePeriods inp)) = 1
    \<and> pl_superseded (regenerateRecurringServicePeriods again) = []
    \<and> pl_active (regenerateRecurringServicePeriods again) = pl_active (regenerateRecurringServicePeriods inp)"
proof -
  let ?inp = "sample_regeneration\<lparr>rg_existing_records := [slot_record ''jan'' 1 Generated 20454 20485,
         slot_record ''feb'' 1 Generated 20485 20520, slot_record ''jun'' 1 Generated 20605 20635],
         rg_candidate_coverage_end := Some (date_only 20574)\<rparr>"
  let ?again = "?inp\<lparr>rg_existing_records := pl_active (regenerateRecurringServicePeriods ?inp)\<rparr>"
  have "filter isPreservedRecurringServicePeriodRecord (active_existing ?inp) = []"
    "filter isPreservedRecurringServicePeriodRecord (rg_candidate_records ?inp) = []"
    "distinct (map start_day (rg_candidate_records ?inp))"
    by (simp_all add: active_existing_def isPreservedRecurringServicePeriodRecord_def sample_regeneration_def
        slot_record_def sample_record_def)
  moreover have "\<forall>e. rg_candidate_coverage_end ?inp = Some e \<longrightarrow> (\<forall>c \<in> set (rg_candidate_records ?inp). start_day c < iso_day e)"
    by (simp add: sample_regeneration_def slot_record_def sample_record_def)
  moreover have "rg_candidate_records ?again = rg_candidate_records ?inp"
    "rg_candidate_coverage_end ?again = rg_candidate_coverage_end ?inp" by simp_all
  moreover have "list_all live (pl_active (regenerateRecurringServicePeriods ?inp))"
    "length (pl_superseded (regenerateRecurringServicePeriods ?inp)) = 1"
    "length (pl_preserved (regenerateRecurringServicePeriods ?inp)) = 1" by code_simp+
  moreover from this(1) have "active_existing ?again = pl_active (regenerateRecurringServicePeriods ?inp)"
    by (simp add: active_existing_def list_all_iff filter_id_conv)
  ultimately show ?thesis unfolding Let_def using regeneration_idempotent [of ?inp ?again] by simp
qed

end
