(* ===== verification/Backfill.thy ===== *)
theory Backfill
  imports Regeneration
begin

text \<open>
  \<open>shared/billingClients/backfillRecurringServicePeriods.ts\<close>: filling the ledger of a schedule from
  candidates without touching the periods up to the end of billed history, on top of
  \<open>regenerateRecurringServicePeriods\<close>. The collation of obligation identifiers
  (\<open>localeCompare\<close>) is the argument \<open>lc\<close>.
\<close>

record backfill_input =
  bf_candidate_records :: "period_record list"
  bf_backfilled_at :: iso8601
  bf_source_rule_version :: string
  bf_source_run_key :: string
  bf_existing_records :: "period_record list option"
  bf_legacy_billed_through_end :: "iso8601 option"
  bf_candidate_coverage_end :: "iso8601 option"
  bf_reason_code :: "string option"
  bf_record_id_factory :: "record_id_factory option"

record backfill_plan =
  bp_historical_boundary_end :: "iso8601 option"
  bp_skipped_historical_candidates :: "period_record list"
  bp_retained_records :: "period_record list"
  bp_backfilled_records :: "period_record list"
  bp_realigned_records :: "period_record list"
  bp_superseded_records :: "period_record list"
  bp_active_records :: "period_record list"
  bp_conflicts :: "regeneration_conflict list"

definition backfill_compare :: "(string \<Rightarrow> string \<Rightarrow> int) \<Rightarrow> period_record \<Rightarrow> period_record \<Rightarrow> int" where
  "backfill_compare lc left right =
     (if range_start (rec_service_period left) \<noteq> range_start (rec_service_period right)
      then locale_compare (range_start (rec_service_period left)) (range_start (rec_service_period right))
      else if range_end (rec_service_period left) \<noteq> range_end (rec_service_period right)
      then locale_compare (range_end (rec_service_period left)) (range_end (rec_service_period right))
      else if ob_id (rec_source_obligation left) \<noteq> ob_id (rec_source_obligation right)
      then lc (ob_id (rec_source_obligation left)) (ob_id (rec_source_obligation right))
      else rec_revision left - rec_revision right)"

definition sort_backfill :: "(string \<Rightarrow> string \<Rightarrow> int) \<Rightarrow> period_record list \<Rightarrow> period_record list" where
  "sort_backfill lc records = js_sort (backfill_compare lc) records"

text \<open>One iteration of the loop over the records.\<close>

definition extend_boundary :: "iso8601 option \<Rightarrow> period_record \<Rightarrow> iso8601 option" where
  "extend_boundary boundary r =
     (let isBilledHistory = (rec_lifecycle_state r = Billed \<or> rec_invoice_linkage r \<noteq> None);
          recordBoundary = slice_date (range_end (rec_service_period r))
      in if \<not> isBilledHistory then boundary
         else case boundary of None \<Rightarrow> Some recordBoundary
           | Some b \<Rightarrow> if compareDateOnly recordBoundary b > 0 then Some recordBoundary else boundary)"

definition resolveHistoricalBoundaryEnd :: "period_record list \<Rightarrow> iso8601 option \<Rightarrow> iso8601 option" where
  "resolveHistoricalBoundaryEnd records legacyBilledThroughEnd =
     foldl extend_boundary (map_option slice_date legacyBilledThroughEnd) records"

definition normalizeBackfillCandidate :: "backfill_input \<Rightarrow> period_record \<Rightarrow> period_record" where
  "normalizeBackfillCandidate inp candidate =
     candidate\<lparr>rec_lifecycle_state := Generated,
       rec_provenance := \<lparr>prov_kind = P_Generated, prov_source_rule_version = bf_source_rule_version inp,
         prov_reason_code = ''backfill_materialization'',
         prov_source_run_key = Some (bf_source_run_key inp), prov_supersedes_record_id = None\<rparr>,
       rec_invoice_linkage := None,
       rec_created_at := bf_backfilled_at inp,
       rec_updated_at := bf_backfilled_at inp\<rparr>"

definition overlapsHistoricalBoundary :: "period_record \<Rightarrow> iso8601 \<Rightarrow> bool" where
  "overlapsHistoricalBoundary r boundary \<longleftrightarrow>
     compareDateOnly (range_start (rec_service_period r)) boundary < 0
     \<and> compareDateOnly (range_end (rec_service_period r)) boundary > 0"

text \<open>The loop over the candidates: the skipped and the future ones, or the error.\<close>

fun split_candidates ::
    "iso8601 option \<Rightarrow> period_record list \<Rightarrow> (period_record list \<times> period_record list) result" where
  "split_candidates boundary [] = Inr ([], [])"
| "split_candidates boundary (c # cs) =
     (case boundary of
        None \<Rightarrow> and_then (split_candidates boundary cs) (\<lambda>(skipped, future). Inr (skipped, c # future))
      | Some b \<Rightarrow>
          and_then (throw_if (overlapsHistoricalBoundary c b) (Backfill_Overlaps_History (rec_period_key c) b)) (\<lambda>_.
          and_then (split_candidates boundary cs) (\<lambda>(skipped, future).
            if compareDateOnly (range_end (rec_service_period c)) b \<le> 0
            then Inr (c # skipped, future) else Inr (skipped, c # future))))"

definition backfillRecurringServicePeriods ::
    "(string \<Rightarrow> string \<Rightarrow> int) \<Rightarrow> backfill_input \<Rightarrow> backfill_plan result" where
  "backfillRecurringServicePeriods lc inp =
     (let ledgerRecords = sort_backfill lc (filter (\<lambda>r. rec_lifecycle_state r \<noteq> Archived)
            (or_else (bf_existing_records inp) []));
          existingRecords = sort_backfill lc (filter (\<lambda>r. rec_lifecycle_state r \<noteq> Superseded) ledgerRecords);
          boundary = resolveHistoricalBoundaryEnd existingRecords (bf_legacy_billed_through_end inp);
          normalizedCandidates = sort_backfill lc (map (normalizeBackfillCandidate inp) (bf_candidate_records inp))
      in and_then (split_candidates boundary normalizedCandidates) (\<lambda>(skipped, future).
        let retainedHistorical = sort_backfill lc (case boundary of None \<Rightarrow> []
              | Some b \<Rightarrow> filter (\<lambda>r. compareDateOnly (range_end (rec_service_period r)) b \<le> 0) existingRecords);
            futureScope = (case boundary of None \<Rightarrow> ledgerRecords
              | Some b \<Rightarrow> filter (\<lambda>r. compareDateOnly (range_end (rec_service_period r)) b > 0) ledgerRecords);
            plan = regenerateRecurringServicePeriods \<lparr>rg_existing_records = futureScope,
              rg_candidate_records = future, rg_candidate_coverage_end = bf_candidate_coverage_end inp,
              rg_regenerated_at = bf_backfilled_at inp, rg_source_rule_version = bf_source_rule_version inp,
              rg_source_run_key = bf_source_run_key inp,
              rg_reason_code = Some (or_else (bf_reason_code inp) ''backfill_realignment''),
              rg_record_id_factory = bf_record_id_factory inp\<rparr>;
            createdRecordIds = map rec_id (pl_new plan @ pl_regenerated plan)
        in Inr \<lparr>bp_historical_boundary_end = boundary,
             bp_skipped_historical_candidates = skipped,
             bp_retained_records = sort_backfill lc (retainedHistorical
               @ filter (\<lambda>r. rec_id r \<notin> set createdRecordIds) (pl_active plan)),
             bp_backfilled_records = sort_backfill lc (pl_new plan),
             bp_realigned_records = sort_backfill lc (pl_regenerated plan),
             bp_superseded_records = sort_backfill lc (pl_superseded plan),
             bp_active_records = sort_backfill lc (retainedHistorical @ pl_active plan),
             bp_conflicts = pl_conflicts plan\<rparr>))"

section \<open>The boundary of billed history\<close>

lemma set_sort_backfill [simp]: "set (sort_backfill lc rs) = set rs"
  by (simp add: sort_backfill_def)

lemma mset_sort_backfill [simp]: "mset (sort_backfill lc rs) = mset rs"
  by (simp add: sort_backfill_def)

lemma split_candidates_Inr:
  "split_candidates boundary cs = Inr (skipped, future) \<longleftrightarrow>
     (case boundary of None \<Rightarrow> skipped = [] \<and> future = cs
      | Some b \<Rightarrow> filter (\<lambda>c. overlapsHistoricalBoundary c b) cs = []
          \<and> skipped = filter (\<lambda>c. end_day c \<le> iso_day b) cs
          \<and> future = filter (\<lambda>c. iso_day b < end_day c) cs)"
proof (induction cs arbitrary: skipped future)
  case (Cons c cs)
  then show ?case by (cases boundary) (auto simp: result_simps split: if_splits)
qed (auto split: option.splits)

lemma split_candidates_Inl:
  "split_candidates boundary cs = Inl e \<longleftrightarrow>
     (\<exists>b c. boundary = Some b \<and> List.find (\<lambda>c. overlapsHistoricalBoundary c b) cs = Some c
        \<and> e = Backfill_Overlaps_History (rec_period_key c) b)"
proof (induction cs)
  case (Cons c cs)
  show ?case
  proof (cases boundary)
    case None
    then show ?thesis using Cons by (auto simp: result_simps)
  next
    case (Some b)
    then show ?thesis using Cons by (auto simp: result_simps split: if_splits)
  qed
qed simp

definition billed_history :: "period_record \<Rightarrow> bool" where
  "billed_history r \<longleftrightarrow> rec_lifecycle_state r = Billed \<or> rec_invoice_linkage r \<noteq> None"

text \<open>The boundary is the latest end of billed history, and no earlier than the legacy date.\<close>

definition boundary_of :: "period_record list \<Rightarrow> iso8601 option \<Rightarrow> iso8601 option \<Rightarrow> bool" where
  "boundary_of records legacy boundary \<longleftrightarrow>
     (case boundary of
        None \<Rightarrow> legacy = None \<and> filter billed_history records = []
      | Some b \<Rightarrow> b = slice_date b
          \<and> (\<forall>l. legacy = Some l \<longrightarrow> iso_day l \<le> iso_day b)
          \<and> (\<forall>r \<in> set records. billed_history r \<longrightarrow> end_day r \<le> iso_day b)
          \<and> (map_option iso_day legacy = Some (iso_day b)
             \<or> (\<exists>r \<in> set records. billed_history r \<and> end_day r = iso_day b)))"

lemma resolveHistoricalBoundaryEnd_spec: "boundary_of records legacy (resolveHistoricalBoundaryEnd records legacy)"
proof (induction records rule: rev_induct)
  case Nil
  then show ?case by (cases legacy) (simp_all add: resolveHistoricalBoundaryEnd_def boundary_of_def)
next
  case (snoc r records)
  let ?b = "resolveHistoricalBoundaryEnd records legacy"
  have step: "resolveHistoricalBoundaryEnd (records @ [r]) legacy = extend_boundary ?b r"
    by (simp add: resolveHistoricalBoundaryEnd_def)
  show ?case
  proof (cases ?b)
    case None
    with snoc show ?thesis unfolding step
      by (auto simp: boundary_of_def extend_boundary_def billed_history_def Let_def filter_empty_conv)
  next
    case (Some b)
    with snoc show ?thesis unfolding step
      by (auto simp: boundary_of_def extend_boundary_def billed_history_def Let_def filter_empty_conv)
  qed
qed


definition live_existing :: "backfill_input \<Rightarrow> period_record list" where
  "live_existing inp = filter live (or_else (bf_existing_records inp) [])"

text \<open>The parts of a successful run.\<close>

definition backfill_boundary :: "(string \<Rightarrow> string \<Rightarrow> int) \<Rightarrow> backfill_input \<Rightarrow> iso8601 option" where
  "backfill_boundary lc inp = resolveHistoricalBoundaryEnd
     (sort_backfill lc (filter (\<lambda>r. rec_lifecycle_state r \<noteq> Superseded)
       (sort_backfill lc (filter (\<lambda>r. rec_lifecycle_state r \<noteq> Archived) (or_else (bf_existing_records inp) [])))))
     (bf_legacy_billed_through_end inp)"

lemma backfill_boundary_spec: "boundary_of (live_existing inp) (bf_legacy_billed_through_end inp) (backfill_boundary lc inp)"
proof -
  have "boundary_of (sort_backfill lc (filter (\<lambda>r. rec_lifecycle_state r \<noteq> Superseded)
       (sort_backfill lc (filter (\<lambda>r. rec_lifecycle_state r \<noteq> Archived) (or_else (bf_existing_records inp) [])))))
     (bf_legacy_billed_through_end inp) (backfill_boundary lc inp)"
    unfolding backfill_boundary_def by (rule resolveHistoricalBoundaryEnd_spec)
  then show ?thesis
    by (auto simp: boundary_of_def live_existing_def filter_empty_conv split: option.splits)
qed

definition future_regeneration ::
    "(string \<Rightarrow> string \<Rightarrow> int) \<Rightarrow> backfill_input \<Rightarrow> period_record list \<Rightarrow> regeneration_input" where
  "future_regeneration lc inp future = \<lparr>rg_existing_records =
       (let ledgerRecords = sort_backfill lc (filter (\<lambda>r. rec_lifecycle_state r \<noteq> Archived)
          (or_else (bf_existing_records inp) []))
        in case backfill_boundary lc inp of None \<Rightarrow> ledgerRecords
          | Some b \<Rightarrow> filter (\<lambda>r. compareDateOnly (range_end (rec_service_period r)) b > 0) ledgerRecords),
     rg_candidate_records = future, rg_candidate_coverage_end = bf_candidate_coverage_end inp,
     rg_regenerated_at = bf_backfilled_at inp, rg_source_rule_version = bf_source_rule_version inp,
     rg_source_run_key = bf_source_run_key inp,
     rg_reason_code = Some (or_else (bf_reason_code inp) ''backfill_realignment''),
     rg_record_id_factory = bf_record_id_factory inp\<rparr>"

lemma backfill_Inr:
  assumes "backfillRecurringServicePeriods lc inp = Inr plan"
  obtains future where
    "split_candidates (backfill_boundary lc inp) (sort_backfill lc
        (map (normalizeBackfillCandidate inp) (bf_candidate_records inp)))
      = Inr (bp_skipped_historical_candidates plan, future)"
    "bp_historical_boundary_end plan = backfill_boundary lc inp"
    "set (bp_active_records plan) = {r \<in> set (live_existing inp).
        \<exists>b. backfill_boundary lc inp = Some b \<and> end_day r \<le> iso_day b}
      \<union> set (pl_active (regenerateRecurringServicePeriods (future_regeneration lc inp future)))"
    "set (bp_backfilled_records plan) = set (pl_new (regenerateRecurringServicePeriods (future_regeneration lc inp future)))"
    "set (bp_realigned_records plan) = set (pl_regenerated (regenerateRecurringServicePeriods (future_regeneration lc inp future)))"
    "set (bp_superseded_records plan) = set (pl_superseded (regenerateRecurringServicePeriods (future_regeneration lc inp future)))"
proof -
  obtain skipped future where split: "split_candidates (backfill_boundary lc inp) (sort_backfill lc
        (map (normalizeBackfillCandidate inp) (bf_candidate_records inp))) = Inr (skipped, future)"
    using assms by (auto simp: backfillRecurringServicePeriods_def Let_def result_simps
        backfill_boundary_def [symmetric])
  let ?reg = "regenerateRecurringServicePeriods (future_regeneration lc inp future)"
  have plan: "plan = \<lparr>bp_historical_boundary_end = backfill_boundary lc inp,
      bp_skipped_historical_candidates = skipped,
      bp_retained_records = bp_retained_records plan,
      bp_backfilled_records = sort_backfill lc (pl_new ?reg),
      bp_realigned_records = sort_backfill lc (pl_regenerated ?reg),
      bp_superseded_records = sort_backfill lc (pl_superseded ?reg),
      bp_active_records = sort_backfill lc (sort_backfill lc (case backfill_boundary lc inp of None \<Rightarrow> []
        | Some b \<Rightarrow> filter (\<lambda>r. compareDateOnly (range_end (rec_service_period r)) b \<le> 0)
            (sort_backfill lc (filter (\<lambda>r. rec_lifecycle_state r \<noteq> Superseded)
              (sort_backfill lc (filter (\<lambda>r. rec_lifecycle_state r \<noteq> Archived) (or_else (bf_existing_records inp) []))))))
        @ pl_active ?reg),
      bp_conflicts = pl_conflicts ?reg\<rparr>"
    using assms split unfolding backfillRecurringServicePeriods_def Let_def backfill_boundary_def [symmetric]
    by (auto simp: future_regeneration_def Let_def)
  show ?thesis
  proof (rule that [of future])
    show "split_candidates (backfill_boundary lc inp) (sort_backfill lc
        (map (normalizeBackfillCandidate inp) (bf_candidate_records inp)))
      = Inr (bp_skipped_historical_candidates plan, future)" using split by (subst plan) simp
    show "set (bp_active_records plan) = {r \<in> set (live_existing inp).
        \<exists>b. backfill_boundary lc inp = Some b \<and> end_day r \<le> iso_day b} \<union> set (pl_active ?reg)"
    proof (cases "backfill_boundary lc inp")
      case None
      then show ?thesis by (subst plan) simp
    next
      case (Some b)
      then show ?thesis by (subst plan) (auto simp: live_existing_def)
    qed
  qed (subst plan, simp)+
qed

text \<open>
  A backfill never touches billed history. Every live record that ends at or before the
  boundary, and so every billed or linked one, is still active unchanged; the records it creates
  start at or after the boundary, and the ones it supersedes end after it.
\<close>

theorem backfill_keeps_history:
  assumes "backfillRecurringServicePeriods lc inp = Inr plan"
  shows "boundary_of (live_existing inp) (bf_legacy_billed_through_end inp) (bp_historical_boundary_end plan)
    \<and> (\<forall>r \<in> set (live_existing inp). billed_history r \<longrightarrow> r \<in> set (bp_active_records plan))
    \<and> (\<forall>b. bp_historical_boundary_end plan = Some b \<longrightarrow>
        (\<forall>r \<in> set (live_existing inp). end_day r \<le> iso_day b \<longrightarrow> r \<in> set (bp_active_records plan))
      \<and> (\<forall>r \<in> set (bp_backfilled_records plan) \<union> set (bp_realigned_records plan). iso_day b \<le> start_day r)
      \<and> (\<forall>r \<in> set (bp_superseded_records plan). iso_day b < end_day r))"
proof -
  obtain future where
    split: "split_candidates (backfill_boundary lc inp) (sort_backfill lc
        (map (normalizeBackfillCandidate inp) (bf_candidate_records inp)))
      = Inr (bp_skipped_historical_candidates plan, future)"
    and boundary: "bp_historical_boundary_end plan = backfill_boundary lc inp"
    and active: "set (bp_active_records plan) = {r \<in> set (live_existing inp).
        \<exists>b. backfill_boundary lc inp = Some b \<and> end_day r \<le> iso_day b}
      \<union> set (pl_active (regenerateRecurringServicePeriods (future_regeneration lc inp future)))"
    and created: "set (bp_backfilled_records plan) = set (pl_new (regenerateRecurringServicePeriods (future_regeneration lc inp future)))"
    "set (bp_realigned_records plan) = set (pl_regenerated (regenerateRecurringServicePeriods (future_regeneration lc inp future)))"
    and superseded: "set (bp_superseded_records plan) = set (pl_superseded (regenerateRecurringServicePeriods (future_regeneration lc inp future)))"
    using assms by (rule backfill_Inr)
  let ?inp = "future_regeneration lc inp future"
  note acc = regenerate_accounts [of ?inp, unfolded accounts_def]
  note spec = backfill_boundary_spec [of inp lc, folded boundary]
  have kept: "r \<in> set (bp_active_records plan)" if "r \<in> set (live_existing inp)" "end_day r \<le> iso_day b"
    "bp_historical_boundary_end plan = Some b" for r b
    using that active boundary by auto
  have start: "iso_day b \<le> start_day r" if b: "bp_historical_boundary_end plan = Some b"
    and r: "r \<in> set (bp_backfilled_records plan) \<union> set (bp_realigned_records plan)" for b r
  proof -
    have "r \<in> set (pl_regenerated (regenerateRecurringServicePeriods ?inp)) \<union> set (pl_new (regenerateRecurringServicePeriods ?inp))"
      using r created by blast
    then obtain c where "c \<in> set future" "rec_service_period r = rec_service_period c"
      using acc [THEN conjunct2, THEN conjunct1] by (auto simp: future_regeneration_def created_def)
    moreover have "filter (\<lambda>c. overlapsHistoricalBoundary c b) (sort_backfill lc
        (map (normalizeBackfillCandidate inp) (bf_candidate_records inp))) = []
      \<and> future = filter (\<lambda>c. iso_day b < end_day c) (sort_backfill lc
        (map (normalizeBackfillCandidate inp) (bf_candidate_records inp)))"
      using split b boundary by (simp add: split_candidates_Inr)
    ultimately show ?thesis by (auto simp: filter_empty_conv overlapsHistoricalBoundary_def)
  qed
  have super: "iso_day b < end_day r" if b: "bp_historical_boundary_end plan = Some b"
    and r: "r \<in> set (bp_superseded_records plan)" for b r
  proof -
    from acc [THEN conjunct1] obtain kept replaced where
      D: "mset (active_existing ?inp) = mset kept + mset replaced"
      and map: "pl_superseded (regenerateRecurringServicePeriods ?inp) = map (supersede (regeneration_env_of ?inp)) replaced"
      by (elim exE conjE) (rule that)
    obtain e where e: "e \<in> set replaced" "r = supersede (regeneration_env_of ?inp) e"
      using r superseded map by auto
    then have "e \<in> set (active_existing ?inp)" using arg_cong [OF D, of set_mset] by simp
    then have "iso_day b < end_day e"
      using b boundary by (auto simp: active_existing_def future_regeneration_def Let_def)
    then show ?thesis by (simp add: e(2) supersede_def)
  qed
  have "r \<in> set (bp_active_records plan)" if "r \<in> set (live_existing inp)" "billed_history r" for r
    using spec that kept [OF that(1)]
    by (cases "bp_historical_boundary_end plan") (auto simp: boundary_of_def filter_empty_conv)
  then show ?thesis using spec kept start super by blast
qed

text \<open>January is billed, February generated; the candidates are January to March.\<close>

definition sample_backfill :: backfill_input where
  "sample_backfill = \<lparr>bf_candidate_records = [slot_record ''jan'' 1 Generated 20454 20485,
       slot_record ''feb'' 1 Generated 20485 20513, slot_record ''mar'' 1 Generated 20513 20544],
     bf_backfilled_at = utc_midnight 20490, bf_source_rule_version = ''v1'', bf_source_run_key = ''run'',
     bf_existing_records = Some [slot_record ''jan'' 1 Billed 20454 20485, slot_record ''feb'' 1 Generated 20485 20513],
     bf_legacy_billed_through_end = None, bf_candidate_coverage_end = None, bf_reason_code = None,
     bf_record_id_factory = None\<rparr>"

definition text_order :: "string \<Rightarrow> string \<Rightarrow> int" where
  "text_order s t = (if s = t then 0 else if s < t then - 1 else 1)"

theorem backfill_keeps_history_witness:
  "\<exists>plan. backfillRecurringServicePeriods text_order sample_backfill = Inr plan
     \<and> slot_record ''jan'' 1 Billed 20454 20485 \<in> set (bp_active_records plan)"
proof -
  let ?jan = "slot_record ''jan'' 1 Billed 20454 20485"
  have "case backfillRecurringServicePeriods text_order sample_backfill of Inl _ \<Rightarrow> False | Inr _ \<Rightarrow> True" by code_simp
  then obtain plan where plan: "backfillRecurringServicePeriods text_order sample_backfill = Inr plan"
    by (cases "backfillRecurringServicePeriods text_order sample_backfill") auto
  have "?jan \<in> set (live_existing sample_backfill)"
    by (simp add: live_existing_def sample_backfill_def) (simp add: slot_record_def sample_record_def)
  moreover have "billed_history ?jan" by (simp add: billed_history_def slot_record_def sample_record_def)
  ultimately show ?thesis using plan backfill_keeps_history [OF plan] by blast
qed

text \<open>
  C23: a backfill fails exactly when a candidate lies on both sides of the boundary of billed history,
  and its error names such a candidate and the boundary.
\<close>

theorem backfill_error_iff:
  "((\<exists>e. backfillRecurringServicePeriods lc inp = Inl e) \<longleftrightarrow>
      (\<exists>b c. backfill_boundary lc inp = Some b \<and> c \<in> set (bf_candidate_records inp)
        \<and> start_day c < iso_day b \<and> iso_day b < end_day c))
   \<and> (\<forall>e. backfillRecurringServicePeriods lc inp = Inl e \<longrightarrow>
      (\<exists>b c. e = Backfill_Overlaps_History (rec_period_key c) b \<and> backfill_boundary lc inp = Some b
        \<and> c \<in> set (bf_candidate_records inp) \<and> start_day c < iso_day b \<and> iso_day b < end_day c))"
proof -
  let ?cs = "sort_backfill lc (map (normalizeBackfillCandidate inp) (bf_candidate_records inp))"
  have same: "rec_service_period (normalizeBackfillCandidate inp c) = rec_service_period c"
    "rec_period_key (normalizeBackfillCandidate inp c) = rec_period_key c" for c
    by (simp_all add: normalizeBackfillCandidate_def)
  have run: "backfillRecurringServicePeriods lc inp = Inl e
    \<longleftrightarrow> split_candidates (backfill_boundary lc inp) ?cs = Inl e" for e
    unfolding backfillRecurringServicePeriods_def Let_def backfill_boundary_def [symmetric]
    by (cases "split_candidates (backfill_boundary lc inp) ?cs") auto
  have fwd: "\<exists>b c. e = Backfill_Overlaps_History (rec_period_key c) b \<and> backfill_boundary lc inp = Some b
        \<and> c \<in> set (bf_candidate_records inp) \<and> start_day c < iso_day b \<and> iso_day b < end_day c"
    if "backfillRecurringServicePeriods lc inp = Inl e" for e
  proof -
    from that obtain b c where "backfill_boundary lc inp = Some b"
      "List.find (\<lambda>c. overlapsHistoricalBoundary c b) ?cs = Some c" "e = Backfill_Overlaps_History (rec_period_key c) b"
      unfolding run split_candidates_Inl by blast
    with find_SomeD [of "\<lambda>c. overlapsHistoricalBoundary c b" ?cs c] show ?thesis
      by (auto simp: overlapsHistoricalBoundary_def same)
  qed
  have bwd: "\<exists>e. backfillRecurringServicePeriods lc inp = Inl e"
    if "backfill_boundary lc inp = Some b" "c \<in> set (bf_candidate_records inp)"
      "start_day c < iso_day b" "iso_day b < end_day c" for b c
  proof -
    have "normalizeBackfillCandidate inp c \<in> set ?cs" using that(2) by simp
    moreover have "overlapsHistoricalBoundary (normalizeBackfillCandidate inp c) b"
      using that(3,4) by (simp add: overlapsHistoricalBoundary_def same)
    ultimately obtain d where "List.find (\<lambda>c. overlapsHistoricalBoundary c b) ?cs = Some d"
      using find_None_D [of "\<lambda>c. overlapsHistoricalBoundary c b" ?cs]
      by (cases "List.find (\<lambda>c. overlapsHistoricalBoundary c b) ?cs") blast+
    then show ?thesis unfolding run split_candidates_Inl using that(1) by blast
  qed
  show ?thesis using fwd bwd by blast
qed


theorem backfill_error_iff_witness:
  "\<exists>e. backfillRecurringServicePeriods text_order
     (sample_backfill\<lparr>bf_candidate_records := [slot_record ''late'' 1 Generated 20470 20500]\<rparr>) = Inl e"
proof -
  let ?inp = "sample_backfill\<lparr>bf_candidate_records := [slot_record ''late'' 1 Generated 20470 20500]\<rparr>"
  have boundary: "backfill_boundary text_order ?inp = Some (date_only 20485)" by code_simp
  have "slot_record ''late'' 1 Generated 20470 20500 \<in> set (bf_candidate_records ?inp)" by simp
  moreover have "start_day (slot_record ''late'' 1 Generated 20470 20500) < iso_day (date_only 20485)"
    "iso_day (date_only 20485) < end_day (slot_record ''late'' 1 Generated 20470 20500)"
    by (simp_all add: slot_record_def sample_record_def)
  ultimately show ?thesis using boundary backfill_error_iff [of text_order ?inp, THEN conjunct1] by blast
qed

end
