(* ===== verification/Month_End_Close.thy ===== *)
theory Month_End_Close
  imports Recurring_Types
begin

text \<open>
  \<open>shared/billingClients/calendarMonthEndClosePolicy.ts\<close>: when a calendar-month arrears period may
  be closed by hand on its final calendar day. Time zones come from the package
  \<open>@js-temporal/polyfill\<close>: its operations are the record \<open>zones\<close>.
\<close>

record zones =
  zone_known :: "string \<Rightarrow> bool"           \<comment> \<open>\<open>TimeZone.from\<close> does not throw\<close>
  parse_zoned_instant :: "string \<Rightarrow> int option"  \<comment> \<open>\<open>Instant.from\<close>: epoch nanoseconds, None when it throws\<close>
  zoned_day :: "int \<Rightarrow> string \<Rightarrow> int"     \<comment> \<open>\<open>instant.toZonedDateTimeISO(tz).toPlainDate()\<close>\<close>

datatype cadence_source = Client_Schedule | Contract_Anniversary

text \<open>\<open>asOf\<close> is a text or a \<open>Date\<close>: its time value in milliseconds, None for an invalid one.\<close>

datatype instant_input = Instant_Text string | Instant_Date "int option"

datatype close_reason =
    Eligible
  | Not_Arrears
  | Not_Client_Cadence
  | Not_Calendar_Month_Period
  | Window_Does_Not_Open_Next_Day
  | Not_Final_Calendar_Day

record close_input =
  cl_due_position :: due_position
  cl_cadence_source :: "cadence_source option"
  cl_service_period_start :: iso8601
  cl_service_period_end :: iso8601
  cl_invoice_window_start :: iso8601
  cl_as_of_date :: "iso8601 option"
  cl_as_of :: "instant_input option"
  cl_time_zone :: "string option"

record close_eligibility =
  ce_eligible :: bool
  ce_reason :: close_reason
  ce_final_calendar_day :: iso8601

definition toDateOnly :: "iso8601 \<Rightarrow> int" where
  "toDateOnly v = iso_day v"

definition localCalendarDate :: "zones \<Rightarrow> instant_input option \<Rightarrow> string option \<Rightarrow> int option" where
  "localCalendarDate zs asOf timeZone =
     (if asOf = None \<or> asOf = Some (Instant_Text []) then None
      else let tz = or_else timeZone ''UTC'';
               tz = (if zone_known zs tz then tz else ''UTC'');
               instant = (case the asOf of
                   Instant_Date (Some ms) \<Rightarrow> Some (ms * 1000000)
                 | Instant_Date None \<Rightarrow> None
                 | Instant_Text s \<Rightarrow> parse_zoned_instant zs s)
           in map_option (\<lambda>i. zoned_day zs i tz) instant)"

definition evaluateCalendarMonthEndEarlyCloseEligibility ::
    "temporal \<Rightarrow> zones \<Rightarrow> close_input \<Rightarrow> close_eligibility" where
  "evaluateCalendarMonthEndEarlyCloseEligibility td zs inp =
     (let end' = toDateOnly (cl_service_period_end inp);
          finalCalendarDay = end' - 1;
          fail = (\<lambda>reason. \<lparr>ce_eligible = False, ce_reason = reason,
            ce_final_calendar_day = date_only finalCalendarDay\<rparr>);
          start = toDateOnly (cl_service_period_start inp);
          asOfDate = (case cl_as_of_date inp of Some d \<Rightarrow> Some (toDateOnly d)
            | None \<Rightarrow> localCalendarDate zs (cl_as_of inp) (cl_time_zone inp))
      in if cl_due_position inp \<noteq> Arrears then fail Not_Arrears
         else if cl_cadence_source inp \<noteq> None \<and> cl_cadence_source inp \<noteq> Some Client_Schedule
         then fail Not_Client_Cadence
         else if pd_day td start \<noteq> 1 \<or> end' \<noteq> add_months td start 1
         then fail Not_Calendar_Month_Period
         else if toDateOnly (cl_invoice_window_start inp) \<noteq> end'
         then fail Window_Does_Not_Open_Next_Day
         else if asOfDate \<noteq> Some finalCalendarDay then fail Not_Final_Calendar_Day
         else \<lparr>ce_eligible = True, ce_reason = Eligible,
                ce_final_calendar_day = date_only finalCalendarDay\<rparr>)"

definition isCalendarMonthEndEarlyCloseEligible :: "temporal \<Rightarrow> zones \<Rightarrow> close_input \<Rightarrow> bool" where
  "isCalendarMonthEndEarlyCloseEligible td zs inp =
     ce_eligible (evaluateCalendarMonthEndEarlyCloseEligibility td zs inp)"

section \<open>The final day of a month\<close>

text \<open>The day an input names as today.\<close>

definition today :: "zones \<Rightarrow> close_input \<Rightarrow> int option" where
  "today zs inp = (case cl_as_of_date inp of Some d \<Rightarrow> Some (iso_day d)
     | None \<Rightarrow> localCalendarDate zs (cl_as_of inp) (cl_time_zone inp))"

definition last_day_of_month :: "temporal \<Rightarrow> int \<Rightarrow> bool" where
  "last_day_of_month td d \<longleftrightarrow> month_index td (d + 1) = month_index td d + 1"

context iso_calendar
begin

lemma first_of_month_next:
  assumes "pd_day td s = 1"
  shows "pd_day td (add_months td s 1) = 1" "month_index td (add_months td s 1) = month_index td s + 1"
  using assms add_months_day_28 [of s 1] add_months_index [of s 1] by simp_all

lemma before_next_month:
  assumes "pd_day td s = 1"
  shows "month_index td (add_months td s 1 - 1) = month_index td s"
proof -
  let ?e = "add_months td s 1"
  have less: "s < ?e" using add_months_gt by simp
  then have "s \<le> ?e - 1" by simp
  then have "month_index td s \<le> month_index td (?e - 1)"
    using date_le_iff [of s "?e - 1"] by linarith
  moreover have "?e - 1 < ?e" by simp
  then have "month_index td (?e - 1) < month_index td ?e
      \<or> month_index td (?e - 1) = month_index td ?e \<and> pd_day td (?e - 1) < 1"
    using date_less_iff [of "?e - 1" ?e] first_of_month_next(1) [OF assms] by simp
  then have "month_index td (?e - 1) < month_index td s + 1"
    using day_range [of "?e - 1"] first_of_month_next(2) [OF assms] by auto
  ultimately show ?thesis by simp
qed

lemma month_spec:
  assumes "s \<le> f" "pd_day td s = 1"
  shows "f + 1 = add_months td s 1 \<longleftrightarrow> month_index td f = month_index td s \<and> last_day_of_month td f"
proof
  assume f: "f + 1 = add_months td s 1"
  then have f': "f = add_months td s 1 - 1" by simp
  have "month_index td f = month_index td s" unfolding f' by (rule before_next_month) (rule assms(2))
  moreover have "month_index td (f + 1) = month_index td s + 1"
    unfolding f by (rule first_of_month_next(2)) (rule assms(2))
  ultimately show "month_index td f = month_index td s \<and> last_day_of_month td f"
    by (simp add: last_day_of_month_def)
next
  assume f: "month_index td f = month_index td s \<and> last_day_of_month td f"
  then have idx: "month_index td (f + 1) = month_index td s + 1" by (simp add: last_day_of_month_def)
  let ?e = "add_months td s 1"
  have "?e \<le> f + 1"
    using date_le_iff [of ?e "f + 1"] idx first_of_month_next [OF assms(2)] day_range [of "f + 1"] by simp
  moreover have "f < ?e"
    using date_less_iff [of f ?e] f first_of_month_next [OF assms(2)] by simp
  ultimately show "f + 1 = ?e" by simp
qed

end

text \<open>
  A period may be closed early exactly when it is billed in arrears on the client cadence, runs
  from the first day of a month to the first day of the next, its window opens as it ends, and today
  is its last day, the last day of that month; the final calendar day is reported in every case.
\<close>

theorem month_end_close_eligible_iff:
  assumes "iso_calendar td" "iso_day (cl_service_period_start inp) < iso_day (cl_service_period_end inp)"
  shows "(isCalendarMonthEndEarlyCloseEligible td zs inp \<longleftrightarrow>
      cl_due_position inp = Arrears \<and> cl_cadence_source inp \<noteq> Some Contract_Anniversary
    \<and> iso_day (cl_invoice_window_start inp) = iso_day (cl_service_period_end inp)
    \<and> (\<exists>d. today zs inp = Some d \<and> d + 1 = iso_day (cl_service_period_end inp)
        \<and> pd_day td (iso_day (cl_service_period_start inp)) = 1
        \<and> month_index td d = month_index td (iso_day (cl_service_period_start inp))
        \<and> last_day_of_month td d))
    \<and> ce_final_calendar_day (evaluateCalendarMonthEndEarlyCloseEligibility td zs inp)
      = date_only (iso_day (cl_service_period_end inp) - 1)"
proof (intro conjI)
  note month_spec = iso_calendar.month_spec [OF assms(1)]
  let ?s = "iso_day (cl_service_period_start inp)" and ?e = "iso_day (cl_service_period_end inp)"
  have src: "(cl_cadence_source inp \<noteq> None \<and> cl_cadence_source inp \<noteq> Some Client_Schedule)
    \<longleftrightarrow> cl_cadence_source inp = Some Contract_Anniversary"
    by (metis cadence_source.exhaust cadence_source.distinct(1) not_Some_eq option.inject)
  show "isCalendarMonthEndEarlyCloseEligible td zs inp \<longleftrightarrow> cl_due_position inp = Arrears
    \<and> cl_cadence_source inp \<noteq> Some Contract_Anniversary
    \<and> iso_day (cl_invoice_window_start inp) = ?e
    \<and> (\<exists>d. today zs inp = Some d \<and> d + 1 = ?e \<and> pd_day td ?s = 1
        \<and> month_index td d = month_index td ?s \<and> last_day_of_month td d)" (is "_ \<longleftrightarrow> ?spec")
  proof -
    have code: "isCalendarMonthEndEarlyCloseEligible td zs inp \<longleftrightarrow> cl_due_position inp = Arrears
      \<and> cl_cadence_source inp \<noteq> Some Contract_Anniversary
      \<and> pd_day td ?s = 1 \<and> ?e = add_months td ?s 1 \<and> iso_day (cl_invoice_window_start inp) = ?e
      \<and> today zs inp = Some (?e - 1)"
      unfolding isCalendarMonthEndEarlyCloseEligible_def evaluateCalendarMonthEndEarlyCloseEligibility_def
        Let_def src toDateOnly_def today_def
      by (simp only: if_distrib [of ce_eligible] close_eligibility.select_convs if_bool_eq_disj) blast
    have "pd_day td ?s = 1 \<Longrightarrow> ?e = add_months td ?s 1
      \<longleftrightarrow> month_index td (?e - 1) = month_index td ?s \<and> last_day_of_month td (?e - 1)"
      using month_spec [of ?s "?e - 1"] assms(2) by simp
    moreover have "(\<exists>d. today zs inp = Some d \<and> d + 1 = ?e \<and> pd_day td ?s = 1
        \<and> month_index td d = month_index td ?s \<and> last_day_of_month td d)
      \<longleftrightarrow> today zs inp = Some (?e - 1) \<and> pd_day td ?s = 1
        \<and> month_index td (?e - 1) = month_index td ?s \<and> last_day_of_month td (?e - 1)"
      by (metis add_diff_cancel_right' diff_add_cancel)
    ultimately show ?thesis unfolding code by metis
  qed
  show "ce_final_calendar_day (evaluateCalendarMonthEndEarlyCloseEligibility td zs inp) = date_only (?e - 1)"
    by (simp add: evaluateCalendarMonthEndEarlyCloseEligibility_def Let_def toDateOnly_def)
qed

text \<open>January 2026 on its last day.\<close>

theorem month_end_close_eligible_iff_witness:
  "isCalendarMonthEndEarlyCloseEligible gregorian
     \<lparr>zone_known = (\<lambda>z. z = ''UTC''), parse_zoned_instant = (\<lambda>_. None), zoned_day = (\<lambda>i z. i div 86400000000000)\<rparr>
     \<lparr>cl_due_position = Arrears, cl_cadence_source = Some Client_Schedule,
      cl_service_period_start = date_only 20454, cl_service_period_end = date_only 20485,
      cl_invoice_window_start = date_only 20485, cl_as_of_date = None,
      cl_as_of = Some (Instant_Date (Some 1769860800000)), cl_time_zone = Some ''Nowhere''\<rparr>"
proof -
  let ?inp = "\<lparr>cl_due_position = Arrears, cl_cadence_source = Some Client_Schedule,
      cl_service_period_start = date_only 20454, cl_service_period_end = date_only 20485,
      cl_invoice_window_start = date_only 20485, cl_as_of_date = None,
      cl_as_of = Some (Instant_Date (Some 1769860800000)), cl_time_zone = Some ''Nowhere''\<rparr>"
  let ?zs = "\<lparr>zone_known = (\<lambda>z. z = ''UTC''), parse_zoned_instant = (\<lambda>_. None),
    zoned_day = (\<lambda>i z. i div 86400000000000)\<rparr>"
  have "iso_day (cl_service_period_start ?inp) < iso_day (cl_service_period_end ?inp)" by simp
  note spec = month_end_close_eligible_iff [OF gregorian_is_calendar this, of ?zs, THEN conjunct1]
  have "today ?zs ?inp = Some 20484" by code_simp
  moreover have "pd_day gregorian 20454 = 1" by code_simp
  moreover have "month_index gregorian 20484 = month_index gregorian 20454" by code_simp
  moreover have "last_day_of_month gregorian 20484" by code_simp
  ultimately show ?thesis unfolding spec by simp
qed

end
