(* ===== verification/Due_Work.thy ===== *)
theory Due_Work
  imports Period_Edits Month_End_Close
begin

text \<open>
  What is due (\<open>shared/billingClients\<close>): the identity of an execution window and of a set of them
  (\<open>recurringRunExecutionIdentity.ts\<close>), the selection of the ledger records that are due in a
  window (\<open>recurringServicePeriodDueSelection.ts\<close>), and the rows of the due-work list
  (\<open>recurringDueWork.ts\<close>). The collation of identifiers is the argument \<open>lc\<close>.
\<close>

section \<open>Execution windows\<close>

datatype window_kind = Client_Cadence_Window | Contract_Cadence_Window

fun window_kind_text :: "window_kind \<Rightarrow> string" where
  "window_kind_text Client_Cadence_Window = ''client_cadence_window''"
| "window_kind_text Contract_Cadence_Window = ''contract_cadence_window''"

record execution_window =
  ew_kind :: window_kind
  ew_identity_key :: string
  ew_cadence_owner :: cadence_owner
  ew_client_id :: "string option"
  ew_schedule_key :: "string option"
  ew_period_key :: "string option"
  ew_contract_id :: "string option"
  ew_contract_line_id :: "string option"
  ew_window_start :: "iso8601 option"
  ew_window_end :: "iso8601 option"

text \<open>\<open>String.prototype.trim\<close> for the characters of the model.\<close>

definition js_space :: "char \<Rightarrow> bool" where
  "js_space c \<longleftrightarrow> c \<in> {CHR 0x09, CHR 0x0A, CHR 0x0B, CHR 0x0C, CHR 0x0D, CHR '' '', CHR 0xA0}"

definition js_trim :: "string \<Rightarrow> string" where
  "js_trim s = rev (dropWhile js_space (rev (dropWhile js_space s)))"

definition compactIdentitySegments :: "string option list \<Rightarrow> string list" where
  "compactIdentitySegments segments =
     filter (\<lambda>s. s \<noteq> []) (map (\<lambda>s. case s of None \<Rightarrow> [] | Some t \<Rightarrow> js_trim t) segments)"

text \<open>\<open>join(separator)\<close>\<close>

fun join_with :: "string \<Rightarrow> string list \<Rightarrow> string" where
  "join_with sep [] = []"
| "join_with sep [s] = s"
| "join_with sep (s # t # ts) = s @ sep @ join_with sep (t # ts)"

definition buildRecurringRunExecutionIdentityKey :: "temporal \<Rightarrow> execution_window \<Rightarrow> string" where
  "buildRecurringRunExecutionIdentityKey td w =
     join_with '':'' (compactIdentitySegments
       [Some (window_kind_text (ew_kind w)), Some (cadence_owner_text (ew_cadence_owner w)),
        ew_client_id w, ew_schedule_key w, ew_period_key w, ew_contract_id w, ew_contract_line_id w,
        map_option (iso_text td) (ew_window_start w), map_option (iso_text td) (ew_window_end w)])"

definition buildClientCadenceExecutionWindow ::
    "temporal \<Rightarrow> string \<Rightarrow> string \<Rightarrow> string \<Rightarrow> iso8601 \<Rightarrow> iso8601 \<Rightarrow> execution_window" where
  "buildClientCadenceExecutionWindow td clientId scheduleKey periodKey windowStart windowEnd =
     (let baseWindow = \<lparr>ew_kind = Client_Cadence_Window, ew_identity_key = [], ew_cadence_owner = Client,
            ew_client_id = Some clientId, ew_schedule_key = Some scheduleKey, ew_period_key = Some periodKey,
            ew_contract_id = None, ew_contract_line_id = None,
            ew_window_start = Some windowStart, ew_window_end = Some windowEnd\<rparr>
      in baseWindow\<lparr>ew_identity_key := buildRecurringRunExecutionIdentityKey td baseWindow\<rparr>)"

definition buildContractCadenceExecutionWindow ::
    "temporal \<Rightarrow> string \<Rightarrow> iso8601 \<Rightarrow> iso8601 \<Rightarrow> string option \<Rightarrow> string option \<Rightarrow> execution_window" where
  "buildContractCadenceExecutionWindow td clientId windowStart windowEnd contractId contractLineId =
     (let baseWindow = \<lparr>ew_kind = Contract_Cadence_Window, ew_identity_key = [], ew_cadence_owner = Contract,
            ew_client_id = Some clientId, ew_schedule_key = None, ew_period_key = None,
            ew_contract_id = contractId, ew_contract_line_id = contractLineId,
            ew_window_start = Some windowStart, ew_window_end = Some windowEnd\<rparr>
      in baseWindow\<lparr>ew_identity_key := buildRecurringRunExecutionIdentityKey td baseWindow\<rparr>)"

text \<open>The default \<open>sort()\<close> of strings orders them by code units.\<close>

definition listRecurringRunExecutionWindowKinds :: "execution_window list \<Rightarrow> window_kind list" where
  "listRecurringRunExecutionWindowKinds windows =
     js_sort (\<lambda>a b. locale_compare (window_kind_text a) (window_kind_text b))
       (js_unique (map ew_kind windows))"

record selection_identity =
  si_execution_identity_keys :: "string list"
  si_selection_key :: string
  si_retry_key :: string

definition buildRecurringRunSelectionIdentity :: "execution_window list \<Rightarrow> selection_identity" where
  "buildRecurringRunSelectionIdentity windows =
     (let executionIdentityKeys = js_sort locale_compare
            (js_unique (filter (\<lambda>k. k \<noteq> []) (map ew_identity_key windows)));
          keyBody = join_with ''|'' executionIdentityKeys
      in \<lparr>si_execution_identity_keys = executionIdentityKeys,
          si_selection_key = ''recurring-run-selection:'' @ keyBody,
          si_retry_key = ''recurring-run-retry:'' @ keyBody\<rparr>)"

record due_selection_input =
  di_client_id :: string
  di_window_start :: iso8601
  di_window_end :: iso8601
  di_execution_window :: execution_window

definition buildClientCadenceDueSelectionInput ::
    "temporal \<Rightarrow> string \<Rightarrow> string \<Rightarrow> string \<Rightarrow> iso8601 \<Rightarrow> iso8601 \<Rightarrow> due_selection_input" where
  "buildClientCadenceDueSelectionInput td clientId scheduleKey periodKey windowStart windowEnd =
     \<lparr>di_client_id = clientId, di_window_start = windowStart, di_window_end = windowEnd,
      di_execution_window =
        buildClientCadenceExecutionWindow td clientId scheduleKey periodKey windowStart windowEnd\<rparr>"

definition buildContractCadenceDueSelectionInput ::
    "temporal \<Rightarrow> string \<Rightarrow> iso8601 \<Rightarrow> iso8601 \<Rightarrow> string option \<Rightarrow> string option \<Rightarrow> due_selection_input" where
  "buildContractCadenceDueSelectionInput td clientId windowStart windowEnd contractId contractLineId =
     \<lparr>di_client_id = clientId, di_window_start = windowStart, di_window_end = windowEnd,
      di_execution_window =
        buildContractCadenceExecutionWindow td clientId windowStart windowEnd contractId contractLineId\<rparr>"

section \<open>Due selection\<close>

definition DEFAULT_RECURRING_SERVICE_PERIOD_DUE_SELECTION_STATES :: "lifecycle_state list" where
  "DEFAULT_RECURRING_SERVICE_PERIOD_DUE_SELECTION_STATES = [Generated, Edited, Locked]"

record due_query =
  dq_tenant :: string
  dq_cadence_owner :: cadence_owner
  dq_execution_window :: execution_window
  dq_schedule_keys :: "string list"
  dq_window_start :: iso8601
  dq_window_end :: iso8601
  dq_lifecycle_states :: "lifecycle_state list"
  dq_charge_families :: "charge_family list option"

definition buildRecurringServicePeriodDueSelectionQuery ::
    "string \<Rightarrow> string list \<Rightarrow> due_selection_input \<Rightarrow> lifecycle_state list option
       \<Rightarrow> charge_family list option \<Rightarrow> due_query result" where
  "buildRecurringServicePeriodDueSelectionQuery tenant scheduleKeys selectorInput lifecycleStates chargeFamilies =
     (let keys = js_sort locale_compare (js_unique (filter (\<lambda>k. k \<noteq> []) scheduleKeys))
      in and_then (throw_if (keys = []) Schedule_Key_Missing) (\<lambda>_.
        Inr \<lparr>dq_tenant = tenant,
             dq_cadence_owner = ew_cadence_owner (di_execution_window selectorInput),
             dq_execution_window = di_execution_window selectorInput,
             dq_schedule_keys = keys,
             dq_window_start = di_window_start selectorInput,
             dq_window_end = di_window_end selectorInput,
             dq_lifecycle_states = or_else lifecycleStates DEFAULT_RECURRING_SERVICE_PERIOD_DUE_SELECTION_STATES,
             dq_charge_families = chargeFamilies\<rparr>))"

definition isRecurringServicePeriodRecordDue :: "period_record \<Rightarrow> due_query \<Rightarrow> bool" where
  "isRecurringServicePeriodRecordDue r query \<longleftrightarrow>
     ob_tenant (rec_source_obligation r) = Some (dq_tenant query)
     \<and> rec_cadence_owner r = dq_cadence_owner query
     \<and> rec_schedule_key r \<in> set (dq_schedule_keys query)
     \<and> range_start (rec_invoice_window r) = dq_window_start query
     \<and> range_end (rec_invoice_window r) = dq_window_end query
     \<and> rec_lifecycle_state r \<in> set (dq_lifecycle_states query)
     \<and> rec_invoice_linkage r = None
     \<and> (case dq_charge_families query of None \<Rightarrow> True
        | Some families \<Rightarrow> ob_charge_family (rec_source_obligation r) \<in> set families)"

definition due_compare :: "(string \<Rightarrow> string \<Rightarrow> int) \<Rightarrow> period_record \<Rightarrow> period_record \<Rightarrow> int" where
  "due_compare lc left right =
     (if range_start (rec_service_period left) \<noteq> range_start (rec_service_period right)
      then locale_compare (range_start (rec_service_period left)) (range_start (rec_service_period right))
      else if range_end (rec_service_period left) \<noteq> range_end (rec_service_period right)
      then locale_compare (range_end (rec_service_period left)) (range_end (rec_service_period right))
      else if ob_id (rec_source_obligation left) \<noteq> ob_id (rec_source_obligation right)
      then lc (ob_id (rec_source_obligation left)) (ob_id (rec_source_obligation right))
      else rec_revision left - rec_revision right)"

definition selectDueRecurringServicePeriodRecords ::
    "(string \<Rightarrow> string \<Rightarrow> int) \<Rightarrow> period_record list \<Rightarrow> due_query \<Rightarrow> period_record list" where
  "selectDueRecurringServicePeriodRecords lc records query =
     js_sort (due_compare lc) (filter (\<lambda>r. isRecurringServicePeriodRecordDue r query) records)"

section \<open>Due-work rows\<close>

text \<open>Attribution is passed through: it is the type parameter of the row and of its inputs.\<close>

datatype due_work_state = Due | Early

record 'a due_work_row_input =
  ri_selector_input :: due_selection_input
  ri_cadence_source :: cadence_source
  ri_due_position :: due_position
  ri_service_period_start :: iso8601
  ri_service_period_end :: iso8601
  ri_client_name :: "string option"
  ri_can_generate :: "bool option"
  ri_as_of :: "iso8601 option"
  ri_billing_cycle_id :: "string option"
  ri_schedule_key :: "string option"
  ri_period_key :: "string option"
  ri_record_id :: "string option"
  ri_lifecycle_state :: "lifecycle_state option"
  ri_contract_name :: "string option"
  ri_contract_line_name :: "string option"
  ri_purchase_order_scope_key :: "string option"
  ri_currency_code :: "string option"
  ri_tax_source :: "string option"
  ri_export_shape_key :: "string option"
  ri_attribution :: "'a option"

record 'a due_work_row =
  dw_row_key :: string
  dw_execution_identity_key :: string
  dw_selection_key :: string
  dw_retry_key :: string
  dw_selector_input :: due_selection_input
  dw_execution_window :: execution_window
  dw_execution_window_kind :: window_kind
  dw_cadence_owner :: cadence_owner
  dw_cadence_source :: cadence_source
  dw_due_position :: due_position
  dw_due_state :: due_work_state
  dw_is_early :: bool
  dw_can_generate :: bool
  dw_client_id :: string
  dw_client_name :: "string option"
  dw_billing_cycle_id :: "string option"
  dw_service_period_start :: iso8601
  dw_service_period_end :: iso8601
  dw_service_period_label :: string
  dw_invoice_window_start :: iso8601
  dw_invoice_window_end :: iso8601
  dw_invoice_window_label :: string
  dw_schedule_key :: "string option"
  dw_period_key :: "string option"
  dw_record_id :: "string option"
  dw_lifecycle_state :: "lifecycle_state option"
  dw_contract_id :: "string option"
  dw_contract_line_id :: "string option"
  dw_contract_name :: "string option"
  dw_contract_line_name :: "string option"
  dw_purchase_order_scope_key :: "string option"
  dw_currency_code :: "string option"
  dw_tax_source :: "string option"
  dw_export_shape_key :: "string option"
  dw_attribution :: "'a option"

definition formatRangeLabel :: "temporal \<Rightarrow> iso8601 \<Rightarrow> iso8601 \<Rightarrow> string" where
  "formatRangeLabel td s e = iso_text td s @ '' to '' @ iso_text td e"

definition normalizeDueWorkDate :: "iso8601 \<Rightarrow> iso8601" where
  "normalizeDueWorkDate v = slice_date v"

record due_work_identity =
  di_row_key :: string
  di_execution_identity_key :: string
  di_selection_key :: string
  di_retry_key :: string

definition buildRecurringDueWorkIdentity :: "execution_window \<Rightarrow> due_work_identity" where
  "buildRecurringDueWorkIdentity executionWindow =
     (let selectionIdentity = buildRecurringRunSelectionIdentity [executionWindow]
      in \<lparr>di_row_key = ''recurring-due-row:'' @ ew_identity_key executionWindow,
          di_execution_identity_key = ew_identity_key executionWindow,
          di_selection_key = si_selection_key selectionIdentity,
          di_retry_key = si_retry_key selectionIdentity\<rparr>)"

definition isEarlyInvoiceWindow :: "iso8601 \<Rightarrow> iso8601 option \<Rightarrow> bool" where
  "isEarlyInvoiceWindow windowStart asOf =
     (case asOf of None \<Rightarrow> False | Some d \<Rightarrow> slice_date windowStart > slice_date d)"

definition buildBaseRecurringDueWorkRow :: "temporal \<Rightarrow> 'a due_work_row_input \<Rightarrow> 'a due_work_row" where
  "buildBaseRecurringDueWorkRow td inp =
     (let executionWindow = di_execution_window (ri_selector_input inp);
          identity = buildRecurringDueWorkIdentity executionWindow;
          invoiceWindowStart = normalizeDueWorkDate (di_window_start (ri_selector_input inp));
          invoiceWindowEnd = normalizeDueWorkDate (di_window_end (ri_selector_input inp));
          isEarly = isEarlyInvoiceWindow invoiceWindowStart (ri_as_of inp);
          servicePeriodStart = normalizeDueWorkDate (ri_service_period_start inp);
          servicePeriodEnd = normalizeDueWorkDate (ri_service_period_end inp)
      in \<lparr>dw_row_key = di_row_key identity,
          dw_execution_identity_key = di_execution_identity_key identity,
          dw_selection_key = di_selection_key identity,
          dw_retry_key = di_retry_key identity,
          dw_selector_input = ri_selector_input inp,
          dw_execution_window = executionWindow,
          dw_execution_window_kind = ew_kind executionWindow,
          dw_cadence_owner = ew_cadence_owner executionWindow,
          dw_cadence_source = ri_cadence_source inp,
          dw_due_position = ri_due_position inp,
          dw_due_state = (if isEarly then Early else Due),
          dw_is_early = isEarly,
          dw_can_generate = (or_else (ri_can_generate inp) True \<and> \<not> isEarly),
          dw_client_id = di_client_id (ri_selector_input inp),
          dw_client_name = ri_client_name inp,
          dw_billing_cycle_id = ri_billing_cycle_id inp,
          dw_service_period_start = servicePeriodStart,
          dw_service_period_end = servicePeriodEnd,
          dw_service_period_label = formatRangeLabel td servicePeriodStart servicePeriodEnd,
          dw_invoice_window_start = invoiceWindowStart,
          dw_invoice_window_end = invoiceWindowEnd,
          dw_invoice_window_label = formatRangeLabel td invoiceWindowStart invoiceWindowEnd,
          dw_schedule_key = ri_schedule_key inp,
          dw_period_key = ri_period_key inp,
          dw_record_id = ri_record_id inp,
          dw_lifecycle_state = ri_lifecycle_state inp,
          dw_contract_id = ew_contract_id executionWindow,
          dw_contract_line_id = ew_contract_line_id executionWindow,
          dw_contract_name = ri_contract_name inp,
          dw_contract_line_name = ri_contract_line_name inp,
          dw_purchase_order_scope_key = ri_purchase_order_scope_key inp,
          dw_currency_code = ri_currency_code inp,
          dw_tax_source = ri_tax_source inp,
          dw_export_shape_key = ri_export_shape_key inp,
          dw_attribution = ri_attribution inp\<rparr>)"

definition buildRecurringDueWorkRow :: "temporal \<Rightarrow> 'a due_work_row_input \<Rightarrow> 'a due_work_row" where
  "buildRecurringDueWorkRow td inp = buildBaseRecurringDueWorkRow td inp"

definition due_work_compare :: "(string \<Rightarrow> string \<Rightarrow> int) \<Rightarrow> 'a due_work_row \<Rightarrow> 'a due_work_row \<Rightarrow> int" where
  "due_work_compare lc left right =
     (if dw_invoice_window_end left \<noteq> dw_invoice_window_end right
      then locale_compare (dw_invoice_window_end right) (dw_invoice_window_end left)
      else if dw_invoice_window_start left \<noteq> dw_invoice_window_start right
      then locale_compare (dw_invoice_window_start right) (dw_invoice_window_start left)
      else if dw_service_period_end left \<noteq> dw_service_period_end right
      then locale_compare (dw_service_period_end right) (dw_service_period_end left)
      else if dw_service_period_start left \<noteq> dw_service_period_start right
      then locale_compare (dw_service_period_start right) (dw_service_period_start left)
      else if or_else (dw_client_name left) [] \<noteq> or_else (dw_client_name right) []
      then lc (or_else (dw_client_name left) []) (or_else (dw_client_name right) [])
      else lc (dw_execution_identity_key left) (dw_execution_identity_key right))"

definition sortRecurringDueWorkRows ::
    "(string \<Rightarrow> string \<Rightarrow> int) \<Rightarrow> 'a due_work_row list \<Rightarrow> 'a due_work_row list" where
  "sortRecurringDueWorkRows lc rows = js_sort (due_work_compare lc) rows"

record client_schedule_work =
  cw_client_id :: string
  cw_client_name :: "string option"
  cw_schedule_key :: string
  cw_period_key :: string
  cw_service_period_start :: iso8601
  cw_service_period_end :: iso8601
  cw_invoice_window_start :: "iso8601 option"
  cw_invoice_window_end :: "iso8601 option"
  cw_as_of :: "iso8601 option"
  cw_can_generate :: "bool option"
  cw_billing_cycle_id :: "string option"

text \<open>\<open>s.includes(p)\<close>\<close>

fun js_includes :: "string \<Rightarrow> string \<Rightarrow> bool" where
  "js_includes [] p \<longleftrightarrow> p = []"
| "js_includes (c # s) p \<longleftrightarrow> take (length p) (c # s) = p \<or> js_includes s p"

definition buildClientScheduleDueWorkRow :: "temporal \<Rightarrow> client_schedule_work \<Rightarrow> 'a due_work_row" where
  "buildClientScheduleDueWorkRow td inp =
     (let servicePeriodStart = normalizeDueWorkDate (cw_service_period_start inp);
          servicePeriodEnd = normalizeDueWorkDate (cw_service_period_end inp);
          invoiceWindowStart = normalizeDueWorkDate (or_else (cw_invoice_window_start inp) servicePeriodStart);
          invoiceWindowEnd = normalizeDueWorkDate (or_else (cw_invoice_window_end inp) servicePeriodEnd);
          selectorInput = buildClientCadenceDueSelectionInput td (cw_client_id inp) (cw_schedule_key inp)
            (cw_period_key inp) invoiceWindowStart invoiceWindowEnd
      in buildBaseRecurringDueWorkRow td
        \<lparr>ri_selector_input = selectorInput, ri_cadence_source = Client_Schedule,
         ri_due_position = (if js_includes (cw_schedule_key inp) '':arrears'' then Arrears else Advance),
         ri_service_period_start = servicePeriodStart, ri_service_period_end = servicePeriodEnd,
         ri_client_name = cw_client_name inp, ri_can_generate = cw_can_generate inp,
         ri_as_of = cw_as_of inp, ri_billing_cycle_id = cw_billing_cycle_id inp,
         ri_schedule_key = Some (cw_schedule_key inp), ri_period_key = Some (cw_period_key inp),
         ri_record_id = None, ri_lifecycle_state = None, ri_contract_name = None,
         ri_contract_line_name = None, ri_purchase_order_scope_key = None, ri_currency_code = None,
         ri_tax_source = None, ri_export_shape_key = None, ri_attribution = None\<rparr>)"

record 'a record_work =
  rw_client_id :: string
  rw_client_name :: "string option"
  rw_record :: period_record
  rw_billing_cycle_id :: "string option"
  rw_contract_id :: "string option"
  rw_contract_line_id :: "string option"
  rw_contract_name :: "string option"
  rw_contract_line_name :: "string option"
  rw_attribution :: "'a option"
  rw_as_of :: "iso8601 option"
  rw_can_generate :: "bool option"

definition record_selector :: "temporal \<Rightarrow> 'a record_work \<Rightarrow> due_selection_input" where
  "record_selector td inp =
     (let r = rw_record inp;
          invoiceWindowStart = normalizeDueWorkDate (range_start (rec_invoice_window r));
          invoiceWindowEnd = normalizeDueWorkDate (range_end (rec_invoice_window r))
      in if rec_cadence_owner r = Contract
         then buildContractCadenceDueSelectionInput td (rw_client_id inp) invoiceWindowStart invoiceWindowEnd
           (rw_contract_id inp) (rw_contract_line_id inp)
         else buildClientCadenceDueSelectionInput td (rw_client_id inp) (rec_schedule_key r)
           (rec_period_key r) invoiceWindowStart invoiceWindowEnd)"

definition buildServicePeriodRecurringDueWorkRow :: "temporal \<Rightarrow> 'a record_work \<Rightarrow> 'a due_work_row" where
  "buildServicePeriodRecurringDueWorkRow td inp =
     (let r = rw_record inp
      in buildBaseRecurringDueWorkRow td
        \<lparr>ri_selector_input = record_selector td inp,
         ri_cadence_source = (if rec_cadence_owner r = Contract then Contract_Anniversary else Client_Schedule),
         ri_due_position = rec_due_position r,
         ri_service_period_start = normalizeDueWorkDate (range_start (rec_service_period r)),
         ri_service_period_end = normalizeDueWorkDate (range_end (rec_service_period r)),
         ri_client_name = rw_client_name inp, ri_can_generate = rw_can_generate inp,
         ri_as_of = rw_as_of inp, ri_billing_cycle_id = rw_billing_cycle_id inp,
         ri_schedule_key = Some (rec_schedule_key r), ri_period_key = Some (rec_period_key r),
         ri_record_id = Some (rec_id r), ri_lifecycle_state = Some (rec_lifecycle_state r),
         ri_contract_name = rw_contract_name inp, ri_contract_line_name = rw_contract_line_name inp,
         ri_purchase_order_scope_key = None, ri_currency_code = None, ri_tax_source = None,
         ri_export_shape_key = None, ri_attribution = rw_attribution inp\<rparr>)"

section \<open>Selection identities\<close>

lemma sorted_unique_set:
  fixes xs ys :: "'a::linorder list"
  assumes "set xs = set ys"
  shows "js_sort locale_compare (js_unique xs) = js_sort locale_compare (js_unique ys)"
proof -
  have "sorted (js_sort locale_compare zs)" for zs :: "'a list"
    using locale_order.sorted_js_sort [of zs] by simp
  then show ?thesis
    using assms by (intro sorted_distinct_set_unique) (simp_all add: distinct_map_js_sort [of id, simplified])
qed

text \<open>
  The identity of a selection of windows depends only on the set of their identity keys: their
  order and repetitions do not count, so a retry of the same selection has the same keys.
\<close>

theorem selection_identity_order_free:
  assumes "set (map ew_identity_key ws) = set (map ew_identity_key vs)"
  shows "buildRecurringRunSelectionIdentity ws = buildRecurringRunSelectionIdentity vs"
proof -
  have "set (filter (\<lambda>k. k \<noteq> []) (map ew_identity_key ws)) = set (filter (\<lambda>k. k \<noteq> []) (map ew_identity_key vs))"
    using assms by auto
  from sorted_unique_set [OF this] show ?thesis
    by (simp add: buildRecurringRunSelectionIdentity_def Let_def)
qed

theorem selection_identity_order_free_witness:
  "let w = buildClientCadenceExecutionWindow gregorian ''c'' ''s'' ''p'' (date_only 20454) (date_only 20485);
       v = buildClientCadenceExecutionWindow gregorian ''c'' ''s'' ''q'' (date_only 20485) (date_only 20513)
   in buildRecurringRunSelectionIdentity [w, v, w] = buildRecurringRunSelectionIdentity [v, w]"
  unfolding Let_def by (rule selection_identity_order_free) auto

section \<open>What is due\<close>

lemma build_query_Inr:
  assumes "buildRecurringServicePeriodDueSelectionQuery tenant keys sel states families = Inr q"
  shows "dq_tenant q = tenant" "dq_cadence_owner q = ew_cadence_owner (di_execution_window sel)"
    "set (dq_schedule_keys q) = set keys - {[]}" "dq_window_start q = di_window_start sel"
    "dq_window_end q = di_window_end sel"
    "dq_lifecycle_states q = or_else states DEFAULT_RECURRING_SERVICE_PERIOD_DUE_SELECTION_STATES"
    "dq_charge_families q = families"
  using assms by (auto simp: buildRecurringServicePeriodDueSelectionQuery_def Let_def result_simps)

text \<open>
  The row of a ledger record, turned into a due-selection query over the record's schedule, finds
  exactly this record's window: the record is due under it when it is generated, edited or locked and
  has no link to an invoice, and under no circumstances otherwise.
\<close>

theorem due_row_selects_record:
  assumes "ob_tenant (rec_source_obligation (rw_record inp)) = Some tenant"
    and "rec_schedule_key (rw_record inp) \<noteq> []"
    and "slice_date (range_start (rec_invoice_window (rw_record inp))) = range_start (rec_invoice_window (rw_record inp))"
    and "slice_date (range_end (rec_invoice_window (rw_record inp))) = range_end (rec_invoice_window (rw_record inp))"
  shows "\<exists>q. buildRecurringServicePeriodDueSelectionQuery tenant [rec_schedule_key (rw_record inp)]
      (dw_selector_input (buildServicePeriodRecurringDueWorkRow td inp)) None None = Inr q
    \<and> (isRecurringServicePeriodRecordDue (rw_record inp) q
        \<longleftrightarrow> rec_lifecycle_state (rw_record inp) \<in> {Generated, Edited, Locked}
          \<and> rec_invoice_linkage (rw_record inp) = None)"
proof -
  let ?r = "rw_record inp" and ?sel = "record_selector td inp"
  have row: "dw_selector_input (buildServicePeriodRecurringDueWorkRow td inp) = ?sel"
    by (simp add: buildServicePeriodRecurringDueWorkRow_def buildBaseRecurringDueWorkRow_def Let_def)
  have sel: "di_window_start ?sel = range_start (rec_invoice_window ?r)"
    "di_window_end ?sel = range_end (rec_invoice_window ?r)"
    "ew_cadence_owner (di_execution_window ?sel) = rec_cadence_owner ?r"
    using assms(3,4)
    by (cases "rec_cadence_owner ?r"; simp add: record_selector_def Let_def normalizeDueWorkDate_def
        buildContractCadenceDueSelectionInput_def buildContractCadenceExecutionWindow_def
        buildClientCadenceDueSelectionInput_def buildClientCadenceExecutionWindow_def)+
  obtain q where q: "buildRecurringServicePeriodDueSelectionQuery tenant [rec_schedule_key ?r] ?sel None None = Inr q"
    using assms(2) by (simp add: buildRecurringServicePeriodDueSelectionQuery_def Let_def js_unique_distinct)
  have "isRecurringServicePeriodRecordDue ?r q
      \<longleftrightarrow> rec_lifecycle_state ?r \<in> {Generated, Edited, Locked} \<and> rec_invoice_linkage ?r = None"
    using assms(1,2) build_query_Inr [OF q] sel
    by (auto simp: isRecurringServicePeriodRecordDue_def DEFAULT_RECURRING_SERVICE_PERIOD_DUE_SELECTION_STATES_def)
  then show ?thesis unfolding row using q by blast
qed

definition sample_work :: "unit record_work" where
  "sample_work = \<lparr>rw_client_id = ''client'', rw_client_name = None,
     rw_record = sample_record ''r'' 1 Locked 20454 20485, rw_billing_cycle_id = None, rw_contract_id = None,
     rw_contract_line_id = None, rw_contract_name = None, rw_contract_line_name = None, rw_attribution = None,
     rw_as_of = None, rw_can_generate = None\<rparr>"

theorem due_row_selects_record_witness:
  "\<exists>q. buildRecurringServicePeriodDueSelectionQuery ''t'' [''schedule'']
      (dw_selector_input (buildServicePeriodRecurringDueWorkRow gregorian sample_work)) None None = Inr q
    \<and> isRecurringServicePeriodRecordDue (sample_record ''r'' 1 Locked 20454 20485) q"
  using due_row_selects_record [of sample_work "''t''" gregorian]
  by (simp add: sample_work_def sample_record_def slice_date_def)

text \<open>
  C25: a record is billed through one revision only. Under the default states an edited record is no
  longer due under any query, nor is its new revision when it was skipped, and the new revision is due
  only in its own invoice window; once a record is linked to an invoice it is not due again.
\<close>

theorem due_once:
  assumes "buildRecurringServicePeriodDueSelectionQuery tenant keys sel None families = Inr q"
  shows "((old, new) \<in> edit_results ctx r \<longrightarrow> \<not> isRecurringServicePeriodRecordDue old q
        \<and> (isRecurringServicePeriodRecordDue new q \<longrightarrow> rec_lifecycle_state new = Edited
          \<and> range_start (rec_invoice_window new) = di_window_start sel
          \<and> range_end (rec_invoice_window new) = di_window_end sel))
    \<and> (applyRecurringServicePeriodInvoiceLinkage r k = Inr r' \<longrightarrow> \<not> isRecurringServicePeriodRecordDue r' q)"
proof (intro conjI impI)
  note q = build_query_Inr [OF assms]
  have due: "rec_lifecycle_state s \<in> {Generated, Edited, Locked}" if "isRecurringServicePeriodRecordDue s q" for s
    using that by (auto simp: isRecurringServicePeriodRecordDue_def q(6)
        DEFAULT_RECURRING_SERVICE_PERIOD_DUE_SELECTION_STATES_def)
  {
    assume "(old, new) \<in> edit_results ctx r"
    from edit_results_spec [OF this] have "rec_lifecycle_state old = Superseded"
      "rec_lifecycle_state new \<in> {Edited, Skipped}" by fastforce+
    with due show "\<not> isRecurringServicePeriodRecordDue old q"
      "isRecurringServicePeriodRecordDue new q \<Longrightarrow> rec_lifecycle_state new = Edited" by fastforce+
  }
  show "range_start (rec_invoice_window new) = di_window_start sel"
    "range_end (rec_invoice_window new) = di_window_end sel" if "isRecurringServicePeriodRecordDue new q"
    using that by (simp_all add: isRecurringServicePeriodRecordDue_def q(4,5))
  assume "applyRecurringServicePeriodInvoiceLinkage r k = Inr r'"
  then have "rec_lifecycle_state r' = Billed"
    by (auto simp: applyRecurringServicePeriodInvoiceLinkage_def result_simps)
  with due show "\<not> isRecurringServicePeriodRecordDue r' q" by fastforce
qed

theorem due_once_witness:
  "\<exists>old new q. skipOrDeferRecurringServicePeriod (sample_context []) (sample_record ''b'' 1 Generated 20485 20513)
      Skip None = Inr (old, new)
    \<and> buildRecurringServicePeriodDueSelectionQuery ''t'' [''schedule'']
        (record_selector gregorian (sample_work\<lparr>rw_record := sample_record ''b'' 1 Generated 20485 20513\<rparr>)) None None = Inr q
    \<and> isRecurringServicePeriodRecordDue (sample_record ''b'' 1 Generated 20485 20513) q
    \<and> \<not> isRecurringServicePeriodRecordDue old q"
proof -
  let ?r = "sample_record ''b'' 1 Generated 20485 20513"
  let ?res = "skipOrDeferRecurringServicePeriod (sample_context []) ?r Skip None"
  let ?query = "buildRecurringServicePeriodDueSelectionQuery ''t'' [''schedule'']
        (record_selector gregorian (sample_work\<lparr>rw_record := ?r\<rparr>)) None None"
  have "case ?res of Inl _ \<Rightarrow> False | Inr _ \<Rightarrow> True" by code_simp
  then obtain old new where res: "?res = Inr (old, new)" by (cases ?res) auto
  then have mem: "(old, new) \<in> edit_results (sample_context []) ?r" by (auto simp: edit_results_def)
  have "case ?query of Inl _ \<Rightarrow> False | Inr q \<Rightarrow> isRecurringServicePeriodRecordDue ?r q" by code_simp
  then obtain q where q: "?query = Inr q" "isRecurringServicePeriodRecordDue ?r q" by (cases ?query) auto
  from due_once [OF q(1), of old new "sample_context []" ?r] mem have "\<not> isRecurringServicePeriodRecordDue old q" by blast
  with res q show ?thesis by blast
qed

end
