(* ===== verification/Run_Targets.thy ===== *)
theory Run_Targets
  imports Due_Work
begin

text \<open>
  \<open>selectContractCadenceRecurringRunTargets\<close> of \<open>shared/billingClients/recurringRunExecutionIdentity.ts\<close>:
  the invoice windows of a contract-cadence obligation that a billing run over a range of dates has to
  visit.
\<close>

datatype schedulable_frequency = Monthly_Frequency | Quarterly_Frequency | Semi_Annual_Frequency | Annual_Frequency

record run_target =
  rt_execution_window :: execution_window
  rt_selector_input :: due_selection_input
  rt_service_period_start :: iso8601
  rt_service_period_end :: iso8601

text \<open>\<open>rangesOverlap\<close> of this file compares the dates only.\<close>

definition windows_overlap :: "iso8601 \<times> iso8601 \<Rightarrow> iso8601 \<times> iso8601 \<Rightarrow> bool" where
  "windows_overlap left right \<longleftrightarrow>
     iso_day (fst left) < iso_day (snd right) \<and> iso_day (fst right) < iso_day (snd left)"

text \<open>The generator calls pass no cap on the number of periods.\<close>

fun getContractCadenceFrequencyDefinition ::
    "temporal \<Rightarrow> schedulable_frequency \<Rightarrow> int \<times> (iso8601 \<Rightarrow> iso8601 \<Rightarrow> obligation_ref \<Rightarrow> due_position
       \<Rightarrow> iso8601 \<Rightarrow> service_period list result)" where
  "getContractCadenceFrequencyDefinition td Monthly_Frequency =
     (1, \<lambda>s e ob dp a. generateMonthlyContractCadenceServicePeriods td s e ob dp a None)"
| "getContractCadenceFrequencyDefinition td Quarterly_Frequency =
     (3, \<lambda>s e ob dp a. generateQuarterlyContractCadenceServicePeriods td s e ob dp a None)"
| "getContractCadenceFrequencyDefinition td Semi_Annual_Frequency =
     (6, \<lambda>s e ob dp a. generateSemiAnnualContractCadenceServicePeriods td s e ob dp a None)"
| "getContractCadenceFrequencyDefinition td Annual_Frequency =
     (12, \<lambda>s e ob dp a. generateAnnualContractCadenceServicePeriods td s e ob dp a None)"

record target_input =
  ti_client_id :: string
  ti_frequency :: schedulable_frequency
  ti_due_position :: due_position
  ti_anchor_date :: iso8601
  ti_range_start :: iso8601
  ti_range_end :: iso8601
  ti_source_obligation :: obligation_ref
  ti_contract_id :: "string option"
  ti_contract_line_id :: "string option"

definition run_target_of ::
    "temporal \<Rightarrow> target_input \<Rightarrow> int \<Rightarrow> service_period \<Rightarrow> run_target result" where
  "run_target_of td inp monthsPerPeriod servicePeriod =
     and_then (resolveContractCadenceInvoiceWindowForServicePeriod td servicePeriod (ti_anchor_date inp)
         monthsPerPeriod None) (\<lambda>invoiceWindow.
       let selectorInput = buildContractCadenceDueSelectionInput td (ti_client_id inp)
             (range_start invoiceWindow) (range_end invoiceWindow) (ti_contract_id inp) (ti_contract_line_id inp)
       in Inr \<lparr>rt_execution_window = di_execution_window selectorInput, rt_selector_input = selectorInput,
            rt_service_period_start = range_start servicePeriod,
            rt_service_period_end = range_end servicePeriod\<rparr>)"

definition target_window :: "run_target \<Rightarrow> iso8601 \<times> iso8601" where
  "target_window t = (di_window_start (rt_selector_input t), di_window_end (rt_selector_input t))"

definition target_compare :: "(string \<Rightarrow> string \<Rightarrow> int) \<Rightarrow> run_target \<Rightarrow> run_target \<Rightarrow> int" where
  "target_compare lc left right =
     (if fst (target_window left) \<noteq> fst (target_window right)
      then locale_compare (fst (target_window left)) (fst (target_window right))
      else lc (ew_identity_key (rt_execution_window left)) (ew_identity_key (rt_execution_window right)))"

definition selectContractCadenceRecurringRunTargets ::
    "temporal \<Rightarrow> (string \<Rightarrow> string \<Rightarrow> int) \<Rightarrow> target_input \<Rightarrow> run_target list result" where
  "selectContractCadenceRecurringRunTargets td lc inp =
     (case getContractCadenceFrequencyDefinition td (ti_frequency inp) of (monthsPerPeriod, generate) \<Rightarrow>
       let servicePeriodSearchStart = utc_midnight (add_months td (iso_day (ti_range_start inp)) (- monthsPerPeriod));
           queryRange = (ti_range_start inp, ti_range_end inp)
       in and_then (generate servicePeriodSearchStart (ti_range_end inp) (ti_source_obligation inp)
            (ti_due_position inp) (ti_anchor_date inp)) (\<lambda>servicePeriods.
          and_then (traverse (run_target_of td inp monthsPerPeriod) servicePeriods) (\<lambda>targets.
            Inr (js_sort (target_compare lc) (filter (\<lambda>t. windows_overlap (target_window t) queryRange) targets)))))"

section \<open>Correctness\<close>

lemma frequency_definition:
  "getContractCadenceFrequencyDefinition td f = (fst (getContractCadenceFrequencyDefinition td f),
     \<lambda>s e ob dp a. buildContractCadenceServicePeriods td s e ob dp a None
       (fst (getContractCadenceFrequencyDefinition td f)))"
  "0 < fst (getContractCadenceFrequencyDefinition td f)"
  by (cases f; simp add: fun_eq_iff generateMonthlyContractCadenceServicePeriods_def
      generateQuarterlyContractCadenceServicePeriods_def generateSemiAnnualContractCadenceServicePeriods_def
      generateAnnualContractCadenceServicePeriods_def)+

context iso_calendar
begin

lemma search_start_before: "0 < p \<Longrightarrow> add_months td s (- p) < s"
  using add_months_strict_mono [of "- p" 0 s] by (simp add: add_months_0)

text \<open>Fewer than 97 periods of months between the bounds of the query keep the generator below its cap.\<close>

lemma search_below_cap:
  assumes p: "0 < p" and months: "month_index td e < month_index td s + 97 * p"
    and k: "add_months td s (- p) < nth_boundary td a p (k + 1)"
    and last: "nth_boundary td a p (k + 99) < e"
  shows False
proof -
  have "month_index td s - p \<le> month_index td a + (k + 1) * p"
    using iffD1 [OF date_less_iff k] by (auto simp: add_months_index nth_boundary_index)
  moreover have "month_index td a + (k + 99) * p \<le> month_index td e"
    using iffD1 [OF date_less_iff last] by (auto simp: nth_boundary_index)
  ultimately show False using months by (simp add: algebra_simps)
qed

text \<open>
  An arrears window that overlaps the query belongs to a period the search finds, when the anchor
  day occurs in every month.
\<close>

lemma arrears_period_found:
  assumes p: "0 < p" and day: "pd_day td a \<le> 28"
    and k: "nth_boundary td a p k \<le> add_months td s (- p)"
    and i: "s < nth_boundary td a p (i + 1)"
  shows "k < i"
proof (rule ccontr)
  let ?b = "nth_boundary td a p"
  assume "\<not> k < i"
  moreover have "?b k < ?b i \<longleftrightarrow> k < i" by (rule nth_boundary_less_iff [OF p])
  ultimately have before: "?b i \<le> add_months td s (- p)" using k by simp
  have "pd_day td (?b j) = pd_day td a" for j
    using day by (simp add: nth_boundary_def add_months_day_28)
  moreover have "pd_day td (add_months td s (- p)) \<le> pd_day td s" by (rule add_months_day)
  ultimately have "?b (i + 1) \<le> s"
    using iffD1 [OF date_le_iff before] by (intro iffD2 [OF date_le_iff])
      (auto simp: add_months_index nth_boundary_index algebra_simps)
  with i show False by simp
qed

end

lemma shift_index: "{f (j + 1) | j. 0 \<le> j \<and> P (j + 1)} = {f i | i. (1::int) \<le> i \<and> P i}" (is "?A = ?B")
proof
  show "?A \<subseteq> ?B" by force
  show "?B \<subseteq> ?A"
  proof
    fix x assume "x \<in> ?B"
    then obtain i where "x = f i" "1 \<le> i" "P i" by blast
    then have "x = f ((i - 1) + 1) \<and> 0 \<le> i - 1 \<and> P ((i - 1) + 1)" by simp
    then show "x \<in> ?A" by blast
  qed
qed

text \<open>The target of the period number \<open>j\<close> of the anchor, and its invoice window.\<close>

definition window_index :: "target_input \<Rightarrow> int \<Rightarrow> int" where
  "window_index inp j = (if ti_due_position inp = Arrears then j + 1 else j)"

definition boundary_window :: "temporal \<Rightarrow> int \<Rightarrow> int \<Rightarrow> int \<Rightarrow> iso8601 \<times> iso8601" where
  "boundary_window td a p i = (utc_midnight (nth_boundary td a p i), utc_midnight (nth_boundary td a p (i + 1)))"

definition period_target :: "temporal \<Rightarrow> target_input \<Rightarrow> int \<Rightarrow> int \<Rightarrow> int \<Rightarrow> run_target" where
  "period_target td inp a p j =
     (let w = boundary_window td a p (window_index inp j);
          selectorInput = buildContractCadenceDueSelectionInput td (ti_client_id inp) (fst w) (snd w)
            (ti_contract_id inp) (ti_contract_line_id inp)
      in \<lparr>rt_execution_window = di_execution_window selectorInput, rt_selector_input = selectorInput,
          rt_service_period_start = utc_midnight (nth_boundary td a p j),
          rt_service_period_end = utc_midnight (nth_boundary td a p (j + 1))\<rparr>)"

lemma target_window_period_target [simp]:
  "target_window (period_target td inp a p j) = boundary_window td a p (window_index inp j)"
  by (simp add: target_window_def period_target_def buildContractCadenceDueSelectionInput_def Let_def)

lemma windows_overlap_boundary:
  "windows_overlap (boundary_window td a p i) (utc_midnight s, utc_midnight e)
     \<longleftrightarrow> nth_boundary td a p i < e \<and> s < nth_boundary td a p (i + 1)"
  by (auto simp: windows_overlap_def boundary_window_def)

context iso_calendar
begin

lemma run_target_at:
  assumes "0 < p" "0 \<le> j" "ti_anchor_date inp = utc_midnight a"
  shows "run_target_of td inp p (contract_service_period td (utc_midnight (nth_boundary td a p j))
      (utc_midnight (nth_boundary td a p (j + 1))) ob (ti_due_position inp) (utc_midnight a))
    = Inr (period_target td inp a p j)"
  using contract_window_at [OF assms(1,2), of a ob "ti_due_position inp" "utc_midnight a" None] assms(3)
  by (simp add: run_target_of_def period_target_def boundary_window_def window_index_def Let_def
      contract_service_period_def)

lemma select_targets_spec:
  fixes a :: int
  defines "p f \<equiv> fst (getContractCadenceFrequencyDefinition td f)"
  assumes inp: "ti_anchor_date inp = utc_midnight a" "ti_range_start inp = utc_midnight s"
      "ti_range_end inp = utc_midnight e"
    and range: "s < e" "a < e"
    and p: "q = p (ti_frequency inp)"
  obtains k n where "selectContractCadenceRecurringRunTargets td lc inp =
      Inr (js_sort (target_compare lc) (filter (\<lambda>t. windows_overlap (target_window t) (utc_midnight s, utc_midnight e))
        (map (\<lambda>i. period_target td inp a q (k + int i)) [0..<n])))"
    "0 \<le> k" "add_months td s (- q) < nth_boundary td a q (k + 1)"
    "k \<noteq> 0 \<Longrightarrow> nth_boundary td a q k \<le> add_months td s (- q)"
    "n < 100 \<Longrightarrow> e \<le> nth_boundary td a q (k + int n)" "0 < n \<Longrightarrow> nth_boundary td a q (k + int n - 1) < e" "n \<le> 100"
proof -
  have q: "0 < q" using p frequency_definition(2) by (simp add: p_def)
  let ?s = "add_months td s (- q)"
  have s: "?s < e" using search_start_before [OF q, of s] range(1) by simp
  obtain ps k where ps: "buildContractCadenceServicePeriods td (utc_midnight ?s) (utc_midnight e)
      (ti_source_obligation inp) (ti_due_position inp) (utc_midnight a) None q = Inr ps"
    and k: "0 \<le> k" "?s < nth_boundary td a q (k + 1)" "a \<le> ?s \<Longrightarrow> nth_boundary td a q k \<le> ?s" "?s \<le> a \<Longrightarrow> k = 0"
    and len: "length ps \<le> contract_period_limit None"
      "length ps < contract_period_limit None \<Longrightarrow> e \<le> nth_boundary td a q (k + int (length ps))"
    and nth: "\<forall>i < length ps. ps ! i = contract_service_period td
          (utc_midnight (nth_boundary td a q (k + int i)))
          (utc_midnight (nth_boundary td a q (k + int i + 1))) (ti_source_obligation inp) (ti_due_position inp)
          (utc_midnight a) \<and> nth_boundary td a q (k + int i) < e"
    using build_contract_spec [OF q s range(2), of "ti_source_obligation inp" "ti_due_position inp" None] by metis
  have limit: "contract_period_limit None = 100"
    by (simp add: contract_period_limit_def DEFAULT_CONTRACT_CADENCE_GENERATION_MAX_PERIODS_def)
  let ?ts = "map (\<lambda>i. period_target td inp a q (k + int i)) [0..<length ps]"
  have "traverse (run_target_of td inp q) ps = Inr ?ts"
    unfolding traverse_Inr_iff
  proof (rule list_all2_all_nthI)
    show "length ps = length ?ts" by simp
    fix i assume i: "i < length ps"
    then show "run_target_of td inp q (ps ! i) = Inr (?ts ! i)"
      using run_target_at [OF q, of "k + int i" inp a] nth k(1) inp(1) by simp
  qed
  moreover have "getContractCadenceFrequencyDefinition td (ti_frequency inp) = (q,
     \<lambda>s e ob dp a. buildContractCadenceServicePeriods td s e ob dp a None q)"
    using frequency_definition(1) [of td "ti_frequency inp"] by (simp add: p p_def)
  ultimately have "selectContractCadenceRecurringRunTargets td lc inp =
      Inr (js_sort (target_compare lc) (filter (\<lambda>t. windows_overlap (target_window t) (utc_midnight s, utc_midnight e)) ?ts))"
    by (simp add: selectContractCadenceRecurringRunTargets_def inp ps Let_def)
  moreover have "nth_boundary td a q (k + int (length ps) - 1) < e" if "0 < length ps"
    using nth [rule_format, of "length ps - 1"] that by (simp add: of_nat_diff Suc_le_eq add_diff_eq)
  moreover have "nth_boundary td a q k \<le> ?s" if "k \<noteq> 0"
    using k(3,4) that by (cases "a \<le> ?s") simp_all
  ultimately show ?thesis using k(1,2) len unfolding limit by (intro that [of k "length ps"]) auto
qed

lemma overlapping_periods_found:
  assumes q: "0 < q" and months: "month_index td e < month_index td s + 97 * q"
    and due: "ti_due_position inp = Advance \<or> pd_day td a \<le> 28"
    and k: "0 \<le> k" "add_months td s (- q) < nth_boundary td a q (k + 1)"
      "k \<noteq> 0 \<Longrightarrow> nth_boundary td a q k \<le> add_months td s (- q)"
    and n: "n < 100 \<Longrightarrow> e \<le> nth_boundary td a q (k + int n)" "0 < n \<Longrightarrow> nth_boundary td a q (k + int n - 1) < e"
      "n \<le> 100"
    and j: "0 \<le> j" "nth_boundary td a q (window_index inp j) < e" "s < nth_boundary td a q (window_index inp j + 1)"
  shows "k \<le> j \<and> j < k + int n"
proof -
  let ?b = "nth_boundary td a q"
  have mono: "?b x < ?b y \<longleftrightarrow> x < y" for x y by (rule nth_boundary_less_iff [OF q])
  have "n \<noteq> 100"
  proof
    assume "n = 100"
    then have "?b (k + 99) < e" using n(2) by (simp add: add.commute)
    with search_below_cap [OF q months k(2)] show False by simp
  qed
  then have "e \<le> ?b (k + int n)" using n(1,3) by simp
  moreover have "?b j \<le> ?b (window_index inp j)"
    using mono [of j "j + 1"] by (auto simp: window_index_def)
  ultimately have "?b j < ?b (k + int n)" using j(2) by simp
  then have upper: "j < k + int n" using mono by simp
  have "k \<le> j"
  proof (cases "k = 0")
    case True
    with j(1) show ?thesis by simp
  next
    case False
    note early = k(3) [OF False]
    show ?thesis
    proof (cases "ti_due_position inp")
      case Advance
      then have "s < ?b (j + 1)" using j(3) by (simp add: window_index_def)
      moreover have "?b k < s" using early search_start_before [OF q, of s] by simp
      ultimately have "?b k < ?b (j + 1)" by simp
      then show ?thesis using mono by simp
    next
      case Arrears
      then have "s < ?b (j + 1 + 1)" "pd_day td a \<le> 28" using j(3) due by (simp_all add: window_index_def)
      then show ?thesis using arrears_period_found [OF q _ early, of "j + 1"] by simp
    qed
  qed
  with upper show ?thesis by simp
qed

lemma distinct_period_targets:
  "0 < q \<Longrightarrow> distinct (map (\<lambda>i. boundary_window td a q (window_index inp (k + int i))) [0..<n])"
proof -
  assume q: "0 < q"
  have "nth_boundary td a q x = nth_boundary td a q y \<longleftrightarrow> x = y" for x y
    using nth_boundary_less_iff [OF q, of a x y] nth_boundary_less_iff [OF q, of a y x] by (cases x y rule: linorder_cases) auto
  then show ?thesis
    by (auto simp: distinct_map inj_on_def boundary_window_def window_index_def split: if_splits)
qed

end

text \<open>
  C24: the windows a billing run over the dates from \<open>s\<close> to \<open>e\<close> visits are exactly the
  invoice windows of the cadence that overlap the dates, each once, when the obligation is due in
  advance or its anchor day occurs in every month, and the dates span fewer than 97 periods.
\<close>

theorem run_targets_are_overlapping_windows:
  assumes "iso_calendar td"
    and "ti_anchor_date inp = utc_midnight a" "ti_range_start inp = utc_midnight s" "ti_range_end inp = utc_midnight e"
    and "s < e" "a < e" "q = fst (getContractCadenceFrequencyDefinition td (ti_frequency inp))"
    and "ti_due_position inp = Advance \<or> pd_day td a \<le> 28" "month_index td e < month_index td s + 97 * q"
  shows "\<exists>targets. selectContractCadenceRecurringRunTargets td lc inp = Inr targets
    \<and> distinct (map target_window targets)
    \<and> set (map target_window targets) =
        {boundary_window td a q i | i. (if ti_due_position inp = Arrears then 1 else 0) \<le> i
          \<and> nth_boundary td a q i < e \<and> s < nth_boundary td a q (i + 1)}"
proof -
  have q: "0 < q" using assms(7) frequency_definition(2) by simp
  obtain k n where sel: "selectContractCadenceRecurringRunTargets td lc inp =
      Inr (js_sort (target_compare lc) (filter (\<lambda>t. windows_overlap (target_window t) (utc_midnight s, utc_midnight e))
        (map (\<lambda>i. period_target td inp a q (k + int i)) [0..<n])))"
    and k: "0 \<le> k" "add_months td s (- q) < nth_boundary td a q (k + 1)"
      "k \<noteq> 0 \<Longrightarrow> nth_boundary td a q k \<le> add_months td s (- q)"
    and n: "n < 100 \<Longrightarrow> e \<le> nth_boundary td a q (k + int n)" "0 < n \<Longrightarrow> nth_boundary td a q (k + int n - 1) < e"
      "n \<le> 100"
    using iso_calendar.select_targets_spec [OF assms(1-7)] by metis
  let ?w = "\<lambda>j. boundary_window td a q (window_index inp j)"
  let ?hit = "\<lambda>i. nth_boundary td a q i < e \<and> s < nth_boundary td a q (i + 1)"
  let ?targets = "js_sort (target_compare lc) (filter (\<lambda>t. windows_overlap (target_window t) (utc_midnight s, utc_midnight e))
        (map (\<lambda>i. period_target td inp a q (k + int i)) [0..<n]))"
  have "distinct (map target_window ?targets)"
    using iso_calendar.distinct_period_targets [OF assms(1) q, of a inp k n]
    by (simp add: distinct_map_filter comp_def)
  moreover have "set (map target_window ?targets) = {?w j | j. k \<le> j \<and> j < k + int n \<and> ?hit (window_index inp j)}"
    (is "_ = ?R")
  proof
    show "set (map target_window ?targets) \<subseteq> ?R"
      by (auto simp: windows_overlap_boundary)
    show "?R \<subseteq> set (map target_window ?targets)"
    proof
      fix w assume "w \<in> ?R"
      then obtain j where j: "w = ?w j" "k \<le> j" "j < k + int n" "?hit (window_index inp j)" by blast
      then have "nat (j - k) < n" "k + int (nat (j - k)) = j" by auto
      with j show "w \<in> set (map target_window ?targets)"
        by (auto simp: windows_overlap_boundary image_iff intro!: bexI [of _ "nat (j - k)"])
    qed
  qed
  moreover have "?R = {?w j | j. 0 \<le> j \<and> ?hit (window_index inp j)}"
    using iso_calendar.overlapping_periods_found [OF assms(1) q assms(9,8) k n] k(1) by force
  moreover have "\<dots> = {boundary_window td a q i | i. (if ti_due_position inp = Arrears then 1 else 0) \<le> i \<and> ?hit i}"
  proof (cases "ti_due_position inp")
    case Arrears
    then show ?thesis
      using shift_index [of "boundary_window td a q" ?hit] by (simp only: window_index_def refl if_True)
  qed (simp add: window_index_def)
  ultimately have "distinct (map target_window ?targets) \<and> set (map target_window ?targets) =
      {boundary_window td a q i | i. (if ti_due_position inp = Arrears then 1 else 0) \<le> i \<and> ?hit i}" by simp
  with sel show ?thesis by blast
qed

definition sample_target_input :: "due_position \<Rightarrow> int \<Rightarrow> int \<Rightarrow> int \<Rightarrow> target_input" where
  "sample_target_input dp a s e = \<lparr>ti_client_id = ''c'', ti_frequency = Monthly_Frequency, ti_due_position = dp,
     ti_anchor_date = utc_midnight a, ti_range_start = utc_midnight s, ti_range_end = utc_midnight e,
     ti_source_obligation = sample_obligation, ti_contract_id = Some ''k'', ti_contract_line_id = Some ''l''\<rparr>"

theorem run_targets_are_overlapping_windows_witness:
  "\<exists>targets. selectContractCadenceRecurringRunTargets gregorian locale_compare
       (sample_target_input Arrears 20468 20540 20542) = Inr targets
     \<and> boundary_window gregorian 20468 1 2 \<in> set (map target_window targets)"
proof -
  let ?inp = "sample_target_input Arrears 20468 20540 20542"
  have 1: "fst (getContractCadenceFrequencyDefinition gregorian (ti_frequency ?inp)) = 1"
    by (simp add: sample_target_input_def)
  have 2: "pd_day gregorian 20468 \<le> 28"
    "month_index gregorian 20542 < month_index gregorian 20540 + 97 * 1"
    "nth_boundary gregorian 20468 1 2 < 20542 \<and> 20540 < nth_boundary gregorian 20468 1 (2 + 1)"
    by code_simp+
  from run_targets_are_overlapping_windows [OF gregorian_is_calendar, of ?inp 20468 20540 20542 1 locale_compare] 1 2
  have "\<exists>targets. selectContractCadenceRecurringRunTargets gregorian locale_compare ?inp = Inr targets
     \<and> set (map target_window targets) = {boundary_window gregorian 20468 1 i | i. 1 \<le> i
          \<and> nth_boundary gregorian 20468 1 i < 20542 \<and> 20540 < nth_boundary gregorian 20468 1 (i + 1)}"
    by (auto simp: sample_target_input_def)
  moreover have "boundary_window gregorian 20468 1 2 \<in> {boundary_window gregorian 20468 1 i | i. 1 \<le> i
          \<and> nth_boundary gregorian 20468 1 i < 20542 \<and> 20540 < nth_boundary gregorian 20468 1 (i + 1)}"
    using 2(3) by force
  ultimately show ?thesis by blast
qed

text \<open>
  With an anchor on the 31st the bound on the anchor day is needed: the arrears window from
  2026-02-28 to 2026-03-31 overlaps the dates 2026-03-28 to 2026-03-30, but the period it invoices is
  not searched, because the search starts at the clamped date 2026-02-28, where that period ends.
\<close>

theorem run_targets_miss_month_end_window:
  "selectContractCadenceRecurringRunTargets gregorian locale_compare (sample_target_input Arrears 20484 20540 20542)
      = Inr []
    \<and> windows_overlap (boundary_window gregorian 20484 1 1) (utc_midnight 20540, utc_midnight 20542)
    \<and> resolveContractCadenceInvoiceWindowForServicePeriod gregorian
        (contract_service_period gregorian (utc_midnight 20484) (utc_midnight 20512) sample_obligation Arrears
          (utc_midnight 20484)) (utc_midnight 20484) 1 None
      = Inr \<lparr>range_start = utc_midnight 20512, range_end = utc_midnight 20543, range_semantics = Half_Open,
          iw_cadence_owner = Contract, iw_due_position = Arrears, iw_window_id = None\<rparr>"
  by code_simp
end
