(* ===== verification/Ledger_Views.thy ===== *)
theory Ledger_Views
  imports Due_Work Generation_Horizon "HOL-Library.AList"
begin

text \<open>
  Reading the ledger (\<open>shared/billingClients\<close>): the listing of records
  (\<open>recurringServicePeriodListing.ts\<close>), the operational view with its counts
  (\<open>recurringServicePeriodOperationalView.ts\<close>), the comparison of derived timing with the persisted
  schedule (\<open>recurringServicePeriodParity.ts\<close>), and the decision whether an edit of the source data
  regenerates a schedule (\<open>recurringServicePeriodRegenerationTriggers.ts\<close>).
\<close>

section \<open>Listing\<close>

definition DEFAULT_RECURRING_SERVICE_PERIOD_LISTING_STATES :: "lifecycle_state list" where
  "DEFAULT_RECURRING_SERVICE_PERIOD_LISTING_STATES = [Generated, Edited, Skipped, Locked]"

record listing_query =
  lq_tenant :: string
  lq_as_of :: iso8601
  lq_schedule_keys :: "string list option"
  lq_cadence_owner :: "cadence_owner option"
  lq_due_position :: "due_position option"
  lq_lifecycle_states :: "lifecycle_state list"
  lq_charge_families :: "charge_family list option"

definition buildRecurringServicePeriodListingQuery ::
    "string \<Rightarrow> iso8601 \<Rightarrow> string list option \<Rightarrow> cadence_owner option \<Rightarrow> due_position option
       \<Rightarrow> lifecycle_state list option \<Rightarrow> charge_family list option \<Rightarrow> listing_query" where
  "buildRecurringServicePeriodListingQuery tenant asOf scheduleKeys owner dp states families =
     \<lparr>lq_tenant = tenant, lq_as_of = asOf,
      lq_schedule_keys =
        map_option (\<lambda>ks. js_sort locale_compare (js_unique (filter (\<lambda>k. k \<noteq> []) ks))) scheduleKeys,
      lq_cadence_owner = owner, lq_due_position = dp,
      lq_lifecycle_states = or_else states DEFAULT_RECURRING_SERVICE_PERIOD_LISTING_STATES,
      lq_charge_families = families\<rparr>"

text \<open>\<open>!filter || test(filter)\<close>\<close>

definition unless_given :: "'a option \<Rightarrow> ('a \<Rightarrow> bool) \<Rightarrow> bool" where
  "unless_given v test = (case v of None \<Rightarrow> True | Some x \<Rightarrow> test x)"

definition listed :: "listing_query \<Rightarrow> period_record \<Rightarrow> bool" where
  "listed query r \<longleftrightarrow>
     ob_tenant (rec_source_obligation r) = Some (lq_tenant query)
     \<and> range_end (rec_service_period r) > lq_as_of query
     \<and> rec_lifecycle_state r \<in> set (lq_lifecycle_states query)
     \<and> unless_given (lq_schedule_keys query) (\<lambda>ks. rec_schedule_key r \<in> set ks)
     \<and> unless_given (lq_cadence_owner query) (\<lambda>owner. rec_cadence_owner r = owner)
     \<and> unless_given (lq_due_position query) (\<lambda>dp. rec_due_position r = dp)
     \<and> unless_given (lq_charge_families query) (\<lambda>fs. ob_charge_family (rec_source_obligation r) \<in> set fs)"

text \<open>The comparator is that of the due selection.\<close>

definition listRecurringServicePeriodRecords ::
    "(string \<Rightarrow> string \<Rightarrow> int) \<Rightarrow> period_record list \<Rightarrow> listing_query \<Rightarrow> period_record list" where
  "listRecurringServicePeriodRecords lc records query = js_sort (due_compare lc) (filter (listed query) records)"

section \<open>The operational view\<close>

record view_row =
  vr_record_id :: string
  vr_schedule_key :: string
  vr_revision :: int
  vr_cadence_owner :: cadence_owner
  vr_due_position :: due_position
  vr_source_obligation :: obligation_ref
  vr_charge_family :: charge_family
  vr_service_period :: date_range
  vr_invoice_window :: date_range
  vr_activity_window :: "activity_window option"
  vr_display_state :: display_state
  vr_is_exception :: bool

record view_summary =
  vs_total_rows :: nat
  vs_exception_rows :: nat
  vs_generated_rows :: nat
  vs_edited_rows :: nat
  vs_skipped_rows :: nat
  vs_locked_rows :: nat

record operational_view =
  ov_query :: listing_query
  ov_summary :: view_summary
  ov_rows :: "view_row list"

definition EXCEPTION_LIFECYCLE_STATES :: "lifecycle_state set" where
  "EXCEPTION_LIFECYCLE_STATES = {Edited, Skipped, Locked}"

definition count_row :: "view_summary \<Rightarrow> view_row \<Rightarrow> view_summary" where
  "count_row summary row =
     (let s = summary\<lparr>vs_total_rows := vs_total_rows summary + 1\<rparr>;
          s = (if vr_is_exception row then s\<lparr>vs_exception_rows := vs_exception_rows s + 1\<rparr> else s)
      in case dsp_lifecycle_state (vr_display_state row) of
        Generated \<Rightarrow> s\<lparr>vs_generated_rows := vs_generated_rows s + 1\<rparr>
      | Edited \<Rightarrow> s\<lparr>vs_edited_rows := vs_edited_rows s + 1\<rparr>
      | Skipped \<Rightarrow> s\<lparr>vs_skipped_rows := vs_skipped_rows s + 1\<rparr>
      | Locked \<Rightarrow> s\<lparr>vs_locked_rows := vs_locked_rows s + 1\<rparr>
      | _ \<Rightarrow> s)"

definition buildOperationalSummary :: "view_row list \<Rightarrow> view_summary" where
  "buildOperationalSummary rows = foldl count_row
     \<lparr>vs_total_rows = 0, vs_exception_rows = 0, vs_generated_rows = 0, vs_edited_rows = 0,
      vs_skipped_rows = 0, vs_locked_rows = 0\<rparr> rows"

definition view_row_of :: "period_record \<Rightarrow> view_row" where
  "view_row_of r =
     \<lparr>vr_record_id = rec_id r, vr_schedule_key = rec_schedule_key r, vr_revision = rec_revision r,
      vr_cadence_owner = rec_cadence_owner r, vr_due_position = rec_due_position r,
      vr_source_obligation = rec_source_obligation r,
      vr_charge_family = ob_charge_family (rec_source_obligation r),
      vr_service_period = rec_service_period r, vr_invoice_window = rec_invoice_window r,
      vr_activity_window = rec_activity_window r,
      vr_display_state = getRecurringServicePeriodDisplayState r,
      vr_is_exception = (rec_lifecycle_state r \<in> EXCEPTION_LIFECYCLE_STATES)\<rparr>"

definition buildRecurringServicePeriodOperationalView ::
    "(string \<Rightarrow> string \<Rightarrow> int) \<Rightarrow> period_record list \<Rightarrow> listing_query \<Rightarrow> operational_view" where
  "buildRecurringServicePeriodOperationalView lc records query =
     (let rows = map view_row_of (listRecurringServicePeriodRecords lc records query)
      in \<lparr>ov_query = query, ov_summary = buildOperationalSummary rows, ov_rows = rows\<rparr>)"

section \<open>Parity of derived and persisted timing\<close>

text \<open>
  A \<open>Map\<close> is an association list in insertion order: \<open>AList.update\<close> keeps the place of a key
  that is set again, and \<open>AList.delete\<close> removes it.
\<close>

definition DEFAULT_RECURRING_SERVICE_PERIOD_PARITY_COMPARISON_STATES :: "lifecycle_state list" where
  "DEFAULT_RECURRING_SERVICE_PERIOD_PARITY_COMPARISON_STATES = [Generated, Edited, Locked, Billed]"

datatype drift_kind = Missing_Persisted_Period | Unexpected_Persisted_Period | Invoice_Window_Mismatch

record parity_drift =
  pd_kind :: drift_kind
  pd_schedule_key :: string
  pd_period_key :: string
  pd_obligation_id :: string
  pd_cadence_owner :: cadence_owner
  pd_due_position :: due_position
  pd_service_period_start :: iso8601
  pd_service_period_end :: iso8601
  pd_derived_window_start :: "iso8601 option"
  pd_derived_window_end :: "iso8601 option"
  pd_persisted_window_start :: "iso8601 option"
  pd_persisted_window_end :: "iso8601 option"
  pd_persisted_lifecycle_state :: "lifecycle_state option"

record parity_result =
  pr_matches :: bool
  pr_drifts :: "parity_drift list"

record normalized_timing =
  nt_composite_key :: string
  nt_schedule_key :: string
  nt_period_key :: string
  nt_obligation_id :: string
  nt_cadence_owner :: cadence_owner
  nt_due_position :: due_position
  nt_service_period_start :: iso8601
  nt_service_period_end :: iso8601
  nt_invoice_window_start :: iso8601
  nt_invoice_window_end :: iso8601

record normalized_record = normalized_timing +
  nt_lifecycle_state :: lifecycle_state

definition buildCompositeKey :: "string \<Rightarrow> string \<Rightarrow> string" where
  "buildCompositeKey scheduleKey periodKey = scheduleKey @ ''::'' @ periodKey"

definition normalizeDerivedSelection :: "temporal \<Rightarrow> string \<Rightarrow> due_selection \<Rightarrow> normalized_timing" where
  "normalizeDerivedSelection td tenant selection =
     (let sp = ds_service_period selection;
          scheduleKey = buildRecurringServicePeriodScheduleKey
            ((sp_source_obligation sp)\<lparr>ob_tenant := Some tenant\<rparr>) (sp_cadence_owner sp) (sp_due_position sp);
          periodKey = buildRecurringServicePeriodPeriodKey td sp
      in \<lparr>nt_composite_key = buildCompositeKey scheduleKey periodKey,
          nt_schedule_key = scheduleKey, nt_period_key = periodKey,
          nt_obligation_id = ob_id (sp_source_obligation sp),
          nt_cadence_owner = sp_cadence_owner sp, nt_due_position = sp_due_position sp,
          nt_service_period_start = slice_date (range_start sp),
          nt_service_period_end = slice_date (range_end sp),
          nt_invoice_window_start = slice_date (range_start (ds_invoice_window selection)),
          nt_invoice_window_end = slice_date (range_end (ds_invoice_window selection))\<rparr>)"

definition normalizePersistedRecord :: "period_record \<Rightarrow> normalized_record" where
  "normalizePersistedRecord r =
     \<lparr>nt_composite_key = buildCompositeKey (rec_schedule_key r) (rec_period_key r),
      nt_schedule_key = rec_schedule_key r, nt_period_key = rec_period_key r,
      nt_obligation_id = ob_id (rec_source_obligation r),
      nt_cadence_owner = rec_cadence_owner r, nt_due_position = rec_due_position r,
      nt_service_period_start = slice_date (range_start (rec_service_period r)),
      nt_service_period_end = slice_date (range_end (rec_service_period r)),
      nt_invoice_window_start = slice_date (range_start (rec_invoice_window r)),
      nt_invoice_window_end = slice_date (range_end (rec_invoice_window r)),
      nt_lifecycle_state = rec_lifecycle_state r\<rparr>"

definition drift_of :: "drift_kind \<Rightarrow> ('a normalized_timing_scheme) \<Rightarrow> normalized_timing option
    \<Rightarrow> normalized_record option \<Rightarrow> parity_drift" where
  "drift_of kind timing derived persisted =
     \<lparr>pd_kind = kind, pd_schedule_key = nt_schedule_key timing, pd_period_key = nt_period_key timing,
      pd_obligation_id = nt_obligation_id timing, pd_cadence_owner = nt_cadence_owner timing,
      pd_due_position = nt_due_position timing,
      pd_service_period_start = nt_service_period_start timing,
      pd_service_period_end = nt_service_period_end timing,
      pd_derived_window_start = map_option nt_invoice_window_start derived,
      pd_derived_window_end = map_option nt_invoice_window_end derived,
      pd_persisted_window_start = map_option nt_invoice_window_start persisted,
      pd_persisted_window_end = map_option nt_invoice_window_end persisted,
      pd_persisted_lifecycle_state = map_option nt_lifecycle_state persisted\<rparr>"

definition same_invoice_window :: "('a normalized_timing_scheme) \<Rightarrow> ('b normalized_timing_scheme) \<Rightarrow> bool" where
  "same_invoice_window p d \<longleftrightarrow> nt_invoice_window_start p = nt_invoice_window_start d
     \<and> nt_invoice_window_end p = nt_invoice_window_end d"

text \<open>The loop over the derived selections: the map that is left, and the drifts in order.\<close>

fun compare_selections :: "normalized_timing list \<Rightarrow> (string \<times> normalized_record) list
    \<Rightarrow> parity_drift list \<times> (string \<times> normalized_record) list" where
  "compare_selections [] persistedByKey = ([], persistedByKey)"
| "compare_selections (d # ds) persistedByKey =
     (case map_of persistedByKey (nt_composite_key d) of
        None \<Rightarrow> (case compare_selections ds persistedByKey of
          (drifts, rest) \<Rightarrow> (drift_of Missing_Persisted_Period d (Some d) None # drifts, rest))
      | Some persisted \<Rightarrow> (case compare_selections ds (AList.delete (nt_composite_key d) persistedByKey) of
          (drifts, rest) \<Rightarrow>
            (if same_invoice_window persisted d then (drifts, rest)
             else (drift_of Invoice_Window_Mismatch d (Some d) (Some persisted) # drifts, rest))))"

definition persisted_by_key :: "lifecycle_state list \<Rightarrow> period_record list \<Rightarrow> (string \<times> normalized_record) list" where
  "persisted_by_key allowedStates records =
     fold (\<lambda>r. AList.update (nt_composite_key r) r)
       (map normalizePersistedRecord (filter (\<lambda>r. rec_lifecycle_state r \<in> set allowedStates) records)) []"

definition compareDerivedRecurringTimingToPersistedSchedule ::
    "temporal \<Rightarrow> string \<Rightarrow> due_selection list \<Rightarrow> period_record list \<Rightarrow> lifecycle_state list option
       \<Rightarrow> parity_result" where
  "compareDerivedRecurringTimingToPersistedSchedule td tenant derivedSelections persistedRecords lifecycleStates =
     (let allowedStates = or_else lifecycleStates DEFAULT_RECURRING_SERVICE_PERIOD_PARITY_COMPARISON_STATES;
          persistedByKey = persisted_by_key allowedStates persistedRecords
      in case compare_selections (map (normalizeDerivedSelection td tenant) derivedSelections) persistedByKey of
        (drifts, rest) \<Rightarrow>
          let drifts = drifts @ map (\<lambda>p. drift_of Unexpected_Persisted_Period p None (Some p)) (map snd rest)
          in \<lparr>pr_matches = (length drifts = 0), pr_drifts = drifts\<rparr>)"

section \<open>Regeneration triggers\<close>

datatype trigger_source = Contract_Line_Edit | Contract_Assignment_Edit | Billing_Schedule_Edit

datatype trigger_kind =
    Contract_Line_Edit_Trigger
  | Contract_Assignment_Edit_Trigger
  | Cadence_Owner_Change_Trigger
  | Billing_Schedule_Change_Trigger

datatype regeneration_scope = Obligation_Schedule_Only | Replace_Schedule_Identity | Client_Cadence_Dependents

record trigger_input =
  tr_source :: trigger_source
  tr_changed_fields :: "string list"
  tr_cadence_owner_before :: "cadence_owner option"
  tr_cadence_owner_after :: "cadence_owner option"

record regeneration_decision =
  gd_should_regenerate :: bool
  gd_trigger_kind :: "trigger_kind option"
  gd_reason_code :: "string option"
  gd_scope :: "regeneration_scope option"
  gd_changed_fields :: "string list"
  gd_affected_cadence_owners :: "cadence_owner list"
  gd_preserve_edited_rows :: bool
  gd_preserve_billed_history :: bool
  gd_reason :: string
  gd_notes :: "string list"

definition CONTRACT_LINE_REGENERATION_FIELDS :: "string list" where
  "CONTRACT_LINE_REGENERATION_FIELDS =
     [''billing_frequency'', ''billing_timing'', ''start_date'', ''end_date'', ''service_start_date'',
      ''service_end_date'', ''cadence_owner'']"

definition CONTRACT_ASSIGNMENT_REGENERATION_FIELDS :: "string list" where
  "CONTRACT_ASSIGNMENT_REGENERATION_FIELDS =
     [''assignment_start_date'', ''assignment_end_date'', ''service_start_date'', ''service_end_date'',
      ''start_date'', ''end_date'']"

definition BILLING_SCHEDULE_REGENERATION_FIELDS :: "string list" where
  "BILLING_SCHEDULE_REGENERATION_FIELDS =
     [''billing_frequency'', ''billing_day_of_month'', ''billing_month'', ''billing_anchor_date'',
      ''billing_cycle_anchor'', ''next_billing_date'']"

definition uniqueCadenceOwners :: "cadence_owner option list \<Rightarrow> cadence_owner list" where
  "uniqueCadenceOwners owners = js_unique (List.map_filter (\<lambda>owner. owner) owners)"

definition collectMatchingFields :: "string list \<Rightarrow> string list \<Rightarrow> string list" where
  "collectMatchingFields changedFields triggerFields = filter (\<lambda>field. field \<in> set triggerFields) changedFields"

fun trigger_fields :: "trigger_source \<Rightarrow> string list" where
  "trigger_fields Contract_Line_Edit = CONTRACT_LINE_REGENERATION_FIELDS"
| "trigger_fields Contract_Assignment_Edit = CONTRACT_ASSIGNMENT_REGENERATION_FIELDS"
| "trigger_fields Billing_Schedule_Edit = BILLING_SCHEDULE_REGENERATION_FIELDS"

definition resolveRecurringServicePeriodRegenerationDecision :: "trigger_input \<Rightarrow> regeneration_decision" where
  "resolveRecurringServicePeriodRegenerationDecision inp =
     (let changedFields = js_unique (tr_changed_fields inp);
          cadenceOwnerChanged = (tr_cadence_owner_before inp \<noteq> None \<and> tr_cadence_owner_after inp \<noteq> None
            \<and> tr_cadence_owner_before inp \<noteq> tr_cadence_owner_after inp);
          triggerFields = collectMatchingFields changedFields (trigger_fields (tr_source inp));
          joined = join_with '', '' triggerFields;
          owners = uniqueCadenceOwners [tr_cadence_owner_after inp, tr_cadence_owner_before inp]
      in if tr_source inp = Contract_Line_Edit \<and> cadenceOwnerChanged then
        \<lparr>gd_should_regenerate = True, gd_trigger_kind = Some Cadence_Owner_Change_Trigger,
         gd_reason_code = Some ''cadence_owner_changed'', gd_scope = Some Replace_Schedule_Identity,
         gd_changed_fields = changedFields,
         gd_affected_cadence_owners =
           uniqueCadenceOwners [tr_cadence_owner_before inp, tr_cadence_owner_after inp],
         gd_preserve_edited_rows = True, gd_preserve_billed_history = True,
         gd_reason = ''Changing cadence owner replaces the future schedule identity instead of mutating billed history in place.'',
         gd_notes = [''Supersede untouched future rows on the prior schedule key.'',
           ''Materialize future rows on the new cadence-owner schedule key.'',
           ''Preserve edited, locked, and billed rows under the existing override and immutability rules.'']\<rparr>
      else if tr_source inp = Contract_Line_Edit \<and> length triggerFields > 0 then
        \<lparr>gd_should_regenerate = True, gd_trigger_kind = Some Contract_Line_Edit_Trigger,
         gd_reason_code = Some ''source_rule_changed'', gd_scope = Some Obligation_Schedule_Only,
         gd_changed_fields = changedFields, gd_affected_cadence_owners = owners,
         gd_preserve_edited_rows = True, gd_preserve_billed_history = True,
         gd_reason = ''Contract-line recurrence fields changed ('' @ joined @
           ''), so future service-period and invoice-window candidates must be rebuilt for that obligation.'',
         gd_notes = [''Only recurrence-shaping fields trigger service-period regeneration.'',
           ''Pure pricing changes still affect billing amounts later, but do not rebuild the persisted schedule.'']\<rparr>
      else if tr_source inp = Contract_Assignment_Edit \<and> length triggerFields > 0 then
        \<lparr>gd_should_regenerate = True, gd_trigger_kind = Some Contract_Assignment_Edit_Trigger,
         gd_reason_code = Some ''activity_window_changed'', gd_scope = Some Obligation_Schedule_Only,
         gd_changed_fields = changedFields, gd_affected_cadence_owners = owners,
         gd_preserve_edited_rows = True, gd_preserve_billed_history = True,
         gd_reason = ''Assignment activity-window fields changed ('' @ joined @
           ''), so future coverage clipping must be regenerated for that obligation.'',
         gd_notes = [''This changes activity-window intersection and may alter partial first or final coverage.'',
           ''Billed history remains immutable and edited future overrides stay preserved.'']\<rparr>
      else if tr_source inp = Billing_Schedule_Edit \<and> length triggerFields > 0 then
        \<lparr>gd_should_regenerate = True, gd_trigger_kind = Some Billing_Schedule_Change_Trigger,
         gd_reason_code = Some ''billing_schedule_changed'', gd_scope = Some Client_Cadence_Dependents,
         gd_changed_fields = changedFields, gd_affected_cadence_owners = [Client],
         gd_preserve_edited_rows = True, gd_preserve_billed_history = True,
         gd_reason = ''Client billing-schedule fields changed ('' @ joined @
           ''), so client-cadence obligations that depend on that schedule need regenerated future invoice windows.'',
         gd_notes = [''Only client-cadence obligations are in scope for a billing-schedule trigger.'',
           ''Contract-cadence schedules keep their own anniversary-owned window identity.'']\<rparr>
      else
        \<lparr>gd_should_regenerate = False, gd_trigger_kind = None, gd_reason_code = None, gd_scope = None,
         gd_changed_fields = changedFields, gd_affected_cadence_owners = owners,
         gd_preserve_edited_rows = True, gd_preserve_billed_history = True,
         gd_reason = ''No service-period or invoice-window shaping fields changed, so regeneration is not required.'',
         gd_notes = [''Pricing-only changes do not rebuild persisted future periods.'',
           ''Override-preservation and immutability rules still apply if a later regeneration is triggered by a different source change.'']\<rparr>)"

section \<open>Correctness of the views\<close>

lemma summary_of_rows:
  "buildOperationalSummary (map view_row_of rs) =
     \<lparr>vs_total_rows = length rs,
      vs_exception_rows = length (filter (\<lambda>r. rec_lifecycle_state r \<in> {Edited, Skipped, Locked}) rs),
      vs_generated_rows = length (filter (\<lambda>r. rec_lifecycle_state r = Generated) rs),
      vs_edited_rows = length (filter (\<lambda>r. rec_lifecycle_state r = Edited) rs),
      vs_skipped_rows = length (filter (\<lambda>r. rec_lifecycle_state r = Skipped) rs),
      vs_locked_rows = length (filter (\<lambda>r. rec_lifecycle_state r = Locked) rs)\<rparr>"
proof (induction rs rule: rev_induct)
  case Nil
  then show ?case by (simp add: buildOperationalSummary_def)
next
  case (snoc r rs)
  then show ?case
    by (cases "rec_lifecycle_state r")
      (simp_all add: buildOperationalSummary_def count_row_def view_row_of_def EXCEPTION_LIFECYCLE_STATES_def
        getRecurringServicePeriodDisplayState_def Let_def)
qed

lemma filter_js_sort_length: "length (filter P (js_sort cmp xs)) = length (filter P xs)"
  by (metis mset_filter mset_js_sort size_mset)

text \<open>
  The operational view shows the records the query lists, and its counts are their numbers per
  lifecycle state; the exceptions are the edited, skipped and locked ones.
\<close>

theorem operational_view_counts:
  "let view = buildRecurringServicePeriodOperationalView lc records query;
       shown = filter (listed query) records;
       count = \<lambda>states. length (filter (\<lambda>r. rec_lifecycle_state r \<in> states) shown)
   in mset (ov_rows view) = mset (map view_row_of shown)
    \<and> vs_total_rows (ov_summary view) = length shown
    \<and> vs_exception_rows (ov_summary view) = count {Edited, Skipped, Locked}
    \<and> vs_generated_rows (ov_summary view) = count {Generated}
    \<and> vs_edited_rows (ov_summary view) = count {Edited}
    \<and> vs_skipped_rows (ov_summary view) = count {Skipped}
    \<and> vs_locked_rows (ov_summary view) = count {Locked}"
  by (simp add: buildRecurringServicePeriodOperationalView_def listRecurringServicePeriodRecords_def
      summary_of_rows filter_js_sort_length)

section \<open>Correctness of the comparison\<close>

text \<open>The specification: the invoice window of each key, the last record of a key winning.\<close>

definition window_of :: "('a normalized_timing_scheme) \<Rightarrow> iso8601 \<times> iso8601" where
  "window_of t = (nt_invoice_window_start t, nt_invoice_window_end t)"

definition windows_by_key :: "('a normalized_timing_scheme) list \<Rightarrow> string \<Rightarrow> (iso8601 \<times> iso8601) option" where
  "windows_by_key ts = map_of (rev (map (\<lambda>t. (nt_composite_key t, window_of t)) ts))"

lemma map_of_rev: "distinct (map fst xs) \<Longrightarrow> map_of (rev xs) = map_of xs"
proof (induction xs)
  case (Cons x xs)
  then have "map_of xs (fst x) = None" by (simp add: map_of_eq_None_iff)
  with Cons show ?case by (auto simp: fun_eq_iff map_add_def split: option.splits)
qed simp

lemma same_invoice_window_iff: "same_invoice_window p d \<longleftrightarrow> window_of p = window_of d"
  by (simp add: same_invoice_window_def window_of_def)

lemma persisted_by_key_distinct: "distinct (map fst (persisted_by_key states records))"
proof -
  have "distinct (map fst (fold (\<lambda>r. AList.update (nt_composite_key r) r) rs al))"
    if "distinct (map fst al)" for rs :: "normalized_record list" and al
    using that by (induction rs arbitrary: al) (simp_all add: distinct_update)
  then show ?thesis by (simp add: persisted_by_key_def)
qed

lemma persisted_by_key_windows:
  "map_option window_of \<circ> map_of (persisted_by_key states records) =
     windows_by_key (map normalizePersistedRecord (filter (\<lambda>r. rec_lifecycle_state r \<in> set states) records))"
proof -
  have "map_option window_of \<circ> map_of (fold (\<lambda>r. AList.update (nt_composite_key r) r) rs []) = windows_by_key rs"
    for rs :: "normalized_record list"
    by (induction rs rule: rev_induct)
      (auto simp: windows_by_key_def update_conv' fun_eq_iff)
  then show ?thesis by (simp add: persisted_by_key_def)
qed

lemma clear_key:
  assumes "f k = Some w"
  shows "k \<notin> dom g \<and> f = g(k \<mapsto> w) \<longleftrightarrow> f(k := None) = g"
  using assms by (auto simp: fun_eq_iff domIff)

lemma compare_selections_clean:
  assumes "distinct (map fst m)"
  shows "compare_selections ds m = ([], []) \<longleftrightarrow>
    distinct (map nt_composite_key ds)
    \<and> map_option window_of \<circ> map_of m = map_of (map (\<lambda>d. (nt_composite_key d, window_of d)) ds)"
  using assms
proof (induction ds arbitrary: m)
  case Nil
  then show ?case by (cases m) (auto simp: fun_eq_iff)
next
  case (Cons d ds)
  let ?k = "nt_composite_key d" and ?g = "map_of (map (\<lambda>d. (nt_composite_key d, window_of d)) ds)"
  show ?case
  proof (cases "map_of m ?k")
    case None
    then have "(map_option window_of \<circ> map_of m) ?k \<noteq> (?g(?k \<mapsto> window_of d)) ?k" by simp
    then have "map_option window_of \<circ> map_of m \<noteq> ?g(?k \<mapsto> window_of d)" by metis
    moreover have "compare_selections (d # ds) m \<noteq> ([], [])" using None by (simp split: prod.splits)
    ultimately show ?thesis by (simp only: list.map map_of.simps fst_conv snd_conv) blast
  next
    case (Some p)
    have dom: "?k \<in> nt_composite_key ` set ds \<longleftrightarrow> ?k \<in> dom ?g"
      by (force simp: dom_map_of_conv_image_fst)
    have step: "compare_selections ds (AList.delete ?k m) = ([], []) \<longleftrightarrow>
        distinct (map nt_composite_key ds) \<and> (map_option window_of \<circ> map_of m)(?k := None) = ?g"
      using Cons.IH [of "AList.delete ?k m"] Cons.prems
      by (simp add: distinct_delete delete_conv' fun_upd_comp comp_def fun_eq_iff)
    show ?thesis
    proof (cases "same_invoice_window p d")
      case True
      then have "(map_option window_of \<circ> map_of m) ?k = Some (window_of d)"
        using Some by (simp add: same_invoice_window_iff)
      from clear_key [where f = "map_option window_of \<circ> map_of m" and g = ?g, OF this]
      have "compare_selections (d # ds) m = ([], []) \<longleftrightarrow> distinct (map nt_composite_key ds)
          \<and> ?k \<notin> dom ?g \<and> map_option window_of \<circ> map_of m = ?g(?k \<mapsto> window_of d)"
        using step True Some by (simp split: prod.splits)
      then show ?thesis using dom
        by (simp only: list.map map_of.simps fst_conv snd_conv distinct.simps set_map) blast
    next
      case False
      then have "(map_option window_of \<circ> map_of m) ?k \<noteq> (?g(?k \<mapsto> window_of d)) ?k"
        using Some by (simp add: same_invoice_window_iff)
      then have "map_option window_of \<circ> map_of m \<noteq> ?g(?k \<mapsto> window_of d)" by metis
      moreover have "compare_selections (d # ds) m \<noteq> ([], [])" using False Some by (simp split: prod.splits)
      ultimately show ?thesis by (simp only: list.map map_of.simps fst_conv snd_conv) blast
    qed
  qed
qed

text \<open>
  C26: the comparison reports a match exactly when no two derived periods have the same schedule and
  period key and the keys of the derived periods, with the dates of their invoice windows, are those of
  the persisted records in the compared states, the last record of a key counting.
\<close>

theorem parity_matches_iff:
  "let derived = map (normalizeDerivedSelection td tenant) selections;
       states = or_else lifecycleStates [Generated, Edited, Locked, Billed];
       persisted = map normalizePersistedRecord (filter (\<lambda>r. rec_lifecycle_state r \<in> set states) records)
   in pr_matches (compareDerivedRecurringTimingToPersistedSchedule td tenant selections records lifecycleStates)
     \<longleftrightarrow> distinct (map nt_composite_key derived) \<and> windows_by_key derived = windows_by_key persisted"
proof -
  let ?derived = "map (normalizeDerivedSelection td tenant) selections"
  let ?states = "or_else lifecycleStates [Generated, Edited, Locked, Billed]"
  let ?m = "persisted_by_key ?states records"
  obtain drifts rest where c: "compare_selections ?derived ?m = (drifts, rest)" by fastforce
  have "pr_matches (compareDerivedRecurringTimingToPersistedSchedule td tenant selections records lifecycleStates)
     \<longleftrightarrow> drifts = [] \<and> rest = []"
    using c by (simp add: compareDerivedRecurringTimingToPersistedSchedule_def Let_def
        DEFAULT_RECURRING_SERVICE_PERIOD_PARITY_COMPARISON_STATES_def)
  also have "\<dots> \<longleftrightarrow> compare_selections ?derived ?m = ([], [])" using c by simp
  also have "\<dots> \<longleftrightarrow> distinct (map nt_composite_key ?derived)
      \<and> map_of (map (\<lambda>d. (nt_composite_key d, window_of d)) ?derived) = map_option window_of \<circ> map_of ?m"
    unfolding compare_selections_clean [OF persisted_by_key_distinct [of ?states records], of ?derived]
    by (rule conj_cong [OF refl eq_commute])
  also have "\<dots> \<longleftrightarrow> distinct (map nt_composite_key ?derived)
      \<and> windows_by_key ?derived = map_option window_of \<circ> map_of ?m"
    by (rule conj_cong [OF refl]) (simp add: windows_by_key_def map_of_rev comp_def)
  finally show ?thesis unfolding persisted_by_key_windows Let_def .
qed

section \<open>Correctness of the triggers\<close>

text \<open>
  An edit of the source data regenerates the schedule exactly when it changes the cadence owner of a
  contract line or one of the fields of its source that shape periods. The decision names a reason a
  regenerated record may carry, and always preserves edited rows and billed history.
\<close>

theorem regeneration_decision_correct:
  "let d = resolveRecurringServicePeriodRegenerationDecision inp;
       owner_changed = (tr_source inp = Contract_Line_Edit
         \<and> (\<exists>b a. tr_cadence_owner_before inp = Some b \<and> tr_cadence_owner_after inp = Some a \<and> a \<noteq> b))
   in (gd_should_regenerate d \<longleftrightarrow> owner_changed \<or> (\<exists>field \<in> set (tr_changed_fields inp). field \<in> set (trigger_fields (tr_source inp))))
    \<and> (if gd_should_regenerate d
       then (\<exists>code. gd_reason_code d = Some code \<and> isRecurringServicePeriodProvenanceReasonCode P_Regenerated code)
       else gd_reason_code d = None \<and> gd_scope d = None)
    \<and> gd_preserve_edited_rows d \<and> gd_preserve_billed_history d"
proof -
  let ?fields = "collectMatchingFields (js_unique (tr_changed_fields inp)) (trigger_fields (tr_source inp))"
  let ?d = "resolveRecurringServicePeriodRegenerationDecision inp"
  have fields: "?fields \<noteq> [] \<longleftrightarrow> (\<exists>field \<in> set (tr_changed_fields inp). field \<in> set (trigger_fields (tr_source inp)))"
    by (auto simp: collectMatchingFields_def filter_empty_conv)
  have codes: "isRecurringServicePeriodProvenanceReasonCode P_Regenerated ''cadence_owner_changed''"
    "isRecurringServicePeriodProvenanceReasonCode P_Regenerated ''source_rule_changed''"
    "isRecurringServicePeriodProvenanceReasonCode P_Regenerated ''activity_window_changed''"
    "isRecurringServicePeriodProvenanceReasonCode P_Regenerated ''billing_schedule_changed''"
    by code_simp+
  show ?thesis
    unfolding Let_def fields [symmetric]
    by (cases "tr_source inp"; cases "?fields = []"; cases "tr_cadence_owner_before inp"; cases "tr_cadence_owner_after inp")
      (simp_all add: resolveRecurringServicePeriodRegenerationDecision_def Let_def codes)
qed
end
