(* ===== verification/Ledger_Table.thy ===== *)
theory Ledger_Table
  imports Backfill Due_Work
begin

text \<open>
  The table \<open>recurring_service_periods\<close>: its rows and constraints
  (\<open>server/migrations/20260318120000_create_recurring_service_periods.cjs\<close> and its successors), the
  conversion between rows and records, and the statements that write the table. The table is the list
  of its rows; a query of \<open>tenantDb(conn, tenant)\<close> sees the rows of the tenant.

  A column of type \<open>date\<close> holds a day. The driver delivers it as a \<open>Date\<close> at midnight of the
  process's time zone, \<open>tz\<close> milliseconds east of UTC (\<open>packages/db/src/lib/knexfile.ts\<close> sets no
  parser for the type). An instant of a \<open>timestamptz\<close> column is represented by its
  \<open>toISOString()\<close> text, so that reading one and \<open>normalizeTimestampValue\<close> are the identity.
\<close>

section \<open>Rows\<close>

record ledger_row =
  row_record_id :: string
  row_tenant :: "string option"
  row_schedule_key :: string
  row_period_key :: string
  row_revision :: int
  row_obligation_id :: string
  row_obligation_type :: obligation_type
  row_charge_family :: charge_family
  row_cadence_owner :: cadence_owner
  row_due_position :: due_position
  row_lifecycle_state :: lifecycle_state
  row_service_period_start :: int
  row_service_period_end :: int
  row_invoice_window_start :: int
  row_invoice_window_end :: int
  row_activity_window_start :: "int option"
  row_activity_window_end :: "int option"
  row_timing_metadata :: "timing_metadata option"
  row_provenance_kind :: provenance_kind
  row_source_rule_version :: string
  row_reason_code :: "string option"
  row_source_run_key :: "string option"
  row_supersedes_record_id :: "string option"
  row_invoice_id :: "string option"
  row_invoice_charge_id :: "string option"
  row_invoice_charge_detail_id :: "string option"
  row_invoice_linked_at :: "iso8601 option"
  row_created_at :: iso8601
  row_updated_at :: iso8601

type_synonym ledger_table = "ledger_row list"

section \<open>Reading\<close>

text \<open>A value the driver delivers for a date: \<open>null\<close>, a text or a \<open>Date\<close> (its time value).\<close>

datatype db_value = Db_Null | Db_Text iso8601 | Db_Date int

definition hydrate_date :: "int \<Rightarrow> int \<Rightarrow> db_value" where
  "hydrate_date tz day = Db_Date (day * ms_per_day - tz)"

definition toUtcMidnightDateOnly :: "int \<Rightarrow> iso8601" where
  "toUtcMidnightDateOnly date = utc_midnight (date div ms_per_day)"

fun normalizeDateOnlyValue :: "temporal \<Rightarrow> db_value \<Rightarrow> iso8601 option result" where
  "normalizeDateOnlyValue td Db_Null = Inr None"
| "normalizeDateOnlyValue td (Db_Text v) =
     (if iso_time v = [] then Inr (Some (utc_midnight (iso_day v)))
      else case ensureUtcMidnightIsoDate td v of
        Inr d \<Rightarrow> Inr (Some d)
      | Inl e \<Rightarrow> (case parse_instant td v of
            Some date \<Rightarrow> Inr (Some (toUtcMidnightDateOnly date))
          | None \<Rightarrow> Inl e))"
| "normalizeDateOnlyValue td (Db_Date date) = Inr (Some (toUtcMidnightDateOnly date))"

text \<open>A date column of a row; \<open>!\<close> only tells the compiler that it is not null.\<close>

definition date_column :: "int \<Rightarrow> int \<Rightarrow> iso8601" where
  "date_column tz day = (case hydrate_date tz day of Db_Date date \<Rightarrow> toUtcMidnightDateOnly date)"

lemma normalize_hydrated: "normalizeDateOnlyValue td (hydrate_date tz day) = Inr (Some (date_column tz day))"
  by (simp add: date_column_def hydrate_date_def)

definition mapRecurringServicePeriodRow :: "int \<Rightarrow> ledger_row \<Rightarrow> period_record" where
  "mapRecurringServicePeriodRow tz row =
     \<lparr>rec_id = row_record_id row,
      rec_schedule_key = row_schedule_key row,
      rec_period_key = row_period_key row,
      rec_revision = row_revision row,
      rec_source_obligation = \<lparr>ob_tenant = row_tenant row, ob_id = row_obligation_id row,
        ob_type = row_obligation_type row, ob_charge_family = row_charge_family row\<rparr>,
      rec_cadence_owner = row_cadence_owner row,
      rec_due_position = row_due_position row,
      rec_lifecycle_state = row_lifecycle_state row,
      rec_service_period = \<lparr>range_start = date_column tz (row_service_period_start row),
        range_end = date_column tz (row_service_period_end row), range_semantics = Half_Open\<rparr>,
      rec_invoice_window = \<lparr>range_start = date_column tz (row_invoice_window_start row),
        range_end = date_column tz (row_invoice_window_end row), range_semantics = Half_Open\<rparr>,
      rec_activity_window =
        (case (row_activity_window_start row, row_activity_window_end row) of
           (Some s, Some e) \<Rightarrow> Some \<lparr>aw_start = Some (date_column tz s), aw_end = Some (date_column tz e),
             aw_semantics = Half_Open\<rparr>
         | _ \<Rightarrow> None),
      rec_timing_metadata = row_timing_metadata row,
      rec_provenance = \<lparr>prov_kind = row_provenance_kind row,
        prov_source_rule_version = row_source_rule_version row,
        prov_reason_code = or_else (row_reason_code row) [],
        prov_source_run_key = row_source_run_key row,
        prov_supersedes_record_id = row_supersedes_record_id row\<rparr>,
      rec_invoice_linkage =
        (case (row_invoice_id row, row_invoice_charge_id row, row_invoice_charge_detail_id row,
               row_invoice_linked_at row) of
           (Some i, Some c, Some d, Some l) \<Rightarrow>
             if i \<noteq> [] \<and> c \<noteq> [] \<and> d \<noteq> [] then
               Some \<lparr>link_invoice_id = i, link_invoice_charge_id = c, link_invoice_charge_detail_id = d,
                 link_linked_at = l\<rparr>
             else None
         | _ \<Rightarrow> None),
      rec_created_at = row_created_at row,
      rec_updated_at = row_updated_at row\<rparr>"

definition serializeRecurringServicePeriodRecord :: "period_record \<Rightarrow> ledger_row" where
  "serializeRecurringServicePeriodRecord r =
     \<lparr>row_record_id = rec_id r,
      row_tenant = ob_tenant (rec_source_obligation r),
      row_schedule_key = rec_schedule_key r,
      row_period_key = rec_period_key r,
      row_revision = rec_revision r,
      row_obligation_id = ob_id (rec_source_obligation r),
      row_obligation_type = ob_type (rec_source_obligation r),
      row_charge_family = ob_charge_family (rec_source_obligation r),
      row_cadence_owner = rec_cadence_owner r,
      row_due_position = rec_due_position r,
      row_lifecycle_state = rec_lifecycle_state r,
      row_service_period_start = iso_day (range_start (rec_service_period r)),
      row_service_period_end = iso_day (range_end (rec_service_period r)),
      row_invoice_window_start = iso_day (range_start (rec_invoice_window r)),
      row_invoice_window_end = iso_day (range_end (rec_invoice_window r)),
      row_activity_window_start =
        (case rec_activity_window r of None \<Rightarrow> None | Some w \<Rightarrow> map_option iso_day (aw_start w)),
      row_activity_window_end =
        (case rec_activity_window r of None \<Rightarrow> None | Some w \<Rightarrow> map_option iso_day (aw_end w)),
      row_timing_metadata = rec_timing_metadata r,
      row_provenance_kind = prov_kind (rec_provenance r),
      row_source_rule_version = prov_source_rule_version (rec_provenance r),
      row_reason_code = Some (prov_reason_code (rec_provenance r)),
      row_source_run_key = prov_source_run_key (rec_provenance r),
      row_supersedes_record_id = prov_supersedes_record_id (rec_provenance r),
      row_invoice_id = map_option link_invoice_id (rec_invoice_linkage r),
      row_invoice_charge_id = map_option link_invoice_charge_id (rec_invoice_linkage r),
      row_invoice_charge_detail_id = map_option link_invoice_charge_detail_id (rec_invoice_linkage r),
      row_invoice_linked_at = map_option link_linked_at (rec_invoice_linkage r),
      row_created_at = rec_created_at r,
      row_updated_at = rec_updated_at r\<rparr>"

section \<open>Statements\<close>

text \<open>The check constraints of a row that its types do not already give.\<close>

definition row_checks :: "ledger_row \<Rightarrow> bool" where
  "row_checks row \<longleftrightarrow>
     row_tenant row \<noteq> None
     \<and> 1 \<le> row_revision row
     \<and> row_service_period_start row < row_service_period_end row
     \<and> row_invoice_window_start row < row_invoice_window_end row
     \<and> (case (row_activity_window_start row, row_activity_window_end row) of
          (None, None) \<Rightarrow> True
        | (Some s, Some e) \<Rightarrow> s < e \<and> row_service_period_start row \<le> s \<and> e \<le> row_service_period_end row
        | _ \<Rightarrow> False)
     \<and> row_supersedes_record_id row \<noteq> Some (row_record_id row)
     \<and> (row_invoice_charge_detail_id row = None \<or> row_lifecycle_state row = Billed)
     \<and> (if row_invoice_id row = None
        then row_invoice_charge_id row = None \<and> row_invoice_charge_detail_id row = None
          \<and> row_invoice_linked_at row = None
        else row_invoice_linked_at row \<noteq> None
          \<and> (row_invoice_charge_id row = None \<longleftrightarrow> row_invoice_charge_detail_id row = None))"

definition row_primary_key :: "ledger_row \<Rightarrow> string option \<times> string" where
  "row_primary_key row = (row_tenant row, row_record_id row)"

definition row_slot_key :: "ledger_row \<Rightarrow> string option \<times> string \<times> string \<times> int" where
  "row_slot_key row = (row_tenant row, row_schedule_key row, row_period_key row, row_revision row)"

definition row_detail_keys :: "ledger_table \<Rightarrow> (string option \<times> string) list" where
  "row_detail_keys table = List.map_filter
     (\<lambda>row. map_option (\<lambda>detail. (row_tenant row, detail)) (row_invoice_charge_detail_id row)) table"

definition table_constraints :: "ledger_table \<Rightarrow> bool" where
  "table_constraints table \<longleftrightarrow> list_all row_checks table
     \<and> distinct (map row_primary_key table)
     \<and> distinct (map row_slot_key table)
     \<and> distinct (row_detail_keys table)"

text \<open>A statement commits the new table if it meets the constraints and fails otherwise.\<close>

definition commit :: "ledger_table \<Rightarrow> ledger_table result" where
  "commit table = (if table_constraints table then Inr table else Inl Ledger_Constraint_Violated)"

definition update_where :: "(ledger_row \<Rightarrow> bool) \<Rightarrow> (ledger_row \<Rightarrow> ledger_row) \<Rightarrow> ledger_table
    \<Rightarrow> (nat \<times> ledger_table) result" where
  "update_where cond change table =
     and_then (commit (map (\<lambda>row. if cond row then change row else row) table)) (\<lambda>table'.
       Inr (length (filter cond table), table'))"

definition of_tenant :: "string \<Rightarrow> ledger_row \<Rightarrow> bool" where
  "of_tenant tenant row \<longleftrightarrow> row_tenant row = Some tenant"

definition insert_records :: "period_record list \<Rightarrow> ledger_table \<Rightarrow> ledger_table result" where
  "insert_records records table =
     (if length records > 0 then commit (table @ map serializeRecurringServicePeriodRecord records)
      else Inr table)"

text \<open>\<open>orderBy('service_period_start').orderBy('revision')\<close>\<close>

definition period_order :: "ledger_row \<Rightarrow> ledger_row \<Rightarrow> int" where
  "period_order a b =
     (if row_service_period_start a \<noteq> row_service_period_start b
      then row_service_period_start a - row_service_period_start b
      else row_revision a - row_revision b)"

section \<open>Replenishment writes\<close>

text \<open>
  \<open>persistRecurringServicePeriodRegeneration\<close> of
  \<open>packages/billing/src/actions/contractCadenceServicePeriodMaterialization.ts\<close>: the update rechecks
  that the row is still an unprotected generated one.
\<close>

definition still_replaceable :: "ledger_row \<Rightarrow> bool" where
  "still_replaceable row \<longleftrightarrow>
     row_lifecycle_state row = Generated
     \<and> row_provenance_kind row \<notin> {P_User_Edited, P_Repair}
     \<and> row_invoice_id row = None
     \<and> row_invoice_charge_id row = None
     \<and> row_invoice_charge_detail_id row = None
     \<and> row_invoice_linked_at row = None"

definition write_state :: "period_record \<Rightarrow> ledger_row \<Rightarrow> ledger_row" where
  "write_state r row = row\<lparr>row_lifecycle_state := rec_lifecycle_state r, row_updated_at := rec_updated_at r\<rparr>"

fun supersede_guarded :: "string \<Rightarrow> period_record list \<Rightarrow> ledger_table \<Rightarrow> ledger_table result" where
  "supersede_guarded tenant [] table = Inr table"
| "supersede_guarded tenant (r # rs) table =
     and_then (update_where (\<lambda>row. of_tenant tenant row \<and> row_record_id row = rec_id r \<and> still_replaceable row)
         (write_state r) table) (\<lambda>(updated, table').
     and_then (throw_if (updated \<noteq> 1) (Changed_During_Replenishment (rec_id r))) (\<lambda>_.
     supersede_guarded tenant rs table'))"

definition persistContractRegeneration ::
    "string \<Rightarrow> period_record list \<Rightarrow> period_record list \<Rightarrow> ledger_table \<Rightarrow> ledger_table result" where
  "persistContractRegeneration tenant recordsToSupersede recordsToInsert table =
     and_then (supersede_guarded tenant recordsToSupersede table) (insert_records recordsToInsert)"

text \<open>
  \<open>persistRecurringServicePeriodRegeneration\<close> of
  \<open>shared/billingClients/clientCadenceScheduleRegeneration.ts\<close>, and in the same words
  \<open>persistRecurringServicePeriodRepair\<close> of \<open>recurringServicePeriodActions.ts\<close>.
\<close>

fun supersede_rows :: "string \<Rightarrow> period_record list \<Rightarrow> ledger_table \<Rightarrow> ledger_table result" where
  "supersede_rows tenant [] table = Inr table"
| "supersede_rows tenant (r # rs) table =
     and_then (update_where (\<lambda>row. of_tenant tenant row \<and> row_record_id row = rec_id r) (write_state r) table)
       (\<lambda>(_, table'). supersede_rows tenant rs table')"

definition persistRecurringServicePeriodRegeneration ::
    "string \<Rightarrow> period_record list \<Rightarrow> period_record list \<Rightarrow> ledger_table \<Rightarrow> ledger_table result" where
  "persistRecurringServicePeriodRegeneration tenant recordsToSupersede recordsToInsert table =
     and_then (supersede_rows tenant recordsToSupersede table) (insert_records recordsToInsert)"

definition persistRecurringServicePeriodRepair ::
    "string \<Rightarrow> period_record list \<Rightarrow> period_record list \<Rightarrow> ledger_table \<Rightarrow> ledger_table result" where
  "persistRecurringServicePeriodRepair tenant recordsToSupersede recordsToInsert table =
     and_then (supersede_rows tenant recordsToSupersede table) (insert_records recordsToInsert)"

text \<open>The rows of an obligation, and their retirement.\<close>

definition obligation_rows :: "string \<Rightarrow> string \<Rightarrow> obligation_type \<Rightarrow> cadence_owner \<Rightarrow> ledger_row \<Rightarrow> bool" where
  "obligation_rows tenant obligationId obligationType owner row \<longleftrightarrow>
     of_tenant tenant row \<and> row_obligation_id row = obligationId
     \<and> row_obligation_type row = obligationType \<and> row_cadence_owner row = owner"

definition load_records ::
    "int \<Rightarrow> (ledger_row \<Rightarrow> bool) \<Rightarrow> ledger_table \<Rightarrow> period_record list" where
  "load_records tz cond table =
     map (mapRecurringServicePeriodRow tz) (js_sort period_order (filter cond table))"

definition loadContractCadenceRecords :: "int \<Rightarrow> string \<Rightarrow> string \<Rightarrow> ledger_table \<Rightarrow> period_record list" where
  "loadContractCadenceRecords tz tenant contractLineId table =
     load_records tz (obligation_rows tenant contractLineId Contract_Line Contract) table"

definition loadClientCadenceRecords :: "int \<Rightarrow> string \<Rightarrow> string \<Rightarrow> ledger_table \<Rightarrow> period_record list" where
  "loadClientCadenceRecords tz tenant obligationId table =
     load_records tz (obligation_rows tenant obligationId Client_Contract_Line Client) table"

definition retire_rows :: "(ledger_row \<Rightarrow> bool) \<Rightarrow> iso8601 \<Rightarrow> ledger_table \<Rightarrow> ledger_table result" where
  "retire_rows cond retiredAt table =
     and_then (update_where (\<lambda>row. cond row \<and> row_lifecycle_state row \<notin> {Archived, Superseded, Billed})
         (\<lambda>row. row\<lparr>row_lifecycle_state := Superseded, row_updated_at := retiredAt\<rparr>) table)
       (\<lambda>(_, table'). Inr table')"

definition retireFutureContractCadenceRowsForLine ::
    "string \<Rightarrow> string \<Rightarrow> iso8601 \<Rightarrow> ledger_table \<Rightarrow> ledger_table result" where
  "retireFutureContractCadenceRowsForLine tenant contractLineId retiredAt table =
     retire_rows (obligation_rows tenant contractLineId Contract_Line Contract) retiredAt table"

definition retireFutureClientCadenceRowsForLine ::
    "string \<Rightarrow> string \<Rightarrow> iso8601 \<Rightarrow> ledger_table \<Rightarrow> ledger_table result" where
  "retireFutureClientCadenceRowsForLine tenant contractLineId retiredAt table =
     retire_rows (obligation_rows tenant contractLineId Client_Contract_Line Client) retiredAt table"

section \<open>Invoicing writes\<close>

text \<open>
  \<open>packages/billing/src/services/invoiceService.ts\<close>: linking a row to the invoice detail that bills
  it, and claiming the rows of a selection that no charge backs.
\<close>

record link_params =
  lk_tenant :: string
  lk_invoice_id :: string
  lk_invoice_charge_id :: string
  lk_invoice_charge_detail_id :: string
  lk_service_period_record_id :: "string option"
  lk_config_id :: "string option"
  lk_contract_line_id :: "string option"
  lk_service_period_start :: "iso8601 option"
  lk_service_period_end :: "iso8601 option"
  lk_billing_timing :: "due_position option"
  lk_linked_at :: iso8601

definition linkRecurringServicePeriodToInvoiceDetail ::
    "link_params \<Rightarrow> ledger_table \<Rightarrow> (nat \<times> ledger_table) result" where
  "linkRecurringServicePeriodToInvoiceDetail p table =
     (if (\<not> truthy (lk_config_id p) \<and> \<not> truthy (lk_contract_line_id p))
         \<or> lk_service_period_start p = None \<or> lk_service_period_end p = None \<or> lk_billing_timing p = None
      then Inr (0, table)
      else if \<not> truthy (lk_service_period_record_id p) then Inr (0, table)
      else update_where
        (\<lambda>row. of_tenant (lk_tenant p) row \<and> Some (row_record_id row) = lk_service_period_record_id p
          \<and> row_lifecycle_state row \<in> {Generated, Edited, Locked}
          \<and> row_invoice_charge_detail_id row = None)
        (\<lambda>row. row\<lparr>row_lifecycle_state := Billed, row_invoice_id := Some (lk_invoice_id p),
          row_invoice_charge_id := Some (lk_invoice_charge_id p),
          row_invoice_charge_detail_id := Some (lk_invoice_charge_detail_id p),
          row_invoice_linked_at := Some (lk_linked_at p), row_updated_at := lk_linked_at p\<rparr>)
        table)"

definition assertRecurringPeriodLinked :: "link_params \<Rightarrow> nat \<Rightarrow> unit result" where
  "assertRecurringPeriodLinked p updatedCount =
     and_then (throw_if (\<not> truthy (lk_service_period_record_id p))
        (Detail_Missing_Record (lk_invoice_charge_detail_id p) (lk_invoice_id p))) (\<lambda>_.
     throw_if (updatedCount \<noteq> 1)
        (Period_Not_Linked (or_else (lk_service_period_record_id p) []) (lk_invoice_id p)
          (lk_invoice_charge_id p) (lk_invoice_charge_detail_id p)))"

text \<open>The two calls are always made together.\<close>

definition link_period :: "link_params \<Rightarrow> ledger_table \<Rightarrow> ledger_table result" where
  "link_period p table =
     and_then (linkRecurringServicePeriodToInvoiceDetail p table) (\<lambda>(linkedCount, table').
     and_then (assertRecurringPeriodLinked p linkedCount) (\<lambda>_. Inr table'))"

record claim_params =
  cl_tenant :: string
  cl_invoice_id :: string
  cl_selector_inputs :: "due_selection_input list"
  cl_linked_at :: iso8601
  cl_omitted_usage_periods :: "(string \<times> iso8601 \<times> iso8601) list"
  cl_excluded_record_ids :: "string list"

definition toRecurringWindowDate :: "iso8601 \<Rightarrow> iso8601" where
  "toRecurringWindowDate v = slice_date v"

definition omitted_usage :: "claim_params \<Rightarrow> (string \<times> iso8601 \<times> iso8601) list" where
  "omitted_usage p = map (\<lambda>(line, s, e). (line, toRecurringWindowDate s,
     date_only (iso_day (toRecurringWindowDate e) + 1))) (cl_omitted_usage_periods p)"

text \<open>The rows of an execution window; \<open>None\<close> when the window cannot be resolved to rows.\<close>

definition window_rows :: "string \<Rightarrow> due_selection_input \<Rightarrow> (ledger_row \<Rightarrow> bool) option" where
  "window_rows tenant selectorInput =
     (let executionWindow = di_execution_window selectorInput;
          base = (\<lambda>row. of_tenant tenant row
            \<and> row_invoice_window_start row = iso_day (toRecurringWindowDate (di_window_start selectorInput))
            \<and> row_invoice_window_end row = iso_day (toRecurringWindowDate (di_window_end selectorInput))
            \<and> row_lifecycle_state row \<notin> {Archived, Superseded})
      in case ew_kind executionWindow of
        Client_Cadence_Window \<Rightarrow> Some (\<lambda>row. base row \<and> row_cadence_owner row = Client
          \<and> Some (row_schedule_key row) = ew_schedule_key executionWindow
          \<and> Some (row_period_key row) = ew_period_key executionWindow
          \<and> row_obligation_type row \<in> {Contract_Line, Client_Contract_Line})
      | Contract_Cadence_Window \<Rightarrow>
          if \<not> truthy (ew_contract_line_id executionWindow) then None
          else Some (\<lambda>row. base row \<and> row_cadence_owner row = Contract
            \<and> row_obligation_type row = Contract_Line
            \<and> Some (row_obligation_id row) = ew_contract_line_id executionWindow))"

definition storedDate :: "int \<Rightarrow> int \<Rightarrow> iso8601" where
  "storedDate tz day = slice_date (date_column tz day)"

text \<open>One iteration of the loop over the rows of a window.\<close>

definition claim_row :: "int \<Rightarrow> claim_params \<Rightarrow> ledger_row \<Rightarrow> ledger_table \<Rightarrow> ledger_table result" where
  "claim_row tz p row table =
     (if row_charge_family row = Usage
         \<and> (row_obligation_id row, storedDate tz (row_service_period_start row), storedDate tz (row_service_period_end row))
           \<in> set (omitted_usage p)
      then Inr table
      else if row_invoice_id row = Some (cl_invoice_id p) then Inr table
      else if row_record_id row \<in> set (cl_excluded_record_ids p) then Inr table
      else if truthy (row_invoice_id row)
      then Inl (Period_Already_Claimed (row_record_id row) (or_else (row_invoice_id row) []) (cl_invoice_id p))
      else and_then (update_where
          (\<lambda>r. of_tenant (cl_tenant p) r \<and> row_record_id r = row_record_id row \<and> row_invoice_id r = None
            \<and> row_lifecycle_state r \<in> {Generated, Edited, Locked})
          (\<lambda>r. r\<lparr>row_lifecycle_state := Billed, row_invoice_id := Some (cl_invoice_id p),
            row_invoice_linked_at := Some (cl_linked_at p), row_updated_at := cl_linked_at p\<rparr>) table)
        (\<lambda>(updatedCount, table').
          if updatedCount \<noteq> 1 then Inl (Period_Not_Claimed (row_record_id row) (cl_invoice_id p)) else Inr table'))"

fun claim_rows :: "int \<Rightarrow> claim_params \<Rightarrow> ledger_row list \<Rightarrow> ledger_table \<Rightarrow> ledger_table result" where
  "claim_rows tz p [] table = Inr table"
| "claim_rows tz p (row # rows) table = and_then (claim_row tz p row table) (claim_rows tz p rows)"

fun claim_windows :: "int \<Rightarrow> claim_params \<Rightarrow> due_selection_input list \<Rightarrow> ledger_table \<Rightarrow> ledger_table result" where
  "claim_windows tz p [] table = Inr table"
| "claim_windows tz p (selectorInput # rest) table =
     (case window_rows (cl_tenant p) selectorInput of
        None \<Rightarrow> claim_windows tz p rest table
      | Some cond \<Rightarrow>
          let rows = filter cond table
          in and_then (throw_if (length rows = 0) Periods_Not_Materialized) (\<lambda>_.
             and_then (claim_rows tz p rows table) (claim_windows tz p rest)))"

definition claimRecurringServicePeriodsForSelectionInputs ::
    "int \<Rightarrow> claim_params \<Rightarrow> ledger_table \<Rightarrow> ledger_table result" where
  "claimRecurringServicePeriodsForSelectionInputs tz p table = claim_windows tz p (cl_selector_inputs p) table"

text \<open>\<open>packages/billing/src/actions/invoiceModification.ts\<close>: deleting an invoice releases its rows.\<close>

definition releaseRecurringServicePeriodInvoiceLinkageForInvoice ::
    "string \<Rightarrow> string \<Rightarrow> iso8601 \<Rightarrow> ledger_table \<Rightarrow> ledger_table result" where
  "releaseRecurringServicePeriodInvoiceLinkageForInvoice tenant invoiceId releasedAt table =
     and_then (update_where (\<lambda>row. of_tenant tenant row \<and> row_invoice_id row = Some invoiceId)
         (\<lambda>row. row\<lparr>row_lifecycle_state := Locked, row_invoice_id := None, row_invoice_charge_id := None,
           row_invoice_charge_detail_id := None, row_invoice_linked_at := None, row_updated_at := releasedAt\<rparr>) table)
       (\<lambda>(_, table'). Inr table')"
end
