(* ===== verification/Day_Coverage.thy ===== *)
theory Day_Coverage
  imports Backfill
begin

text \<open>
  No day twice: how often the days of an obligation are covered by the active records of a
  regeneration (\<open>regenerateRecurringServicePeriods.ts\<close>) and of a backfill
  (\<open>backfillRecurringServicePeriods.ts\<close>). The theory proves that a plan covers no day twice when
  neither the existing records nor the candidates do.
\<close>

section \<open>Counting the records of a day\<close>

definition day_count :: "period_record multiset \<Rightarrow> int \<Rightarrow> nat" where
  "day_count R d = size (filter_mset (\<lambda>r. d \<in> range_days (rec_service_period r)) R)"

lemma day_count_simps [simp]:
  "day_count {#} d = 0"
  "day_count (add_mset r R) d = (if d \<in> range_days (rec_service_period r) then 1 else 0) + day_count R d"
  "day_count (R + S) d = day_count R d + day_count S d"
  by (simp_all add: day_count_def)

lemma day_count_mono: "R \<subseteq># S \<Longrightarrow> day_count R d \<le> day_count S d"
  unfolding day_count_def by (intro size_mset_mono multiset_filter_mono)

lemma day_count_zero: "(\<And>r. r \<in># R \<Longrightarrow> d \<notin> range_days (rec_service_period r)) \<Longrightarrow> day_count R d = 0"
  by (auto simp: day_count_def filter_mset_eq_conv)

lemma day_count_pos: "0 < day_count R d \<Longrightarrow> \<exists>r. r \<in># R \<and> d \<in> range_days (rec_service_period r)"
  using day_count_zero [of R d] by fastforce

text \<open>The specification: no day is covered twice.\<close>

definition days_once :: "period_record multiset \<Rightarrow> bool" where
  "days_once R \<longleftrightarrow> (\<forall>d. day_count R d \<le> 1)"

lemma days_once_mono: "R \<subseteq># S \<Longrightarrow> days_once S \<Longrightarrow> days_once R"
  unfolding days_once_def using day_count_mono by (meson order_trans)

lemma day_count_member: "r \<in># R \<Longrightarrow> d \<in> range_days (rec_service_period r) \<Longrightarrow> 1 \<le> day_count R d"
proof -
  assume r: "r \<in># R" "d \<in> range_days (rec_service_period r)"
  obtain R' where "R = add_mset r R'" using multi_member_split [OF r(1)] by blast
  with r(2) show ?thesis by simp
qed

lemma days_once_disjoint:
  assumes "days_once (mset rs)" "i < j" "j < length rs"
  shows "range_days (rec_service_period (rs ! i)) \<inter> range_days (rec_service_period (rs ! j)) = {}"
proof (rule ccontr)
  assume "\<not> ?thesis"
  then obtain d where d: "d \<in> range_days (rec_service_period (rs ! i))" "d \<in> range_days (rec_service_period (rs ! j))"
    by blast
  have "rs ! i \<in># mset (take j rs)" using assms(2,3) by (auto simp: in_set_conv_nth intro: exI [of _ i])
  from day_count_member [OF this d(1)] have "1 \<le> day_count (mset (take j rs)) d" .
  moreover have "mset rs = mset (take j rs @ rs ! j # drop (Suc j) rs)"
    using id_take_nth_drop [OF assms(3)] by simp
  ultimately have "2 \<le> day_count (mset rs) d" using d(2) by simp
  with assms(1) show False unfolding days_once_def by (metis Suc_1 not_less_eq_eq)
qed

lemma tiles_day_count:
  "tiles a (map rec_service_period rs) b \<Longrightarrow>
     day_count (mset rs) d = (if a \<le> d \<and> d < b then 1 else 0)"
proof (induction rs arbitrary: a)
  case (Cons r rs)
  then have "tiles (end_day r) (map rec_service_period rs) b" "a = start_day r" "a < end_day r" by simp_all
  with Cons.IH [OF this(1)] tiles_le [OF this(1)] show ?case by (auto simp: range_days_iff)
qed simp

lemma tiles_days_once: "tiles a (map rec_service_period rs) b \<Longrightarrow> days_once (mset rs)"
  by (simp add: days_once_def tiles_day_count)

section \<open>Where the active records of a plan come from\<close>

definition derives :: "regeneration_env \<Rightarrow> regeneration_plan \<Rightarrow> period_record multiset \<Rightarrow> period_record multiset \<Rightarrow> bool" where
  "derives env plan D C \<longleftrightarrow> (\<exists>olds ms cs.
     mset (pl_active plan) = mset olds + mset ms \<and> mset olds \<subseteq># D \<and> mset cs \<subseteq># C
     \<and> list_all (\<lambda>r. isPreservedRecurringServicePeriodRecord r
         \<or> startsAtOrAfterCoverageEnd r (rg_candidate_coverage_end (en_input env))) olds
     \<and> list_all2 (\<lambda>m c. range_days (rec_service_period m) = range_days (rec_service_period c)
         \<and> protection_of env c = None) ms cs)"

lemma derives_weaken:
  "derives env plan D C \<Longrightarrow> pl_active plan' = pl_active plan \<Longrightarrow> D \<subseteq># D' \<Longrightarrow> C \<subseteq># C' \<Longrightarrow> derives env plan' D' C'"
  unfolding derives_def
  by (elim exE conjE, intro exI conjI) (simp, erule (1) subset_mset.order_trans, erule (1) subset_mset.order_trans, assumption+)

lemma derives_match:
  assumes "derives env plan D C" "pl_active plan' = pl_active plan @ [m]" "D \<subseteq># D'"
    and "range_days (rec_service_period m) = range_days (rec_service_period c)" "protection_of env c = None"
  shows "derives env plan' D' (add_mset c C)"
proof -
  obtain olds ms cs where parts: "mset (pl_active plan) = mset olds + mset ms" "mset olds \<subseteq># D" "mset cs \<subseteq># C"
    "list_all (\<lambda>r. isPreservedRecurringServicePeriodRecord r
       \<or> startsAtOrAfterCoverageEnd r (rg_candidate_coverage_end (en_input env))) olds"
    "list_all2 (\<lambda>m c. range_days (rec_service_period m) = range_days (rec_service_period c)
         \<and> protection_of env c = None) ms cs"
    using assms(1) unfolding derives_def by blast
  have "mset (pl_active plan') = mset olds + mset (m # ms)" by (simp add: assms(2) parts(1))
  moreover have "mset (c # cs) \<subseteq># add_mset c C" by (simp add: parts(3))
  moreover have "list_all2 (\<lambda>m c. range_days (rec_service_period m) = range_days (rec_service_period c)
         \<and> protection_of env c = None) (m # ms) (c # cs)"
    unfolding list.rel_inject by (rule conjI [OF conjI [OF assms(4,5)] parts(5)])
  ultimately show ?thesis unfolding derives_def
    using parts(4) subset_mset.order_trans [OF parts(2) assms(3)] by blast
qed

lemma derives_keep:
  assumes "derives env plan D C" "pl_active plan' = pl_active plan @ [e]" "C \<subseteq># C'"
    and "isPreservedRecurringServicePeriodRecord e
      \<or> startsAtOrAfterCoverageEnd e (rg_candidate_coverage_end (en_input env))"
  shows "derives env plan' (add_mset e D) C'"
proof -
  obtain olds ms cs where parts: "mset (pl_active plan) = mset olds + mset ms" "mset olds \<subseteq># D" "mset cs \<subseteq># C"
    "list_all (\<lambda>r. isPreservedRecurringServicePeriodRecord r
       \<or> startsAtOrAfterCoverageEnd r (rg_candidate_coverage_end (en_input env))) olds"
    "list_all2 (\<lambda>m c. range_days (rec_service_period m) = range_days (rec_service_period c)
         \<and> protection_of env c = None) ms cs"
    using assms(1) unfolding derives_def by blast
  have "mset (pl_active plan') = mset (e # olds) + mset ms" by (simp add: assms(2) parts(1))
  moreover have "mset (e # olds) \<subseteq># add_mset e D" by (simp add: parts(2))
  moreover have "list_all (\<lambda>r. isPreservedRecurringServicePeriodRecord r
       \<or> startsAtOrAfterCoverageEnd r (rg_candidate_coverage_end (en_input env))) (e # olds)"
    unfolding list.pred_inject by (rule conjI [OF assms(4) parts(4)])
  ultimately show ?thesis unfolding derives_def
    using parts(5) subset_mset.order_trans [OF parts(3) assms(3)] by blast
qed

lemma derives_append: "derives env plan D C \<Longrightarrow> derives env (appendNewCandidate env c plan) D (add_mset c C)"
  by (auto simp: appendNewCandidate_def push_protection_def Let_def buildNewRecord_def
      intro: derives_match [where m = "buildNewRecord env c"] derives_weaken split: option.splits)

lemma derives_emit_before:
  assumes "emit_before env e cands plan = (cands', plan')" "derives env plan D C"
  shows "\<exists>used. cands = used @ cands' \<and> derives env plan' D (C + mset used)"
  using assms
proof (induction env e cands plan arbitrary: C rule: emit_before.induct)
  case (2 env e c cs plan)
  show ?case
  proof (cases "slice_date (range_start (rec_service_period c)) < slice_date (range_start (rec_service_period e))
      \<and> rec_period_key c \<noteq> rec_period_key e")
    case True
    then have "emit_before env e cs (appendNewCandidate env c plan) = (cands', plan')" using 2(2) by simp
    from 2(1) [OF True this derives_append [OF 2(3)]] obtain used where "cs = used @ cands'"
      "derives env plan' D (add_mset c C + mset used)" by blast
    then show ?thesis by (intro exI [of _ "c # used"]) simp
  next
    case False
    then show ?thesis using 2 by (intro exI [of _ "[]"]) auto
  qed
qed simp

lemma equivalent_days: "areEquivalentFutureRecords e c \<Longrightarrow> range_days (rec_service_period e) = range_days (rec_service_period c)"
  by (drule equivalent_identity) (simp add: period_identity_def range_days_def)

lemma derives_reconcile_record:
  assumes "reconcile_record env e cands plan = (cands', plan')" "derives env plan D C"
  shows "\<exists>used. cands = used @ cands' \<and> derives env plan' (add_mset e D) (C + mset used)"
proof (cases "isPreservedRecurringServicePeriodRecord e")
  case True
  then obtain cfs where plan': "plan' = plan\<lparr>pl_conflicts := cfs, pl_preserved := pl_preserved plan @ [e],
      pl_active := pl_active plan @ [e]\<rparr>"
    and cands': "cands' = cands \<or> (\<exists>c. cands = c # cands' \<and> findRecurringServicePeriodCandidateProtection c [e] \<noteq> None)"
    using assms(1) by (rule reconcile_preserved)
  have "derives env plan' (add_mset e D) C'" if "C \<subseteq># C'" for C'
    using derives_keep [OF assms(2) _ that, of plan' e] plan' True by simp
  with cands' show ?thesis by (auto intro: exI [of _ "[]"] exI [of _ "[_]"])
next
  case False
  show ?thesis
  proof (cases cands)
    case Nil
    then show ?thesis using assms False
      by (auto simp: reconcile_record_def split: if_splits intro: derives_keep derives_weaken)
  next
    case (Cons c cs)
    have "derives env plan' (add_mset e D) (add_mset c C) \<and> cands' = cs"
    proof (cases "protection_of env c")
      case None
      then show ?thesis using assms False Cons equivalent_days [of e c]
        by (auto simp: reconcile_record_def Let_def regenerated_record_def split: if_splits
            intro: derives_match [where c = c])
    next
      case (Some p)
      then show ?thesis using assms False Cons
        by (auto simp: reconcile_record_def push_protection_def intro: derives_weaken)
    qed
    then show ?thesis using Cons by (intro exI [of _ "[c]"]) simp
  qed
qed

lemma derives_reconcile_records:
  assumes "reconcile_records env existing cands plan = (cands', plan')" "derives env plan D C"
  shows "\<exists>used. cands = used @ cands' \<and> derives env plan' (D + mset existing) (C + mset used)"
  using assms
proof (induction existing arbitrary: cands plan D C)
  case (Cons e rest)
  obtain cands1 plan1 where 1: "emit_before env e cands plan = (cands1, plan1)" by fastforce
  obtain cands2 plan2 where 2: "reconcile_record env e cands1 plan1 = (cands2, plan2)" by fastforce
  from derives_emit_before [OF 1 Cons.prems(2)] obtain used1 where used1: "cands = used1 @ cands1"
    "derives env plan1 D (C + mset used1)" by blast
  from derives_reconcile_record [OF 2 used1(2)] obtain used2 where used2: "cands1 = used2 @ cands2"
    "derives env plan2 (add_mset e D) (C + mset used1 + mset used2)" by auto
  have "reconcile_records env rest cands2 plan2 = (cands', plan')" using Cons.prems(1) 1 2 by simp
  from Cons.IH [OF this used2(2)] obtain used3 where "cands2 = used3 @ cands'"
    "derives env plan' (add_mset e D + mset rest) (C + mset used1 + mset used2 + mset used3)" by auto
  then show ?case using used1(1) used2(1)
    by (intro exI [of _ "used1 @ used2 @ used3"]) (simp add: add.assoc)
qed simp

lemma derives_append_all:
  "derives env plan D C \<Longrightarrow>
     derives env (foldl (\<lambda>plan c. appendNewCandidate env c plan) plan cands) D (C + mset cands)"
proof (induction cands arbitrary: plan C)
  case (Cons c cands)
  from Cons.IH [OF derives_append [OF Cons.prems, of c]] show ?case by simp
qed simp

lemma regenerate_derives:
  "derives (regeneration_env_of inp) (regenerateRecurringServicePeriods inp)
     (mset (active_existing inp)) (mset (rg_candidate_records inp))"
proof -
  let ?env = "regeneration_env_of inp"
  let ?empty = "\<lparr>pl_active = [], pl_preserved = [], pl_regenerated = [], pl_superseded = [],
            pl_new = [], pl_conflicts = []\<rparr>"
  obtain rest plan where rec: "reconcile_records ?env (sortRecords (active_existing inp))
      (sortRecords (rg_candidate_records inp)) ?empty = (rest, plan)" by fastforce
  have "derives ?env ?empty {#} {#}" by (simp add: derives_def)
  from derives_reconcile_records [OF rec this] obtain used where
    used: "sortRecords (rg_candidate_records inp) = used @ rest"
    and der: "derives ?env plan (mset (active_existing inp)) (mset used)"
    by (auto simp: sortRecords_def)
  have "mset used + mset rest = mset (rg_candidate_records inp)"
    using arg_cong [OF used, of mset] by (simp add: sortRecords_def)
  moreover have "regenerateRecurringServicePeriods inp
      = foldl (\<lambda>plan c. appendNewCandidate ?env c plan) plan rest"
    using rec by (simp add: regenerateRecurringServicePeriods_def regeneration_env_of_def
        active_existing_def Let_def)
  ultimately show ?thesis using derives_append_all [OF der, of rest] by simp
qed

section \<open>No day twice\<close>

lemma matched_days:
  "list_all2 (\<lambda>m c. range_days (rec_service_period m) = range_days (rec_service_period c)
     \<and> protection_of env c = None) ms cs \<Longrightarrow>
   day_count (mset ms) d = day_count (mset cs) d
   \<and> (0 < day_count (mset ms) d \<longrightarrow>
       (\<exists>c \<in> set cs. protection_of env c = None \<and> d \<in> range_days (rec_service_period c)))"
  by (induction rule: list_all2_induct) auto

text \<open>\<open>P\<close> are the records of the past that a backfill keeps besides those of the plan.\<close>

lemma derives_days_once:
  assumes der: "derives env plan D C" and once: "days_once (P + D)" "days_once C"
    and past: "\<And>p c. p \<in># P \<Longrightarrow> c \<in># C \<Longrightarrow> end_day p \<le> start_day c"
    and same: "\<And>p c. p \<in># D \<Longrightarrow> c \<in># C \<Longrightarrow> same_obligation p c"
    and preserved: "\<And>p. p \<in># D \<Longrightarrow> isPreservedRecurringServicePeriodRecord p \<Longrightarrow> p \<in> set (en_protected env)"
    and covered: "\<And>c e. c \<in># C \<Longrightarrow> rg_candidate_coverage_end (en_input env) = Some e \<Longrightarrow> end_day c \<le> iso_day e"
  shows "days_once (P + mset (pl_active plan))"
  unfolding days_once_def
proof
  fix d
  obtain olds ms cs where active: "mset (pl_active plan) = mset olds + mset ms"
    and sub: "mset olds \<subseteq># D" "mset cs \<subseteq># C"
    and olds: "list_all (\<lambda>r. isPreservedRecurringServicePeriodRecord r
       \<or> startsAtOrAfterCoverageEnd r (rg_candidate_coverage_end (en_input env))) olds"
    and match: "list_all2 (\<lambda>m c. range_days (rec_service_period m) = range_days (rec_service_period c)
         \<and> protection_of env c = None) ms cs"
    using der unfolding derives_def by blast
  have count: "day_count (P + mset (pl_active plan)) d
      = day_count P d + day_count (mset olds) d + day_count (mset cs) d"
    using active matched_days [OF match, of d] by simp
  show "day_count (P + mset (pl_active plan)) d \<le> 1"
  proof (cases "0 < day_count (mset ms) d")
    case False
    have "day_count P d + day_count D d \<le> 1" using once(1) unfolding days_once_def day_count_simps(3) ..
    then show ?thesis
      using False count matched_days [OF match, of d] day_count_mono [OF sub(1), of d] by linarith
  next
    case True
    then obtain c where c: "c \<in> set cs" "protection_of env c = None" "d \<in> range_days (rec_service_period c)"
      using matched_days [OF match, of d] by blast
    then have cC: "c \<in># C" using mset_subset_eqD [OF sub(2)] by simp
    have "d \<notin> range_days (rec_service_period r)" if r: "r \<in># mset olds" for r
    proof -
      have rD: "r \<in># D" using mset_subset_eqD [OF sub(1)] r by simp
      have "isPreservedRecurringServicePeriodRecord r
        \<or> startsAtOrAfterCoverageEnd r (rg_candidate_coverage_end (en_input env))"
        using olds r by (simp add: list_all_iff)
      then show ?thesis
      proof
        assume "isPreservedRecurringServicePeriodRecord r"
        then have "\<not> protects c r" using preserved [OF rD] c(2)
          by (auto simp: protection_of_def findRecurringServicePeriodCandidateProtection_def find_None_iff)
        from not_protects_disjoint [OF this same [OF rD cC]] c(3) show ?thesis by blast
      next
        assume "startsAtOrAfterCoverageEnd r (rg_candidate_coverage_end (en_input env))"
        with covered [OF cC] c(3) show ?thesis
          by (auto simp: startsAtOrAfterCoverageEnd_def range_days_iff split: option.splits)
      qed
    qed
    then have "day_count (mset olds) d = 0" by (rule day_count_zero)
    moreover have "day_count P d = 0"
      by (rule day_count_zero) (use past [OF _ cC] c(3) in \<open>fastforce simp: range_days_iff\<close>)
    moreover have "day_count (mset cs) d \<le> 1"
      using day_count_mono [OF sub(2), of d] once(2) unfolding days_once_def by (metis le_trans)
    ultimately show ?thesis using count by simp
  qed
qed

lemma backfill_active:
  assumes "backfillRecurringServicePeriods lc inp = Inr plan"
  obtains future where
    "mset future \<subseteq># mset (map (normalizeBackfillCandidate inp) (bf_candidate_records inp))"
    "\<forall>b. backfill_boundary lc inp = Some b \<longrightarrow> (\<forall>c \<in> set future. iso_day b \<le> start_day c)"
    "mset (bp_active_records plan) =
       mset (filter (\<lambda>r. \<exists>b. backfill_boundary lc inp = Some b \<and> end_day r \<le> iso_day b) (live_existing inp))
       + mset (pl_active (regenerateRecurringServicePeriods (future_regeneration lc inp future)))"
    "mset (active_existing (future_regeneration lc inp future)) =
       mset (filter (\<lambda>r. \<nexists>b. backfill_boundary lc inp = Some b \<and> end_day r \<le> iso_day b) (live_existing inp))"
    "\<exists>skipped. split_candidates (backfill_boundary lc inp) (sort_backfill lc
        (map (normalizeBackfillCandidate inp) (bf_candidate_records inp))) = Inr (skipped, future)"
proof -
  let ?cands = "map (normalizeBackfillCandidate inp) (bf_candidate_records inp)"
  obtain skipped future where split: "split_candidates (backfill_boundary lc inp) (sort_backfill lc ?cands) = Inr (skipped, future)"
    using assms by (auto simp: backfillRecurringServicePeriods_def Let_def result_simps
        backfill_boundary_def [symmetric])
  have sub: "mset future \<subseteq># mset ?cands"
    using split mset_sort_backfill [of lc ?cands]
    by (cases "backfill_boundary lc inp") (auto simp: split_candidates_Inr multiset_filter_subset)
  have after: "\<forall>b. backfill_boundary lc inp = Some b \<longrightarrow> (\<forall>c \<in> set future. iso_day b \<le> start_day c)"
    using split by (fastforce simp: split_candidates_Inr filter_empty_conv overlapsHistoricalBoundary_def)
  have live: "mset (filter P (sort_backfill lc (filter (\<lambda>r. rec_lifecycle_state r \<noteq> Superseded)
        (sort_backfill lc (filter (\<lambda>r. rec_lifecycle_state r \<noteq> Archived) (or_else (bf_existing_records inp) []))))))
      = mset (filter P (live_existing inp))" for P
    by (simp add: live_existing_def filter_filter_mset conj_ac)
  have active: "mset (bp_active_records plan) =
       mset (filter (\<lambda>r. \<exists>b. backfill_boundary lc inp = Some b \<and> end_day r \<le> iso_day b) (live_existing inp))
       + mset (pl_active (regenerateRecurringServicePeriods (future_regeneration lc inp future)))"
  proof (cases "backfill_boundary lc inp")
    case None
    then show ?thesis using assms split unfolding backfillRecurringServicePeriods_def Let_def
        backfill_boundary_def [symmetric] by (auto simp: future_regeneration_def Let_def)
  next
    case (Some b)
    have retained: "mset (bp_active_records plan) =
        mset (filter (\<lambda>r. compareDateOnly (range_end (rec_service_period r)) b \<le> 0)
          (sort_backfill lc (filter (\<lambda>r. rec_lifecycle_state r \<noteq> Superseded)
            (sort_backfill lc (filter (\<lambda>r. rec_lifecycle_state r \<noteq> Archived) (or_else (bf_existing_records inp) []))))))
        + mset (pl_active (regenerateRecurringServicePeriods (future_regeneration lc inp future)))"
      using assms split Some unfolding backfillRecurringServicePeriods_def Let_def
        backfill_boundary_def [symmetric] by (auto simp: future_regeneration_def Let_def)
    then show ?thesis unfolding live by (simp add: Some)
  qed
  have existing: "mset (active_existing (future_regeneration lc inp future)) =
       mset (filter (\<lambda>r. \<nexists>b. backfill_boundary lc inp = Some b \<and> end_day r \<le> iso_day b) (live_existing inp))"
    by (cases "backfill_boundary lc inp")
      (auto simp: active_existing_def future_regeneration_def live_existing_def Let_def
        filter_filter_mset conj_ac not_le intro!: filter_mset_cong)
  show ?thesis using split by (intro that [OF sub after active existing]) blast
qed

lemma normalized_candidates [simp]:
  "rec_service_period (normalizeBackfillCandidate inp c) = rec_service_period c"
  "rec_source_obligation (normalizeBackfillCandidate inp c) = rec_source_obligation c"
  by (simp_all add: normalizeBackfillCandidate_def)

lemma day_count_normalized: "day_count (image_mset (normalizeBackfillCandidate inp) R) d = day_count R d"
  by (induction R) simp_all

lemma backfill_covers_once:
  assumes "backfillRecurringServicePeriods lc inp = Inr plan"
    and "days_once (mset (live_existing inp))" "days_once (mset (bf_candidate_records inp))"
    and "\<forall>p \<in> set (live_existing inp). \<forall>c \<in> set (bf_candidate_records inp). same_obligation p c"
    and "\<forall>e. bf_candidate_coverage_end inp = Some e \<longrightarrow> (\<forall>c \<in> set (bf_candidate_records inp). end_day c \<le> iso_day e)"
  shows "days_once (mset (bp_active_records plan))"
proof -
  obtain future where sub: "mset future \<subseteq># mset (map (normalizeBackfillCandidate inp) (bf_candidate_records inp))"
    and after: "\<forall>b. backfill_boundary lc inp = Some b \<longrightarrow> (\<forall>c \<in> set future. iso_day b \<le> start_day c)"
    and active: "mset (bp_active_records plan) =
       mset (filter (\<lambda>r. \<exists>b. backfill_boundary lc inp = Some b \<and> end_day r \<le> iso_day b) (live_existing inp))
       + mset (pl_active (regenerateRecurringServicePeriods (future_regeneration lc inp future)))"
    and existing: "mset (active_existing (future_regeneration lc inp future)) =
       mset (filter (\<lambda>r. \<nexists>b. backfill_boundary lc inp = Some b \<and> end_day r \<le> iso_day b) (live_existing inp))"
    using assms(1) by (rule backfill_active) blast
  let ?reg = "future_regeneration lc inp future"
  let ?old = "\<lambda>r. \<exists>b. backfill_boundary lc inp = Some b \<and> end_day r \<le> iso_day b"
  have cand: "\<exists>c' \<in> set (bf_candidate_records inp). c = normalizeBackfillCandidate inp c'" if "c \<in> set future" for c
    using mset_subset_eqD [OF sub, of c] that by auto
  have D: "p \<in> set (live_existing inp)" if "p \<in># mset (active_existing ?reg)" for p
    using that unfolding existing by simp
  have "mset (filter ?old (live_existing inp)) + mset (active_existing ?reg) = mset (live_existing inp)"
    unfolding existing mset_filter by (rule multiset_partition [symmetric])
  moreover have "days_once (mset (map (normalizeBackfillCandidate inp) (bf_candidate_records inp)))"
    using assms(3) by (simp add: days_once_def day_count_normalized)
  ultimately show ?thesis unfolding active
    by (intro derives_days_once [OF regenerate_derives [of ?reg]])
      (use assms(2,4,5) D cand after days_once_mono [OF sub] in
        \<open>fastforce simp: future_regeneration_def regeneration_env_of_def same_obligation_def\<close>)+
qed

text \<open>
  C19: a backfill covers no day of an obligation twice. If the live records of the ledger do not, and
  the candidates do not and end by the coverage end, then the active records of the plan do not, whatever was
  edited, locked, skipped, billed or moved.
\<close>

theorem backfill_days_once:
  assumes "backfillRecurringServicePeriods lc inp = Inr plan"
    and "days_once (mset (live_existing inp))" "days_once (mset (bf_candidate_records inp))"
    and "\<forall>p \<in> set (live_existing inp). \<forall>c \<in> set (bf_candidate_records inp). same_obligation p c"
    and "\<forall>e. bf_candidate_coverage_end inp = Some e \<longrightarrow> (\<forall>c \<in> set (bf_candidate_records inp). end_day c \<le> iso_day e)"
  shows "days_once (mset (bp_active_records plan))"
  using assms by (rule backfill_covers_once)

theorem backfill_days_once_witness:
  "\<exists>plan. backfillRecurringServicePeriods text_order sample_backfill = Inr plan
     \<and> days_once (mset (bp_active_records plan))"
proof -
  have "case backfillRecurringServicePeriods text_order sample_backfill of Inl _ \<Rightarrow> False | Inr _ \<Rightarrow> True" by code_simp
  then obtain plan where plan: "backfillRecurringServicePeriods text_order sample_backfill = Inr plan"
    by (cases "backfillRecurringServicePeriods text_order sample_backfill") auto
  have "tiles 20454 (map rec_service_period (live_existing sample_backfill)) 20513"
    "tiles 20454 (map rec_service_period (bf_candidate_records sample_backfill)) 20544"
    by code_simp+
  note once = this [THEN tiles_days_once]
  have "list_all (\<lambda>p. list_all (same_obligation p) (bf_candidate_records sample_backfill)) (live_existing sample_backfill)"
    by code_simp
  then have "\<forall>p \<in> set (live_existing sample_backfill). \<forall>c \<in> set (bf_candidate_records sample_backfill). same_obligation p c"
    by (simp add: list_all_iff)
  moreover have "bf_candidate_coverage_end sample_backfill = None" by (simp add: sample_backfill_def)
  ultimately show ?thesis using backfill_days_once [OF plan once] plan by auto
qed
end
