(* ===== verification/Contract_Replenishment.thy ===== *)
theory Contract_Replenishment
  imports Ledger_Table Day_Coverage "HOL-Library.AList"
begin

text \<open>
  \<open>packages/billing/src/actions/contractCadenceServicePeriodMaterialization.ts\<close>: the synchronization
  of the ledger of a contract-cadence line with its terms, and the sweep over the lines of a tenant.
  The rows of the contract tables are the argument \<open>obligation\<close>, the wall clock is the argument
  \<open>now\<close>, the factory of identifiers an argument too; the ledger is passed as state.
\<close>

section \<open>The terms of a line\<close>

record contract_obligation_row =
  co_contract_line_id :: string
  co_contract_line_type :: "string option"
  co_cadence_owner :: "string option"
  co_billing_frequency :: "string option"
  co_billing_timing :: "string option"
  co_assignment_start_date :: db_value
  co_assignment_end_date :: db_value

text \<open>\<open>toLowerCase()\<close> on ASCII texts.\<close>

definition lower_char :: "char \<Rightarrow> char" where
  "lower_char c = (let n = of_char c :: nat in if 65 \<le> n \<and> n \<le> 90 then char_of (n + 32) else c)"

definition to_lower :: "string \<Rightarrow> string" where
  "to_lower s = map lower_char s"

definition resolveRecurringChargeFamily :: "string option \<Rightarrow> charge_family" where
  "resolveRecurringChargeFamily contractLineType =
     (let t = to_lower (or_else contractLineType ''fixed'')
      in if t = ''fixed'' then Fixed
         else if t = ''time'' \<or> t = ''hourly'' then Hourly
         else if t = ''usage'' then Usage
         else if t = ''bucket'' then Bucket
         else if t = ''product'' then Product
         else if t = ''license'' then License
         else Fixed)"

definition normalizeContractCadenceBillingCycle :: "string option \<Rightarrow> supported_contract_cycle option" where
  "normalizeContractCadenceBillingCycle v =
     (let t = to_lower (or_else v [])
      in if t = ''monthly'' then Some Contract_Monthly
         else if t = ''quarterly'' then Some Contract_Quarterly
         else if t = ''semi-annually'' \<or> t = ''semiannually'' then Some Contract_Semi_Annually
         else if t = ''annually'' \<or> t = ''annual'' then Some Contract_Annually
         else None)"

fun contract_cycle_text :: "supported_contract_cycle \<Rightarrow> string" where
  "contract_cycle_text Contract_Monthly = ''monthly''"
| "contract_cycle_text Contract_Quarterly = ''quarterly''"
| "contract_cycle_text Contract_Semi_Annually = ''semi-annually''"
| "contract_cycle_text Contract_Annually = ''annually''"

definition compareIsoDateOnly :: "iso8601 \<Rightarrow> iso8601 \<Rightarrow> int" where
  "compareIsoDateOnly left right = locale_compare (slice_date left) (slice_date right)"

definition maxIsoDateOnly :: "iso8601 \<Rightarrow> iso8601 \<Rightarrow> iso8601" where
  "maxIsoDateOnly left right = (if compareIsoDateOnly left right \<ge> 0 then left else right)"

definition further_end :: "iso8601 option \<Rightarrow> period_record \<Rightarrow> iso8601 option" where
  "further_end furthest r =
     (case furthest of None \<Rightarrow> Some (range_end (rec_service_period r))
      | Some f \<Rightarrow> if compareIsoDateOnly (range_end (rec_service_period r)) f > 0
          then Some (range_end (rec_service_period r)) else furthest)"

definition resolveFurthestServicePeriodEnd :: "period_record list \<Rightarrow> iso8601 option" where
  "resolveFurthestServicePeriodEnd records = foldl further_end None records"

text \<open>The end of billed history: the greatest end of a billed or linked record.\<close>

definition billed_boundary :: "period_record list \<Rightarrow> iso8601 option" where
  "billed_boundary existingRecords =
     (case js_sort (\<lambda>left right. compareIsoDateOnly right left)
        (map (\<lambda>r. range_end (rec_service_period r))
          (filter (\<lambda>r. rec_lifecycle_state r = Billed \<or> rec_invoice_linkage r \<noteq> None) existingRecords)) of
       [] \<Rightarrow> None | e # _ \<Rightarrow> Some e)"

section \<open>Synchronization of a line\<close>

record sync_result =
  sy_changed :: bool
  sy_periods_generated :: nat
  sy_periods_realigned :: nat
  sy_periods_superseded :: nat
  sy_hit_period_cap :: bool
  sy_was_exhausted_before_run :: bool
  sy_override_conflicts :: nat
  sy_furthest_service_period_end :: "iso8601 option"
  sy_expected_coverage_end :: "iso8601 option"
  sy_meets_expected_coverage :: bool
  sy_unresolved_gap_count :: nat

definition emptyObligationSyncResult :: "bool \<Rightarrow> sync_result" where
  "emptyObligationSyncResult changed =
     \<lparr>sy_changed = changed, sy_periods_generated = 0, sy_periods_realigned = 0, sy_periods_superseded = 0,
      sy_hit_period_cap = False, sy_was_exhausted_before_run = False, sy_override_conflicts = 0,
      sy_furthest_service_period_end = None, sy_expected_coverage_end = None,
      sy_meets_expected_coverage = False, sy_unresolved_gap_count = 0\<rparr>"

definition MAX_CONTINUATION_SCAN_BATCHES :: nat where
  "MAX_CONTINUATION_SCAN_BATCHES = 500"

text \<open>
  The loop over the capped batches: from the current batch to the batch and the date where generation
  resumes. \<open>start\<close> is \<open>continuationStart\<close>, \<open>again\<close> materializes from a date.
\<close>

fun scan_batches :: "(iso8601 \<Rightarrow> contract_plan result) \<Rightarrow> coverage_index \<Rightarrow> iso8601 \<Rightarrow> iso8601 \<Rightarrow> nat
    \<Rightarrow> contract_plan \<Rightarrow> iso8601 \<Rightarrow> (contract_plan \<times> iso8601) result" where
  "scan_batches again coverage horizonEnd regenerationStart 0 batch start = Inr (batch, start)"
| "scan_batches again coverage horizonEnd regenerationStart (Suc n) batch start =
     (let records = cp_records batch;
          missing = List.find (\<lambda>c. \<not> isRecurringServicePeriodCandidateCovered c coverage) records;
          lastEnd = (if records = [] then None else Some (range_end (rec_service_period (last records))))
      in case missing of
        Some c \<Rightarrow> Inr (batch, range_start (rec_service_period c))
      | None \<Rightarrow>
          (case lastEnd of
             None \<Rightarrow> Inr (batch, regenerationStart)
           | Some e \<Rightarrow>
               if \<not> cp_hit_period_cap batch \<or> compareIsoDateOnly e horizonEnd \<ge> 0 then Inr (batch, e)
               else if compareIsoDateOnly e start \<le> 0 then Inr (batch, e)
               else and_then (again e) (\<lambda>batch'.
                 scan_batches again coverage horizonEnd regenerationStart n batch' e)))"

text \<open>The part of a run that resumes a capped generation: the batch to use, and the floor of history.\<close>

definition continue_capped :: "(iso8601 \<Rightarrow> contract_plan result) \<Rightarrow> period_record list \<Rightarrow> iso8601 \<Rightarrow> iso8601 option
    \<Rightarrow> contract_plan \<Rightarrow> (contract_plan \<times> iso8601 option) result" where
  "continue_capped again existingRecords regenerationStart billedBoundaryEnd materialized =
     (let horizonEnd = utc_midnight (iso_day (hz_target_horizon_end (cp_coverage materialized)))
      in if \<not> cp_hit_period_cap materialized then Inr (materialized, billedBoundaryEnd)
         else and_then (scan_batches again (buildRecurringServicePeriodCoverageIndex existingRecords) horizonEnd
             regenerationStart MAX_CONTINUATION_SCAN_BATCHES materialized regenerationStart)
           (\<lambda>(batch, continuationStart).
             if compareIsoDateOnly continuationStart regenerationStart > 0
             then (if compareIsoDateOnly continuationStart horizonEnd < 0
                then and_then (again continuationStart) (\<lambda>batch'. Inr (batch', Some continuationStart))
                else Inr (batch\<lparr>cp_records := [], cp_hit_period_cap := False\<rparr>, Some continuationStart))
             else Inr (batch, billedBoundaryEnd)))"

text \<open>The terms of a run, resolved; \<open>None\<close> when the line is retired instead.\<close>

record contract_terms =
  ct_assignment_start :: iso8601
  ct_assignment_end :: "iso8601 option"
  ct_frequency :: supported_contract_cycle
  ct_due_position :: due_position

definition resolve_terms :: "temporal \<Rightarrow> contract_obligation_row \<Rightarrow> contract_terms option result" where
  "resolve_terms td obligation =
     and_then (normalizeDateOnlyValue td (co_assignment_start_date obligation)) (\<lambda>assignmentStart.
       case assignmentStart of None \<Rightarrow> Inr None
       | Some start \<Rightarrow>
           (case normalizeContractCadenceBillingCycle (co_billing_frequency obligation) of
              None \<Rightarrow> Inr None
            | Some frequency \<Rightarrow>
                if co_cadence_owner obligation \<noteq> Some ''contract''
                  \<or> co_billing_timing obligation \<noteq> Some ''advance'' \<and> co_billing_timing obligation \<noteq> Some ''arrears''
                then Inr None
                else and_then (normalizeDateOnlyValue td (co_assignment_end_date obligation)) (\<lambda>assignmentEnd.
                  if (case assignmentEnd of None \<Rightarrow> False | Some e \<Rightarrow> compareIsoDateOnly e start \<le> 0)
                  then Inr None
                  else Inr (Some \<lparr>ct_assignment_start = start, ct_assignment_end = assignmentEnd,
                    ct_frequency = frequency,
                    ct_due_position = (if co_billing_timing obligation = Some ''advance'' then Advance else Arrears)\<rparr>))))"

definition sync_input :: "temporal \<Rightarrow> iso8601 \<Rightarrow> record_id_factory \<Rightarrow> string \<Rightarrow> string \<Rightarrow> contract_obligation_row
    \<Rightarrow> contract_terms \<Rightarrow> iso8601 \<Rightarrow> iso8601 \<Rightarrow> contract_materialization" where
  "sync_input td now factory tenant sourceRunPrefix obligation terms coverageAnchorDate asOf =
     \<lparr>cm_as_of = asOf, cm_materialized_at = now, cm_billing_cycle = ct_frequency terms,
      cm_anchor_date = ct_assignment_start terms,
      cm_source_obligation = \<lparr>ob_tenant = Some tenant, ob_id = co_contract_line_id obligation,
        ob_type = Contract_Line,
        ob_charge_family = resolveRecurringChargeFamily (co_contract_line_type obligation)\<rparr>,
      cm_due_position = ct_due_position terms,
      cm_source_rule_version = join_with ''|'' [''contract_cadence'',
        ''billing_cycle:'' @ contract_cycle_text (ct_frequency terms),
        ''anchor:'' @ iso_text td (slice_date (ct_assignment_start terms)),
        ''due:'' @ due_position_text (ct_due_position terms)],
      cm_source_run_key = sourceRunPrefix @ '':'' @ co_contract_line_id obligation @ '':'' @ iso_text td now,
      cm_coverage_anchor_date = Some coverageAnchorDate,
      cm_target_horizon_days = None, cm_replenishment_threshold_days = None,
      cm_max_periods_per_run = None, cm_record_id_factory = Some factory\<rparr>"

text \<open>The bounds of the generated candidates: the coverage end, and the floor of history.\<close>

definition sync_bounds :: "iso8601 option \<Rightarrow> iso8601 option \<Rightarrow> contract_plan \<Rightarrow> iso8601 option
    \<Rightarrow> iso8601 option \<times> iso8601 option" where
  "sync_bounds assignmentEnd billedBoundaryEnd materialized historicalBoundaryFloor =
     (let targetHorizonEnd = utc_midnight (iso_day (hz_target_horizon_end (cp_coverage materialized)));
          generatedCoverageEnd = (if cp_records materialized = []
            then or_else historicalBoundaryFloor targetHorizonEnd
            else range_end (rec_service_period (last (cp_records materialized))))
      in case assignmentEnd of
        None \<Rightarrow> (Some generatedCoverageEnd, historicalBoundaryFloor)
      | Some e \<Rightarrow>
          if compareIsoDateOnly e generatedCoverageEnd \<le> 0
          then (None, case historicalBoundaryFloor of
                None \<Rightarrow> None
              | Some f \<Rightarrow> if compareIsoDateOnly f e > 0
                  then Some (case billedBoundaryEnd of None \<Rightarrow> e | Some b \<Rightarrow> maxIsoDateOnly b e)
                  else Some f)
          else (Some generatedCoverageEnd, historicalBoundaryFloor))"

definition backfill_request :: "contract_materialization \<Rightarrow> period_record list \<Rightarrow> period_record list
    \<Rightarrow> iso8601 option \<Rightarrow> iso8601 option \<Rightarrow> backfill_input" where
  "backfill_request inp candidateRecords existingRecords candidateCoverageEnd historicalBoundaryFloor =
     \<lparr>bf_candidate_records = candidateRecords, bf_backfilled_at = cm_materialized_at inp,
      bf_source_rule_version = cm_source_rule_version inp, bf_source_run_key = cm_source_run_key inp,
      bf_existing_records = Some existingRecords, bf_legacy_billed_through_end = historicalBoundaryFloor,
      bf_candidate_coverage_end = candidateCoverageEnd, bf_reason_code = Some ''source_rule_changed'',
      bf_record_id_factory = cm_record_id_factory inp\<rparr>"

text \<open>The plan of a run: what is materialized, the candidates and the backfill.\<close>

record sync_plan =
  sp_materialized :: contract_plan
  sp_candidates :: "period_record list"
  sp_backfill :: backfill_plan
  sp_was_exhausted :: bool

definition sync_plan_of :: "temporal \<Rightarrow> (string \<Rightarrow> string \<Rightarrow> int) \<Rightarrow> iso8601 \<Rightarrow> record_id_factory \<Rightarrow> string \<Rightarrow> string
    \<Rightarrow> contract_obligation_row \<Rightarrow> iso8601 option \<Rightarrow> contract_terms \<Rightarrow> period_record list \<Rightarrow> sync_plan result" where
  "sync_plan_of td lc now factory tenant sourceRunPrefix obligation asOf terms existingRecords =
     (let assignmentStart = ct_assignment_start terms;
          assignmentEnd = ct_assignment_end terms;
          billedBoundaryEnd = billed_boundary existingRecords;
          regenerationStart = (case billedBoundaryEnd of None \<Rightarrow> assignmentStart
            | Some b \<Rightarrow> maxIsoDateOnly assignmentStart b);
          runDateOnly = slice_date (or_else asOf now);
          coverageAnchorDate = maxIsoDateOnly regenerationStart (utc_midnight (iso_day runDateOnly));
          furthestActiveBeforeRun = resolveFurthestServicePeriodEnd (filter live existingRecords);
          wasExhaustedBeforeRun = (case furthestActiveBeforeRun of None \<Rightarrow> True
            | Some f \<Rightarrow> compareIsoDateOnly f coverageAnchorDate < 0);
          base = sync_input td now factory tenant sourceRunPrefix obligation terms coverageAnchorDate;
          again = (\<lambda>start. materializeContractCadenceServicePeriods td (base start))
      in and_then (again regenerationStart) (\<lambda>first.
         and_then (continue_capped again existingRecords regenerationStart billedBoundaryEnd first)
           (\<lambda>(materialized, floor).
             let candidateRecords = clipRecurringCandidatesToObligationBounds (cp_records materialized)
                   assignmentStart assignmentEnd;
                 (candidateCoverageEnd, historicalBoundaryFloor) =
                   sync_bounds assignmentEnd billedBoundaryEnd materialized floor
             in and_then (backfillRecurringServicePeriods lc (backfill_request (base regenerationStart)
                  candidateRecords existingRecords candidateCoverageEnd historicalBoundaryFloor)) (\<lambda>plan.
                Inr \<lparr>sp_materialized = materialized, sp_candidates = candidateRecords, sp_backfill = plan,
                     sp_was_exhausted = wasExhaustedBeforeRun\<rparr>))))"

definition sync_outcome :: "contract_terms \<Rightarrow> sync_plan \<Rightarrow> sync_result" where
  "sync_outcome terms plan =
     (let backfill = sp_backfill plan;
          targetHorizonEnd = utc_midnight (iso_day (hz_target_horizon_end (cp_coverage (sp_materialized plan))));
          expectedCoverageEnd = (case ct_assignment_end terms of None \<Rightarrow> targetHorizonEnd
            | Some e \<Rightarrow> if compareIsoDateOnly e targetHorizonEnd < 0 then e else targetHorizonEnd);
          furthestServicePeriodEnd = resolveFurthestServicePeriodEnd (bp_active_records backfill);
          unresolvedGapCount = length (findUncoveredRecurringServicePeriodCandidates (sp_candidates plan)
            (bp_active_records backfill) (bp_historical_boundary_end backfill));
          meetsExpectedCoverage = (\<not> cp_hit_period_cap (sp_materialized plan)
            \<and> (case furthestServicePeriodEnd of None \<Rightarrow> False
               | Some f \<Rightarrow> compareIsoDateOnly f expectedCoverageEnd \<ge> 0)
            \<and> unresolvedGapCount = 0)
      in \<lparr>sy_changed = (length (bp_backfilled_records backfill) > 0 \<or> length (bp_realigned_records backfill) > 0
            \<or> length (bp_superseded_records backfill) > 0),
          sy_periods_generated = length (bp_backfilled_records backfill),
          sy_periods_realigned = length (bp_realigned_records backfill),
          sy_periods_superseded = length (bp_superseded_records backfill),
          sy_hit_period_cap = cp_hit_period_cap (sp_materialized plan),
          sy_was_exhausted_before_run = sp_was_exhausted plan,
          sy_override_conflicts = length (bp_conflicts backfill),
          sy_furthest_service_period_end = furthestServicePeriodEnd,
          sy_expected_coverage_end = Some expectedCoverageEnd,
          sy_meets_expected_coverage = meetsExpectedCoverage,
          sy_unresolved_gap_count = unresolvedGapCount\<rparr>)"

definition syncContractCadenceObligation ::
    "temporal \<Rightarrow> int \<Rightarrow> (string \<Rightarrow> string \<Rightarrow> int) \<Rightarrow> iso8601 \<Rightarrow> record_id_factory \<Rightarrow> string
       \<Rightarrow> contract_obligation_row \<Rightarrow> string \<Rightarrow> iso8601 option \<Rightarrow> ledger_table \<Rightarrow> (sync_result \<times> ledger_table) result" where
  "syncContractCadenceObligation td tz lc now factory tenant obligation sourceRunPrefix asOf table =
     and_then (resolve_terms td obligation) (\<lambda>terms.
       case terms of
         None \<Rightarrow> and_then (retireFutureContractCadenceRowsForLine tenant (co_contract_line_id obligation) now table)
           (\<lambda>table'. Inr (emptyObligationSyncResult True, table'))
       | Some terms \<Rightarrow>
           let existingRecords = loadContractCadenceRecords tz tenant (co_contract_line_id obligation) table
           in and_then (sync_plan_of td lc now factory tenant sourceRunPrefix obligation asOf terms existingRecords) (\<lambda>plan.
              and_then (persistContractRegeneration tenant (bp_superseded_records (sp_backfill plan))
                (bp_backfilled_records (sp_backfill plan) @ bp_realigned_records (sp_backfill plan)) table) (\<lambda>table'.
              Inr (sync_outcome terms plan, table'))))"

section \<open>The sweep over the lines of a tenant\<close>

text \<open>
  The loop that keeps one row per line, the one of the earliest assignment: \<open>Map.set\<close> of a present key
  keeps its place.
\<close>

definition earlier_assignment :: "temporal \<Rightarrow> contract_obligation_row \<Rightarrow> contract_obligation_row \<Rightarrow> bool result" where
  "earlier_assignment td existing row =
     and_then (normalizeDateOnlyValue td (co_assignment_start_date existing)) (\<lambda>existingStart.
     and_then (normalizeDateOnlyValue td (co_assignment_start_date row)) (\<lambda>candidateStart.
     Inr (case candidateStart of None \<Rightarrow> False
       | Some c \<Rightarrow> (case existingStart of None \<Rightarrow> True | Some e \<Rightarrow> compareIsoDateOnly c e < 0))))"

fun dedupe_rows :: "temporal \<Rightarrow> (string \<times> contract_obligation_row) list \<Rightarrow> contract_obligation_row list
    \<Rightarrow> (string \<times> contract_obligation_row) list result" where
  "dedupe_rows td deduped [] = Inr deduped"
| "dedupe_rows td deduped (row # rows) =
     (case map_of deduped (co_contract_line_id row) of
        None \<Rightarrow> dedupe_rows td (AList.update (co_contract_line_id row) row deduped) rows
      | Some existing \<Rightarrow> and_then (earlier_assignment td existing row) (\<lambda>earlier.
          dedupe_rows td (if earlier then AList.update (co_contract_line_id row) row deduped else deduped) rows))"

definition dedupeObligations :: "temporal \<Rightarrow> contract_obligation_row list \<Rightarrow> contract_obligation_row list result" where
  "dedupeObligations td rows = and_then (dedupe_rows td [] rows) (\<lambda>deduped. Inr (map snd deduped))"

record replenishment_summary =
  rs_tenant :: string
  rs_as_of :: iso8601
  rs_lines_examined :: nat
  rs_lines_replenished :: nat
  rs_periods_generated :: nat
  rs_periods_realigned :: nat
  rs_periods_superseded :: nat
  rs_lines_at_period_cap :: nat
  rs_lines_awaiting_coverage :: nat
  rs_lines_exhausted_before_run :: nat
  rs_override_conflicts :: nat
  rs_unresolved_gap_count :: nat
  rs_failures :: "(string \<times> billing_error) list"

definition add_sync_result :: "sync_result \<Rightarrow> replenishment_summary \<Rightarrow> replenishment_summary" where
  "add_sync_result res s =
     s\<lparr>rs_lines_replenished := rs_lines_replenished s + (if sy_changed res then 1 else 0),
       rs_periods_generated := rs_periods_generated s + sy_periods_generated res,
       rs_periods_realigned := rs_periods_realigned s + sy_periods_realigned res,
       rs_periods_superseded := rs_periods_superseded s + sy_periods_superseded res,
       rs_lines_exhausted_before_run := rs_lines_exhausted_before_run s + (if sy_was_exhausted_before_run res then 1 else 0),
       rs_override_conflicts := rs_override_conflicts s + sy_override_conflicts res,
       rs_unresolved_gap_count := rs_unresolved_gap_count s + sy_unresolved_gap_count res,
       rs_lines_at_period_cap := rs_lines_at_period_cap s + (if sy_hit_period_cap res then 1 else 0),
       rs_lines_awaiting_coverage := rs_lines_awaiting_coverage s + (if sy_meets_expected_coverage res then 0 else 1)\<rparr>"

text \<open>
  One line of the sweep, in its savepoint: an error is recorded and leaves the table as it was. The
  clock and the factory of the run of each line are arguments.
\<close>

definition replenish_line :: "temporal \<Rightarrow> int \<Rightarrow> (string \<Rightarrow> string \<Rightarrow> int) \<Rightarrow> string \<Rightarrow> string \<Rightarrow> iso8601
    \<Rightarrow> replenishment_summary \<times> ledger_table \<Rightarrow> iso8601 \<times> record_id_factory \<times> contract_obligation_row
    \<Rightarrow> replenishment_summary \<times> ledger_table" where
  "replenish_line td tz lc tenant sourceRunPrefix asOf state step =
     (case state of (summary, table) \<Rightarrow> case step of (now, factory, obligation) \<Rightarrow>
       case syncContractCadenceObligation td tz lc now factory tenant obligation sourceRunPrefix (Some asOf) table of
         Inr (res, table') \<Rightarrow> (add_sync_result res summary, table')
       | Inl e \<Rightarrow> (summary\<lparr>rs_failures := rs_failures summary @ [(co_contract_line_id obligation, e)]\<rparr>, table))"

definition replenishContractCadenceServicePeriodsForTenant ::
    "temporal \<Rightarrow> int \<Rightarrow> (string \<Rightarrow> string \<Rightarrow> int) \<Rightarrow> string \<Rightarrow> string \<Rightarrow> iso8601
       \<Rightarrow> (iso8601 \<times> record_id_factory) list \<Rightarrow> contract_obligation_row list \<Rightarrow> ledger_table
       \<Rightarrow> (replenishment_summary \<times> ledger_table) result" where
  "replenishContractCadenceServicePeriodsForTenant td tz lc tenant sourceRunPrefix asOf runs rows table =
     and_then (dedupeObligations td rows) (\<lambda>obligations.
       let summary = \<lparr>rs_tenant = tenant, rs_as_of = asOf, rs_lines_examined = length obligations,
             rs_lines_replenished = 0, rs_periods_generated = 0, rs_periods_realigned = 0,
             rs_periods_superseded = 0, rs_lines_at_period_cap = 0, rs_lines_awaiting_coverage = 0,
             rs_lines_exhausted_before_run = 0, rs_override_conflicts = 0, rs_unresolved_gap_count = 0,
             rs_failures = []\<rparr>
       in Inr (foldl (replenish_line td tz lc tenant sourceRunPrefix asOf) (summary, table)
            (map (\<lambda>((now, factory), obligation). (now, factory, obligation)) (zip runs obligations))))"

text \<open>The entry points of the authoring flows: the lines of a contract, and one line.\<close>

fun sync_all :: "temporal \<Rightarrow> int \<Rightarrow> (string \<Rightarrow> string \<Rightarrow> int) \<Rightarrow> string \<Rightarrow> string
    \<Rightarrow> (iso8601 \<times> record_id_factory \<times> contract_obligation_row) list \<Rightarrow> ledger_table \<Rightarrow> ledger_table result" where
  "sync_all td tz lc tenant sourceRunPrefix [] table = Inr table"
| "sync_all td tz lc tenant sourceRunPrefix ((now, factory, obligation) # rest) table =
     and_then (syncContractCadenceObligation td tz lc now factory tenant obligation sourceRunPrefix None table)
       (\<lambda>(_, table'). sync_all td tz lc tenant sourceRunPrefix rest table')"

definition materializeContractCadenceServicePeriodsForContract ::
    "temporal \<Rightarrow> int \<Rightarrow> (string \<Rightarrow> string \<Rightarrow> int) \<Rightarrow> string \<Rightarrow> string
       \<Rightarrow> (iso8601 \<times> record_id_factory \<times> contract_obligation_row) list \<Rightarrow> ledger_table \<Rightarrow> ledger_table result" where
  "materializeContractCadenceServicePeriodsForContract td tz lc tenant sourceRunPrefix obligations table =
     sync_all td tz lc tenant sourceRunPrefix obligations table"

definition materializeContractCadenceServicePeriodsForContractLine ::
    "temporal \<Rightarrow> int \<Rightarrow> (string \<Rightarrow> string \<Rightarrow> int) \<Rightarrow> string \<Rightarrow> string \<Rightarrow> string \<Rightarrow> iso8601
       \<Rightarrow> (iso8601 \<times> record_id_factory \<times> contract_obligation_row) list \<Rightarrow> ledger_table \<Rightarrow> ledger_table result" where
  "materializeContractCadenceServicePeriodsForContractLine td tz lc tenant sourceRunPrefix contractLineId now obligations table =
     (if length obligations = 0 then retireFutureContractCadenceRowsForLine tenant contractLineId now table
      else sync_all td tz lc tenant sourceRunPrefix obligations table)"
end
