(* ===== verification/Ledger_Writes.thy ===== *)
theory Ledger_Writes
  imports Ledger_Table Day_Coverage
begin

text \<open>
  What the statements of \<open>Ledger_Table\<close> do to the table, the reading back of what was written, and
  the refinement: writing a backfill plan makes the live rows of the obligation the active records
  of the plan.
\<close>

section \<open>Statements\<close>

lemma commit_Inr [result_simps]: "commit t = Inr t' \<longleftrightarrow> t' = t \<and> table_constraints t"
  by (auto simp: commit_def)

lemma update_where_Inr [result_simps]:
  "update_where c f t = Inr (n, t') \<longleftrightarrow> t' = map (\<lambda>row. if c row then f row else row) t
     \<and> n = length (filter c t) \<and> table_constraints t'"
  by (auto simp: update_where_def result_simps)

lemma insert_records_Inr:
  "insert_records rs t = Inr t' \<Longrightarrow> table_constraints t \<Longrightarrow>
     t' = t @ map serializeRecurringServicePeriodRecord rs \<and> table_constraints t'"
  by (auto simp: insert_records_def result_simps split: if_splits)

section \<open>Reading back\<close>

definition midnight_range :: "date_range \<Rightarrow> date_range" where
  "midnight_range r = \<lparr>range_start = utc_midnight (iso_day (range_start r)),
     range_end = utc_midnight (iso_day (range_end r)), range_semantics = Half_Open\<rparr>"

definition midnight_activity :: "activity_window \<Rightarrow> activity_window" where
  "midnight_activity w = \<lparr>aw_start = map_option (\<lambda>v. utc_midnight (iso_day v)) (aw_start w),
     aw_end = map_option (\<lambda>v. utc_midnight (iso_day v)) (aw_end w), aw_semantics = Half_Open\<rparr>"

text \<open>The record with each date in the one form the reader produces.\<close>

definition as_stored :: "period_record \<Rightarrow> period_record" where
  "as_stored r = r\<lparr>rec_service_period := midnight_range (rec_service_period r),
     rec_invoice_window := midnight_range (rec_invoice_window r),
     rec_activity_window := map_option midnight_activity (rec_activity_window r)\<rparr>"

text \<open>A record the columns can hold: an activity window has both dates, a linkage its identifiers.\<close>

definition storable :: "period_record \<Rightarrow> bool" where
  "storable r \<longleftrightarrow>
     (case rec_activity_window r of None \<Rightarrow> True | Some w \<Rightarrow> aw_start w \<noteq> None \<and> aw_end w \<noteq> None)
   \<and> (case rec_invoice_linkage r of None \<Rightarrow> True
      | Some l \<Rightarrow> link_invoice_id l \<noteq> [] \<and> link_invoice_charge_id l \<noteq> [] \<and> link_invoice_charge_detail_id l \<noteq> [])"

lemma date_column_day: "date_column tz day = utc_midnight (day + (- tz) div ms_per_day)"
proof -
  have "day * ms_per_day - tz = - tz + day * ms_per_day" by simp
  then show ?thesis
    by (simp add: date_column_def hydrate_date_def toUtcMidnightDateOnly_def ms_per_day_def)
qed

lemma date_column_west: "- ms_per_day < tz \<Longrightarrow> tz \<le> 0 \<Longrightarrow> date_column tz day = utc_midnight day"
  by (simp add: date_column_day ms_per_day_def)

lemma date_column_east: "0 < tz \<Longrightarrow> tz \<le> ms_per_day \<Longrightarrow> date_column tz day = utc_midnight (day - 1)"
proof -
  assume "0 < tz" "tz \<le> ms_per_day"
  then have "(- tz) div ms_per_day = -1" by (simp add: ms_per_day_def div_eq_minus1)
  then show ?thesis by (simp add: date_column_day)
qed

lemma read_back_west:
  assumes "- ms_per_day < tz" "tz \<le> 0" "storable r"
  shows "mapRecurringServicePeriodRow tz (serializeRecurringServicePeriodRecord r) = as_stored r"
  using assms(3)
  by (cases r; cases "rec_source_obligation r"; cases "rec_provenance r"; cases "rec_invoice_linkage r";
      cases "rec_activity_window r")
    (auto simp: mapRecurringServicePeriodRow_def serializeRecurringServicePeriodRecord_def as_stored_def
      storable_def midnight_range_def midnight_activity_def date_column_west [OF assms(1,2)]
      split: option.splits)

text \<open>
  C31: a stored record reads back as it was written, each date at midnight UTC, exactly when the process
  runs in a time zone that is not east of Greenwich; east of it the driver's midnight lies on the day
  before, and every date is read one day early.
\<close>

theorem ledger_round_trip_iff:
  assumes "- ms_per_day < tz" "tz \<le> ms_per_day" "storable r"
  shows "(mapRecurringServicePeriodRow tz (serializeRecurringServicePeriodRecord r) = as_stored r \<longleftrightarrow> tz \<le> 0)
    \<and> (0 < tz \<longrightarrow> start_day (mapRecurringServicePeriodRow tz (serializeRecurringServicePeriodRecord r)) = start_day r - 1
      \<and> end_day (mapRecurringServicePeriodRow tz (serializeRecurringServicePeriodRecord r)) = end_day r - 1)"
proof (cases "tz \<le> 0")
  case True
  then show ?thesis using read_back_west [OF assms(1) _ assms(3)] by simp
next
  case False
  have days: "start_day (mapRecurringServicePeriodRow tz (serializeRecurringServicePeriodRecord r)) = start_day r - 1"
    "end_day (mapRecurringServicePeriodRow tz (serializeRecurringServicePeriodRecord r)) = end_day r - 1"
    using False assms(2)
    by (simp_all add: mapRecurringServicePeriodRow_def serializeRecurringServicePeriodRecord_def date_column_east)
  have "start_day (as_stored r) = start_day r" by (simp add: as_stored_def midnight_range_def)
  with days(1) have "mapRecurringServicePeriodRow tz (serializeRecurringServicePeriodRecord r) \<noteq> as_stored r" by auto
  with False days show ?thesis by simp
qed

theorem ledger_round_trip_iff_witness:
  "mapRecurringServicePeriodRow (- 18000000) (serializeRecurringServicePeriodRecord (slot_record ''jan'' 1 Edited 20454 20485))
     = as_stored (slot_record ''jan'' 1 Edited 20454 20485)
   \<and> start_day (mapRecurringServicePeriodRow 3600000
       (serializeRecurringServicePeriodRecord (slot_record ''jan'' 1 Edited 20454 20485))) = 20453"
proof -
  have "storable (slot_record ''jan'' 1 Edited 20454 20485)"
    by (simp add: storable_def slot_record_def sample_record_def)
  moreover have "start_day (slot_record ''jan'' 1 Edited 20454 20485) = 20454"
    by (simp add: slot_record_def sample_record_def)
  ultimately show ?thesis
    using ledger_round_trip_iff [of "- 18000000" "slot_record ''jan'' 1 Edited 20454 20485"]
      ledger_round_trip_iff [of 3600000 "slot_record ''jan'' 1 Edited 20454 20485"]
    by (simp add: ms_per_day_def)
qed

lemma read_stored [simp]:
  assumes "- ms_per_day < tz" "tz \<le> 0"
  shows "as_stored (mapRecurringServicePeriodRow tz row) = mapRecurringServicePeriodRow tz row"
  by (simp add: as_stored_def mapRecurringServicePeriodRow_def midnight_range_def midnight_activity_def
      date_column_west [OF assms] split: option.split)

lemma read_row_simps [simp, ledger_simps]:
  "rec_id (mapRecurringServicePeriodRow tz row) = row_record_id row"
  "rec_lifecycle_state (mapRecurringServicePeriodRow tz row) = row_lifecycle_state row"
  "rec_source_obligation (mapRecurringServicePeriodRow tz row) = \<lparr>ob_tenant = row_tenant row, ob_id = row_obligation_id row,
     ob_type = row_obligation_type row, ob_charge_family = row_charge_family row\<rparr>"
  "rec_cadence_owner (mapRecurringServicePeriodRow tz row) = row_cadence_owner row"
  "prov_kind (rec_provenance (mapRecurringServicePeriodRow tz row)) = row_provenance_kind row"
  by (simp_all add: mapRecurringServicePeriodRow_def)

lemma stored_row_simps [simp, ledger_simps]:
  "row_record_id (serializeRecurringServicePeriodRecord r) = rec_id r"
  "row_lifecycle_state (serializeRecurringServicePeriodRecord r) = rec_lifecycle_state r"
  "row_tenant (serializeRecurringServicePeriodRecord r) = ob_tenant (rec_source_obligation r)"
  "row_obligation_id (serializeRecurringServicePeriodRecord r) = ob_id (rec_source_obligation r)"
  "row_obligation_type (serializeRecurringServicePeriodRecord r) = ob_type (rec_source_obligation r)"
  "row_cadence_owner (serializeRecurringServicePeriodRecord r) = rec_cadence_owner r"
  "row_schedule_key (serializeRecurringServicePeriodRecord r) = rec_schedule_key r"
  "row_invoice_id (serializeRecurringServicePeriodRecord r) = map_option link_invoice_id (rec_invoice_linkage r)"
  by (simp_all add: serializeRecurringServicePeriodRecord_def)

lemma as_stored_simps [simp, ledger_simps]:
  "rec_id (as_stored r) = rec_id r"
  "rec_lifecycle_state (as_stored r) = rec_lifecycle_state r"
  "range_days (rec_service_period (as_stored r)) = range_days (rec_service_period r)"
  by (simp_all add: as_stored_def midnight_range_def range_days_def)

section \<open>Superseding rows\<close>

text \<open>The row of a record that is superseded gets its state and time stamp, any other row is kept.\<close>

definition addressed :: "string \<Rightarrow> period_record list \<Rightarrow> ledger_row \<Rightarrow> bool" where
  "addressed tenant rs row \<longleftrightarrow> of_tenant tenant row \<and> row_record_id row \<in> rec_id ` set rs"

fun mark :: "string \<Rightarrow> period_record list \<Rightarrow> ledger_row \<Rightarrow> ledger_row" where
  "mark tenant [] row = row"
| "mark tenant (r # rs) row =
     mark tenant rs (if of_tenant tenant row \<and> row_record_id row = rec_id r then write_state r row else row)"

lemma mark_nothing [simp]: "mark tenant [] = (\<lambda>row. row)"
  by (rule ext) simp

lemma write_state_simps [simp]:
  "row_record_id (write_state r row) = row_record_id row"
  "row_primary_key (write_state r row) = row_primary_key row"
  "of_tenant tenant (write_state r row) = of_tenant tenant row"
  "row_lifecycle_state (write_state r row) = rec_lifecycle_state r"
  by (simp_all add: write_state_def row_primary_key_def of_tenant_def)

lemma mark_other: "\<not> addressed tenant rs row \<Longrightarrow> mark tenant rs row = row"
  by (induction rs arbitrary: row) (auto simp: addressed_def)

lemma mark_addressed:
  assumes "addressed tenant rs row" "\<forall>r \<in> set rs. rec_lifecycle_state r = Superseded"
  shows "\<exists>u. mark tenant rs row = row\<lparr>row_lifecycle_state := Superseded, row_updated_at := u\<rparr>"
proof -
  have keep: "\<exists>u. mark tenant rs (row\<lparr>row_lifecycle_state := Superseded, row_updated_at := v\<rparr>)
      = row\<lparr>row_lifecycle_state := Superseded, row_updated_at := u\<rparr>"
    if "\<forall>r \<in> set rs. rec_lifecycle_state r = Superseded" for rs v
    using that
  proof (induction rs arbitrary: v)
    case Nil
    show ?case by auto
  next
    case (Cons r rs)
    from Cons.IH [of v] Cons.IH [of "rec_updated_at r"] Cons.prems show ?case
      by (simp add: write_state_def)
  qed
  show ?thesis using assms
  proof (induction rs)
    case (Cons r rs)
    show ?case
    proof (cases "of_tenant tenant row \<and> row_record_id row = rec_id r")
      case True
      then show ?thesis using keep [of rs "rec_updated_at r"] Cons.prems(2) by (simp add: write_state_def)
    next
      case False
      then show ?thesis using Cons.IH Cons.prems by (auto simp: addressed_def)
    qed
  qed (simp add: addressed_def)
qed

lemma supersede_rows_Inr:
  "supersede_rows tenant rs t = Inr t' \<Longrightarrow> table_constraints t \<Longrightarrow>
     t' = map (mark tenant rs) t \<and> table_constraints t'"
proof (induction tenant rs t rule: supersede_rows.induct)
  case (2 tenant r rs t)
  let ?t = "map (\<lambda>row. if of_tenant tenant row \<and> row_record_id row = rec_id r then write_state r row else row) t"
  from 2(2) have con: "table_constraints ?t" and rest: "supersede_rows tenant rs ?t = Inr t'"
    by (auto simp: result_simps)
  have marked: "t' = map (mark tenant rs) ?t" "table_constraints t'" using 2(1) [OF rest con] by blast+
  have "t' = map (mark tenant (r # rs)) t" using marked(1) by (simp add: comp_def)
  then show ?case using marked(2) by blast
qed simp

lemma table_constraints_keys: "table_constraints t \<Longrightarrow> distinct (map row_primary_key t)"
  by (simp add: table_constraints_def)

lemma same_row:
  "table_constraints t \<Longrightarrow> row \<in> set t \<Longrightarrow> row' \<in> set t \<Longrightarrow> of_tenant tenant row \<Longrightarrow> of_tenant tenant row' \<Longrightarrow>
     row_record_id row = row_record_id row' \<Longrightarrow> row = row'"
  by (rule inj_onD [of row_primary_key "set t"])
    (simp_all add: table_constraints_def distinct_map row_primary_key_def of_tenant_def)

text \<open>The guarded statements write the same rows, and only when each is still replaceable.\<close>

lemma supersede_guarded_Inr:
  assumes "supersede_guarded tenant rs t = Inr t'" "table_constraints t"
  shows "t' = map (mark tenant rs) t \<and> table_constraints t'
    \<and> (\<forall>row \<in> set t. addressed tenant rs row \<longrightarrow> still_replaceable row)"
  using assms
proof (induction tenant rs t rule: supersede_guarded.induct)
  case (2 tenant r rs t)
  let ?hit = "\<lambda>row. of_tenant tenant row \<and> row_record_id row = rec_id r"
  let ?t = "map (\<lambda>row. if ?hit row \<and> still_replaceable row then write_state r row else row) t"
  from 2(2) have one: "length (filter (\<lambda>row. of_tenant tenant row \<and> row_record_id row = rec_id r \<and> still_replaceable row) t) = 1"
    and con: "table_constraints ?t" and rest: "supersede_guarded tenant rs ?t = Inr t'"
    by (auto simp: result_simps conj_assoc)
  have free: "still_replaceable row" if "row \<in> set t" "?hit row" for row
  proof -
    obtain row' where "row' \<in> set (filter (\<lambda>row. of_tenant tenant row \<and> row_record_id row = rec_id r \<and> still_replaceable row) t)"
      using one by (metis length_greater_0_conv list.set_sel(1) zero_less_one)
    then show ?thesis using same_row [OF 2(3) that(1), of row' tenant] that(2) by auto
  qed
  have t: "?t = map (\<lambda>row. if ?hit row then write_state r row else row) t"
    using free by auto
  have marked: "t' = map (mark tenant rs) ?t" "table_constraints t'"
      "\<forall>row \<in> set ?t. addressed tenant rs row \<longrightarrow> still_replaceable row"
    using 2(1) [OF rest con] by blast+
  have "still_replaceable row" if row: "row \<in> set t" "addressed tenant (r # rs) row" for row
  proof (cases "?hit row")
    case False
    then have "row \<in> set ?t" using row(1) by force
    moreover have "addressed tenant rs row" using row(2) False by (auto simp: addressed_def)
    ultimately show ?thesis using marked(3) by blast
  qed (use free row(1) in blast)
  moreover have "t' = map (mark tenant (r # rs)) t" using marked(1) unfolding t by (simp add: comp_def)
  ultimately show ?case using marked(2) by blast
qed (simp add: addressed_def)

section \<open>Writing a plan\<close>

definition written :: "string \<Rightarrow> period_record list \<Rightarrow> period_record list \<Rightarrow> ledger_table \<Rightarrow> ledger_table \<Rightarrow> bool" where
  "written tenant gone ins t t' \<longleftrightarrow>
     t' = map (mark tenant gone) t @ map serializeRecurringServicePeriodRecord ins \<and> table_constraints t'"

lemma persist_contract_written:
  "persistContractRegeneration tenant gone ins t = Inr t' \<Longrightarrow> table_constraints t \<Longrightarrow>
     written tenant gone ins t t' \<and> (\<forall>row \<in> set t. addressed tenant gone row \<longrightarrow> still_replaceable row)"
  by (auto simp: persistContractRegeneration_def result_simps written_def
      dest!: supersede_guarded_Inr insert_records_Inr)

lemma persist_client_written:
  "persistRecurringServicePeriodRegeneration tenant gone ins t = Inr t' \<Longrightarrow> table_constraints t \<Longrightarrow>
     written tenant gone ins t t'"
  by (auto simp: persistRecurringServicePeriodRegeneration_def result_simps written_def
      dest!: supersede_rows_Inr insert_records_Inr)

lemma persist_repair_written:
  "persistRecurringServicePeriodRepair tenant gone ins t = Inr t' \<Longrightarrow> table_constraints t \<Longrightarrow>
     written tenant gone ins t t'"
  using persist_client_written
  by (simp add: persistRecurringServicePeriodRepair_def persistRecurringServicePeriodRegeneration_def)

lemma written_keeps:
  "written tenant gone ins t t' \<Longrightarrow> row \<in> set t \<Longrightarrow> \<not> addressed tenant gone row \<Longrightarrow> row \<in> set t'"
  by (force simp: written_def mark_other)

section \<open>The plan accounts for every live record\<close>

lemma backfill_accounts:
  assumes "backfillRecurringServicePeriods lc inp = Inr plan"
  obtains env kept replaced where
    "mset (live_existing inp) = mset kept + mset replaced"
    "mset (bp_active_records plan) = mset kept + mset (bp_backfilled_records plan @ bp_realigned_records plan)"
    "mset (bp_superseded_records plan) = mset (map (supersede env) replaced)"
    "\<forall>r \<in> set replaced. \<not> isPreservedRecurringServicePeriodRecord r"
    "\<forall>n \<in> set (bp_backfilled_records plan @ bp_realigned_records plan).
       \<exists>c \<in> set (bf_candidate_records inp). created env (normalizeBackfillCandidate inp c) n"
proof -
  let ?old = "\<lambda>r. \<exists>b. backfill_boundary lc inp = Some b \<and> end_day r \<le> iso_day b"
  obtain future where same: "mset (bp_active_records plan) = mset (filter ?old (live_existing inp))
        + mset (pl_active (regenerateRecurringServicePeriods (future_regeneration lc inp future)))"
      "mset (active_existing (future_regeneration lc inp future)) = mset (filter (\<lambda>r. \<nexists>b. backfill_boundary lc inp = Some b \<and> end_day r \<le> iso_day b) (live_existing inp))"
    and ex: "\<exists>skipped. split_candidates (backfill_boundary lc inp) (sort_backfill lc
        (map (normalizeBackfillCandidate inp) (bf_candidate_records inp))) = Inr (skipped, future)"
    using assms by (rule backfill_active) blast
  obtain skipped where split: "split_candidates (backfill_boundary lc inp) (sort_backfill lc
        (map (normalizeBackfillCandidate inp) (bf_candidate_records inp))) = Inr (skipped, future)"
    using ex by blast
  let ?inp = "future_regeneration lc inp future"
  let ?reg = "regenerateRecurringServicePeriods ?inp"
  have parts: "mset (bp_backfilled_records plan) = mset (pl_new ?reg)"
    "mset (bp_realigned_records plan) = mset (pl_regenerated ?reg)"
    "mset (bp_superseded_records plan) = mset (pl_superseded ?reg)"
    using assms split unfolding backfillRecurringServicePeriods_def Let_def backfill_boundary_def [symmetric]
    by (auto simp: future_regeneration_def Let_def)
  have cand: "c \<in> normalizeBackfillCandidate inp ` set (bf_candidate_records inp)" if "c \<in> set future" for c
    using split that by (cases "backfill_boundary lc inp") (auto simp: split_candidates_Inr)
  obtain kept replaced where acc: "mset (active_existing ?inp) = mset kept + mset replaced"
    "mset (pl_active ?reg) = mset kept + mset (pl_regenerated ?reg) + mset (pl_new ?reg)"
    "pl_superseded ?reg = map (supersede (regeneration_env_of ?inp)) replaced"
    "list_all (\<lambda>r. \<not> isPreservedRecurringServicePeriodRecord r) replaced"
    "\<forall>n \<in> set (pl_regenerated ?reg) \<union> set (pl_new ?reg). \<exists>c \<in> set (rg_candidate_records ?inp). created (regeneration_env_of ?inp) c n"
    using regenerate_accounts [of ?inp] unfolding accounts_def by blast
  let ?kept = "filter ?old (live_existing inp) @ kept"
  show ?thesis
  proof (rule that [of ?kept replaced "regeneration_env_of ?inp"])
    have "mset (live_existing inp) = mset (filter ?old (live_existing inp)) + mset (active_existing ?inp)"
      unfolding same(2) mset_filter by (rule multiset_partition)
    then show "mset (live_existing inp) = mset ?kept + mset replaced"
      by (simp add: acc(1) add.assoc)
    show "mset (bp_active_records plan) = mset ?kept + mset (bp_backfilled_records plan @ bp_realigned_records plan)"
      unfolding same(1) by (simp add: acc(2) parts)
    show "mset (bp_superseded_records plan) = mset (map (supersede (regeneration_env_of ?inp)) replaced)"
      by (simp add: parts(3) acc(3))
    show "\<forall>r \<in> set replaced. \<not> isPreservedRecurringServicePeriodRecord r" using acc(4) by (simp add: list_all_iff)
    have "set (bp_backfilled_records plan @ bp_realigned_records plan) = set (pl_regenerated ?reg) \<union> set (pl_new ?reg)"
      using mset_eq_setD [OF parts(1)] mset_eq_setD [OF parts(2)] by auto
    moreover have "rg_candidate_records ?inp = future" by (simp add: future_regeneration_def)
    ultimately show "\<forall>n \<in> set (bp_backfilled_records plan @ bp_realigned_records plan).
       \<exists>c \<in> set (bf_candidate_records inp). created (regeneration_env_of ?inp) (normalizeBackfillCandidate inp c) n"
      using acc(5) cand by (metis image_iff)
  qed
qed

section \<open>The refinement\<close>

text \<open>
  The abstract state of an obligation is the multiset of its live records. A reader of rows gives the
  identifier, state, preservation and stored form of the canonical reader.
\<close>

abbreviation live_row :: "ledger_row \<Rightarrow> bool" where
  "live_row row \<equiv> row_lifecycle_state row \<noteq> Superseded \<and> row_lifecycle_state row \<noteq> Archived"

definition live_records :: "int \<Rightarrow> (ledger_row \<Rightarrow> bool) \<Rightarrow> ledger_table \<Rightarrow> period_record multiset" where
  "live_records tz cond t = mset (map (mapRecurringServicePeriodRow tz) (filter (\<lambda>row. cond row \<and> live_row row) t))"

definition reads_rows :: "int \<Rightarrow> (ledger_row \<Rightarrow> period_record) \<Rightarrow> bool" where
  "reads_rows tz f \<longleftrightarrow> (\<forall>row. rec_id (f row) = row_record_id row \<and> rec_lifecycle_state (f row) = row_lifecycle_state row
     \<and> as_stored (f row) = mapRecurringServicePeriodRow tz row)"

lemma reads_map_row: "- ms_per_day < tz \<Longrightarrow> tz \<le> 0 \<Longrightarrow> reads_rows tz (mapRecurringServicePeriodRow tz)"
  by (simp add: reads_rows_def)

text \<open>A condition on the obligation of a row, which no update of its state changes.\<close>

definition obligation_condition :: "string \<Rightarrow> (ledger_row \<Rightarrow> bool) \<Rightarrow> bool" where
  "obligation_condition tenant cond \<longleftrightarrow> (\<forall>row. cond row \<longrightarrow> of_tenant tenant row)
     \<and> (\<forall>row s u. cond (row\<lparr>row_lifecycle_state := s, row_updated_at := u\<rparr>) = cond row)"

lemma filter_by_id:
  assumes "distinct (map rec_id xs)" "mset xs = mset kept + mset replaced"
  shows "filter_mset (\<lambda>r. rec_id r \<notin> rec_id ` set replaced) (mset xs) = mset kept"
proof -
  have "mset (map rec_id xs) = mset (map rec_id (kept @ replaced))"
    using arg_cong [OF assms(2), of "image_mset rec_id"] by simp
  then have "distinct (map rec_id (kept @ replaced))" using assms(1) by (metis mset_eq_imp_distinct_iff)
  then have "rec_id ` set kept \<inter> rec_id ` set replaced = {}" by auto
  then have "filter_mset (\<lambda>r. rec_id r \<notin> rec_id ` set replaced) (mset kept) = mset kept"
    "filter_mset (\<lambda>r. rec_id r \<notin> rec_id ` set replaced) (mset replaced) = {#}"
    by (auto simp: filter_mset_eq_conv intro!: filter_mset_cong0)
  then show ?thesis unfolding assms(2) by simp
qed

lemma live_records_written:
  assumes "written tenant gone ins t t'" "obligation_condition tenant cond"
    and "\<forall>r \<in> set gone. rec_lifecycle_state r = Superseded"
    and "\<forall>n \<in> set ins. cond (serializeRecurringServicePeriodRecord n) \<and> live n \<and> storable n"
    and "- ms_per_day < tz" "tz \<le> 0"
  shows "live_records tz cond t' =
     mset (map (mapRecurringServicePeriodRow tz)
       (filter (\<lambda>row. cond row \<and> live_row row \<and> row_record_id row \<notin> rec_id ` set gone) t))
     + mset (map as_stored ins)"
proof -
  have old: "filter (\<lambda>row. cond row \<and> live_row row) (map (mark tenant gone) t)
      = filter (\<lambda>row. cond row \<and> live_row row \<and> row_record_id row \<notin> rec_id ` set gone) t"
  proof (induction t)
    case (Cons row t)
    show ?case
    proof (cases "addressed tenant gone row")
      case True
      obtain u where "mark tenant gone row = row\<lparr>row_lifecycle_state := Superseded, row_updated_at := u\<rparr>"
        using mark_addressed [OF True assms(3)] by blast
      with True Cons show ?thesis by (auto simp: addressed_def)
    next
      case False
      with Cons assms(2) show ?thesis by (auto simp: mark_other addressed_def obligation_condition_def)
    qed
  qed simp
  have new: "filter (\<lambda>row. cond row \<and> live_row row) (map serializeRecurringServicePeriodRecord ins)
      = map serializeRecurringServicePeriodRecord ins"
    using assms(4) by (auto simp: filter_id_conv)
  have "map (mapRecurringServicePeriodRow tz) (map serializeRecurringServicePeriodRecord ins) = map as_stored ins"
    using assms(4) read_back_west [OF assms(5,6)] by simp
  then show ?thesis using assms(1) unfolding written_def live_records_def
    by (simp only: filter_append old new map_append mset_append)
qed

lemma live_existing_read:
  assumes "bf_existing_records inp = Some ex" "mset ex = mset (map f (filter cond t))" "reads_rows tz f"
  shows "mset (live_existing inp) = mset (map f (filter (\<lambda>row. cond row \<and> live_row row) t))"
proof -
  have state: "rec_lifecycle_state (f row) = row_lifecycle_state row" for row
    using assms(3) by (simp add: reads_rows_def)
  have "mset (live_existing inp) = filter_mset live (mset ex)" by (simp add: live_existing_def assms(1))
  also have "\<dots> = mset (filter live (map f (filter cond t)))" by (simp add: assms(2) mset_filter)
  also have "filter live (map f (filter cond t)) = map f (filter (\<lambda>row. cond row \<and> live_row row) t)"
    by (simp add: filter_map comp_def state conj_commute)
  finally show ?thesis .
qed

text \<open>
  Writing the plan of a backfill whose existing records were read from the table makes the live records
  of the obligation the active records of the plan.
\<close>

lemma written_refines_plan:
  assumes plan: "backfillRecurringServicePeriods lc inp = Inr plan"
    and ex: "bf_existing_records inp = Some ex" "mset ex = mset (map f (filter cond t))"
    and f: "reads_rows tz f" and con: "table_constraints t" and cond: "obligation_condition tenant cond"
    and wr: "written tenant (bp_superseded_records plan) (bp_backfilled_records plan @ bp_realigned_records plan) t t'"
    and ins: "\<forall>n \<in> set (bp_backfilled_records plan @ bp_realigned_records plan).
      cond (serializeRecurringServicePeriodRecord n) \<and> live n \<and> storable n"
    and tz: "- ms_per_day < tz" "tz \<le> 0"
  shows "live_records tz cond t' = image_mset as_stored (mset (bp_active_records plan))"
proof -
  let ?ins = "bp_backfilled_records plan @ bp_realigned_records plan"
  obtain env kept replaced where acc: "mset (live_existing inp) = mset kept + mset replaced"
    "mset (bp_active_records plan) = mset kept + mset ?ins"
    "mset (bp_superseded_records plan) = mset (map (supersede env) replaced)"
    using backfill_accounts [OF plan] by metis
  have gone_set: "set (bp_superseded_records plan) = supersede env ` set replaced"
    using mset_eq_setD [OF acc(3)] by simp
  then have gone: "\<forall>r \<in> set (bp_superseded_records plan). rec_lifecycle_state r = Superseded"
    and ids: "rec_id ` set (bp_superseded_records plan) = rec_id ` set replaced"
    by (auto simp: supersede_def image_iff)
  have read: "rec_id (f row) = row_record_id row" "rec_lifecycle_state (f row) = row_lifecycle_state row"
    "as_stored (f row) = mapRecurringServicePeriodRow tz row" for row
    using f by (simp_all add: reads_rows_def)
  note live = live_existing_read [OF ex f]
  have "distinct (map rec_id (map f (filter (\<lambda>row. cond row \<and> live_row row) t)))"
  proof -
    have "inj_on row_record_id (set (filter (\<lambda>row. cond row \<and> live_row row) t))"
      using same_row [OF con] cond unfolding obligation_condition_def by (intro inj_onI) auto
    moreover have "distinct t" using con by (simp add: table_constraints_def distinct_map)
    ultimately show ?thesis by (simp add: comp_def read(1) distinct_map)
  qed
  from filter_by_id [OF this acc(1) [unfolded live]]
  have kept: "mset kept = mset (map f (filter (\<lambda>row. cond row \<and> live_row row
      \<and> row_record_id row \<notin> rec_id ` set replaced) t))"
    unfolding mset_filter [symmetric] filter_map comp_def read(1) filter_filter
    by (simp add: conj_ac)
  have "image_mset as_stored (mset kept) = mset (map (mapRecurringServicePeriodRow tz) (filter (\<lambda>row. cond row \<and> live_row row
      \<and> row_record_id row \<notin> rec_id ` set (bp_superseded_records plan)) t))"
    unfolding kept ids by (simp add: read(3) multiset.map_comp comp_def)
  then show ?thesis
    unfolding live_records_written [OF wr cond gone ins tz] acc(2) by simp
qed

text \<open>What the records a plan inserts have of the candidates.\<close>

lemma inserted_candidate:
  assumes "backfillRecurringServicePeriods lc inp = Inr plan"
    and "n \<in> set (bp_backfilled_records plan @ bp_realigned_records plan)"
  obtains c where "c \<in> set (bf_candidate_records inp)" "rec_service_period n = rec_service_period c"
    "rec_source_obligation n = rec_source_obligation c" "rec_cadence_owner n = rec_cadence_owner c"
    "rec_schedule_key n = rec_schedule_key c"
    "rec_activity_window n = rec_activity_window c" "rec_invoice_linkage n = None" "rec_lifecycle_state n = Generated"
proof -
  obtain env c where c: "c \<in> set (bf_candidate_records inp)" "created env (normalizeBackfillCandidate inp c) n"
    using backfill_accounts [OF assms(1)] assms(2) by metis
  show ?thesis by (rule that [OF c(1)]) (use c(2) in \<open>simp_all add: created_def normalizeBackfillCandidate_def\<close>)
qed

text \<open>A claimed row is a billed one, so no plan made from the table addresses it.\<close>

definition claims_billed :: "ledger_table \<Rightarrow> bool" where
  "claims_billed t \<longleftrightarrow> (\<forall>row \<in> set t. row_invoice_id row \<noteq> None \<longrightarrow> row_lifecycle_state row = Billed)"

lemma superseded_rows_free:
  assumes plan: "backfillRecurringServicePeriods lc inp = Inr plan"
    and ex: "bf_existing_records inp = Some ex" "mset ex = mset (map f (filter cond t))"
    and f: "\<forall>row. rec_id (f row) = row_record_id row \<and> rec_lifecycle_state (f row) = row_lifecycle_state row"
    and con: "table_constraints t" and cond: "\<forall>row. cond row \<longrightarrow> of_tenant tenant row"
    and row: "row \<in> set t" "addressed tenant (bp_superseded_records plan) row"
  shows "row_lifecycle_state row = Generated \<and> cond row"
proof -
  obtain env kept replaced where acc: "mset (live_existing inp) = mset kept + mset replaced"
    "mset (bp_superseded_records plan) = mset (map (supersede env) replaced)"
    "\<forall>r \<in> set replaced. \<not> isPreservedRecurringServicePeriodRecord r"
    using backfill_accounts [OF plan] by metis
  obtain r where r: "r \<in> set replaced" "rec_id r = row_record_id row"
    using row(2) mset_eq_setD [OF acc(2)] by (auto simp: addressed_def supersede_def)
  then have "r \<in># mset (live_existing inp)" using acc(1) by simp
  then have "r \<in> set ex" and live: "live r" by (auto simp: live_existing_def ex(1))
  then obtain row' where row': "row' \<in> set t" "cond row'" "r = f row'"
    using mset_eq_setD [OF ex(2)] by auto
  have "row' = row"
    by (rule same_row [OF con row'(1) row(1), of tenant])
      (use cond row' row(2) r(2) f in \<open>auto simp: addressed_def\<close>)
  moreover have "rec_lifecycle_state r = row_lifecycle_state row'" using row'(3) f by simp
  moreover have "rec_lifecycle_state r = Generated"
    using live acc(3) r(1) by (cases "rec_lifecycle_state r") (auto simp: isPreservedRecurringServicePeriodRecord_def)
  ultimately show ?thesis using row'(2) by simp
qed
end
