(* ===== verification/Contract_Sync.thy ===== *)
theory Contract_Sync
  imports Contract_Replenishment Ledger_Writes
begin

text \<open>
  The synchronization of a contract-cadence line refines the backfill of its live records, touches no
  other row, and keeps the days of the line covered at most once.
\<close>

section \<open>Candidates\<close>

lemma build_contract_tiles:
  assumes "iso_calendar td" "0 < p"
    and "buildContractCadenceServicePeriods td asOf rangeEnd ob dp anchor maxPeriods p = Inr ps"
  shows "\<exists>a b. tiles a ps b"
proof -
obtain s e a where norm: "ensureUtcMidnightIsoDate td asOf = Inr (utc_midnight s)"
    "ensureUtcMidnightIsoDate td rangeEnd = Inr (utc_midnight e)" "ensureUtcMidnightIsoDate td anchor = Inr (utc_midnight a)"
    and less: "s < e"
    using assms(3) by (fastforce simp: buildContractCadenceServicePeriods_def result_simps dest: ensureUtc_Inr)
  have same: "buildContractCadenceServicePeriods td (utc_midnight s) (utc_midnight e) ob dp (utc_midnight a) maxPeriods p = Inr ps"
    using assms(3) by (simp add: buildContractCadenceServicePeriods_def norm iso_calendar.ensureUtc_midnight [OF assms(1)])
  show ?thesis
  proof (cases "a < e")
    case True
    obtain ps' k where ps': "buildContractCadenceServicePeriods td (utc_midnight s) (utc_midnight e) ob dp (utc_midnight a) maxPeriods p = Inr ps'"
      "\<forall>i < length ps'. ps' ! i = contract_service_period td
          (utc_midnight (nth_boundary td a p (k + int i)))
          (utc_midnight (nth_boundary td a p (k + int i + 1))) ob dp (utc_midnight a)"
      using iso_calendar.build_contract_spec [OF assms(1,2) less True, of ob dp maxPeriods] by metis
    then show ?thesis using iso_calendar.contract_service_periods_tile [OF assms(1,2) ps'(2)] same by auto
  next
    case False
    then have "ps = []" using same less by (simp add: buildContractCadenceServicePeriods_def iso_calendar.ensureUtc_midnight [OF assms(1)])
    then show ?thesis by simp
  qed
qed

text \<open>A record as the materialization makes it: nothing of it is clipped, linked or edited yet.\<close>

definition fresh :: "obligation_ref \<Rightarrow> cadence_owner \<Rightarrow> string \<Rightarrow> period_record \<Rightarrow> bool" where
  "fresh ob owner key r \<longleftrightarrow> rec_source_obligation r = ob \<and> rec_cadence_owner r = owner \<and> rec_schedule_key r = key
     \<and> rec_lifecycle_state r = Generated \<and> rec_invoice_linkage r = None"

lemma materialized_contract_records:
  assumes "iso_calendar td" "materializeContractCadenceServicePeriods td inp = Inr plan"
  shows "\<exists>a b. tiles a (map rec_service_period (cp_records plan)) b"
    and "\<forall>r \<in> set (cp_records plan). fresh (cm_source_obligation inp) Contract
      (buildRecurringServicePeriodScheduleKey (cm_source_obligation inp) Contract (cm_due_position inp)) r
      \<and> rec_activity_window r = None"
proof -
  let ?key = "buildRecurringServicePeriodScheduleKey (cm_source_obligation inp) Contract (cm_due_position inp)"
  have "\<exists>(hz :: horizon_window) ps. generateContractCadenceServicePeriods td (cm_billing_cycle inp) (cm_as_of inp)
      (utc_midnight (iso_day (hz_target_horizon_end hz))) (cm_source_obligation inp) (cm_due_position inp)
      (cm_anchor_date inp) (positive_or (cm_max_periods_per_run inp) DEFAULT_CONTRACT_CADENCE_MAX_PERIODS_PER_RUN) = Inr ps
    \<and> traverse (contract_record td inp ?key) ps = Inr (cp_records plan)"
    using assms(2) unfolding materializeContractCadenceServicePeriods_def Let_def and_then_Inr_iff
    by (elim exE conjE) (rule exI, rule exI, rule conjI, assumption, auto)
  then obtain hz :: horizon_window and ps where ps: "generateContractCadenceServicePeriods td (cm_billing_cycle inp) (cm_as_of inp)
      (utc_midnight (iso_day (hz_target_horizon_end hz))) (cm_source_obligation inp) (cm_due_position inp)
      (cm_anchor_date inp) (positive_or (cm_max_periods_per_run inp) DEFAULT_CONTRACT_CADENCE_MAX_PERIODS_PER_RUN) = Inr ps"
    "traverse (contract_record td inp ?key) ps = Inr (cp_records plan)" by blast
  have each: "list_all2 (\<lambda>p r. contract_record td inp ?key p = Inr r) ps (cp_records plan)"
    using ps(2) by (simp add: traverse_Inr_iff)
  have "map rec_service_period (cp_records plan) = map toRecordRange ps"
    using each by (induction rule: list_all2_induct) (auto simp: contract_record_def result_simps)
  moreover obtain a b where "tiles a ps b"
    using build_contract_tiles [OF assms(1) resolveMonths_pos ps(1) [unfolded generateContract_eq]] by blast
  ultimately show "\<exists>a b. tiles a (map rec_service_period (cp_records plan)) b"
    using tiles_record_ranges by metis
  show "\<forall>r \<in> set (cp_records plan). fresh (cm_source_obligation inp) Contract ?key r \<and> rec_activity_window r = None"
    using each by (induction rule: list_all2_induct)
      (auto simp: contract_record_def result_simps fresh_def initial_record_def Let_def)
qed

text \<open>Clipping drops records and bounds their activity, nothing else.\<close>

lemma clip_record_from:
  "r' \<in> set (clip_record s e r) \<Longrightarrow> rec_service_period r' = rec_service_period r
     \<and> (fresh ob owner key r \<longrightarrow> fresh ob owner key r') \<and> (rec_activity_window r = None \<longrightarrow> storable r \<longrightarrow> storable r')"
  by (auto simp: clip_record_def Let_def fresh_def storable_def split: if_splits)

lemma clip_from:
  assumes "r' \<in> set (clipRecurringCandidatesToObligationBounds rs s e)"
  obtains r where "r \<in> set rs" "r' \<in> set (clip_record s e r)"
  using assms by (auto simp: clipRecurringCandidatesToObligationBounds_def)

lemma day_count_clip:
  "day_count (mset (clipRecurringCandidatesToObligationBounds rs s e)) d \<le> day_count (mset rs) d"
proof (induction rs)
  case (Cons r rs)
  have "day_count (mset (clip_record s e r)) d \<le> (if d \<in> range_days (rec_service_period r) then 1 else 0)"
    by (auto simp: clip_record_def Let_def)
  with Cons show ?case by (simp add: clipRecurringCandidatesToObligationBounds_def)
qed (simp add: clipRecurringCandidatesToObligationBounds_def)

lemma days_once_clip: "days_once (mset rs) \<Longrightarrow> days_once (mset (clipRecurringCandidatesToObligationBounds rs s e))"
  unfolding days_once_def using day_count_clip order_trans by blast

lemma fresh_storable: "fresh ob owner key r \<Longrightarrow> rec_activity_window r = None \<Longrightarrow> storable r"
  by (simp add: fresh_def storable_def)

section \<open>The plan of a run\<close>

text \<open>What every batch of candidates has, the empty one of a ledger that reaches the horizon included.\<close>

definition good_batch :: "obligation_ref \<Rightarrow> contract_plan \<Rightarrow> bool" where
  "good_batch ob m \<longleftrightarrow> (\<exists>a b. tiles a (map rec_service_period (cp_records m)) b)
     \<and> (\<forall>r \<in> set (cp_records m). \<exists>key. fresh ob Contract key r \<and> rec_activity_window r = None)"

lemma scan_batches_good:
  assumes "\<forall>start m. again start = Inr m \<longrightarrow> good_batch ob m"
  shows "scan_batches again coverage horizonEnd regenerationStart n batch start = Inr (m, s) \<Longrightarrow> good_batch ob batch \<Longrightarrow> good_batch ob m"
proof (induction n arbitrary: batch start)
  case (Suc n)
  then show ?case
    by (auto simp: Let_def result_simps split: option.splits if_splits simp: assms)
qed simp

lemma continue_capped_good:
  assumes "\<forall>start m. again start = Inr m \<longrightarrow> good_batch ob m" "good_batch ob first"
    and "continue_capped again existingRecords regenerationStart billed first = Inr (m, fl)"
  shows "good_batch ob m"
proof (cases "cp_hit_period_cap first")
  case False
  then show ?thesis using assms(2,3) by (simp add: continue_capped_def Let_def)
next
  case True
  let ?h = "utc_midnight (iso_day (hz_target_horizon_end (cp_coverage first)))"
  obtain batch start where scan: "scan_batches again (buildRecurringServicePeriodCoverageIndex existingRecords) ?h
      regenerationStart MAX_CONTINUATION_SCAN_BATCHES first regenerationStart = Inr (batch, start)"
    using assms(3) True unfolding continue_capped_def Let_def and_then_Inr_iff by (auto simp: and_then_Inr_iff)
  then have "good_batch ob batch" using scan_batches_good [OF assms(1)] assms(2) by blast
  moreover have "good_batch ob (batch\<lparr>cp_records := [], cp_hit_period_cap := False\<rparr>)"
    by (auto simp: good_batch_def)
  ultimately show ?thesis using assms(1,3) True scan
    by (auto simp: continue_capped_def Let_def result_simps split: if_splits)
qed

text \<open>The parts of the plan of a run.\<close>

lemma sync_plan_parts:
  assumes "iso_calendar td"
    and "sync_plan_of td lc now factory tenant sourceRunPrefix obligation asOf terms existingRecords = Inr plan"
  defines "ob \<equiv> \<lparr>ob_tenant = Some tenant, ob_id = co_contract_line_id obligation, ob_type = Contract_Line,
        ob_charge_family = resolveRecurringChargeFamily (co_contract_line_type obligation)\<rparr>"
  obtains inp where "backfillRecurringServicePeriods lc inp = Inr (sp_backfill plan)"
    "bf_existing_records inp = Some existingRecords" "bf_candidate_records inp = sp_candidates plan"
    "\<forall>c \<in> set (sp_candidates plan). (\<exists>key. fresh ob Contract key c) \<and> storable c"
    "days_once (mset (sp_candidates plan))"
    "\<forall>e. bf_candidate_coverage_end inp = Some e \<longrightarrow> (\<forall>c \<in> set (sp_candidates plan). end_day c \<le> iso_day e)"
proof -
  define billed where "billed = billed_boundary existingRecords"
  define regenerationStart where "regenerationStart = (case billed of None \<Rightarrow> ct_assignment_start terms
    | Some b \<Rightarrow> maxIsoDateOnly (ct_assignment_start terms) b)"
  define base where "base = sync_input td now factory tenant sourceRunPrefix obligation terms
    (maxIsoDateOnly regenerationStart (utc_midnight (iso_day (slice_date (or_else asOf now)))))"
  have again: "cm_source_obligation (base start) = ob" for start
    by (simp add: base_def sync_input_def ob_def)
  obtain first materialized fl where
    first: "materializeContractCadenceServicePeriods td (base regenerationStart) = Inr first"
      "continue_capped (\<lambda>start. materializeContractCadenceServicePeriods td (base start)) existingRecords
          regenerationStart billed first = Inr (materialized, fl)"
    and cands: "sp_candidates plan = clipRecurringCandidatesToObligationBounds (cp_records materialized)
      (ct_assignment_start terms) (ct_assignment_end terms)"
    and backf: "backfillRecurringServicePeriods lc (backfill_request (base regenerationStart) (sp_candidates plan)
      existingRecords (fst (sync_bounds (ct_assignment_end terms) billed materialized fl))
      (snd (sync_bounds (ct_assignment_end terms) billed materialized fl))) = Inr (sp_backfill plan)"
    using assms(2) unfolding sync_plan_of_def Let_def
      billed_def [symmetric] regenerationStart_def [symmetric] base_def [symmetric] and_then_Inr_iff
    by (force split: prod.splits simp: and_then_Inr_iff)
  have batch: "\<forall>start m. materializeContractCadenceServicePeriods td (base start) = Inr m \<longrightarrow> good_batch ob m"
    using materialized_contract_records [OF assms(1)] again unfolding good_batch_def by metis
  then have good: "good_batch ob materialized" using continue_capped_good [OF batch _ first(2)] batch first(1) by blast
  then obtain a b where tiles: "tiles a (map rec_service_period (cp_records materialized)) b"
    by (auto simp: good_batch_def)
  let ?inp = "backfill_request (base regenerationStart) (sp_candidates plan)
      existingRecords (fst (sync_bounds (ct_assignment_end terms) billed materialized fl))
      (snd (sync_bounds (ct_assignment_end terms) billed materialized fl))"
  show ?thesis
  proof (rule that [OF backf])
    show "bf_existing_records ?inp = Some existingRecords" "bf_candidate_records ?inp = sp_candidates plan"
      by (simp_all add: backfill_request_def)
    show "\<forall>c \<in> set (sp_candidates plan). (\<exists>key. fresh ob Contract key c) \<and> storable c"
    proof
      fix c assume "c \<in> set (sp_candidates plan)"
      then obtain r where r: "r \<in> set (cp_records materialized)"
        "c \<in> set (clip_record (ct_assignment_start terms) (ct_assignment_end terms) r)"
        unfolding cands by (rule clip_from)
      obtain key where "fresh ob Contract key r" "rec_activity_window r = None"
        using good r(1) by (auto simp: good_batch_def)
      then show "(\<exists>key. fresh ob Contract key c) \<and> storable c"
        using clip_record_from [OF r(2)] fresh_storable by blast
    qed
    show "days_once (mset (sp_candidates plan))"
      unfolding cands by (rule days_once_clip [OF tiles_days_once [OF tiles]])
    show "\<forall>e. bf_candidate_coverage_end ?inp = Some e \<longrightarrow> (\<forall>c \<in> set (sp_candidates plan). end_day c \<le> iso_day e)"
    proof (intro allI impI ballI)
      fix e c assume e: "bf_candidate_coverage_end ?inp = Some e" and c: "c \<in> set (sp_candidates plan)"
      obtain r where r: "r \<in> set (cp_records materialized)" "rec_service_period c = rec_service_period r"
        using c clip_record_from unfolding cands by (metis clip_from)
      then have "cp_records materialized \<noteq> []" by auto
      then have "iso_day e = b" using e tiles_last [OF tiles]
        by (auto simp: backfill_request_def sync_bounds_def Let_def last_map split: option.splits if_splits)
      with r tiles_member [OF tiles] show "end_day c \<le> iso_day e" by simp
    qed
  qed
qed

section \<open>What a synchronization does to the ledger\<close>

abbreviation contract_line_rows :: "string \<Rightarrow> string \<Rightarrow> ledger_row \<Rightarrow> bool" where
  "contract_line_rows tenant line \<equiv> obligation_rows tenant line Contract_Line Contract"

lemma obligation_rows_condition: "obligation_condition tenant (obligation_rows tenant line type owner)"
  by (simp add: obligation_condition_def obligation_rows_def of_tenant_def)

lemma sync_cases:
  assumes "syncContractCadenceObligation td tz lc now factory tenant obligation sourceRunPrefix asOf table = Inr (res, table')"
  obtains (retired) "resolve_terms td obligation = Inr None" "res = emptyObligationSyncResult True"
      "retireFutureContractCadenceRowsForLine tenant (co_contract_line_id obligation) now table = Inr table'"
    | (synchronized) terms plan where "resolve_terms td obligation = Inr (Some terms)" "res = sync_outcome terms plan"
      "sync_plan_of td lc now factory tenant sourceRunPrefix obligation asOf terms
        (loadContractCadenceRecords tz tenant (co_contract_line_id obligation) table) = Inr plan"
      "persistContractRegeneration tenant (bp_superseded_records (sp_backfill plan))
        (bp_backfilled_records (sp_backfill plan) @ bp_realigned_records (sp_backfill plan)) table = Inr table'"
proof -
  obtain terms where terms: "resolve_terms td obligation = Inr terms"
    using assms by (auto simp: syncContractCadenceObligation_def result_simps)
  show ?thesis
  proof (cases terms)
    case None
    then show ?thesis using assms terms by (intro retired) (auto simp: syncContractCadenceObligation_def result_simps)
  next
    case (Some t)
    then show ?thesis using assms terms synchronized [of t]
      by (auto simp: syncContractCadenceObligation_def result_simps Let_def)
  qed
qed

lemma load_records_mset: "mset (load_records tz cond table) = mset (map (mapRecurringServicePeriodRow tz) (filter cond table))"
  by (simp add: load_records_def)

lemma sync_written:
  assumes "iso_calendar td" "- ms_per_day < tz" "tz \<le> 0" "table_constraints table"
    and plan: "sync_plan_of td lc now factory tenant sourceRunPrefix obligation asOf terms
        (loadContractCadenceRecords tz tenant (co_contract_line_id obligation) table) = Inr plan"
    and per: "persistContractRegeneration tenant (bp_superseded_records (sp_backfill plan))
        (bp_backfilled_records (sp_backfill plan) @ bp_realigned_records (sp_backfill plan)) table = Inr table'"
  shows "live_records tz (contract_line_rows tenant (co_contract_line_id obligation)) table'
      = image_mset as_stored (mset (bp_active_records (sp_backfill plan)))"
    and "\<forall>row \<in> set table. addressed tenant (bp_superseded_records (sp_backfill plan)) row \<longrightarrow>
      still_replaceable row \<and> contract_line_rows tenant (co_contract_line_id obligation) row"
    and "\<forall>n \<in> set (bp_backfilled_records (sp_backfill plan) @ bp_realigned_records (sp_backfill plan)).
      contract_line_rows tenant (co_contract_line_id obligation) (serializeRecurringServicePeriodRecord n)
      \<and> rec_lifecycle_state n = Generated \<and> rec_invoice_linkage n = None"
    and "days_once (live_records tz (contract_line_rows tenant (co_contract_line_id obligation)) table) \<Longrightarrow>
      days_once (mset (bp_active_records (sp_backfill plan)))"
proof -
  let ?line = "co_contract_line_id obligation"
  let ?cond = "contract_line_rows tenant ?line"
  let ?b = "sp_backfill plan"
  obtain inp where inp: "backfillRecurringServicePeriods lc inp = Inr ?b"
    "bf_existing_records inp = Some (loadContractCadenceRecords tz tenant ?line table)"
    "bf_candidate_records inp = sp_candidates plan"
    "\<forall>c \<in> set (sp_candidates plan). (\<exists>key. fresh \<lparr>ob_tenant = Some tenant, ob_id = ?line, ob_type = Contract_Line,
        ob_charge_family = resolveRecurringChargeFamily (co_contract_line_type obligation)\<rparr> Contract key c) \<and> storable c"
    "days_once (mset (sp_candidates plan))"
    "\<forall>e. bf_candidate_coverage_end inp = Some e \<longrightarrow> (\<forall>c \<in> set (sp_candidates plan). end_day c \<le> iso_day e)"
    using assms(1) plan by (rule sync_plan_parts)
  have load: "mset (loadContractCadenceRecords tz tenant ?line table)
      = mset (map (mapRecurringServicePeriodRow tz) (filter ?cond table))"
    by (simp add: loadContractCadenceRecords_def load_records_mset)
  have ins: "?cond (serializeRecurringServicePeriodRecord n) \<and> rec_lifecycle_state n = Generated
      \<and> rec_invoice_linkage n = None \<and> storable n"
    if n: "n \<in> set (bp_backfilled_records ?b @ bp_realigned_records ?b)" for n
  proof -
    obtain c where c: "c \<in> set (bf_candidate_records inp)" "rec_source_obligation n = rec_source_obligation c"
      "rec_cadence_owner n = rec_cadence_owner c" "rec_activity_window n = rec_activity_window c"
      "rec_invoice_linkage n = None" "rec_lifecycle_state n = Generated"
      using inserted_candidate [OF inp(1) n] by metis
    then show ?thesis using inp(3,4)
      by (auto simp: obligation_rows_def of_tenant_def fresh_def storable_def)
  qed
  then show "\<forall>n \<in> set (bp_backfilled_records ?b @ bp_realigned_records ?b). ?cond (serializeRecurringServicePeriodRecord n)
      \<and> rec_lifecycle_state n = Generated \<and> rec_invoice_linkage n = None" by blast
  note wr = persist_contract_written [OF per assms(4)]
  show "live_records tz ?cond table' = image_mset as_stored (mset (bp_active_records ?b))"
    by (rule written_refines_plan [OF inp(1,2) load reads_map_row [OF assms(2,3)] assms(4)
        obligation_rows_condition conjunct1 [OF wr] _ assms(2,3)]) (use ins in auto)
  show "\<forall>row \<in> set table. addressed tenant (bp_superseded_records ?b) row \<longrightarrow> still_replaceable row \<and> ?cond row"
  proof (intro ballI impI)
    fix row assume row: "row \<in> set table" "addressed tenant (bp_superseded_records ?b) row"
    have "row_lifecycle_state row = Generated \<and> ?cond row"
      by (rule superseded_rows_free [OF inp(1,2) load _ assms(4) _ row]) (simp_all add: obligation_rows_def)
    with wr row show "still_replaceable row \<and> ?cond row" by blast
  qed
  show "days_once (mset (bp_active_records ?b))" if once: "days_once (live_records tz ?cond table)"
  proof (rule backfill_covers_once [OF inp(1)])
    have "mset (live_existing inp) = live_records tz ?cond table"
      unfolding live_records_def by (rule live_existing_read [OF inp(2) load reads_map_row [OF assms(2,3)]])
    with once show "days_once (mset (live_existing inp))" by simp
    show "days_once (mset (bf_candidate_records inp))" using inp(3,5) by simp
    show "\<forall>p \<in> set (live_existing inp). \<forall>c \<in> set (bf_candidate_records inp). same_obligation p c"
      using inp(3,4) mset_eq_setD [OF load]
      by (fastforce simp: live_existing_def inp(2) same_obligation_def fresh_def obligation_rows_def of_tenant_def)
    show "\<forall>e. bf_candidate_coverage_end inp = Some e \<longrightarrow> (\<forall>c \<in> set (bf_candidate_records inp). end_day c \<le> iso_day e)"
      using inp(3,6) by simp
  qed
qed

text \<open>
  C3: a synchronization of a line, in a process whose clock is at UTC or west of it, refines the backfill of
  its live records. When the line has terms (a contract-cadence line with an assignment start, a known
  frequency and timing, and no end at or before the start), the live rows of the line are afterwards, read
  back, exactly the active records of the backfill plan; every row of another obligation, and every row of the
  line that is edited, locked, skipped, billed, claimed or user-made, is still there unchanged. When it has no
  terms, the line is retired: every row of it that is not billed, superseded or archived becomes superseded,
  edited and locked ones too, and no other row changes. The table meets its constraints either way.
\<close>

theorem sync_refines_backfill:
  assumes "iso_calendar td" "- ms_per_day < tz" "tz \<le> 0" "table_constraints table"
    and "syncContractCadenceObligation td tz lc now factory tenant obligation sourceRunPrefix asOf table = Inr (res, table')"
  shows "(case resolve_terms td obligation of
      Inl _ \<Rightarrow> False
    | Inr None \<Rightarrow> res = emptyObligationSyncResult True
        \<and> table' = map (\<lambda>row. if contract_line_rows tenant (co_contract_line_id obligation) row
              \<and> row_lifecycle_state row \<notin> {Archived, Superseded, Billed}
            then row\<lparr>row_lifecycle_state := Superseded, row_updated_at := now\<rparr> else row) table
    | Inr (Some terms) \<Rightarrow>
        \<exists>plan. sync_plan_of td lc now factory tenant sourceRunPrefix obligation asOf terms
            (loadContractCadenceRecords tz tenant (co_contract_line_id obligation) table) = Inr plan
        \<and> res = sync_outcome terms plan
        \<and> live_records tz (contract_line_rows tenant (co_contract_line_id obligation)) table'
          = image_mset as_stored (mset (bp_active_records (sp_backfill plan)))
        \<and> (\<forall>row \<in> set table. \<not> contract_line_rows tenant (co_contract_line_id obligation) row \<or> \<not> still_replaceable row
            \<longrightarrow> row \<in> set table'))
    \<and> table_constraints table'"
  using assms(5)
proof (cases rule: sync_cases)
  case retired
  then show ?thesis
    by (auto simp: retireFutureContractCadenceRowsForLine_def retire_rows_def update_where_def commit_def split: if_splits)
next
  case (synchronized terms plan)
  note sync = sync_written [OF assms(1-4) synchronized(3,4)]
  note wr = conjunct1 [OF persist_contract_written [OF synchronized(4) assms(4)]]
  have "row \<in> set table'"
    if "row \<in> set table" "\<not> contract_line_rows tenant (co_contract_line_id obligation) row \<or> \<not> still_replaceable row" for row
    using written_keeps [OF wr that(1)] sync(2) that by blast
  then show ?thesis using synchronized(1-3) sync(1) wr unfolding written_def by auto
qed

text \<open>A line billed yearly in advance from 2026-01-01, whose one live row is too short.\<close>

definition sample_line :: contract_obligation_row where
  "sample_line = \<lparr>co_contract_line_id = ''l'', co_contract_line_type = None, co_cadence_owner = Some ''contract'',
     co_billing_frequency = Some ''Annual'', co_billing_timing = Some ''advance'',
     co_assignment_start_date = Db_Text (date_only 20454), co_assignment_end_date = Db_Null\<rparr>"

definition sample_row :: "string \<Rightarrow> lifecycle_state \<Rightarrow> int \<Rightarrow> int \<Rightarrow> ledger_row" where
  "sample_row slot state s e = serializeRecurringServicePeriodRecord ((slot_record slot 1 state s e)
     \<lparr>rec_source_obligation := \<lparr>ob_tenant = Some ''t'', ob_id = ''l'', ob_type = Contract_Line, ob_charge_family = Fixed\<rparr>,
      rec_cadence_owner := Contract\<rparr>)"

definition sample_ledger :: ledger_table where
  "sample_ledger = [sample_row ''y'' Generated 20454 20600]"

abbreviation sample_sync :: "(sync_result \<times> ledger_table) result" where
  "sample_sync \<equiv> syncContractCadenceObligation gregorian 0 text_order (utc_midnight 20460) defaultRecordIdFactory ''t''
     sample_line ''run'' None sample_ledger"

lemma sample_sync_runs: "\<exists>res table'. sample_sync = Inr (res, table') \<and> sy_periods_realigned res = 1"
proof -
  have "case sample_sync of Inl _ \<Rightarrow> False | Inr (res, _) \<Rightarrow> sy_periods_realigned res = 1" by code_simp
  then show ?thesis by (cases sample_sync) auto
qed

lemma sample_sync_setting:
  "table_constraints sample_ledger"
  "\<exists>terms. resolve_terms gregorian sample_line = Inr (Some terms)"
  "days_once (live_records 0 (contract_line_rows ''t'' ''l'') sample_ledger)"
proof -
  show "table_constraints sample_ledger" by code_simp
  have "case resolve_terms gregorian sample_line of Inr (Some _) \<Rightarrow> True | _ \<Rightarrow> False" by code_simp
  then show "\<exists>terms. resolve_terms gregorian sample_line = Inr (Some terms)"
    by (auto split: sum.splits option.splits)
  have "live_records 0 (contract_line_rows ''t'' ''l'') sample_ledger \<subseteq># {# mapRecurringServicePeriodRow 0 (sample_row ''y'' Generated 20454 20600) #}"
    by (simp add: live_records_def sample_ledger_def)
  then show "days_once (live_records 0 (contract_line_rows ''t'' ''l'') sample_ledger)"
    by (rule days_once_mono) (simp add: days_once_def)
qed

theorem sync_refines_backfill_witness:
  "(\<exists>res table' (plan :: sync_plan). sample_sync = Inr (res, table') \<and> sy_periods_realigned res = 1
     \<and> live_records 0 (contract_line_rows ''t'' ''l'') table' = image_mset as_stored (mset (bp_active_records (sp_backfill plan)))
     \<and> table_constraints table')
   \<and> (\<exists>res table'. syncContractCadenceObligation gregorian 0 text_order (utc_midnight 20460) defaultRecordIdFactory ''t''
        (sample_line\<lparr>co_assignment_start_date := Db_Null\<rparr>) ''run'' None sample_ledger = Inr (res, table')
     \<and> map row_lifecycle_state table' = [Superseded])"
proof
  have zone: "- ms_per_day < (0::int)" by (simp add: ms_per_day_def)
  note sync = sync_refines_backfill [OF gregorian_is_calendar zone order_refl sample_sync_setting(1)]
  have line: "co_contract_line_id sample_line = ''l''" by (simp add: sample_line_def)
  obtain res table' where run: "sample_sync = Inr (res, table')" "sy_periods_realigned res = 1"
    using sample_sync_runs by blast
  obtain terms where terms: "resolve_terms gregorian sample_line = Inr (Some terms)" using sample_sync_setting(2) by blast
  obtain plan :: sync_plan where "live_records 0 (contract_line_rows ''t'' ''l'') table'
      = image_mset as_stored (mset (bp_active_records (sp_backfill plan)))" "table_constraints table'"
    using sync [OF run(1), unfolded line terms] by auto
  with run show "\<exists>res table' (plan :: sync_plan). sample_sync = Inr (res, table') \<and> sy_periods_realigned res = 1
     \<and> live_records 0 (contract_line_rows ''t'' ''l'') table' = image_mset as_stored (mset (bp_active_records (sp_backfill plan)))
     \<and> table_constraints table'" by blast
  let ?line = "sample_line\<lparr>co_assignment_start_date := Db_Null\<rparr>"
  have "case syncContractCadenceObligation gregorian 0 text_order (utc_midnight 20460) defaultRecordIdFactory ''t''
        ?line ''run'' None sample_ledger of Inl _ \<Rightarrow> False | Inr _ \<Rightarrow> True" by code_simp
  then obtain res2 table2 where run2: "syncContractCadenceObligation gregorian 0 text_order (utc_midnight 20460)
      defaultRecordIdFactory ''t'' ?line ''run'' None sample_ledger = Inr (res2, table2)" by (auto split: sum.splits)
  have none: "resolve_terms gregorian ?line = Inr None"
    by (simp add: resolve_terms_def)
  have "map row_lifecycle_state table2 = [Superseded]"
    using sync [OF run2, unfolded none]
    by (simp add: sample_ledger_def sample_row_def sample_line_def slot_record_def sample_record_def obligation_rows_def
        of_tenant_def serializeRecurringServicePeriodRecord_def)
  with run2 show "\<exists>res table'. syncContractCadenceObligation gregorian 0 text_order (utc_midnight 20460) defaultRecordIdFactory ''t''
        ?line ''run'' None sample_ledger = Inr (res, table') \<and> map row_lifecycle_state table' = [Superseded]" by (intro exI conjI)
qed

section \<open>No day twice\<close>

lemma days_once_stored: "days_once (image_mset as_stored R) \<longleftrightarrow> days_once R"
proof -
  have "day_count (image_mset as_stored R) d = day_count R d" for d by (induction R) auto
  then show ?thesis by (simp add: days_once_def)
qed

text \<open>An update that makes no dead row live and moves no service period.\<close>

lemma days_once_update:
  assumes "\<forall>row \<in> set t. cond (g row) \<and> live_row (g row) \<longrightarrow> cond row \<and> live_row row
      \<and> row_service_period_start (g row) = row_service_period_start row
      \<and> row_service_period_end (g row) = row_service_period_end row"
    and "days_once (live_records tz cond t)"
  shows "days_once (live_records tz cond (map g t))"
proof -
  have "day_count (live_records tz cond (map g t)) d \<le> day_count (live_records tz cond t) d" for d
    using assms(1)
  proof (induction t)
    case (Cons row t)
    have "range_days (rec_service_period (mapRecurringServicePeriodRow tz (g row)))
        = range_days (rec_service_period (mapRecurringServicePeriodRow tz row))" if "cond (g row)" "live_row (g row)"
      using Cons.prems that by (simp add: mapRecurringServicePeriodRow_def range_days_def)
    with Cons show ?case by (auto simp: live_records_def)
  qed (simp add: live_records_def)
  then show ?thesis using assms(2) unfolding days_once_def using order_trans by blast
qed

lemma retire_rows_once:
  assumes "retire_rows cond' u t = Inr t'" "days_once (live_records tz cond t)"
    and "\<forall>row s u. cond (row\<lparr>row_lifecycle_state := s, row_updated_at := u\<rparr>) = cond row"
  shows "days_once (live_records tz cond t')"
proof -
  let ?retire = "\<lambda>row. if cond' row \<and> row_lifecycle_state row \<notin> {Archived, Superseded, Billed}
    then row\<lparr>row_lifecycle_state := Superseded, row_updated_at := u\<rparr> else row"
  have "t' = map ?retire t" using assms(1) by (auto simp: retire_rows_def result_simps)
  then show ?thesis using days_once_update [OF _ assms(2), of ?retire] assms(3) by auto
qed

lemma sync_once:
  assumes "iso_calendar td" "- ms_per_day < tz" "tz \<le> 0" "table_constraints table"
    and "days_once (live_records tz (contract_line_rows tenant (co_contract_line_id obligation)) table)"
    and "syncContractCadenceObligation td tz lc now factory tenant obligation sourceRunPrefix asOf table = Inr (res, table')"
  shows "days_once (live_records tz (contract_line_rows tenant (co_contract_line_id obligation)) table')"
  using assms(6)
proof (cases rule: sync_cases)
  case retired
  then show ?thesis
    using retire_rows_once [OF _ assms(5)]
    by (auto simp: retireFutureContractCadenceRowsForLine_def obligation_rows_def of_tenant_def)
next
  case (synchronized terms plan)
  note sync = sync_written [OF assms(1-4) synchronized(3,4)]
  show ?thesis unfolding sync(1) days_once_stored by (rule sync(4) [OF assms(5)])
qed

text \<open>
  No sequence of edits to the terms of a contract line lets a synchronization bill a day twice: if the
  live rows of the line cover no day twice before it, they do not after it, whatever was billed, locked,
  edited or moved, and also when the line is retired.
\<close>

theorem sync_keeps_days_once:
  assumes "iso_calendar td" "- ms_per_day < tz" "tz \<le> 0" "table_constraints table"
    and "days_once (live_records tz (contract_line_rows tenant (co_contract_line_id obligation)) table)"
    and "syncContractCadenceObligation td tz lc now factory tenant obligation sourceRunPrefix asOf table = Inr (res, table')"
  shows "days_once (live_records tz (contract_line_rows tenant (co_contract_line_id obligation)) table')"
  using assms by (rule sync_once)

theorem sync_keeps_days_once_witness:
  "\<exists>res table'. sample_sync = Inr (res, table') \<and> days_once (live_records 0 (contract_line_rows ''t'' ''l'') table')"
proof -
  obtain res table' where run: "sample_sync = Inr (res, table')" using sample_sync_runs by blast
  have line: "co_contract_line_id sample_line = ''l''" by (simp add: sample_line_def)
  show ?thesis
    using sync_keeps_days_once [OF gregorian_is_calendar _ _ sample_sync_setting(1) _ run, unfolded line] sample_sync_setting(3) run
    by (auto simp: ms_per_day_def)
qed
end
