(* ===== verification/Client_Replenishment.thy ===== *)
theory Client_Replenishment
  imports Contract_Replenishment
begin

text \<open>
  \<open>shared/billingClients/clientCadenceScheduleRegeneration.ts\<close> and
  \<open>postDropRecurringObligationIdentity.ts\<close>: the regeneration of the client-cadence schedules of a
  client when its billing schedule changes, its preview, and the repair of every schedule of a tenant.
  The rows of the contract tables, the clock and the factories of identifiers are arguments.
\<close>

section \<open>The identity of an obligation\<close>

definition CLIENT_CADENCE_POST_DROP_OBLIGATION_TYPE :: obligation_type where
  "CLIENT_CADENCE_POST_DROP_OBLIGATION_TYPE = Client_Contract_Line"

definition POST_DROP_RECURRING_OBLIGATION_TYPES :: "obligation_type list" where
  "POST_DROP_RECURRING_OBLIGATION_TYPES = [Contract_Line, CLIENT_CADENCE_POST_DROP_OBLIGATION_TYPE]"

definition isClientCadencePostDropObligationType :: "obligation_type \<Rightarrow> bool" where
  "isClientCadencePostDropObligationType v \<longleftrightarrow> v = CLIENT_CADENCE_POST_DROP_OBLIGATION_TYPE"

text \<open>\<open>...(input.tenant ? { tenant } : {})\<close>: the empty tenant is left out.\<close>

definition optional_tenant :: "string option \<Rightarrow> string option" where
  "optional_tenant tenant = (if truthy tenant then tenant else None)"

definition buildClientCadencePostDropObligationRef :: "string \<Rightarrow> charge_family \<Rightarrow> string option \<Rightarrow> obligation_ref" where
  "buildClientCadencePostDropObligationRef contractLineId chargeFamily tenant =
     \<lparr>ob_tenant = optional_tenant tenant, ob_id = contractLineId,
      ob_type = CLIENT_CADENCE_POST_DROP_OBLIGATION_TYPE, ob_charge_family = chargeFamily\<rparr>"

definition buildPersistedClientCadencePostDropObligationRef :: "string \<Rightarrow> string \<Rightarrow> charge_family \<Rightarrow> obligation_ref" where
  "buildPersistedClientCadencePostDropObligationRef tenant contractLineId chargeFamily =
     \<lparr>ob_tenant = Some tenant, ob_id = contractLineId,
      ob_type = CLIENT_CADENCE_POST_DROP_OBLIGATION_TYPE, ob_charge_family = chargeFamily\<rparr>"

definition buildPostDropRecurringObligationCandidates ::
    "string \<Rightarrow> charge_family \<Rightarrow> string option \<Rightarrow> obligation_ref \<times> obligation_ref" where
  "buildPostDropRecurringObligationCandidates contractLineId chargeFamily tenant =
     (\<lparr>ob_tenant = optional_tenant tenant, ob_id = contractLineId, ob_type = Contract_Line,
       ob_charge_family = chargeFamily\<rparr>,
      buildClientCadencePostDropObligationRef contractLineId chargeFamily tenant)"

section \<open>The regeneration of a client\<close>

record client_obligation_row =
  lo_client_contract_line_id :: string
  lo_start_date :: db_value
  lo_end_date :: db_value
  lo_contract_line_type :: "string option"
  lo_billing_timing :: "string option"

definition resolveClientCadenceObligationStart ::
    "temporal \<Rightarrow> db_value \<Rightarrow> iso8601 option \<Rightarrow> iso8601 \<Rightarrow> iso8601 result" where
  "resolveClientCadenceObligationStart td assignmentStart billedBoundaryEnd fallbackStart =
     and_then (normalizeDateOnlyValue td assignmentStart) (\<lambda>normalized.
     and_then (case normalized of Some s \<Rightarrow> Inr s | None \<Rightarrow> ensureUtcMidnightIsoDate td fallbackStart)
       (\<lambda>assignmentStart. Inr (case billedBoundaryEnd of None \<Rightarrow> assignmentStart
          | Some b \<Rightarrow> maxIsoDateOnly assignmentStart b)))"

fun billing_cycle_text :: "billing_cycle \<Rightarrow> string" where
  "billing_cycle_text Weekly = ''weekly''"
| "billing_cycle_text Bi_Weekly = ''bi-weekly''"
| "billing_cycle_text Monthly = ''monthly''"
| "billing_cycle_text Quarterly = ''quarterly''"
| "billing_cycle_text Semi_Annually = ''semi-annually''"
| "billing_cycle_text Annually = ''annually''"

text \<open>\<open>`${v ?? 'none'}`\<close>\<close>

definition or_none :: "('a \<Rightarrow> string) \<Rightarrow> 'a option \<Rightarrow> string" where
  "or_none render v = (case v of None \<Rightarrow> ''none'' | Some x \<Rightarrow> render x)"

definition buildScheduleSourceRuleVersion :: "temporal \<Rightarrow> billing_cycle \<Rightarrow> anchor_settings \<Rightarrow> string" where
  "buildScheduleSourceRuleVersion td billingCycle anchor = join_with ''|'' [''client_schedule'',
     billing_cycle_text billingCycle,
     ''dom:'' @ or_none show_int (an_day_of_month anchor),
     ''moy:'' @ or_none show_int (an_month_of_year anchor),
     ''dow:'' @ or_none show_int (an_day_of_week anchor),
     ''ref:'' @ or_none (iso_text td) (an_reference_date anchor)]"

text \<open>
  The query joins the ledger with the contract lines and the contracts; \<open>lines\<close> are the identifiers of
  the lines of the contracts the client owns.
\<close>

definition loadClientBilledLedgerBoundary :: "int \<Rightarrow> string \<Rightarrow> string list \<Rightarrow> ledger_table \<Rightarrow> iso8601 option" where
  "loadClientBilledLedgerBoundary tz tenant ownedLines table =
     (let billed = filter (\<lambda>row. of_tenant tenant row
            \<and> row_obligation_type row = CLIENT_CADENCE_POST_DROP_OBLIGATION_TYPE
            \<and> row_cadence_owner row = Client
            \<and> row_obligation_id row \<in> set ownedLines
            \<and> (row_lifecycle_state row = Billed \<or> row_invoice_charge_detail_id row \<noteq> None)) table
      in case js_sort (\<lambda>a b. row_service_period_end b - row_service_period_end a) billed of
           [] \<Rightarrow> None
         | lastBilled # _ \<Rightarrow> Some (date_column tz (row_service_period_end lastBilled)))"

record client_cadence =
  cc_tenant :: string
  cc_client_id :: string
  cc_billing_cycle :: billing_cycle
  cc_anchor :: anchor_settings

record client_obligation_plan =
  op_obligation_id :: string
  op_schedule_key :: string
  op_regeneration_start :: iso8601
  op_plan :: backfill_plan

record client_computation =
  cu_billed_boundary_end :: "iso8601 option"
  cu_obligation_plans :: "client_obligation_plan list"

definition client_materialization_input :: "temporal \<Rightarrow> iso8601 \<Rightarrow> record_id_factory \<Rightarrow> client_cadence \<Rightarrow> string \<Rightarrow> string
    \<Rightarrow> obligation_ref \<Rightarrow> due_position \<Rightarrow> iso8601 \<Rightarrow> client_materialization" where
  "client_materialization_input td now factory params sourceRuleVersion sourceRunKey ob dp regenerationStart =
     \<lparr>lm_as_of = regenerationStart, lm_materialized_at = now, lm_billing_cycle = cc_billing_cycle params,
      lm_source_obligation = ob, lm_due_position = dp, lm_source_rule_version = sourceRuleVersion,
      lm_source_run_key = sourceRunKey, lm_anchor_settings = Some (cc_anchor params),
      lm_historical_cycles = [], lm_target_horizon_days = None, lm_replenishment_threshold_days = None,
      lm_record_id_factory = Some factory\<rparr>"

text \<open>The materialization, clipping and backfill that the regeneration and the operator repair share.\<close>

definition client_backfill :: "temporal \<Rightarrow> (string \<Rightarrow> string \<Rightarrow> int) \<Rightarrow> client_materialization \<Rightarrow> period_record list
    \<Rightarrow> iso8601 \<Rightarrow> iso8601 option \<Rightarrow> iso8601 option \<Rightarrow> (client_plan \<times> backfill_plan) result" where
  "client_backfill td lc inp existingRecords obligationStart obligationEnd billedBoundaryEnd =
     and_then (materializeClientCadenceServicePeriods td inp) (\<lambda>materialized.
     let candidateRecords = clipRecurringCandidatesToObligationBounds (lp_records materialized)
           obligationStart obligationEnd
     in and_then (backfillRecurringServicePeriods lc
          \<lparr>bf_candidate_records = candidateRecords, bf_backfilled_at = lm_materialized_at inp,
           bf_source_rule_version = lm_source_rule_version inp, bf_source_run_key = lm_source_run_key inp,
           bf_existing_records = Some existingRecords, bf_legacy_billed_through_end = billedBoundaryEnd,
           bf_candidate_coverage_end = Some (lp_generation_range_end materialized),
           bf_reason_code = Some ''billing_schedule_changed'',
           bf_record_id_factory = lm_record_id_factory inp\<rparr>) (\<lambda>plan. Inr (materialized, plan)))"

text \<open>One iteration of the loop over the obligations; \<open>None\<close> for \<open>continue\<close>.\<close>

definition regenerate_obligation :: "temporal \<Rightarrow> int \<Rightarrow> (string \<Rightarrow> string \<Rightarrow> int) \<Rightarrow> iso8601 \<Rightarrow> client_cadence
    \<Rightarrow> iso8601 option \<Rightarrow> ledger_table \<Rightarrow> record_id_factory \<times> client_obligation_row \<Rightarrow> client_obligation_plan option result" where
  "regenerate_obligation td tz lc now params billedBoundaryEnd table step =
     (case step of (factory, obligation) \<Rightarrow>
       and_then (normalizeDateOnlyValue td (lo_start_date obligation)) (\<lambda>normalized.
       and_then (case normalized of Some s \<Rightarrow> Inr s | None \<Rightarrow> ensureUtcMidnightIsoDate td now) (\<lambda>obligationStart.
       and_then (resolveClientCadenceObligationStart td (Db_Text obligationStart) billedBoundaryEnd now) (\<lambda>regenerationStart.
       and_then (normalizeDateOnlyValue td (lo_end_date obligation)) (\<lambda>obligationEnd.
         if (case obligationEnd of None \<Rightarrow> False | Some e \<Rightarrow> compareIsoDateOnly e regenerationStart \<le> 0)
         then Inr None
         else
           let duePosition = (if lo_billing_timing obligation = Some ''advance'' then Advance else Arrears);
               existingRecords = loadClientCadenceRecords tz (cc_tenant params) (lo_client_contract_line_id obligation) table;
               inp = client_materialization_input td now factory params
                 (buildScheduleSourceRuleVersion td (cc_billing_cycle params) (cc_anchor params))
                 (''client-schedule-change:'' @ cc_client_id params @ '':'' @ iso_text td now)
                 (buildPersistedClientCadencePostDropObligationRef (cc_tenant params)
                   (lo_client_contract_line_id obligation)
                   (resolveRecurringChargeFamily (lo_contract_line_type obligation)))
                 duePosition regenerationStart
           in and_then (client_backfill td lc inp existingRecords obligationStart obligationEnd billedBoundaryEnd)
                (\<lambda>(materialized, plan). Inr (Some \<lparr>op_obligation_id = lo_client_contract_line_id obligation,
                   op_schedule_key = lp_schedule_key materialized,
                   op_regeneration_start = regenerationStart, op_plan = plan\<rparr>)))))))"

definition present :: "'a option list \<Rightarrow> 'a list" where
  "present xs = List.map_filter (\<lambda>x. x) xs"

definition computeClientCadenceRegeneration :: "temporal \<Rightarrow> int \<Rightarrow> (string \<Rightarrow> string \<Rightarrow> int) \<Rightarrow> iso8601 \<Rightarrow> client_cadence
    \<Rightarrow> string list \<Rightarrow> (record_id_factory \<times> client_obligation_row) list \<Rightarrow> ledger_table \<Rightarrow> client_computation result" where
  "computeClientCadenceRegeneration td tz lc now params ownedLines obligations table =
     (let billedBoundaryEnd = loadClientBilledLedgerBoundary tz (cc_tenant params) ownedLines table
      in and_then (traverse (regenerate_obligation td tz lc now params billedBoundaryEnd table) obligations) (\<lambda>plans.
         Inr \<lparr>cu_billed_boundary_end = billedBoundaryEnd, cu_obligation_plans = present plans\<rparr>))"

section \<open>Writing the plans\<close>

definition plan_inserts :: "backfill_plan \<Rightarrow> period_record list" where
  "plan_inserts plan = bp_backfilled_records plan @ bp_realigned_records plan"

fun persist_plans :: "string \<Rightarrow> client_obligation_plan list \<Rightarrow> ledger_table \<Rightarrow> ledger_table result" where
  "persist_plans tenant [] table = Inr table"
| "persist_plans tenant (p # ps) table =
     and_then (persistRecurringServicePeriodRegeneration tenant (bp_superseded_records (op_plan p))
         (plan_inserts (op_plan p)) table)
       (persist_plans tenant ps)"

definition replenishClientCadenceServicePeriods :: "temporal \<Rightarrow> int \<Rightarrow> (string \<Rightarrow> string \<Rightarrow> int) \<Rightarrow> iso8601 \<Rightarrow> client_cadence
    \<Rightarrow> string list \<Rightarrow> (record_id_factory \<times> client_obligation_row) list \<Rightarrow> ledger_table \<Rightarrow> ledger_table result" where
  "replenishClientCadenceServicePeriods td tz lc now params ownedLines obligations table =
     and_then (computeClientCadenceRegeneration td tz lc now params ownedLines obligations table) (\<lambda>computation.
       persist_plans (cc_tenant params) (cu_obligation_plans computation) table)"

definition regenerateClientCadenceServicePeriodsForScheduleChange ::
    "temporal \<Rightarrow> int \<Rightarrow> (string \<Rightarrow> string \<Rightarrow> int) \<Rightarrow> iso8601 \<Rightarrow> client_cadence
       \<Rightarrow> string list \<Rightarrow> (record_id_factory \<times> client_obligation_row) list \<Rightarrow> ledger_table \<Rightarrow> ledger_table result" where
  "regenerateClientCadenceServicePeriodsForScheduleChange = replenishClientCadenceServicePeriods"

section \<open>The preview of a change\<close>

record client_change_preview =
  pv_billing_cycle :: billing_cycle
  pv_unbilled_periods_to_regenerate :: nat
  pv_lines_affected :: nat
  pv_regeneration_start :: "iso8601 option"
  pv_billed_periods_in_range :: bool
  pv_affected_schedule_keys :: "string list"

definition plan_changes :: "backfill_plan \<Rightarrow> nat" where
  "plan_changes plan = length (bp_backfilled_records plan) + length (bp_realigned_records plan)
     + length (bp_superseded_records plan)"

text \<open>One iteration of the loop over the plans; the set of keys keeps the order of insertion.\<close>

definition preview_plan :: "client_change_preview \<Rightarrow> client_obligation_plan \<Rightarrow> client_change_preview" where
  "preview_plan p obligationPlan =
     (let inserts = length (bp_backfilled_records (op_plan obligationPlan))
            + length (bp_realigned_records (op_plan obligationPlan));
          changed = inserts + length (bp_superseded_records (op_plan obligationPlan));
          key = op_schedule_key obligationPlan;
          p = (if changed > 0 then p\<lparr>pv_lines_affected := pv_lines_affected p + 1,
            pv_affected_schedule_keys := (if key \<in> set (pv_affected_schedule_keys p)
              then pv_affected_schedule_keys p else pv_affected_schedule_keys p @ [key])\<rparr> else p);
          p = p\<lparr>pv_unbilled_periods_to_regenerate := pv_unbilled_periods_to_regenerate p + inserts\<rparr>
      in if (case pv_regeneration_start p of None \<Rightarrow> True
             | Some s \<Rightarrow> compareIsoDateOnly (op_regeneration_start obligationPlan) s < 0)
         then p\<lparr>pv_regeneration_start := Some (op_regeneration_start obligationPlan)\<rparr> else p)"

definition previewClientCadenceScheduleChange :: "temporal \<Rightarrow> int \<Rightarrow> (string \<Rightarrow> string \<Rightarrow> int) \<Rightarrow> iso8601 \<Rightarrow> client_cadence
    \<Rightarrow> string list \<Rightarrow> (record_id_factory \<times> client_obligation_row) list \<Rightarrow> ledger_table \<Rightarrow> client_change_preview result" where
  "previewClientCadenceScheduleChange td tz lc now params ownedLines obligations table =
     and_then (computeClientCadenceRegeneration td tz lc now params ownedLines obligations table) (\<lambda>computation.
       Inr (foldl preview_plan
         \<lparr>pv_billing_cycle = cc_billing_cycle params, pv_unbilled_periods_to_regenerate = 0,
          pv_lines_affected = 0, pv_regeneration_start = None,
          pv_billed_periods_in_range = (cu_billed_boundary_end computation \<noteq> None),
          pv_affected_schedule_keys = []\<rparr> (cu_obligation_plans computation)))"

section \<open>The repair of a tenant\<close>

record client_repair_summary =
  ra_clients_scanned :: nat
  ra_clients_repaired :: nat
  ra_schedules_repaired :: nat
  ra_rows_backfilled :: nat
  ra_rows_realigned :: nat
  ra_rows_superseded :: nat

text \<open>The loop over the plans of a client, with \<open>clientChanged\<close>.\<close>

fun repair_plans :: "string \<Rightarrow> client_obligation_plan list \<Rightarrow> bool \<times> client_repair_summary \<Rightarrow> ledger_table
    \<Rightarrow> ((bool \<times> client_repair_summary) \<times> ledger_table) result" where
  "repair_plans tenant [] acc table = Inr (acc, table)"
| "repair_plans tenant (p # ps) (clientChanged, s) table =
     (if plan_changes (op_plan p) = 0 then repair_plans tenant ps (clientChanged, s) table
      else and_then (persistRecurringServicePeriodRegeneration tenant (bp_superseded_records (op_plan p))
          (plan_inserts (op_plan p)) table)
        (repair_plans tenant ps (True, s\<lparr>ra_schedules_repaired := ra_schedules_repaired s + 1,
           ra_rows_backfilled := ra_rows_backfilled s + length (bp_backfilled_records (op_plan p)),
           ra_rows_realigned := ra_rows_realigned s + length (bp_realigned_records (op_plan p)),
           ra_rows_superseded := ra_rows_superseded s + length (bp_superseded_records (op_plan p))\<rparr>)))"

text \<open>A client of the tenant: its schedule, its lines and its obligations, as the queries give them.\<close>

record client_source =
  cs_now :: iso8601
  cs_client_id :: string
  cs_schedule :: "(billing_cycle \<times> anchor_settings) result"
  cs_owned_lines :: "string list"
  cs_obligations :: "(record_id_factory \<times> client_obligation_row) list"

fun repair_clients :: "temporal \<Rightarrow> int \<Rightarrow> (string \<Rightarrow> string \<Rightarrow> int) \<Rightarrow> string \<Rightarrow> client_source list \<Rightarrow> client_repair_summary
    \<Rightarrow> ledger_table \<Rightarrow> (client_repair_summary \<times> ledger_table) result" where
  "repair_clients td tz lc tenant [] s table = Inr (s, table)"
| "repair_clients td tz lc tenant (c # rest) s table =
     and_then (cs_schedule c) (\<lambda>(billingCycle, anchor).
     and_then (computeClientCadenceRegeneration td tz lc (cs_now c)
         \<lparr>cc_tenant = tenant, cc_client_id = cs_client_id c, cc_billing_cycle = billingCycle, cc_anchor = anchor\<rparr>
         (cs_owned_lines c) (cs_obligations c) table) (\<lambda>computation.
     and_then (repair_plans tenant (cu_obligation_plans computation) (False, s) table) (\<lambda>((clientChanged, s'), table').
       repair_clients td tz lc tenant rest
         (if clientChanged then s'\<lparr>ra_clients_repaired := ra_clients_repaired s' + 1\<rparr> else s') table')))"

definition repairAllClientCadenceServicePeriodsForTenant :: "temporal \<Rightarrow> int \<Rightarrow> (string \<Rightarrow> string \<Rightarrow> int) \<Rightarrow> string
    \<Rightarrow> client_source list \<Rightarrow> ledger_table \<Rightarrow> (client_repair_summary \<times> ledger_table) result" where
  "repairAllClientCadenceServicePeriodsForTenant td tz lc tenant clients table =
     repair_clients td tz lc tenant clients
       \<lparr>ra_clients_scanned = length clients, ra_clients_repaired = 0, ra_schedules_repaired = 0,
        ra_rows_backfilled = 0, ra_rows_realigned = 0, ra_rows_superseded = 0\<rparr> table"

end
