(* ===== verification/Schedule_Repair.thy ===== *)
theory Schedule_Repair
  imports Client_Replenishment Period_Lifecycle
begin

text \<open>
  \<open>packages/billing/src/actions/recurringServicePeriodActions.ts\<close>: the operator's view of a schedule
  and the repair of its periods, the previews, and the checks in front of them. What the session
  grants, the rows of the contract tables, the clock and the factory of identifiers are arguments.
\<close>

section \<open>Schedule keys\<close>

record parsed_schedule =
  ps_schedule_key :: string
  ps_tenant :: string
  ps_obligation_type :: string
  ps_obligation_id :: string
  ps_cadence_owner :: cadence_owner
  ps_due_position :: due_position

text \<open>The parts of a text between colons.\<close>

fun split_colon :: "string \<Rightarrow> string list" where
  "split_colon [] = [[]]"
| "split_colon (c # cs) = (if c = CHR '':'' then [] # split_colon cs
     else case split_colon cs of [] \<Rightarrow> [[c]] | p # ps \<Rightarrow> (c # p) # ps)"

text \<open>
  The regular expression \<open>schedule:([^:]+):([^:]+):([^:]+):(client|contract):(advance|arrears)\<close>,
  anchored at both ends: six parts between colons, of which three are any text that is not empty.
\<close>

definition parseRecurringServicePeriodScheduleKey :: "string \<Rightarrow> parsed_schedule option" where
  "parseRecurringServicePeriodScheduleKey scheduleKey =
     (case split_colon scheduleKey of
        [prefix, tenant, obligationType, obligationId, owner, dp] \<Rightarrow>
          if prefix = ''schedule'' \<and> tenant \<noteq> [] \<and> obligationType \<noteq> [] \<and> obligationId \<noteq> []
            \<and> (owner = ''client'' \<or> owner = ''contract'') \<and> (dp = ''advance'' \<or> dp = ''arrears'')
          then Some \<lparr>ps_schedule_key = scheduleKey, ps_tenant = tenant, ps_obligation_type = obligationType,
            ps_obligation_id = obligationId,
            ps_cadence_owner = (if owner = ''client'' then Client else Contract),
            ps_due_position = (if dp = ''advance'' then Advance else Arrears)\<rparr>
          else None
      | _ \<Rightarrow> None)"

section \<open>Records of a schedule\<close>

text \<open>Here a date is read as the first ten characters of its time stamp.\<close>

definition mapRecurringServicePeriodRowToRecord :: "int \<Rightarrow> ledger_row \<Rightarrow> period_record" where
  "mapRecurringServicePeriodRowToRecord tz row = (mapRecurringServicePeriodRow tz row)
     \<lparr>rec_service_period := \<lparr>range_start = slice_date (date_column tz (row_service_period_start row)),
        range_end = slice_date (date_column tz (row_service_period_end row)), range_semantics = Half_Open\<rparr>,
      rec_invoice_window := \<lparr>range_start = slice_date (date_column tz (row_invoice_window_start row)),
        range_end = slice_date (date_column tz (row_invoice_window_end row)), range_semantics = Half_Open\<rparr>,
      rec_activity_window := (case (row_activity_window_start row, row_activity_window_end row) of
           (Some s, Some e) \<Rightarrow> Some \<lparr>aw_start = Some (slice_date (date_column tz s)),
             aw_end = Some (slice_date (date_column tz e)), aw_semantics = Half_Open\<rparr>
         | _ \<Rightarrow> None)\<rparr>"

definition loadScheduleRows :: "string \<Rightarrow> string \<Rightarrow> ledger_table \<Rightarrow> ledger_row list" where
  "loadScheduleRows tenant scheduleKey table =
     js_sort period_order (filter (\<lambda>row. of_tenant tenant row \<and> row_schedule_key row = scheduleKey) table)"

section \<open>The line behind a schedule\<close>

record schedule_context =
  sx_client_id :: "string option"
  sx_client_name :: "string option"
  sx_contract_id :: "string option"
  sx_contract_name :: "string option"
  sx_contract_line_id :: "string option"
  sx_contract_line_name :: "string option"
  sx_is_system_managed_default :: bool
  sx_contract_line_type :: "string option"
  sx_cadence_owner :: "string option"
  sx_billing_frequency :: "string option"
  sx_billing_timing :: "string option"
  sx_assignment_start_date :: db_value
  sx_assignment_end_date :: db_value

definition empty_context :: schedule_context where
  "empty_context = \<lparr>sx_client_id = None, sx_client_name = None, sx_contract_id = None,
     sx_contract_name = None, sx_contract_line_id = None, sx_contract_line_name = None,
     sx_is_system_managed_default = False, sx_contract_line_type = None, sx_cadence_owner = None,
     sx_billing_frequency = None, sx_billing_timing = None, sx_assignment_start_date = Db_Null,
     sx_assignment_end_date = Db_Null\<rparr>"

text \<open>\<open>contract_line_row\<close> is the row the query on the contract tables gives for a line, if any.\<close>

definition loadLiveScheduleContext :: "(string \<Rightarrow> schedule_context option) \<Rightarrow> string \<Rightarrow> string \<Rightarrow> schedule_context" where
  "loadLiveScheduleContext contract_line_row obligationType obligationId =
     (if obligationType \<noteq> obligation_type_text Contract_Line
         \<and> obligationType \<noteq> obligation_type_text CLIENT_CADENCE_POST_DROP_OBLIGATION_TYPE
      then empty_context
      else or_else (contract_line_row obligationId) empty_context)"

section \<open>The repair of a schedule\<close>

record repair_result =
  rr_schedule_key :: string
  rr_repaired_at :: iso8601
  rr_historical_boundary_end :: "iso8601 option"
  rr_skipped_historical_candidates :: nat
  rr_backfilled_rows :: nat
  rr_realigned_rows :: nat
  rr_superseded_rows :: nat
  rr_active_rows :: nat

definition nothing_repaired :: "parsed_schedule \<Rightarrow> iso8601 \<Rightarrow> iso8601 option \<Rightarrow> nat \<Rightarrow> repair_result" where
  "nothing_repaired schedule repairedAt boundary activeRows =
     \<lparr>rr_schedule_key = ps_schedule_key schedule, rr_repaired_at = repairedAt,
      rr_historical_boundary_end = boundary, rr_skipped_historical_candidates = 0, rr_backfilled_rows = 0,
      rr_realigned_rows = 0, rr_superseded_rows = 0, rr_active_rows = activeRows\<rparr>"

text \<open>Writing a repair plan and reporting it: the end of both branches.\<close>

definition finish_repair :: "string \<Rightarrow> parsed_schedule \<Rightarrow> iso8601 \<Rightarrow> backfill_plan \<Rightarrow> ledger_table
    \<Rightarrow> (repair_result \<times> ledger_table) result" where
  "finish_repair tenant schedule repairedAt repairPlan table =
     and_then (persistRecurringServicePeriodRepair tenant (bp_superseded_records repairPlan)
         (plan_inserts repairPlan) table) (\<lambda>table'.
       Inr (\<lparr>rr_schedule_key = ps_schedule_key schedule, rr_repaired_at = repairedAt,
         rr_historical_boundary_end = bp_historical_boundary_end repairPlan,
         rr_skipped_historical_candidates = length (bp_skipped_historical_candidates repairPlan),
         rr_backfilled_rows = length (bp_backfilled_records repairPlan),
         rr_realigned_rows = length (bp_realigned_records repairPlan),
         rr_superseded_rows = length (bp_superseded_records repairPlan),
         rr_active_rows = length (bp_active_records repairPlan)\<rparr>, table'))"

definition normalized_or_now :: "temporal \<Rightarrow> db_value \<Rightarrow> iso8601 \<Rightarrow> iso8601 result" where
  "normalized_or_now td v now = and_then (normalizeDateOnlyValue td v) (\<lambda>normalized.
     case normalized of Some s \<Rightarrow> Inr s | None \<Rightarrow> ensureUtcMidnightIsoDate td now)"

text \<open>The plan of a contract schedule: no coverage anchor and no end of coverage are given.\<close>

definition contract_repair_input :: "temporal \<Rightarrow> iso8601 \<Rightarrow> record_id_factory \<Rightarrow> string \<Rightarrow> parsed_schedule
    \<Rightarrow> string \<Rightarrow> charge_family \<Rightarrow> supported_contract_cycle \<Rightarrow> iso8601 \<Rightarrow> iso8601 \<Rightarrow> contract_materialization" where
  "contract_repair_input td repairedAt factory tenant schedule contractLineId chargeFamily billingCycle assignmentStart regenerationStart =
     \<lparr>cm_as_of = regenerationStart, cm_materialized_at = repairedAt, cm_billing_cycle = billingCycle,
      cm_anchor_date = assignmentStart,
      cm_source_obligation = \<lparr>ob_tenant = Some tenant, ob_id = contractLineId, ob_type = Contract_Line,
        ob_charge_family = chargeFamily\<rparr>,
      cm_due_position = ps_due_position schedule,
      cm_source_rule_version = join_with ''|'' [''contract_cadence'',
        ''billing_cycle:'' @ contract_cycle_text billingCycle,
        ''anchor:'' @ iso_text td (slice_date assignmentStart),
        ''due:'' @ due_position_text (ps_due_position schedule)],
      cm_source_run_key = ''operator-repair:'' @ ps_schedule_key schedule @ '':'' @ iso_text td repairedAt,
      cm_coverage_anchor_date = None,
      cm_target_horizon_days = None, cm_replenishment_threshold_days = None,
      cm_max_periods_per_run = None, cm_record_id_factory = Some factory\<rparr>"

definition contract_repair_plan :: "temporal \<Rightarrow> (string \<Rightarrow> string \<Rightarrow> int) \<Rightarrow> contract_materialization
    \<Rightarrow> iso8601 option \<Rightarrow> iso8601 option \<Rightarrow> period_record list \<Rightarrow> backfill_plan result" where
  "contract_repair_plan td lc inp assignmentEnd billedBoundaryEnd existingRecords =
     and_then (materializeContractCadenceServicePeriods td inp) (\<lambda>materialized.
     let candidateRecords = filter (\<lambda>r. case assignmentEnd of None \<Rightarrow> True
           | Some e \<Rightarrow> compareIsoDateOnly (range_start (rec_service_period r)) e < 0) (cp_records materialized)
     in backfillRecurringServicePeriods lc
          (backfill_request inp candidateRecords existingRecords None billedBoundaryEnd))"

definition repair_contract_schedule :: "temporal \<Rightarrow> (string \<Rightarrow> string \<Rightarrow> int) \<Rightarrow> iso8601 \<Rightarrow> record_id_factory \<Rightarrow> string
    \<Rightarrow> parsed_schedule \<Rightarrow> schedule_context \<Rightarrow> string \<Rightarrow> period_record list \<Rightarrow> ledger_table \<Rightarrow> (repair_result \<times> ledger_table) result" where
  "repair_contract_schedule td lc repairedAt factory tenant schedule context contractLineId existingRecords table =
     and_then (normalized_or_now td (sx_assignment_start_date context) repairedAt) (\<lambda>assignmentStart.
     and_then (normalizeDateOnlyValue td (sx_assignment_end_date context)) (\<lambda>assignmentEnd.
       case normalizeContractCadenceBillingCycle (sx_billing_frequency context) of
         None \<Rightarrow> Inl Line_No_Longer_Matches
       | Some billingCycle \<Rightarrow>
           if sx_billing_timing context \<noteq> Some (due_position_text (ps_due_position schedule))
           then Inl Line_No_Longer_Matches
           else if (case assignmentEnd of None \<Rightarrow> False | Some e \<Rightarrow> compareIsoDateOnly e assignmentStart \<le> 0)
           then Inr (nothing_repaired schedule repairedAt None 0, table)
           else
             let billedBoundaryEnd = billed_boundary existingRecords;
                 regenerationStart = (case billedBoundaryEnd of None \<Rightarrow> assignmentStart
                   | Some b \<Rightarrow> maxIsoDateOnly assignmentStart b)
             in and_then (contract_repair_plan td lc
                  (contract_repair_input td repairedAt factory tenant schedule contractLineId
                    (resolveRecurringChargeFamily (sx_contract_line_type context)) billingCycle
                    assignmentStart regenerationStart)
                  assignmentEnd billedBoundaryEnd existingRecords) (\<lambda>repairPlan.
                finish_repair tenant schedule repairedAt repairPlan table)))"

text \<open>
  The client branch. \<open>billingSchedule\<close> is what \<open>getClientBillingCycleAnchor\<close> gives for the client,
  \<open>ownedLines\<close> the lines of the contracts it owns.
\<close>

definition repair_client_schedule :: "temporal \<Rightarrow> int \<Rightarrow> (string \<Rightarrow> string \<Rightarrow> int) \<Rightarrow> iso8601 \<Rightarrow> record_id_factory
    \<Rightarrow> string \<Rightarrow> (billing_cycle \<times> anchor_settings) result \<Rightarrow> string list
    \<Rightarrow> parsed_schedule \<Rightarrow> schedule_context \<Rightarrow> string \<Rightarrow> period_record list \<Rightarrow> ledger_table \<Rightarrow> (repair_result \<times> ledger_table) result" where
  "repair_client_schedule td tz lc repairedAt factory tenant billingSchedule ownedLines schedule context contractLineId
       existingRecords table =
     and_then (throw_if (ps_obligation_type schedule \<noteq> obligation_type_text CLIENT_CADENCE_POST_DROP_OBLIGATION_TYPE)
         (Unsupported_Schedule_Type (ps_obligation_type schedule))) (\<lambda>_.
     and_then (throw_if (\<not> truthy (sx_client_id context)) Client_Source_Unresolved) (\<lambda>_.
     and_then (throw_if (sx_billing_timing context \<noteq> Some (due_position_text (ps_due_position schedule)))
         Obligation_No_Longer_Matches) (\<lambda>_.
     and_then billingSchedule (\<lambda>(billingCycle, anchor).
     let billedBoundaryEnd = loadClientBilledLedgerBoundary tz tenant ownedLines table
     in and_then (normalized_or_now td (sx_assignment_start_date context) repairedAt) (\<lambda>obligationStart.
        and_then (resolveClientCadenceObligationStart td (Db_Text obligationStart) billedBoundaryEnd repairedAt) (\<lambda>regenerationStart.
        and_then (normalizeDateOnlyValue td (sx_assignment_end_date context)) (\<lambda>obligationEnd.
          if (case obligationEnd of None \<Rightarrow> False | Some e \<Rightarrow> compareIsoDateOnly e regenerationStart \<le> 0)
          then Inr (nothing_repaired schedule repairedAt billedBoundaryEnd (length existingRecords), table)
          else and_then (client_backfill td lc
             (client_materialization_input td repairedAt factory
               \<lparr>cc_tenant = tenant, cc_client_id = or_else (sx_client_id context) [],
                cc_billing_cycle = billingCycle, cc_anchor = anchor\<rparr>
               (buildScheduleSourceRuleVersion td billingCycle anchor)
               (''operator-repair:'' @ ps_schedule_key schedule @ '':'' @ iso_text td repairedAt)
               (buildPersistedClientCadencePostDropObligationRef tenant contractLineId
                 (resolveRecurringChargeFamily (sx_contract_line_type context)))
               (ps_due_position schedule) regenerationStart)
             existingRecords obligationStart obligationEnd billedBoundaryEnd) (\<lambda>(materialized, repairPlan).
           finish_repair tenant schedule repairedAt repairPlan table))))))))"

definition repairScheduleMaterialization :: "temporal \<Rightarrow> int \<Rightarrow> (string \<Rightarrow> string \<Rightarrow> int) \<Rightarrow> iso8601 \<Rightarrow> record_id_factory
    \<Rightarrow> string \<Rightarrow> (billing_cycle \<times> anchor_settings) result \<Rightarrow> string list
    \<Rightarrow> parsed_schedule \<Rightarrow> schedule_context \<Rightarrow> period_record list \<Rightarrow> ledger_table \<Rightarrow> (repair_result \<times> ledger_table) result" where
  "repairScheduleMaterialization td tz lc repairedAt factory tenant billingSchedule ownedLines schedule context
       existingRecords table =
     (if \<not> truthy (sx_contract_line_id context) then Inl (Obligation_Gone (ps_obligation_id schedule))
      else let contractLineId = or_else (sx_contract_line_id context) []
        in if ps_cadence_owner schedule = Contract
           then repair_contract_schedule td lc repairedAt factory tenant schedule context contractLineId existingRecords table
           else repair_client_schedule td tz lc repairedAt factory tenant billingSchedule ownedLines schedule context
             contractLineId existingRecords table)"

section \<open>The actions\<close>

text \<open>An action returns a value or an \<open>ActionPermissionError\<close>; \<open>Inl\<close> of the result is a throw.\<close>

datatype 'a action_value = Permission_Error string | Action_Value 'a

datatype schedule_permission = View_Periods | Regenerate_Periods | Correct_Period_History

text \<open>The sources of the tables besides the ledger.\<close>

record schedule_sources =
  ss_line_row :: "string \<Rightarrow> schedule_context option"
  ss_billing_schedule :: "string option \<Rightarrow> (billing_cycle \<times> anchor_settings) result"
  ss_owned_lines :: "string option \<Rightarrow> string list"

definition repairMissingRecurringServicePeriods :: "temporal \<Rightarrow> int \<Rightarrow> (string \<Rightarrow> string \<Rightarrow> int) \<Rightarrow> iso8601 \<Rightarrow> record_id_factory
    \<Rightarrow> schedule_sources \<Rightarrow> (schedule_permission \<Rightarrow> bool) \<Rightarrow> string \<Rightarrow> string \<Rightarrow> ledger_table
    \<Rightarrow> (repair_result action_value \<times> ledger_table) result" where
  "repairMissingRecurringServicePeriods td tz lc repairedAt factory sources permits tenant scheduleKey table =
     (if \<not> permits Regenerate_Periods
      then Inr (Permission_Error ''Permission denied: Cannot repair recurring service periods'', table)
      else let normalizedScheduleKey = js_trim scheduleKey
        in if normalizedScheduleKey = []
           then Inr (Permission_Error ''A schedule key is required to repair recurring service periods.'', table)
           else case parseRecurringServicePeriodScheduleKey normalizedScheduleKey of
             None \<Rightarrow> Inl (Schedule_Key_Unsupported normalizedScheduleKey)
           | Some schedule \<Rightarrow>
               and_then (throw_if (ps_tenant schedule \<noteq> tenant) (Schedule_Wrong_Tenant normalizedScheduleKey tenant)) (\<lambda>_.
               let context = loadLiveScheduleContext (ss_line_row sources) (ps_obligation_type schedule) (ps_obligation_id schedule)
               in and_then (throw_if (sx_is_system_managed_default context) System_Managed_Schedule) (\<lambda>_.
                  let existingRecords = map (mapRecurringServicePeriodRowToRecord tz)
                        (loadScheduleRows tenant normalizedScheduleKey table)
                  in and_then (repairScheduleMaterialization td tz lc repairedAt factory tenant
                       (ss_billing_schedule sources (sx_client_id context)) (ss_owned_lines sources (sx_client_id context))
                       schedule context existingRecords table) (\<lambda>(res, table').
                     Inr (Action_Value res, table')))))"

definition repairAllRecurringServicePeriodsForTenant :: "temporal \<Rightarrow> int \<Rightarrow> (string \<Rightarrow> string \<Rightarrow> int)
    \<Rightarrow> (schedule_permission \<Rightarrow> bool) \<Rightarrow> string \<Rightarrow> client_source list \<Rightarrow> ledger_table
    \<Rightarrow> (client_repair_summary action_value \<times> ledger_table) result" where
  "repairAllRecurringServicePeriodsForTenant td tz lc permits tenant clients table =
     (if \<not> permits Regenerate_Periods
      then Inr (Permission_Error ''Permission denied: Cannot repair recurring service periods'', table)
      else and_then (repairAllClientCadenceServicePeriodsForTenant td tz lc tenant clients table)
        (\<lambda>(summary, table'). Inr (Action_Value summary, table')))"

definition previewRecurringServicePeriodRegeneration ::
    "(schedule_permission \<Rightarrow> bool) \<Rightarrow> regeneration_input \<Rightarrow> regeneration_plan action_value" where
  "previewRecurringServicePeriodRegeneration permits inp =
     (if \<not> permits Regenerate_Periods
      then Permission_Error ''Permission denied: Cannot regenerate recurring service periods''
      else Action_Value (regenerateRecurringServicePeriods inp))"

record linkage_repair_input =
  li_record :: period_record
  li_invoice_linkage :: invoice_linkage
  li_repaired_at :: iso8601
  li_source_rule_version :: string
  li_source_run_key :: "string option"

definition previewRecurringServicePeriodInvoiceLinkageRepairResult :: "linkage_repair_input \<Rightarrow> period_record result" where
  "previewRecurringServicePeriodInvoiceLinkageRepairResult inp =
     (let governance = getRecurringServicePeriodGovernanceRequirement (li_record inp) (Mutation Invoice_Linkage_Repair)
      in and_then (throw_if (\<not> gv_allowed governance) (Governance_Denied (gv_reason governance))) (\<lambda>_.
         Inr ((li_record inp)\<lparr>rec_lifecycle_state := Billed,
           rec_invoice_linkage := Some (li_invoice_linkage inp),
           rec_provenance := \<lparr>prov_kind = P_Repair, prov_source_rule_version = li_source_rule_version inp,
             prov_reason_code = ''invoice_linkage_repair'', prov_source_run_key = li_source_run_key inp,
             prov_supersedes_record_id = Some (rec_id (li_record inp))\<rparr>,
           rec_updated_at := li_repaired_at inp\<rparr>)))"

definition previewRecurringServicePeriodInvoiceLinkageRepair ::
    "(schedule_permission \<Rightarrow> bool) \<Rightarrow> linkage_repair_input \<Rightarrow> period_record action_value result" where
  "previewRecurringServicePeriodInvoiceLinkageRepair permits inp =
     (if \<not> permits Correct_Period_History
      then Inr (Permission_Error ''Permission denied: Cannot repair recurring service period history'')
      else and_then (previewRecurringServicePeriodInvoiceLinkageRepairResult inp) (\<lambda>r. Inr (Action_Value r)))"

section \<open>The management view\<close>

record management_row =
  mr_record :: period_record
  mr_display_state :: display_state
  mr_governance :: "governance_requirement list"
  mr_context :: schedule_context

record management_summary =
  ms_total_rows :: nat
  ms_exception_rows :: nat
  ms_generated_rows :: nat
  ms_edited_rows :: nat
  ms_skipped_rows :: nat
  ms_locked_rows :: nat
  ms_billed_rows :: nat
  ms_superseded_rows :: nat
  ms_archived_rows :: nat

definition isExceptionRow :: "period_record \<Rightarrow> bool" where
  "isExceptionRow r \<longleftrightarrow> rec_lifecycle_state r = Edited \<or> rec_lifecycle_state r = Skipped
     \<or> rec_lifecycle_state r = Locked"

definition buildEmptyManagementSummary :: management_summary where
  "buildEmptyManagementSummary = \<lparr>ms_total_rows = 0, ms_exception_rows = 0, ms_generated_rows = 0,
     ms_edited_rows = 0, ms_skipped_rows = 0, ms_locked_rows = 0, ms_billed_rows = 0,
     ms_superseded_rows = 0, ms_archived_rows = 0\<rparr>"

definition summarize_row :: "management_summary \<Rightarrow> management_row \<Rightarrow> management_summary" where
  "summarize_row s row =
     (let s = s\<lparr>ms_total_rows := ms_total_rows s + 1\<rparr>;
          s = (if isExceptionRow (mr_record row) then s\<lparr>ms_exception_rows := ms_exception_rows s + 1\<rparr> else s)
      in case rec_lifecycle_state (mr_record row) of
           Generated \<Rightarrow> s\<lparr>ms_generated_rows := ms_generated_rows s + 1\<rparr>
         | Edited \<Rightarrow> s\<lparr>ms_edited_rows := ms_edited_rows s + 1\<rparr>
         | Skipped \<Rightarrow> s\<lparr>ms_skipped_rows := ms_skipped_rows s + 1\<rparr>
         | Locked \<Rightarrow> s\<lparr>ms_locked_rows := ms_locked_rows s + 1\<rparr>
         | Billed \<Rightarrow> s\<lparr>ms_billed_rows := ms_billed_rows s + 1\<rparr>
         | Superseded \<Rightarrow> s\<lparr>ms_superseded_rows := ms_superseded_rows s + 1\<rparr>
         | Archived \<Rightarrow> s\<lparr>ms_archived_rows := ms_archived_rows s + 1\<rparr>)"

definition buildManagementSummary :: "management_row list \<Rightarrow> management_summary" where
  "buildManagementSummary rows = foldl summarize_row buildEmptyManagementSummary rows"

datatype management_status = Ready | Repair_Required

record management_view =
  mv_schedule_key :: string
  mv_obligation_id :: string
  mv_obligation_type :: string
  mv_cadence_owner :: cadence_owner
  mv_due_position :: due_position
  mv_charge_family :: charge_family
  mv_context :: schedule_context
  mv_status :: management_status
  mv_summary :: management_summary
  mv_rows :: "management_row list"

text \<open>
  A view carries the six identifying columns of the context; the model keeps the context. The rows of
  an existing schedule have the context of \<open>loadObligationContext\<close>, which reads the same line.
\<close>

definition getRecurringServicePeriodManagementView :: "int \<Rightarrow> schedule_sources \<Rightarrow> (schedule_permission \<Rightarrow> bool)
    \<Rightarrow> string \<Rightarrow> string \<Rightarrow> ledger_table \<Rightarrow> management_view action_value result" where
  "getRecurringServicePeriodManagementView tz sources permits tenant scheduleKey table =
     (if \<not> permits View_Periods
      then Inr (Permission_Error ''Permission denied: Cannot view recurring service periods'')
      else let normalizedScheduleKey = js_trim scheduleKey
        in if normalizedScheduleKey = []
           then Inr (Permission_Error ''A schedule key is required to inspect recurring service periods.'')
           else case loadScheduleRows tenant normalizedScheduleKey table of
             [] \<Rightarrow>
               (case parseRecurringServicePeriodScheduleKey normalizedScheduleKey of
                  None \<Rightarrow> Inl (Schedule_Not_Found normalizedScheduleKey)
                | Some schedule \<Rightarrow>
                    and_then (throw_if (ps_tenant schedule \<noteq> tenant) (Schedule_Wrong_Tenant normalizedScheduleKey tenant)) (\<lambda>_.
                    let context = loadLiveScheduleContext (ss_line_row sources) (ps_obligation_type schedule) (ps_obligation_id schedule)
                    in and_then (throw_if (sx_is_system_managed_default context) System_Managed_Schedule) (\<lambda>_.
                       and_then (throw_if (\<not> truthy (sx_contract_line_id context)) (Schedule_Not_Found normalizedScheduleKey)) (\<lambda>_.
                       Inr (Action_Value \<lparr>mv_schedule_key = normalizedScheduleKey,
                         mv_obligation_id = ps_obligation_id schedule, mv_obligation_type = ps_obligation_type schedule,
                         mv_cadence_owner = ps_cadence_owner schedule, mv_due_position = ps_due_position schedule,
                         mv_charge_family = resolveRecurringChargeFamily (sx_contract_line_type context),
                         mv_context = context, mv_status = Repair_Required,
                         mv_summary = buildEmptyManagementSummary, mv_rows = []\<rparr>)))))
           | firstRow # _ \<Rightarrow>
               let context = loadLiveScheduleContext (ss_line_row sources)
                     (obligation_type_text (row_obligation_type firstRow)) (row_obligation_id firstRow)
               in and_then (throw_if (sx_is_system_managed_default context) System_Managed_Schedule) (\<lambda>_.
                  let rows = map (\<lambda>row. let r = mapRecurringServicePeriodRowToRecord tz row
                        in \<lparr>mr_record = r, mr_display_state = getRecurringServicePeriodDisplayState r,
                            mr_governance = listRecurringServicePeriodGovernanceRequirements r, mr_context = context\<rparr>)
                        (loadScheduleRows tenant normalizedScheduleKey table)
                  in Inr (Action_Value \<lparr>mv_schedule_key = normalizedScheduleKey,
                       mv_obligation_id = row_obligation_id firstRow,
                       mv_obligation_type = obligation_type_text (row_obligation_type firstRow),
                       mv_cadence_owner = row_cadence_owner firstRow, mv_due_position = row_due_position firstRow,
                       mv_charge_family = row_charge_family firstRow, mv_context = context,
                       mv_status = Ready, mv_summary = buildManagementSummary rows, mv_rows = rows\<rparr>)))"

section \<open>Correctness of the schedule keys\<close>

lemma split_colon_not_Nil [simp]: "split_colon s \<noteq> []"
  by (induction s) (auto split: list.splits)

lemma split_colon_parts: "p \<in> set (split_colon s) \<Longrightarrow> CHR '':'' \<notin> set p"
  by (induction s arbitrary: p) (auto split: list.splits if_splits)

lemma join_split_colon: "join_with '':'' (split_colon s) = s"
proof (induction s)
  case (Cons c cs)
  obtain p ps where split: "split_colon cs = p # ps" by (cases "split_colon cs") simp_all
  show ?case using Cons by (cases ps) (auto simp: split)
qed simp

lemma split_colon_free: "CHR '':'' \<notin> set p \<Longrightarrow> split_colon p = [p]"
  by (induction p) auto

lemma split_colon_append: "CHR '':'' \<notin> set p \<Longrightarrow> split_colon (p @ CHR '':'' # s) = p # split_colon s"
  by (induction p) auto

lemma split_join_colon: "ps \<noteq> [] \<Longrightarrow> \<forall>p \<in> set ps. CHR '':'' \<notin> set p \<Longrightarrow> split_colon (join_with '':'' ps) = ps"
  by (induction "'':''" ps rule: join_with.induct) (auto simp: split_colon_free split_colon_append)

lemma split_colon_iff: "split_colon s = ps \<longleftrightarrow> ps \<noteq> [] \<and> (\<forall>p \<in> set ps. CHR '':'' \<notin> set p) \<and> s = join_with '':'' ps"
  using join_split_colon split_join_colon split_colon_parts split_colon_not_Nil by metis

lemma six_parts:
  "(case xs of [a, b, c, d, e, f] \<Rightarrow> h a b c d e f | _ \<Rightarrow> None) = Some p \<Longrightarrow>
     \<exists>a b c d e f. xs = [a, b, c, d, e, f] \<and> h a b c d e f = Some p"
  by (simp split: list.split_asm)

lemma if_some: "(if P then Some x else None) = Some y \<longleftrightarrow> P \<and> y = x"
  by auto

lemma owner_read:
  "(if cadence_owner_text ow = ''client'' then Client else Contract) = ow"
  "(cadence_owner_text ow = ''client'' \<or> cadence_owner_text ow = ''contract'') = True"
  by (cases ow; simp add: cadence_owner_text_def)+

lemma position_read:
  "(if due_position_text d = ''advance'' then Advance else Arrears) = d"
  "(due_position_text d = ''advance'' \<or> due_position_text d = ''arrears'') = True"
  by (cases d; simp add: due_position_text_def)+

definition key_part :: "string \<Rightarrow> bool" where
  "key_part s \<longleftrightarrow> s \<noteq> [] \<and> CHR '':'' \<notin> set s"

text \<open>
  C32: the parser of schedule keys accepts exactly the texts the builder's format gives for parts that are
  not empty and hold no colon, and returns those parts; so a key that was built from an obligation with
  such a tenant and identifier is read back as that obligation.
\<close>

theorem schedule_key_parsed_iff:
  "(parseRecurringServicePeriodScheduleKey key = Some p \<longleftrightarrow>
     ps_schedule_key p = key \<and> key_part (ps_tenant p) \<and> key_part (ps_obligation_type p) \<and> key_part (ps_obligation_id p)
     \<and> key = ''schedule:'' @ ps_tenant p @ '':'' @ ps_obligation_type p @ '':'' @ ps_obligation_id p @ '':''
         @ cadence_owner_text (ps_cadence_owner p) @ '':'' @ due_position_text (ps_due_position p))
   \<and> (ob_tenant ob = Some tenant \<and> key_part tenant \<and> key_part (ob_id ob) \<longrightarrow>
     parseRecurringServicePeriodScheduleKey (buildRecurringServicePeriodScheduleKey ob owner dp)
       = Some \<lparr>ps_schedule_key = buildRecurringServicePeriodScheduleKey ob owner dp, ps_tenant = tenant,
           ps_obligation_type = obligation_type_text (ob_type ob), ps_obligation_id = ob_id ob,
           ps_cadence_owner = owner, ps_due_position = dp\<rparr>)"
proof -
  have parse: "parseRecurringServicePeriodScheduleKey key = Some p \<longleftrightarrow>
     ps_schedule_key p = key \<and> key_part (ps_tenant p) \<and> key_part (ps_obligation_type p) \<and> key_part (ps_obligation_id p)
     \<and> key = ''schedule:'' @ ps_tenant p @ '':'' @ ps_obligation_type p @ '':'' @ ps_obligation_id p @ '':''
         @ cadence_owner_text (ps_cadence_owner p) @ '':'' @ due_position_text (ps_due_position p)"
    (is "_ \<longleftrightarrow> ?spec key p") for key p
  proof
    assume some: "parseRecurringServicePeriodScheduleKey key = Some p"
    obtain a t ty i ow d where six: "split_colon key = [a, t, ty, i, ow, d]"
      and here: "(if a = ''schedule'' \<and> t \<noteq> [] \<and> ty \<noteq> [] \<and> i \<noteq> []
            \<and> (ow = ''client'' \<or> ow = ''contract'') \<and> (d = ''advance'' \<or> d = ''arrears'')
          then Some \<lparr>ps_schedule_key = key, ps_tenant = t, ps_obligation_type = ty, ps_obligation_id = i,
            ps_cadence_owner = (if ow = ''client'' then Client else Contract),
            ps_due_position = (if d = ''advance'' then Advance else Arrears)\<rparr> else None) = Some p"
      using six_parts [OF some [unfolded parseRecurringServicePeriodScheduleKey_def]] by (elim exE conjE) (rule that)
    have split: "split_colon key = [''schedule'', t, ty, i, ow, d]" "t \<noteq> []" "ty \<noteq> []" "i \<noteq> []"
        "ow = ''client'' \<or> ow = ''contract''" "d = ''advance'' \<or> d = ''arrears''"
      and p: "p = \<lparr>ps_schedule_key = key, ps_tenant = t, ps_obligation_type = ty, ps_obligation_id = i,
         ps_cadence_owner = (if ow = ''client'' then Client else Contract),
         ps_due_position = (if d = ''advance'' then Advance else Arrears)\<rparr>"
      using here unfolding six if_some by blast+
    have key: "key = join_with '':'' [''schedule'', t, ty, i, ow, d]"
      "CHR '':'' \<notin> set t" "CHR '':'' \<notin> set ty" "CHR '':'' \<notin> set i"
      using split(1) [unfolded split_colon_iff] by simp_all
    show "?spec key p" using split(2-6) key
      by (auto simp: p key_part_def cadence_owner_text_def due_position_text_def)
  next
    assume spec: "?spec key p"
    have texts: "CHR '':'' \<notin> set (cadence_owner_text (ps_cadence_owner p))" "CHR '':'' \<notin> set (due_position_text (ps_due_position p))"
      by (simp_all add: cadence_owner_text_def due_position_text_def split: cadence_owner.split due_position.split)
    have six: "split_colon key = [''schedule'', ps_tenant p, ps_obligation_type p, ps_obligation_id p,
        cadence_owner_text (ps_cadence_owner p), due_position_text (ps_due_position p)]"
      unfolding split_colon_iff using spec texts by (simp add: key_part_def)
    have fields: "ps_schedule_key p = key" "ps_tenant p \<noteq> []" "ps_obligation_type p \<noteq> []" "ps_obligation_id p \<noteq> []"
      using spec by (simp_all add: key_part_def)
    show "parseRecurringServicePeriodScheduleKey key = Some p"
      unfolding parseRecurringServicePeriodScheduleKey_def six list.case if_some owner_read position_read
      using fields by simp
  qed
  have "key_part (obligation_type_text ty)" for ty
    by (cases ty) (simp_all add: key_part_def obligation_type_text_def)
  then show ?thesis unfolding parse by (simp add: buildRecurringServicePeriodScheduleKey_def)
qed

theorem schedule_key_parsed_iff_witness:
  "parseRecurringServicePeriodScheduleKey ''schedule:t:contract_line:l:contract:advance''
     = Some \<lparr>ps_schedule_key = ''schedule:t:contract_line:l:contract:advance'', ps_tenant = ''t'',
         ps_obligation_type = ''contract_line'', ps_obligation_id = ''l'', ps_cadence_owner = Contract, ps_due_position = Advance\<rparr>"
  using schedule_key_parsed_iff [of _ _ "\<lparr>ob_tenant = Some ''t'', ob_id = ''l'', ob_type = Contract_Line, ob_charge_family = Fixed\<rparr>"
      "''t''" Contract Advance]
  by (simp add: key_part_def buildRecurringServicePeriodScheduleKey_def cadence_owner_text_def due_position_text_def)

end
