(* ===== verification/Ledger_System.thy ===== *)
theory Ledger_System
  imports Contract_Sync Schedule_Repair
begin

text \<open>
  The ledger under all of its writers: one step relation over the table with the operations of the
  replenishment, the repair, the invoicing and the deletion of a contract, and what holds of every
  table they can reach. Each step is one transaction.
\<close>

section \<open>Deleting a contract\<close>

text \<open>
  \<open>Contract.delete\<close> of \<open>packages/billing/src/models/contract.ts\<close>, as far as it touches the ledger:
  \<open>hasInvoices\<close> is what \<open>Contract.hasInvoices\<close> finds, \<open>contractLineIds\<close> the lines of the contract.
\<close>

definition deleteContractPeriods :: "string \<Rightarrow> bool \<Rightarrow> string list \<Rightarrow> ledger_table \<Rightarrow> ledger_table result" where
  "deleteContractPeriods tenant hasInvoices contractLineIds table =
     and_then (throw_if hasInvoices Contract_Has_Invoices) (\<lambda>_.
       Inr (if length contractLineIds > 0
         then filter (\<lambda>row. \<not> (of_tenant tenant row \<and> row_obligation_id row \<in> set contractLineIds)) table
         else table))"

section \<open>Steps\<close>

text \<open>Who writes the table. The tenant is named where a property needs it.\<close>

datatype ledger_writer =
    Sync_Contract_Line string string
  | Replenish_Client string
  | Repair_Clients string
  | Repair_Schedule string string
  | Retire_Contract_Line string string
  | Retire_Client_Line string string
  | Link_Invoice_Detail
  | Claim_Selection
  | Release_Invoice string string
  | Delete_Contract string "string list"

inductive ledger_step :: "temporal \<Rightarrow> int \<Rightarrow> (string \<Rightarrow> string \<Rightarrow> int) \<Rightarrow> ledger_table \<Rightarrow> ledger_writer \<Rightarrow> ledger_table \<Rightarrow> bool"
  for td tz lc where
  contract_line_synced:
    "syncContractCadenceObligation td tz lc now factory tenant obligation sourceRunPrefix asOf t = Inr (res, t')
       \<Longrightarrow> ledger_step td tz lc t (Sync_Contract_Line tenant (co_contract_line_id obligation)) t'"
| client_replenished:
    "replenishClientCadenceServicePeriods td tz lc now params ownedLines obligations t = Inr t'
       \<Longrightarrow> ledger_step td tz lc t (Replenish_Client (cc_tenant params)) t'"
| clients_repaired:
    "repairAllRecurringServicePeriodsForTenant td tz lc permits tenant clients t = Inr (v, t')
       \<Longrightarrow> ledger_step td tz lc t (Repair_Clients tenant) t'"
| schedule_repaired:
    "repairMissingRecurringServicePeriods td tz lc now factory sources permits tenant scheduleKey t = Inr (v, t')
       \<Longrightarrow> ledger_step td tz lc t (Repair_Schedule tenant scheduleKey) t'"
| contract_line_retired:
    "retireFutureContractCadenceRowsForLine tenant line now t = Inr t'
       \<Longrightarrow> ledger_step td tz lc t (Retire_Contract_Line tenant line) t'"
| client_line_retired:
    "retireFutureClientCadenceRowsForLine tenant line now t = Inr t'
       \<Longrightarrow> ledger_step td tz lc t (Retire_Client_Line tenant line) t'"
| detail_linked:
    "link_period p t = Inr t' \<Longrightarrow> ledger_step td tz lc t Link_Invoice_Detail t'"
| selection_claimed:
    "claimRecurringServicePeriodsForSelectionInputs tz p t = Inr t' \<Longrightarrow> ledger_step td tz lc t Claim_Selection t'"
| invoice_released:
    "releaseRecurringServicePeriodInvoiceLinkageForInvoice tenant invoice now t = Inr t'
       \<Longrightarrow> ledger_step td tz lc t (Release_Invoice tenant invoice) t'"
| contract_deleted:
    "deleteContractPeriods tenant hasInvoices lines t = Inr t'
       \<Longrightarrow> ledger_step td tz lc t (Delete_Contract tenant lines) t'"

inductive_cases release_stepE: "ledger_step td tz lc t (Release_Invoice tenant invoice) t'"

text \<open>The tables the writers of a set reach from a table, and from the empty table of the migration.\<close>

inductive ledger_runs :: "temporal \<Rightarrow> int \<Rightarrow> (string \<Rightarrow> string \<Rightarrow> int) \<Rightarrow> (ledger_writer \<Rightarrow> bool) \<Rightarrow> ledger_table \<Rightarrow> ledger_table \<Rightarrow> bool"
  for td tz lc allowed t where
  run_start: "ledger_runs td tz lc allowed t t"
| run_step: "ledger_runs td tz lc allowed t t' \<Longrightarrow> ledger_step td tz lc t' w t'' \<Longrightarrow> allowed w
    \<Longrightarrow> ledger_runs td tz lc allowed t t''"

definition ledger_reachable :: "temporal \<Rightarrow> int \<Rightarrow> (string \<Rightarrow> string \<Rightarrow> int) \<Rightarrow> ledger_table \<Rightarrow> bool" where
  "ledger_reachable td tz lc t \<longleftrightarrow> ledger_runs td tz lc (\<lambda>_. True) [] t"

section \<open>The shape of a step\<close>

text \<open>
  A replenishment of the obligations that meet \<open>cond\<close>: free generated rows of them are superseded, new
  generated rows of them are added, and no other row changes.
\<close>

definition superseded_at :: "iso8601 \<Rightarrow> ledger_row \<Rightarrow> ledger_row" where
  "superseded_at u row = row\<lparr>row_lifecycle_state := Superseded, row_updated_at := u\<rparr>"

definition replenished :: "(ledger_row \<Rightarrow> bool) \<Rightarrow> ledger_table \<Rightarrow> ledger_table \<Rightarrow> bool" where
  "replenished cond t t' \<longleftrightarrow> (\<exists>g new. t' = map g t @ new \<and> table_constraints t'
     \<and> (\<forall>row \<in> set t. g row = row \<or> (cond row \<and> row_lifecycle_state row = Generated \<and> (\<exists>u. g row = superseded_at u row)))
     \<and> (\<forall>row \<in> set new. cond row \<and> row_invoice_id row = None))"

lemma superseded_at_simps [simp, ledger_simps]:
  "row_lifecycle_state (superseded_at u row) = Superseded"
  "row_invoice_id (superseded_at u row) = row_invoice_id row"
  "row_record_id (superseded_at u row) = row_record_id row"
  "of_tenant tenant (superseded_at u row) = of_tenant tenant row"
  "addressed tenant gone (superseded_at u row) = addressed tenant gone row"
  "superseded_at v (superseded_at u row) = superseded_at v row"
  by (simp_all add: superseded_at_def of_tenant_def addressed_def)

lemma replenished_refl: "table_constraints t \<Longrightarrow> replenished cond t t"
  unfolding replenished_def by (rule exI [of _ "\<lambda>row. row"], rule exI [of _ "[]"]) simp

text \<open>A plan made from a table may be written to it after others were.\<close>

lemma replenished_written:
  assumes "replenished cond t0 t" "written tenant gone ins t t'"
    and "\<forall>r \<in> set gone. rec_lifecycle_state r = Superseded"
    and "\<forall>row \<in> set t0. addressed tenant gone row \<longrightarrow> cond row \<and> row_lifecycle_state row = Generated"
    and "\<forall>n \<in> set ins. cond (serializeRecurringServicePeriodRecord n) \<and> rec_invoice_linkage n = None"
    and "\<forall>row u. cond (superseded_at u row) = cond row"
  shows "replenished cond t0 t'"
proof -
  obtain g new where t: "t = map g t0 @ new"
    and g: "\<forall>row \<in> set t0. g row = row \<or> (cond row \<and> row_lifecycle_state row = Generated \<and> (\<exists>u. g row = superseded_at u row))"
    and new: "\<forall>row \<in> set new. cond row \<and> row_invoice_id row = None"
    using assms(1) unfolding replenished_def by blast
  let ?m = "mark tenant gone"
  have marked: "?m row = row \<or> (addressed tenant gone row \<and> (\<exists>u. ?m row = superseded_at u row))" for row
    using mark_other [of tenant gone row] mark_addressed [of tenant gone row] assms(3)
    unfolding superseded_at_def by blast
  have t': "t' = map (\<lambda>row. ?m (g row)) t0 @ (map ?m new @ map serializeRecurringServicePeriodRecord ins)"
    using assms(2) by (simp add: written_def t comp_def)
  have con: "table_constraints t'" using assms(2) unfolding written_def by blast
  have "?m (g row) = row \<or> (cond row \<and> row_lifecycle_state row = Generated \<and> (\<exists>u. ?m (g row) = superseded_at u row))"
    if row: "row \<in> set t0" for row
  proof (cases "g row = row")
    case True
    then show ?thesis using marked [of row] assms(4) row by auto
  next
    case False
    then obtain u where "cond row" "row_lifecycle_state row = Generated" "g row = superseded_at u row"
      using g row by blast
    then show ?thesis using marked [of "g row"] by auto
  qed
  moreover have "\<forall>row \<in> set (map ?m new @ map serializeRecurringServicePeriodRecord ins). cond row \<and> row_invoice_id row = None"
  proof
    fix row assume "row \<in> set (map ?m new @ map serializeRecurringServicePeriodRecord ins)"
    then consider row' where "row' \<in> set new" "row = ?m row'" | n where "n \<in> set ins" "row = serializeRecurringServicePeriodRecord n"
      by auto
    then show "cond row \<and> row_invoice_id row = None"
    proof cases
      case 1
      then show ?thesis using marked [of row'] new assms(6) by auto
    next
      case 2
      then show ?thesis using assms(5) by simp
    qed
  qed
  ultimately show ?thesis unfolding replenished_def using t' con by blast
qed

section \<open>Plans that respect the ledger\<close>

definition sound_plan :: "string \<Rightarrow> (ledger_row \<Rightarrow> bool) \<Rightarrow> ledger_table \<Rightarrow> backfill_plan \<Rightarrow> bool" where
  "sound_plan tenant cond t plan \<longleftrightarrow>
     (\<forall>r \<in> set (bp_superseded_records plan). rec_lifecycle_state r = Superseded)
   \<and> (\<forall>row \<in> set t. addressed tenant (bp_superseded_records plan) row \<longrightarrow> cond row \<and> row_lifecycle_state row = Generated)
   \<and> (\<forall>n \<in> set (plan_inserts plan). cond (serializeRecurringServicePeriodRecord n) \<and> rec_invoice_linkage n = None)"

definition of_obligation :: "obligation_ref \<Rightarrow> cadence_owner \<Rightarrow> ledger_row \<Rightarrow> bool" where
  "of_obligation ob owner row \<longleftrightarrow> row_tenant row = ob_tenant ob \<and> row_obligation_id row = ob_id ob
     \<and> row_obligation_type row = ob_type ob \<and> row_cadence_owner row = owner"

text \<open>A backfill of the rows that meet \<open>cond\<close> with candidates of one obligation makes such a plan.\<close>

lemma backfill_sound:
  assumes plan: "backfillRecurringServicePeriods lc inp = Inr plan"
    and ex: "bf_existing_records inp = Some ex" "mset ex = mset (map f (filter cond t))"
    and f: "\<forall>row. rec_id (f row) = row_record_id row \<and> rec_lifecycle_state (f row) = row_lifecycle_state row"
    and con: "table_constraints t"
    and cond: "\<forall>row. cond row \<longrightarrow> of_tenant tenant row \<and> rcond row"
    and cand: "\<forall>c \<in> set (bf_candidate_records inp). \<exists>key. fresh ob owner key c"
    and ob: "\<forall>row. of_obligation ob owner row \<longrightarrow> rcond row"
  shows "sound_plan tenant rcond t plan"
proof -
  obtain env replaced where "mset (bp_superseded_records plan) = mset (map (supersede env) replaced)"
    using backfill_accounts [OF plan] by metis
  from mset_eq_setD [OF this] have "\<forall>r \<in> set (bp_superseded_records plan). rec_lifecycle_state r = Superseded"
    by (auto simp: supersede_def)
  moreover have "rcond row \<and> row_lifecycle_state row = Generated"
    if row: "row \<in> set t" "addressed tenant (bp_superseded_records plan) row" for row
    using superseded_rows_free [OF plan ex f con _ row] cond by blast
  moreover have "rcond (serializeRecurringServicePeriodRecord n) \<and> rec_invoice_linkage n = None"
    if n: "n \<in> set (plan_inserts plan)" for n
  proof -
    obtain c where c: "c \<in> set (bf_candidate_records inp)" "rec_source_obligation n = rec_source_obligation c"
      "rec_cadence_owner n = rec_cadence_owner c" "rec_invoice_linkage n = None"
      using inserted_candidate [OF plan n [unfolded plan_inserts_def]] by metis
    have "of_obligation ob owner (serializeRecurringServicePeriodRecord n)"
      using cand c by (auto simp: of_obligation_def fresh_def)
    then show ?thesis using ob c(4) by blast
  qed
  ultimately show ?thesis unfolding sound_plan_def by blast
qed

lemma sound_plan_written:
  assumes "sound_plan tenant cond t0 plan" "replenished cond t0 t"
    and "written tenant (bp_superseded_records plan) (plan_inserts plan) t t'"
    and "\<forall>row u. cond (superseded_at u row) = cond row"
  shows "replenished cond t0 t'"
  by (rule replenished_written [OF assms(2,3) _ _ _ assms(4)]) (use assms(1) in \<open>auto simp: sound_plan_def\<close>)

text \<open>The candidates of the client cadence.\<close>

lemma client_records_fresh:
  "client_records td inp key cache sps = Inr rs \<Longrightarrow> \<forall>r \<in> set rs. fresh (lm_source_obligation inp) Client key r"
proof (induction td inp key cache sps arbitrary: rs rule: client_records.induct)
  case (2 td inp key cache sp sps)
  then show ?case by (auto simp: result_simps fresh_def initial_record_def Let_def split: prod.splits)
qed simp

lemma client_backfill_candidates:
  assumes "client_backfill td lc inp ex obStart obEnd billed = Inr (materialized, plan)"
  obtains bf where "backfillRecurringServicePeriods lc bf = Inr plan" "bf_existing_records bf = Some ex"
    "\<forall>c \<in> set (bf_candidate_records bf). \<exists>key. fresh (lm_source_obligation inp) Client key c"
proof -
  let ?cand = "clipRecurringCandidatesToObligationBounds (lp_records materialized) obStart obEnd"
  let ?bf = "\<lparr>bf_candidate_records = ?cand, bf_backfilled_at = lm_materialized_at inp,
           bf_source_rule_version = lm_source_rule_version inp, bf_source_run_key = lm_source_run_key inp,
           bf_existing_records = Some ex, bf_legacy_billed_through_end = billed,
           bf_candidate_coverage_end = Some (lp_generation_range_end materialized),
           bf_reason_code = Some ''billing_schedule_changed'',
           bf_record_id_factory = lm_record_id_factory inp\<rparr>"
  have mat: "materializeClientCadenceServicePeriods td inp = Inr materialized"
    and plan: "backfillRecurringServicePeriods lc ?bf = Inr plan"
    using assms by (auto simp: client_backfill_def Let_def result_simps)
  obtain key sps where "client_records td inp key [] sps = Inr (lp_records materialized)"
    using mat unfolding materializeClientCadenceServicePeriods_def Let_def by (auto simp: result_simps)
  then have "\<forall>r \<in> set (lp_records materialized). fresh (lm_source_obligation inp) Client key r"
    by (rule client_records_fresh)
  then have "\<forall>c \<in> set ?cand. \<exists>key. fresh (lm_source_obligation inp) Client key c"
    using clip_record_from by (metis clip_from)
  then show ?thesis using that [OF plan] by simp
qed

text \<open>Replenishments compose.\<close>

lemma replenished_trans:
  assumes "replenished cond t t'" "replenished cond t' t''" "\<forall>row u. cond (superseded_at u row) = cond row"
  shows "replenished cond t t''"
proof -
  obtain g new where t': "t' = map g t @ new"
    and g: "\<forall>row \<in> set t. g row = row \<or> (cond row \<and> row_lifecycle_state row = Generated \<and> (\<exists>u. g row = superseded_at u row))"
    and new: "\<forall>row \<in> set new. cond row \<and> row_invoice_id row = None"
    using assms(1) unfolding replenished_def by blast
  obtain h more where t'': "t'' = map h t' @ more" "table_constraints t''"
    and h: "\<forall>row \<in> set t'. h row = row \<or> (cond row \<and> row_lifecycle_state row = Generated \<and> (\<exists>u. h row = superseded_at u row))"
    and more: "\<forall>row \<in> set more. cond row \<and> row_invoice_id row = None"
    using assms(2) unfolding replenished_def by blast
  have eq: "t'' = map (\<lambda>row. h (g row)) t @ (map h new @ more)" using t''(1) t' by (simp add: comp_def)
  have "h (g row) = row \<or> (cond row \<and> row_lifecycle_state row = Generated \<and> (\<exists>u. h (g row) = superseded_at u row))"
    if row: "row \<in> set t" for row
  proof -
    have "g row \<in> set t'" using row by (simp add: t')
    with h have "h (g row) = g row \<or> (row_lifecycle_state (g row) = Generated \<and> cond (g row) \<and> (\<exists>u. h (g row) = superseded_at u (g row)))"
      by blast
    then show ?thesis using g row by fastforce
  qed
  moreover have "\<forall>row \<in> set (map h new @ more). cond row \<and> row_invoice_id row = None"
  proof
    fix row assume "row \<in> set (map h new @ more)"
    then consider row' where "row' \<in> set new" "row = h row'" | "row \<in> set more" by auto
    then show "cond row \<and> row_invoice_id row = None"
    proof cases
      case 1
      then have "row' \<in> set t'" by (simp add: t')
      then show ?thesis using 1 h new assms(3) by fastforce
    next
      case 2
      then show ?thesis using more by blast
    qed
  qed
  ultimately show ?thesis unfolding replenished_def using eq t''(2) by blast
qed

section \<open>The writers that replenish\<close>

text \<open>A synchronization retires the line or replenishes it.\<close>

lemma sync_replenishes:
  assumes "iso_calendar td" "table_constraints t"
    and "syncContractCadenceObligation td tz lc now factory tenant obligation sourceRunPrefix asOf t = Inr (res, t')"
  shows "retireFutureContractCadenceRowsForLine tenant (co_contract_line_id obligation) now t = Inr t'
    \<or> replenished (contract_line_rows tenant (co_contract_line_id obligation)) t t'"
  using assms(3)
proof (cases rule: sync_cases)
  case (synchronized terms plan)
  let ?line = "co_contract_line_id obligation"
  let ?ob = "\<lparr>ob_tenant = Some tenant, ob_id = ?line, ob_type = Contract_Line,
        ob_charge_family = resolveRecurringChargeFamily (co_contract_line_type obligation)\<rparr>"
  obtain inp where inp: "backfillRecurringServicePeriods lc inp = Inr (sp_backfill plan)"
    "bf_existing_records inp = Some (loadContractCadenceRecords tz tenant ?line t)"
    "bf_candidate_records inp = sp_candidates plan"
    "\<forall>c \<in> set (sp_candidates plan). (\<exists>key. fresh ?ob Contract key c) \<and> storable c"
    using assms(1) synchronized(3) by (rule sync_plan_parts)
  have load: "mset (loadContractCadenceRecords tz tenant ?line t)
      = mset (map (mapRecurringServicePeriodRow tz) (filter (contract_line_rows tenant ?line) t))"
    by (simp add: loadContractCadenceRecords_def load_records_mset)
  have cand: "\<forall>c \<in> set (bf_candidate_records inp). \<exists>key. fresh ?ob Contract key c"
    unfolding inp(3) using inp(4) by blast
  have "sound_plan tenant (contract_line_rows tenant ?line) t (sp_backfill plan)"
    by (rule backfill_sound [OF inp(1,2) load _ assms(2) _ cand])
      (simp_all add: obligation_rows_def of_obligation_def of_tenant_def)
  moreover have "written tenant (bp_superseded_records (sp_backfill plan)) (plan_inserts (sp_backfill plan)) t t'"
    using persist_contract_written [OF synchronized(4) assms(2)] unfolding plan_inserts_def by blast
  ultimately show ?thesis
    using sound_plan_written [OF _ replenished_refl [OF assms(2)]]
    by (auto simp: obligation_rows_def superseded_at_def of_tenant_def)
qed simp

abbreviation client_rows :: "string \<Rightarrow> ledger_row \<Rightarrow> bool" where
  "client_rows tenant row \<equiv> of_tenant tenant row \<and> row_obligation_type row = Client_Contract_Line \<and> row_cadence_owner row = Client"

lemma superseded_keeps_owner [simp]:
  "row_cadence_owner (superseded_at u row) = row_cadence_owner row"
  "row_obligation_type (superseded_at u row) = row_obligation_type row"
  "row_obligation_id (superseded_at u row) = row_obligation_id row"
  "row_tenant (superseded_at u row) = row_tenant row"
  by (simp_all add: superseded_at_def)

lemma client_backfill_sound:
  assumes "client_backfill td lc inp ex obStart obEnd billed = Inr (materialized, plan)"
    and "lm_source_obligation inp = buildPersistedClientCadencePostDropObligationRef tenant line family"
    and "mset ex = mset (map f (filter cond t))"
    and "\<forall>row. rec_id (f row) = row_record_id row \<and> rec_lifecycle_state (f row) = row_lifecycle_state row"
    and "table_constraints t" "\<forall>row. cond row \<longrightarrow> of_tenant tenant row \<and> rcond row"
    and "\<forall>row. client_rows tenant row \<longrightarrow> rcond row"
  shows "sound_plan tenant rcond t plan"
proof -
  obtain bf where bf: "backfillRecurringServicePeriods lc bf = Inr plan" "bf_existing_records bf = Some ex"
    "\<forall>c \<in> set (bf_candidate_records bf). \<exists>key. fresh (lm_source_obligation inp) Client key c"
    using assms(1) by (rule client_backfill_candidates)
  show ?thesis
    by (rule backfill_sound [OF bf(1,2) assms(3-6) bf(3)])
      (use assms(7) in \<open>simp add: assms(2) of_obligation_def of_tenant_def buildPersistedClientCadencePostDropObligationRef_def
        CLIENT_CADENCE_POST_DROP_OBLIGATION_TYPE_def\<close>)
qed

lemma list_all2_from: "y \<in> set ys \<Longrightarrow> list_all2 P xs ys \<Longrightarrow> (\<And>x. P x y \<Longrightarrow> thesis) \<Longrightarrow> thesis"
  by (auto simp: list_all2_conv_all_nth in_set_conv_nth)

lemma regenerate_obligation_plan:
  assumes "regenerate_obligation td tz lc now params boundary t (factory, ob) = Inr (Some p)"
  obtains inp obStart obEnd billed materialized where
    "client_backfill td lc inp (loadClientCadenceRecords tz (cc_tenant params) (lo_client_contract_line_id ob) t)
       obStart obEnd billed = Inr (materialized, op_plan p)"
    "lm_source_obligation inp = buildPersistedClientCadencePostDropObligationRef (cc_tenant params)
       (lo_client_contract_line_id ob) (resolveRecurringChargeFamily (lo_contract_line_type ob))"
proof -
  have "\<exists>s st e dp mp. client_backfill td lc (client_materialization_input td now factory params
        (buildScheduleSourceRuleVersion td (cc_billing_cycle params) (cc_anchor params))
        (''client-schedule-change:'' @ cc_client_id params @ '':'' @ iso_text td now)
        (buildPersistedClientCadencePostDropObligationRef (cc_tenant params) (lo_client_contract_line_id ob)
          (resolveRecurringChargeFamily (lo_contract_line_type ob))) dp st)
      (loadClientCadenceRecords tz (cc_tenant params) (lo_client_contract_line_id ob) t) s e boundary = Inr mp
    \<and> snd mp = op_plan p"
    using assms unfolding regenerate_obligation_def Let_def prod.case and_then_Inr_iff
    by (elim exE conjE, simp only: sum.inject option.distinct and_then_Inr_iff split: if_split_asm)
      ((elim exE conjE)?, (intro exI conjI, assumption, clarsimp split: prod.split_asm))+
  then show ?thesis
  proof (elim exE conjE)
    fix s st e dp mp
    let ?inp = "client_materialization_input td now factory params
        (buildScheduleSourceRuleVersion td (cc_billing_cycle params) (cc_anchor params))
        (''client-schedule-change:'' @ cc_client_id params @ '':'' @ iso_text td now)
        (buildPersistedClientCadencePostDropObligationRef (cc_tenant params) (lo_client_contract_line_id ob)
          (resolveRecurringChargeFamily (lo_contract_line_type ob))) dp st"
    assume run: "client_backfill td lc ?inp
        (loadClientCadenceRecords tz (cc_tenant params) (lo_client_contract_line_id ob) t) s e boundary = Inr mp"
      and "snd mp = op_plan p"
    then have "mp = (fst mp, op_plan p)" by (metis prod.collapse)
    with run show ?thesis by (intro that [of ?inp s e boundary "fst mp"]) (simp_all add: client_materialization_input_def)
  qed
qed

lemma client_computation_sound:
  assumes "computeClientCadenceRegeneration td tz lc now params ownedLines obligations t = Inr computation" "table_constraints t"
    and "p \<in> set (cu_obligation_plans computation)"
  shows "sound_plan (cc_tenant params) (client_rows (cc_tenant params)) t (op_plan p)"
proof -
  obtain plans where plans: "traverse (regenerate_obligation td tz lc now params
      (loadClientBilledLedgerBoundary tz (cc_tenant params) ownedLines t) t) obligations = Inr plans"
    and comp: "Inr \<lparr>cu_billed_boundary_end = loadClientBilledLedgerBoundary tz (cc_tenant params) ownedLines t,
      cu_obligation_plans = present plans\<rparr> = (Inr computation :: client_computation result)"
    using assms(1) unfolding computeClientCadenceRegeneration_def Let_def and_then_Inr_iff by blast
  have all: "cu_obligation_plans computation = present plans" using comp by auto
  have member: "p \<in> set (present xs) \<Longrightarrow> Some p \<in> set xs" for xs
    by (induction xs) (auto simp: present_def List.map_filter_simps split: option.splits)
  have "Some p \<in> set plans" using assms(3) unfolding all by (rule member)
  then obtain step where step: "regenerate_obligation td tz lc now params
      (loadClientBilledLedgerBoundary tz (cc_tenant params) ownedLines t) t step = Inr (Some p)"
    using plans unfolding traverse_Inr_iff by (rule list_all2_from)
  obtain factory ob where ob: "step = (factory, ob)" by (cases step)
  obtain inp obStart obEnd billed materialized where
    "client_backfill td lc inp (loadClientCadenceRecords tz (cc_tenant params) (lo_client_contract_line_id ob) t)
       obStart obEnd billed = Inr (materialized, op_plan p)"
    "lm_source_obligation inp = buildPersistedClientCadencePostDropObligationRef (cc_tenant params)
       (lo_client_contract_line_id ob) (resolveRecurringChargeFamily (lo_contract_line_type ob))"
    using step unfolding ob by (rule regenerate_obligation_plan)
  then show ?thesis
    by (rule client_backfill_sound [where cond = "obligation_rows (cc_tenant params) (lo_client_contract_line_id ob) Client_Contract_Line Client"
        and f = "mapRecurringServicePeriodRow tz"])
      (simp_all add: loadClientCadenceRecords_def load_records_mset assms(2) obligation_rows_def)
qed

lemma replenished_constraints: "replenished cond t t' \<Longrightarrow> table_constraints t'"
  by (auto simp: replenished_def)

lemma persist_plans_replenished:
  assumes "\<forall>row u. cond (superseded_at u row) = cond row"
  shows "persist_plans tenant ps t = Inr t' \<Longrightarrow> replenished cond t0 t \<Longrightarrow>
    \<forall>p \<in> set ps. sound_plan tenant cond t0 (op_plan p) \<Longrightarrow> replenished cond t0 t'"
proof (induction ps arbitrary: t)
  case (Cons p ps)
  obtain t1 where t1: "persistRecurringServicePeriodRegeneration tenant (bp_superseded_records (op_plan p))
      (plan_inserts (op_plan p)) t = Inr t1" "persist_plans tenant ps t1 = Inr t'"
    using Cons.prems(1) by (auto simp: result_simps)
  have "sound_plan tenant cond t0 (op_plan p)" using Cons.prems(3) by simp
  then have "replenished cond t0 t1"
    using persist_client_written [OF t1(1) replenished_constraints [OF Cons.prems(2)]] Cons.prems(2) assms
    by (blast intro: sound_plan_written)
  then show ?case using Cons.IH [OF t1(2)] Cons.prems(3) by simp
qed simp

lemma client_replenishes:
  assumes "table_constraints t"
    and "replenishClientCadenceServicePeriods td tz lc now params ownedLines obligations t = Inr t'"
  shows "replenished (client_rows (cc_tenant params)) t t'"
proof -
  obtain computation where comp: "computeClientCadenceRegeneration td tz lc now params ownedLines obligations t = Inr computation"
    "persist_plans (cc_tenant params) (cu_obligation_plans computation) t = Inr t'"
    using assms(2) unfolding replenishClientCadenceServicePeriods_def and_then_Inr_iff by blast
  show ?thesis
    by (rule persist_plans_replenished [OF _ comp(2) replenished_refl [OF assms(1)]])
      (use client_computation_sound [OF comp(1) assms(1)] in auto)
qed

text \<open>The repair of a client skips the plans that change nothing, so it writes what a replenishment does.\<close>

lemma repair_plans_persist:
  "repair_plans tenant ps acc t = Inr (acc', t') \<Longrightarrow> persist_plans tenant ps t = Inr t'"
proof (induction ps arbitrary: acc t)
  case (Cons p ps)
  obtain clientChanged s where acc: "acc = (clientChanged, s)" by (cases acc)
  show ?case
  proof (cases "plan_changes (op_plan p) = 0")
    case True
    then have "persistRecurringServicePeriodRegeneration tenant (bp_superseded_records (op_plan p))
        (plan_inserts (op_plan p)) t = Inr t"
      by (simp add: plan_changes_def plan_inserts_def persistRecurringServicePeriodRegeneration_def insert_records_def)
    then show ?thesis using Cons True by (simp add: acc)
  next
    case False
    then show ?thesis using Cons unfolding acc by (auto simp: result_simps)
  qed
qed simp

lemma repair_clients_replenishes:
  "repair_clients td tz lc tenant clients s t = Inr (s', t') \<Longrightarrow> table_constraints t \<Longrightarrow>
     replenished (client_rows tenant) t t'"
proof (induction clients arbitrary: s t)
  case Nil
  then show ?case by (simp add: replenished_refl)
next
  case (Cons c rest)
  obtain cycle anchor computation acc t1 s1 where
    comp: "computeClientCadenceRegeneration td tz lc (cs_now c)
         \<lparr>cc_tenant = tenant, cc_client_id = cs_client_id c, cc_billing_cycle = cycle, cc_anchor = anchor\<rparr>
         (cs_owned_lines c) (cs_obligations c) t = Inr computation"
    and t1: "repair_plans tenant (cu_obligation_plans computation) (False, s) t = Inr (acc, t1)"
    and rest: "repair_clients td tz lc tenant rest s1 t1 = Inr (s', t')"
    using Cons.prems(1) by (auto simp: result_simps split: prod.splits)
  have sound: "\<forall>p \<in> set (cu_obligation_plans computation). sound_plan tenant (client_rows tenant) t (op_plan p)"
    using client_computation_sound [OF comp Cons.prems(2)] by simp
  have "replenished (client_rows tenant) t t1"
    by (rule persist_plans_replenished [OF _ repair_plans_persist [OF t1] replenished_refl [OF Cons.prems(2)] sound]) simp
  moreover from this have "replenished (client_rows tenant) t1 t'"
    using Cons.IH [OF rest] replenished_constraints by blast
  ultimately show ?case by (rule replenished_trans) simp
qed

text \<open>The operator's repair of one schedule.\<close>

lemma schedule_record_simps [simp]:
  "rec_id (mapRecurringServicePeriodRowToRecord tz row) = row_record_id row"
  "rec_lifecycle_state (mapRecurringServicePeriodRowToRecord tz row) = row_lifecycle_state row"
  by (simp_all add: mapRecurringServicePeriodRowToRecord_def)

lemma schedule_records_mset:
  "mset (map (mapRecurringServicePeriodRowToRecord tz) (loadScheduleRows tenant key t))
     = mset (map (mapRecurringServicePeriodRowToRecord tz) (filter (\<lambda>row. of_tenant tenant row \<and> row_schedule_key row = key) t))"
  by (simp add: loadScheduleRows_def)

lemma finish_repair_replenishes:
  assumes "finish_repair tenant schedule now plan t = Inr (res, t')" "sound_plan tenant (of_tenant tenant) t plan" "table_constraints t"
  shows "replenished (of_tenant tenant) t t'"
proof -
  have "persistRecurringServicePeriodRepair tenant (bp_superseded_records plan) (plan_inserts plan) t = Inr t'"
    using assms(1) by (auto simp: finish_repair_def result_simps)
  from persist_repair_written [OF this assms(3)] show ?thesis
    using sound_plan_written [OF assms(2) replenished_refl [OF assms(3)]] by simp
qed

lemma contract_repair_sound:
  assumes "iso_calendar td" "table_constraints t" "contract_repair_plan td lc inp e b
      (map (mapRecurringServicePeriodRowToRecord tz) (loadScheduleRows tenant key t)) = Inr plan"
    and "ob_tenant (cm_source_obligation inp) = Some tenant"
  shows "sound_plan tenant (of_tenant tenant) t plan"
proof -
  obtain m where m: "materializeContractCadenceServicePeriods td inp = Inr m"
    and plan: "backfillRecurringServicePeriods lc (backfill_request inp (filter (\<lambda>r. case e of None \<Rightarrow> True
           | Some e \<Rightarrow> compareIsoDateOnly (range_start (rec_service_period r)) e < 0) (cp_records m))
         (map (mapRecurringServicePeriodRowToRecord tz) (loadScheduleRows tenant key t)) None b) = Inr plan"
    using assms(3) unfolding contract_repair_plan_def Let_def and_then_Inr_iff by blast
  have cand: "\<forall>c \<in> set (bf_candidate_records (backfill_request inp (filter (\<lambda>r. case e of None \<Rightarrow> True
           | Some e \<Rightarrow> compareIsoDateOnly (range_start (rec_service_period r)) e < 0) (cp_records m))
         (map (mapRecurringServicePeriodRowToRecord tz) (loadScheduleRows tenant key t)) None b)).
      \<exists>key. fresh (cm_source_obligation inp) Contract key c"
    using materialized_contract_records(2) [OF assms(1) m] by (auto simp: backfill_request_def)
  show ?thesis
    by (rule backfill_sound [OF plan _ schedule_records_mset _ assms(2) _ cand])
      (auto simp: backfill_request_def of_obligation_def of_tenant_def assms(4))
qed

lemma contract_input_obligation:
  "ob_tenant (cm_source_obligation (contract_repair_input td now factory tenant schedule line family cycle s r)) = Some tenant"
  by (simp add: contract_repair_input_def)

lemma repair_contract_replenishes:
  assumes "iso_calendar td" "table_constraints t"
    and "repair_contract_schedule td lc now factory tenant schedule context line
      (map (mapRecurringServicePeriodRowToRecord tz) (loadScheduleRows tenant key t)) t = Inr (res, t')"
  shows "replenished (of_tenant tenant) t t'"
proof -
  have "t' = t \<or> (\<exists>plan inp e b. contract_repair_plan td lc inp e b
      (map (mapRecurringServicePeriodRowToRecord tz) (loadScheduleRows tenant key t)) = Inr plan
    \<and> ob_tenant (cm_source_obligation inp) = Some tenant \<and> finish_repair tenant schedule now plan t = Inr (res, t'))"
    using assms(3) unfolding repair_contract_schedule_def Let_def and_then_Inr_iff
    by (elim exE conjE, clarsimp simp: and_then_Inr_iff split: if_split_asm option.split_asm)
      (blast intro: contract_input_obligation)+
  then show ?thesis
    using contract_repair_sound [OF assms(1,2)] finish_repair_replenishes assms(2) replenished_refl by blast
qed

lemma client_input_obligation [simp]:
  "lm_source_obligation (client_materialization_input td now factory params v k ob dp start) = ob"
  by (simp add: client_materialization_input_def)

lemma repair_client_replenishes:
  assumes "table_constraints t"
    and "repair_client_schedule td tz lc now factory tenant billingSchedule ownedLines schedule context line
      (map (mapRecurringServicePeriodRowToRecord tz) (loadScheduleRows tenant key t)) t = Inr (res, t')"
  shows "replenished (of_tenant tenant) t t'"
proof -
  let ?ex = "map (mapRecurringServicePeriodRowToRecord tz) (loadScheduleRows tenant key t)"
  have "t' = t \<or> (\<exists>inp s e b m plan family. client_backfill td lc inp ?ex s e b = Inr (m, plan)
    \<and> lm_source_obligation inp = buildPersistedClientCadencePostDropObligationRef tenant line family
    \<and> finish_repair tenant schedule now plan t = Inr (res, t'))"
    using assms(2) unfolding repair_client_schedule_def Let_def and_then_Inr_iff
    by (elim exE conjE, clarsimp simp: and_then_Inr_iff split: if_split_asm prod.split_asm)
      (blast intro: client_input_obligation)
  then show ?thesis
  proof (elim disjE exE conjE)
    fix inp s e b m plan family
    assume a: "client_backfill td lc inp ?ex s e b = Inr (m, plan)"
      "lm_source_obligation inp = buildPersistedClientCadencePostDropObligationRef tenant line family"
      "finish_repair tenant schedule now plan t = Inr (res, t')"
    have "sound_plan tenant (of_tenant tenant) t plan"
      by (rule client_backfill_sound [OF a(1,2) schedule_records_mset _ assms(1)]) simp_all
    then show ?thesis by (rule finish_repair_replenishes [OF a(3) _ assms(1)])
  qed (simp add: replenished_refl assms(1))
qed

lemma schedule_repair_replenishes:
  assumes "iso_calendar td" "table_constraints t"
    and "repairMissingRecurringServicePeriods td tz lc now factory sources permits tenant scheduleKey t = Inr (v, t')"
  shows "replenished (of_tenant tenant) t t'"
proof -
  let ?key = "js_trim scheduleKey"
  let ?ex = "map (mapRecurringServicePeriodRowToRecord tz) (loadScheduleRows tenant ?key t)"
  have "t' = t \<or> (\<exists>schedule context res. repairScheduleMaterialization td tz lc now factory tenant
      (ss_billing_schedule sources (sx_client_id context)) (ss_owned_lines sources (sx_client_id context))
      schedule context ?ex t = Inr (res, t'))"
    using assms(3) unfolding repairMissingRecurringServicePeriods_def Let_def
    by (auto simp: and_then_Inr_iff split: if_splits option.splits prod.splits)
  then show ?thesis
    using repair_contract_replenishes [OF assms(1,2)] repair_client_replenishes [OF assms(2)] replenished_refl [OF assms(2)]
    by (auto simp: repairScheduleMaterialization_def Let_def split: if_splits)
qed

section \<open>The writers that update\<close>

text \<open>An update that gives some rows, those of \<open>P\<close>, a new version and keeps the others.\<close>

definition updated :: "(ledger_row \<Rightarrow> ledger_row \<Rightarrow> bool) \<Rightarrow> ledger_table \<Rightarrow> ledger_table \<Rightarrow> bool" where
  "updated P t t' \<longleftrightarrow> (\<exists>g. t' = map g t \<and> table_constraints t' \<and> (\<forall>row \<in> set t. g row = row \<or> P row (g row)))"

definition retired :: "ledger_row \<Rightarrow> ledger_row \<Rightarrow> bool" where
  "retired row row' \<longleftrightarrow> row_lifecycle_state row \<notin> {Archived, Superseded, Billed} \<and> (\<exists>u. row' = superseded_at u row)"

definition invoiced :: "ledger_row \<Rightarrow> ledger_row \<Rightarrow> bool" where
  "invoiced row row' \<longleftrightarrow> row_lifecycle_state row \<in> {Generated, Edited, Locked}
     \<and> row' = row\<lparr>row_lifecycle_state := Billed, row_invoice_id := row_invoice_id row',
         row_invoice_charge_id := row_invoice_charge_id row', row_invoice_charge_detail_id := row_invoice_charge_detail_id row',
         row_invoice_linked_at := row_invoice_linked_at row', row_updated_at := row_updated_at row'\<rparr>"

definition released :: "string \<Rightarrow> string \<Rightarrow> ledger_row \<Rightarrow> ledger_row \<Rightarrow> bool" where
  "released tenant invoice row row' \<longleftrightarrow> of_tenant tenant row \<and> row_invoice_id row = Some invoice
     \<and> (\<exists>u. row' = row\<lparr>row_lifecycle_state := Locked, row_invoice_id := None, row_invoice_charge_id := None,
         row_invoice_charge_detail_id := None, row_invoice_linked_at := None, row_updated_at := u\<rparr>)"

lemma updated_refl: "table_constraints t \<Longrightarrow> updated P t t"
  unfolding updated_def by (rule exI [of _ "\<lambda>row. row"]) simp

lemma update_where_updated:
  assumes "update_where c f t = Inr (n, t')" "\<forall>row \<in> set t. c row \<longrightarrow> P row (f row)"
  shows "updated P t t'"
  unfolding updated_def
  by (rule exI [of _ "\<lambda>row. if c row then f row else row"]) (use assms in \<open>auto simp: result_simps\<close>)

lemma updated_trans:
  assumes "updated P t t'" "updated P t' t''" "\<And>a b c. P a b \<Longrightarrow> P b c \<Longrightarrow> P a c"
  shows "updated P t t''"
proof -
  obtain g h where g: "t' = map g t" "\<forall>row \<in> set t. g row = row \<or> P row (g row)"
    and h: "t'' = map h t'" "table_constraints t''" "\<forall>row \<in> set t'. h row = row \<or> P row (h row)"
    using assms(1,2) unfolding updated_def by blast
  have "\<forall>row \<in> set t. h (g row) = row \<or> P row (h (g row))"
  proof
    fix row assume row: "row \<in> set t"
    then have "g row \<in> set t'" by (simp add: g(1))
    then show "h (g row) = row \<or> P row (h (g row))" using g(2) h(3) row assms(3) by metis
  qed
  moreover have "t'' = map (\<lambda>row. h (g row)) t" by (simp add: h(1) g(1))
  ultimately show ?thesis unfolding updated_def using h(2) by blast
qed

lemma retired_trans: "retired a b \<Longrightarrow> retired b c \<Longrightarrow> retired a c"
  by (auto simp: retired_def)

lemma invoiced_billed: "invoiced a b \<Longrightarrow> row_lifecycle_state b = Billed"
  unfolding invoiced_def by (elim conjE) (drule arg_cong [of _ _ row_lifecycle_state], simp)

lemma invoiced_trans: "invoiced a b \<Longrightarrow> invoiced b c \<Longrightarrow> invoiced a c"
  using invoiced_billed [of a b] by (simp add: invoiced_def)

lemma retire_updates: "retire_rows cond u t = Inr t' \<Longrightarrow> updated retired t t'"
  unfolding retire_rows_def and_then_Inr_iff
  by (elim exE conjE, clarsimp, erule update_where_updated) (auto simp: retired_def superseded_at_def)

lemma link_updates:
  assumes "link_period p t = Inr t'" "table_constraints t"
  shows "updated invoiced t t'"
proof -
  obtain n where "linkRecurringServicePeriodToInvoiceDetail p t = Inr (n, t')"
    using assms(1) by (auto simp: link_period_def result_simps)
  then show ?thesis unfolding linkRecurringServicePeriodToInvoiceDetail_def
    using updated_refl [OF assms(2)]
    by (auto split: if_split_asm elim!: update_where_updated) (auto simp: invoiced_def)
qed

lemma claim_rows_updates: "claim_rows tz p rows t = Inr t' \<Longrightarrow> table_constraints t \<Longrightarrow> updated invoiced t t'"
proof (induction rows arbitrary: t)
  case Nil
  then show ?case by (simp add: updated_refl)
next
  case (Cons row rows)
  obtain t1 where t1: "claim_row tz p row t = Inr t1" "claim_rows tz p rows t1 = Inr t'"
    using Cons.prems(1) by (auto simp: result_simps)
  have "updated invoiced t t1"
  proof -
    have "t1 = t \<or> (\<exists>n. update_where
          (\<lambda>r. of_tenant (cl_tenant p) r \<and> row_record_id r = row_record_id row \<and> row_invoice_id r = None
            \<and> row_lifecycle_state r \<in> {Generated, Edited, Locked})
          (\<lambda>r. r\<lparr>row_lifecycle_state := Billed, row_invoice_id := Some (cl_invoice_id p),
            row_invoice_linked_at := Some (cl_linked_at p), row_updated_at := cl_linked_at p\<rparr>) t = Inr (n, t1))"
      using t1(1) unfolding claim_row_def
      by (simp only: and_then_Inr_iff sum.inject sum.distinct split: if_split_asm)
        (auto split: if_splits prod.splits)
    then show ?thesis
      using updated_refl [OF Cons.prems(2)] by (auto elim!: update_where_updated simp: invoiced_def)
  qed
  moreover from this have "updated invoiced t1 t'" using Cons.IH [OF t1(2)] by (auto simp: updated_def)
  ultimately show ?case using invoiced_trans by (blast intro: updated_trans)
qed

lemma claim_windows_updates: "claim_windows tz p ws t = Inr t' \<Longrightarrow> table_constraints t \<Longrightarrow> updated invoiced t t'"
proof (induction ws arbitrary: t)
  case Nil
  then show ?case by (simp add: updated_refl)
next
  case (Cons w ws)
  show ?case
  proof (cases "window_rows (cl_tenant p) w")
    case None
    then show ?thesis using Cons by simp
  next
    case (Some cond)
    then obtain t1 where t1: "claim_rows tz p (filter cond t) t = Inr t1" "claim_windows tz p ws t1 = Inr t'"
      using Cons.prems(1) by (auto simp: Let_def result_simps)
    have "updated invoiced t t1" by (rule claim_rows_updates [OF t1(1) Cons.prems(2)])
    moreover from this have "updated invoiced t1 t'" using Cons.IH [OF t1(2)] by (auto simp: updated_def)
    ultimately show ?thesis using invoiced_trans by (blast intro: updated_trans)
  qed
qed

lemma release_updates:
  "releaseRecurringServicePeriodInvoiceLinkageForInvoice tenant invoice u t = Inr t' \<Longrightarrow> updated (released tenant invoice) t t'"
  unfolding releaseRecurringServicePeriodInvoiceLinkageForInvoice_def and_then_Inr_iff
  by (elim exE conjE, clarsimp, erule update_where_updated) (auto simp: released_def)

lemma delete_contract_filters:
  "deleteContractPeriods tenant hasInvoices lines t = Inr t' \<Longrightarrow>
     t' = filter (\<lambda>row. \<not> (of_tenant tenant row \<and> row_obligation_id row \<in> set lines)) t"
  by (auto simp: deleteContractPeriods_def result_simps split: if_splits)

lemma table_constraints_filter: "table_constraints t \<Longrightarrow> table_constraints (filter P t)"
proof -
  assume con: "table_constraints t"
  have from_set: "y \<in> set (List.map_filter f xs) \<Longrightarrow> \<exists>x \<in> set xs. f x = Some y"
    and to_set: "x \<in> set xs \<Longrightarrow> f x = Some y \<Longrightarrow> y \<in> set (List.map_filter f xs)"
    for f :: "ledger_row \<Rightarrow> (string option \<times> string) option" and xs x y
    by (induction xs) (auto simp: List.map_filter_simps split: option.splits)
  have "distinct (List.map_filter f t) \<Longrightarrow> distinct (List.map_filter f (filter P t))"
    for f :: "ledger_row \<Rightarrow> (string option \<times> string) option"
    by (induction t) (auto simp: List.map_filter_simps split: option.splits dest!: from_set intro: to_set)
  then show ?thesis using con
    by (auto simp: table_constraints_def row_detail_keys_def list_all_iff distinct_map_filter)
qed

text \<open>What a step of each kind of writer does.\<close>

lemma step_shape:
  assumes "ledger_step td tz lc t w t'" "iso_calendar td" "table_constraints t"
  shows "(case w of
      Sync_Contract_Line tenant line \<Rightarrow> updated retired t t' \<or> replenished (contract_line_rows tenant line) t t'
    | Replenish_Client tenant \<Rightarrow> replenished (client_rows tenant) t t'
    | Repair_Clients tenant \<Rightarrow> replenished (client_rows tenant) t t'
    | Repair_Schedule tenant key \<Rightarrow> replenished (of_tenant tenant) t t'
    | Retire_Contract_Line tenant line \<Rightarrow> updated retired t t'
    | Retire_Client_Line tenant line \<Rightarrow> updated retired t t'
    | Link_Invoice_Detail \<Rightarrow> updated invoiced t t'
    | Claim_Selection \<Rightarrow> updated invoiced t t'
    | Release_Invoice tenant invoice \<Rightarrow> updated (released tenant invoice) t t'
    | Delete_Contract tenant lines \<Rightarrow>
        t' = filter (\<lambda>row. \<not> (of_tenant tenant row \<and> row_obligation_id row \<in> set lines)) t)"
  using assms(1)
proof cases
  case (contract_line_synced now factory tenant obligation prefix asOf res)
  then show ?thesis
    using sync_replenishes [OF assms(2,3) contract_line_synced(2)] retire_updates
    by (auto simp: retireFutureContractCadenceRowsForLine_def)
next
  case (client_replenished now params ownedLines obligations)
  then show ?thesis using client_replenishes [OF assms(3)] by simp
next
  case (clients_repaired permits tenant clients v)
  then show ?thesis
    using repair_clients_replenishes [OF _ assms(3)] replenished_refl [OF assms(3)]
    by (auto simp: repairAllRecurringServicePeriodsForTenant_def repairAllClientCadenceServicePeriodsForTenant_def
        and_then_Inr_iff split: if_splits prod.splits)
next
  case (schedule_repaired now factory sources permits tenant key v)
  then show ?thesis using schedule_repair_replenishes [OF assms(2,3)] by simp
next
  case (contract_line_retired tenant line now)
  then show ?thesis by (simp add: retireFutureContractCadenceRowsForLine_def retire_updates)
next
  case (client_line_retired tenant line now)
  then show ?thesis by (simp add: retireFutureClientCadenceRowsForLine_def retire_updates)
next
  case (detail_linked p)
  then show ?thesis by (simp add: link_updates assms(3))
next
  case (selection_claimed p)
  then show ?thesis
    using claim_windows_updates [OF _ assms(3)] by (simp add: claimRecurringServicePeriodsForSelectionInputs_def)
next
  case (invoice_released tenant invoice now)
  then show ?thesis by (simp add: release_updates)
next
  case (contract_deleted tenant hasInvoices lines)
  then show ?thesis using delete_contract_filters by simp
qed

section \<open>Invariants\<close>

lemma replenished_claims: "replenished cond t t' \<Longrightarrow> claims_billed t \<Longrightarrow> claims_billed t'"
  unfolding replenished_def claims_billed_def by fastforce

lemma updated_claims:
  "updated P t t' \<Longrightarrow> claims_billed t \<Longrightarrow> (\<And>row row'. P row row' \<Longrightarrow> claims_billed [row] \<Longrightarrow> claims_billed [row']) \<Longrightarrow> claims_billed t'"
  unfolding updated_def claims_billed_def by fastforce

lemma updated_rows_claims:
  "retired row row' \<Longrightarrow> claims_billed [row] \<Longrightarrow> claims_billed [row']"
  "invoiced row row' \<Longrightarrow> claims_billed [row']"
  "released tenant invoice row row' \<Longrightarrow> claims_billed [row']"
  using invoiced_billed [of row row'] by (auto simp: claims_billed_def retired_def released_def)

text \<open>A step keeps the constraints of the table, and that a claimed row is billed.\<close>

lemma step_keeps_ledger:
  assumes "ledger_step td tz lc t w t'" "iso_calendar td" "table_constraints t" "claims_billed t"
  shows "table_constraints t' \<and> claims_billed t'"
proof -
  have ups: "updated P t t' \<Longrightarrow> table_constraints t'" for P by (auto simp: updated_def)
  note shape = step_shape [OF assms(1-3)]
  note claims = updated_claims [OF _ assms(4)] replenished_claims [OF _ assms(4)]
  note cons = ups replenished_constraints
  show ?thesis
  proof (cases w)
    case (Delete_Contract tenant lines)
    with shape show ?thesis using table_constraints_filter [OF assms(3)] assms(4)
      by (auto simp: claims_billed_def)
  qed (use shape claims cons updated_rows_claims in \<open>simp; blast\<close>)+
qed

text \<open>The writers that may change a claimed row.\<close>

fun gives_up :: "ledger_row \<Rightarrow> ledger_writer \<Rightarrow> bool" where
  "gives_up row (Release_Invoice tenant invoice) \<longleftrightarrow> of_tenant tenant row \<and> row_invoice_id row = Some invoice"
| "gives_up row (Delete_Contract tenant lines) \<longleftrightarrow> of_tenant tenant row \<and> row_obligation_id row \<in> set lines"
| "gives_up row _ \<longleftrightarrow> False"

lemma replenished_kept: "replenished cond t t' \<Longrightarrow> row \<in> set t \<Longrightarrow> row_lifecycle_state row \<noteq> Generated \<Longrightarrow> row \<in> set t'"
  unfolding replenished_def by force

lemma updated_kept: "updated P t t' \<Longrightarrow> row \<in> set t \<Longrightarrow> (\<And>row'. \<not> P row row') \<Longrightarrow> row \<in> set t'"
  unfolding updated_def by force

lemma step_keeps_claimed_row:
  assumes "ledger_step td tz lc t w t'" "iso_calendar td" "table_constraints t" "claims_billed t"
    and row: "row \<in> set t" "row_invoice_id row \<noteq> None" "\<not> gives_up row w"
  shows "row \<in> set t'"
proof -
  have billed: "row_lifecycle_state row = Billed" using assms(4) row by (simp add: claims_billed_def)
  have same: "\<not> retired row row'" "\<not> invoiced row row'" for row'
    using billed by (simp_all add: retired_def invoiced_def)
  note shape = step_shape [OF assms(1-3)]
  note kept = replenished_kept [OF _ row(1)] updated_kept [OF _ row(1)]
  show ?thesis
  proof (cases w)
    case (Release_Invoice tenant invoice)
    then have "\<not> released tenant invoice row row'" for row' using row(3) by (auto simp: released_def)
    with shape Release_Invoice show ?thesis using updated_kept [OF _ row(1)] by simp
  next
    case (Delete_Contract tenant lines)
    with shape row show ?thesis by simp
  qed (use shape kept same billed in \<open>auto\<close>)
qed

section \<open>No day of a contract line twice\<close>


lemma live_records_none: "\<forall>row \<in> set t. \<not> (cond row \<and> live_row row) \<Longrightarrow> live_records tz cond t = {#}"
  by (simp add: live_records_def filter_empty_conv)





section \<open>Runs\<close>

lemma runs_keep_ledger:
  assumes "ledger_runs td tz lc allowed t t'" "iso_calendar td" "table_constraints t" "claims_billed t"
  shows "table_constraints t' \<and> claims_billed t'"
  using assms(1)
proof (induction rule: ledger_runs.induct)
  case (run_step t' w t'')
  then show ?case using step_keeps_ledger [OF run_step(2) assms(2)] by blast
qed (use assms in simp)

lemma reachable_ledger:
  assumes "ledger_reachable td tz lc t" "iso_calendar td"
  shows "table_constraints t \<and> claims_billed t"
  by (rule runs_keep_ledger [OF assms(1) [unfolded ledger_reachable_def] assms(2)])
    (simp_all add: table_constraints_def claims_billed_def row_detail_keys_def List.map_filter_simps)

text \<open>A run from the empty ledger: a line billed yearly is materialized and its first period is claimed.\<close>

definition sample_claim :: claim_params where
  "sample_claim = \<lparr>cl_tenant = ''t'', cl_invoice_id = ''i'',
     cl_selector_inputs = [buildContractCadenceDueSelectionInput gregorian ''c'' (utc_midnight 20454) (utc_midnight 20819)
       (Some ''k'') (Some ''l'')],
     cl_linked_at = utc_midnight 20470, cl_omitted_usage_periods = [], cl_excluded_record_ids = []\<rparr>"

abbreviation no_repair :: "ledger_writer \<Rightarrow> bool" where
  "no_repair w \<equiv> \<forall>tenant key. w \<noteq> Repair_Schedule tenant key"

lemma runs_mono:
  "ledger_runs td tz lc allowed t t' \<Longrightarrow> (\<And>w. allowed w \<Longrightarrow> allowed' w) \<Longrightarrow> ledger_runs td tz lc allowed' t t'"
  by (induction rule: ledger_runs.induct) (blast intro: ledger_runs.intros)+

lemma sample_run:
  "\<exists>t t'. ledger_runs gregorian 0 text_order no_repair [] t
     \<and> retireFutureContractCadenceRowsForLine ''t'' ''l'' (utc_midnight 20480) t = Inr t'
     \<and> (\<exists>row \<in> set t. row_invoice_id row = Some ''i'' \<and> of_tenant ''t'' row)"
proof -
  let ?sync = "syncContractCadenceObligation gregorian 0 text_order (utc_midnight 20460) defaultRecordIdFactory ''t''
     sample_line ''run'' None []"
  have "case and_then ?sync (\<lambda>(_, t). and_then (claimRecurringServicePeriodsForSelectionInputs 0 sample_claim t)
      (\<lambda>t. and_then (retireFutureContractCadenceRowsForLine ''t'' ''l'' (utc_midnight 20480) t) (\<lambda>t'. Inr (t, t')))) of
      Inl _ \<Rightarrow> False | Inr (t, t') \<Rightarrow> list_ex (\<lambda>row. row_invoice_id row = Some ''i'' \<and> of_tenant ''t'' row) t" by code_simp
  then obtain res t1 t t' where sync: "?sync = Inr (res, t1)"
    and claim: "claimRecurringServicePeriodsForSelectionInputs 0 sample_claim t1 = Inr t"
    and retire: "retireFutureContractCadenceRowsForLine ''t'' ''l'' (utc_midnight 20480) t = Inr t'"
    and row: "\<exists>row \<in> set t. row_invoice_id row = Some ''i'' \<and> of_tenant ''t'' row"
    by (auto simp: and_then_Inr_iff list_ex_iff split: sum.splits) blast
  have "ledger_runs gregorian 0 text_order no_repair [] t1"
    by (rule run_step [OF run_start contract_line_synced [OF sync]]) simp
  then have "ledger_runs gregorian 0 text_order no_repair [] t"
    by (rule run_step [OF _ selection_claimed [OF claim]]) simp
  with row retire show ?thesis by blast
qed

lemma sample_reachable: "\<exists>t t'. ledger_reachable gregorian 0 text_order t
    \<and> retireFutureContractCadenceRowsForLine ''t'' ''l'' (utc_midnight 20480) t = Inr t' \<and> (\<exists>row \<in> set t. row_invoice_id row = Some ''i'' \<and> of_tenant ''t'' row)"
  using sample_run runs_mono [of gregorian 0 text_order no_repair "[]" _ "\<lambda>_. True"] unfolding ledger_reachable_def by blast

text \<open>
  C27: whatever the writers of the ledger do, and in whatever order, the table meets its constraints and
  a row that names an invoice is billed.
\<close>

theorem ledger_invariant:
  assumes "iso_calendar td" "ledger_reachable td tz lc t"
  shows "table_constraints t \<and> claims_billed t"
  by (rule reachable_ledger [OF assms(2,1)])

theorem ledger_invariant_witness:
  "\<exists>t. t \<noteq> [] \<and> table_constraints t \<and> claims_billed t"
proof -
  obtain t where t: "ledger_reachable gregorian 0 text_order t" "t \<noteq> []" using sample_reachable by force
  then show ?thesis using ledger_invariant [OF gregorian_is_calendar t(1)] by blast
qed

text \<open>
  C2: once a row is claimed by an invoice, no replenishment, repair, retirement, linking or claiming
  changes it: it stays as it is until that invoice is released or its contract is deleted.
\<close>

theorem claimed_row_stays:
  assumes "iso_calendar td" "ledger_reachable td tz lc t" "row \<in> set t" "row_invoice_id row \<noteq> None"
    and "ledger_runs td tz lc (\<lambda>w. \<not> gives_up row w) t t'"
  shows "row \<in> set t'"
  using assms(5)
proof (induction rule: ledger_runs.induct)
  case (run_step t' w t'')
  have "table_constraints t' \<and> claims_billed t'"
    using runs_keep_ledger [OF run_step(1) assms(1)] reachable_ledger [OF assms(2,1)] by blast
  then show ?case using step_keeps_claimed_row [OF run_step(2) assms(1)] run_step(3,4) assms(4) by blast
qed (rule assms(3))

theorem claimed_row_stays_witness:
  "\<exists>t t' row. retireFutureContractCadenceRowsForLine ''t'' ''l'' (utc_midnight 20480) t = Inr t'
     \<and> row \<in> set t \<and> row_invoice_id row = Some ''i'' \<and> row \<in> set t'"
proof -
  obtain t t' row where t: "ledger_reachable gregorian 0 text_order t" "row \<in> set t" "row_invoice_id row = Some ''i''"
    and retire: "retireFutureContractCadenceRowsForLine ''t'' ''l'' (utc_midnight 20480) t = Inr t'"
    using sample_reachable by blast
  have "ledger_runs gregorian 0 text_order (\<lambda>w. \<not> gives_up row w) t t'"
    by (rule run_step [OF run_start contract_line_retired [OF retire]]) simp
  then have "row \<in> set t'" using claimed_row_stays [OF gregorian_is_calendar t(1,2)] t(3) by simp
  with t retire show ?thesis by blast
qed



text \<open>
  East of UTC (here one hour) a day can be live twice: the first year of a line is billed, and the start of its
  assignment moved to the last day of that year, which the synchronization reads back a day short.
\<close>

lemma east_of_utc_day_twice:
  "case syncContractCadenceObligation gregorian 3600000 text_order (utc_midnight 20460) defaultRecordIdFactory ''t''
      (sample_line\<lparr>co_assignment_start_date := Db_Text (date_only 20818)\<rparr>) ''run'' None [sample_row ''y'' Billed 20454 20819] of
     Inl _ \<Rightarrow> False
   | Inr (_, t) \<Rightarrow> map (\<lambda>row. (row_service_period_start row, row_service_period_end row, row_lifecycle_state row)) t
       = [(20454, 20819, Billed), (20818, 21183, Generated)]"
  by code_simp

section \<open>The sweep over a tenant\<close>

text \<open>Of the rows seen so far one is kept per line, and no seen row of the line has an earlier assignment.\<close>

definition keeps :: "temporal \<Rightarrow> contract_obligation_row list \<Rightarrow> string \<Rightarrow> contract_obligation_row \<Rightarrow> bool" where
  "keeps td seen line row \<longleftrightarrow> co_contract_line_id row = line \<and> row \<in> set seen
     \<and> (\<forall>q \<in> set seen. co_contract_line_id q = line \<longrightarrow> earlier_assignment td row q \<noteq> Inr True)"

definition kept_rows :: "temporal \<Rightarrow> contract_obligation_row list \<Rightarrow> (string \<times> contract_obligation_row) list \<Rightarrow> bool" where
  "kept_rows td seen deduped \<longleftrightarrow> distinct (map fst deduped)
     \<and> dom (map_of deduped) = co_contract_line_id ` set seen
     \<and> (\<forall>line row. map_of deduped line = Some row \<longrightarrow> keeps td seen line row)"

lemma earlier_irrefl: "earlier_assignment td row row \<noteq> Inr True"
  by (auto simp: earlier_assignment_def compareIsoDateOnly_def result_simps split: option.splits)

text \<open>Which rows have an earlier assignment is a matter of their start days, where these can be read.\<close>

definition assignment_start :: "temporal \<Rightarrow> contract_obligation_row \<Rightarrow> iso8601 option result" where
  "assignment_start td row = normalizeDateOnlyValue td (co_assignment_start_date row)"

lemma earlier_iff:
  "earlier_assignment td e c = Inr True \<longleftrightarrow> (\<exists>s d. assignment_start td e = Inr s \<and> assignment_start td c = Inr (Some d)
     \<and> (\<forall>x. s = Some x \<longrightarrow> slice_date d < slice_date x))"
  by (auto simp: earlier_assignment_def compareIsoDateOnly_def result_simps assignment_start_def split: option.splits)

lemma earlier_trans:
  assumes "earlier_assignment td e c = Inr True" "earlier_assignment td e q \<noteq> Inr True"
  shows "earlier_assignment td c q \<noteq> Inr True"
proof
  assume "earlier_assignment td c q = Inr True"
  with assms(1) have "earlier_assignment td e q = Inr True" unfolding earlier_iff by (auto dest: order.strict_trans)
  with assms(2) show False by simp
qed

lemma keeps_other: "keeps td seen line k \<Longrightarrow> line \<noteq> co_contract_line_id row \<Longrightarrow> keeps td (seen @ [row]) line k"
  by (auto simp: keeps_def)

lemma keeps_intro:
  "(\<And>q. q \<in> set seen \<Longrightarrow> co_contract_line_id q = co_contract_line_id row \<Longrightarrow> earlier_assignment td row q \<noteq> Inr True)
     \<Longrightarrow> keeps td (seen @ [row]) (co_contract_line_id row) row"
  using earlier_irrefl by (simp add: keeps_def)

lemma keeps_new:
  assumes "co_contract_line_id row \<notin> co_contract_line_id ` set seen"
  shows "keeps td (seen @ [row]) (co_contract_line_id row) row"
proof (rule keeps_intro)
  fix q assume "q \<in> set seen" "co_contract_line_id q = co_contract_line_id row"
  then have "co_contract_line_id row \<in> co_contract_line_id ` set seen" by (metis imageI)
  with assms show "earlier_assignment td row q \<noteq> Inr True" by contradiction
qed

lemma keeps_earlier:
  assumes "keeps td seen (co_contract_line_id row) k" "earlier_assignment td k row = Inr True"
  shows "keeps td (seen @ [row]) (co_contract_line_id row) row"
  using assms(1) by (intro keeps_intro earlier_trans [OF assms(2)]) (simp add: keeps_def)

lemma keeps_later:
  "keeps td seen (co_contract_line_id row) k \<Longrightarrow> earlier_assignment td k row = Inr False
     \<Longrightarrow> keeps td (seen @ [row]) (co_contract_line_id row) k"
  by (simp add: keeps_def)

lemma kept_rows_update:
  assumes "kept_rows td seen deduped" "keeps td (seen @ [row]) (co_contract_line_id row) row"
  shows "kept_rows td (seen @ [row]) (AList.update (co_contract_line_id row) row deduped)"
proof -
  have "keeps td (seen @ [row]) line k"
    if "map_of (AList.update (co_contract_line_id row) row deduped) line = Some k" for line k
  proof (cases "line = co_contract_line_id row")
    case True
    then show ?thesis using that assms(2) by (simp add: AList.update_conv')
  next
    case False
    then show ?thesis using that assms(1) keeps_other by (simp add: AList.update_conv' kept_rows_def)
  qed
  with assms(1) show ?thesis by (simp add: kept_rows_def distinct_update AList.update_conv')
qed

lemma kept_rows_same:
  assumes "kept_rows td seen deduped" "map_of deduped (co_contract_line_id row) = Some k"
    and "earlier_assignment td k row = Inr False"
  shows "kept_rows td (seen @ [row]) deduped"
proof -
  have "co_contract_line_id row \<in> co_contract_line_id ` set seen"
    using assms(1) domI [of "map_of deduped", OF assms(2)] by (simp add: kept_rows_def)
  then have "dom (map_of deduped) = co_contract_line_id ` set (seen @ [row])"
    using assms(1) by (simp add: kept_rows_def insert_absorb)
  moreover have "keeps td (seen @ [row]) line k'" if "map_of deduped line = Some k'" for line k'
  proof (cases "line = co_contract_line_id row")
    case True
    then show ?thesis using that assms keeps_later by (simp add: kept_rows_def)
  next
    case False
    then show ?thesis using that assms(1) keeps_other by (simp add: kept_rows_def)
  qed
  ultimately show ?thesis using assms(1) by (simp add: kept_rows_def)
qed

lemma dedupe_rows_kept:
  "dedupe_rows td deduped rows = Inr out \<Longrightarrow> kept_rows td seen deduped \<Longrightarrow> kept_rows td (seen @ rows) out"
proof (induction td deduped rows arbitrary: seen rule: dedupe_rows.induct)
  case (2 td deduped row rows)
  have dom: "dom (map_of deduped) = co_contract_line_id ` set seen" using 2(4) by (simp add: kept_rows_def)
  show ?case
  proof (cases "map_of deduped (co_contract_line_id row)")
    case None
    then have "keeps td (seen @ [row]) (co_contract_line_id row) row" using dom keeps_new by blast
    then show ?thesis using 2(1) [OF None _ kept_rows_update [OF 2(4)]] 2(3) None by simp
  next
    case (Some k)
    then obtain earlier where run: "earlier_assignment td k row = Inr earlier"
      "dedupe_rows td (if earlier then AList.update (co_contract_line_id row) row deduped else deduped) rows = Inr out"
      using 2(3) by (auto simp: result_simps)
    have k: "keeps td seen (co_contract_line_id row) k" using 2(4) Some by (simp add: kept_rows_def)
    have "kept_rows td (seen @ [row]) (if earlier then AList.update (co_contract_line_id row) row deduped else deduped)"
      using run(1) kept_rows_update [OF 2(4) keeps_earlier [OF k]] kept_rows_same [OF 2(4) Some] by (cases earlier) simp_all
    from 2(2) [OF Some run(2) this] show ?thesis by simp
  qed
qed simp

lemma dedupe_keeps_earliest:
  assumes "dedupeObligations td rows = Inr obligations"
  shows "distinct (map co_contract_line_id obligations)"
    and "co_contract_line_id ` set obligations = co_contract_line_id ` set rows"
    and "row \<in> set obligations \<Longrightarrow> row \<in> set rows
      \<and> (\<forall>q \<in> set rows. co_contract_line_id q = co_contract_line_id row \<longrightarrow> earlier_assignment td row q \<noteq> Inr True)"
proof -
  obtain out where out: "dedupe_rows td [] rows = Inr out" "obligations = map snd out"
    using assms by (auto simp: dedupeObligations_def result_simps)
  have kept: "kept_rows td rows out" using dedupe_rows_kept [OF out(1), of "[]"] by (simp add: kept_rows_def)
  have entry: "map_of out line = Some row" if "(line, row) \<in> set out" for line row
    using kept that by (simp add: kept_rows_def)
  then have ids: "co_contract_line_id row = line" if "(line, row) \<in> set out" for line row
    using kept that unfolding kept_rows_def keeps_def by blast
  have lines: "map co_contract_line_id obligations = map fst out" using ids by (auto simp: out(2))
  then show "distinct (map co_contract_line_id obligations)" using kept by (simp add: kept_rows_def)
  show "co_contract_line_id ` set obligations = co_contract_line_id ` set rows"
    using arg_cong [OF lines, of set] kept by (simp add: kept_rows_def dom_map_of_conv_image_fst)
  show "row \<in> set rows
      \<and> (\<forall>q \<in> set rows. co_contract_line_id q = co_contract_line_id row \<longrightarrow> earlier_assignment td row q \<noteq> Inr True)"
    if row: "row \<in> set obligations"
  proof -
    obtain line where "(line, row) \<in> set out" using row by (auto simp: out(2))
    from entry [OF this] ids [OF this] kept show ?thesis unfolding kept_rows_def keeps_def by blast
  qed
qed

text \<open>What a line of the sweep leaves, and what it notes.\<close>

definition table_after :: "ledger_table \<Rightarrow> (sync_result \<times> ledger_table) result \<Rightarrow> ledger_table" where
  "table_after t outcome = (case outcome of Inl _ \<Rightarrow> t | Inr (_, t') \<Rightarrow> t')"

definition failure_noted :: "contract_obligation_row \<Rightarrow> (sync_result \<times> ledger_table) result
    \<Rightarrow> (string \<times> billing_error) list" where
  "failure_noted obligation outcome = (case outcome of Inl e \<Rightarrow> [(co_contract_line_id obligation, e)] | Inr _ \<Rightarrow> [])"

definition counted :: "(sync_result \<Rightarrow> nat) \<Rightarrow> (sync_result \<times> ledger_table) result \<Rightarrow> nat" where
  "counted f outcome = (case outcome of Inl _ \<Rightarrow> 0 | Inr (res, _) \<Rightarrow> f res)"

lemma replenish_line_outcome:
  "replenish_line td tz lc tenant prefix asOf (s, t) (now, factory, obligation) = (s', t') \<Longrightarrow>
   t' = table_after t (syncContractCadenceObligation td tz lc now factory tenant obligation prefix (Some asOf) t)
   \<and> rs_failures s' = rs_failures s @ failure_noted obligation
      (syncContractCadenceObligation td tz lc now factory tenant obligation prefix (Some asOf) t)
   \<and> rs_periods_generated s' = rs_periods_generated s + counted sy_periods_generated
      (syncContractCadenceObligation td tz lc now factory tenant obligation prefix (Some asOf) t)
   \<and> rs_periods_superseded s' = rs_periods_superseded s + counted sy_periods_superseded
      (syncContractCadenceObligation td tz lc now factory tenant obligation prefix (Some asOf) t)
   \<and> rs_lines_replenished s' = rs_lines_replenished s + counted (\<lambda>res. if sy_changed res then 1 else 0)
      (syncContractCadenceObligation td tz lc now factory tenant obligation prefix (Some asOf) t)
   \<and> rs_lines_examined s' = rs_lines_examined s"
  by (auto simp: replenish_line_def table_after_def failure_noted_def counted_def add_sync_result_def split: sum.splits)

lemma replenish_lines_outcomes:
  "foldl (replenish_line td tz lc tenant prefix asOf) (s, t) steps = (s', t') \<Longrightarrow>
   \<exists>ts outcomes. length ts = Suc (length steps) \<and> length outcomes = length steps \<and> ts ! 0 = t \<and> ts ! length steps = t'
     \<and> (\<forall>i < length steps. outcomes ! i = syncContractCadenceObligation td tz lc (fst (steps ! i)) (fst (snd (steps ! i)))
            tenant (snd (snd (steps ! i))) prefix (Some asOf) (ts ! i)
          \<and> ts ! Suc i = table_after (ts ! i) (outcomes ! i))
     \<and> rs_failures s' = rs_failures s @ concat (map2 failure_noted (map (\<lambda>step. snd (snd step)) steps) outcomes)
     \<and> rs_periods_generated s' = rs_periods_generated s + (\<Sum>r\<leftarrow>outcomes. counted sy_periods_generated r)
     \<and> rs_periods_superseded s' = rs_periods_superseded s + (\<Sum>r\<leftarrow>outcomes. counted sy_periods_superseded r)
     \<and> rs_lines_replenished s' = rs_lines_replenished s
         + (\<Sum>r\<leftarrow>outcomes. counted (\<lambda>res. if sy_changed res then 1 else 0) r)
     \<and> rs_lines_examined s' = rs_lines_examined s"
proof (induction steps arbitrary: s t)
  case Nil
  then show ?case by (intro exI [of _ "[t]"] exI [of _ "[]"]) simp
next
  case (Cons step steps)
  obtain now factory ob where step: "step = (now, factory, ob)" by (cases step)
  obtain s1 t1 where one: "replenish_line td tz lc tenant prefix asOf (s, t) (now, factory, ob) = (s1, t1)" by fastforce
  define r where "r = syncContractCadenceObligation td tz lc now factory tenant ob prefix (Some asOf) t"
  note out = replenish_line_outcome [OF one, folded r_def]
  have "foldl (replenish_line td tz lc tenant prefix asOf) (s1, t1) steps = (s', t')" using Cons.prems one step by simp
  from Cons.IH [OF this] obtain ts outcomes where rest:
    "length ts = Suc (length steps)" "length outcomes = length steps" "ts ! 0 = t1" "ts ! length steps = t'"
    "\<forall>i < length steps. outcomes ! i = syncContractCadenceObligation td tz lc (fst (steps ! i)) (fst (snd (steps ! i)))
            tenant (snd (snd (steps ! i))) prefix (Some asOf) (ts ! i)
          \<and> ts ! Suc i = table_after (ts ! i) (outcomes ! i)"
    "rs_failures s' = rs_failures s1 @ concat (map2 failure_noted (map (\<lambda>step. snd (snd step)) steps) outcomes)"
    "rs_periods_generated s' = rs_periods_generated s1 + (\<Sum>r\<leftarrow>outcomes. counted sy_periods_generated r)"
    "rs_periods_superseded s' = rs_periods_superseded s1 + (\<Sum>r\<leftarrow>outcomes. counted sy_periods_superseded r)"
    "rs_lines_replenished s' = rs_lines_replenished s1
         + (\<Sum>r\<leftarrow>outcomes. counted (\<lambda>res. if sy_changed res then 1 else 0) r)"
    "rs_lines_examined s' = rs_lines_examined s1"
    by blast
  have "(r # outcomes) ! i = syncContractCadenceObligation td tz lc (fst ((step # steps) ! i)) (fst (snd ((step # steps) ! i)))
            tenant (snd (snd ((step # steps) ! i))) prefix (Some asOf) ((t # ts) ! i)
      \<and> (t # ts) ! Suc i = table_after ((t # ts) ! i) ((r # outcomes) ! i)" if "i < length (step # steps)" for i
    using that rest(3,5) out by (cases i) (auto simp: step r_def)
  then show ?case using rest out
    by (intro exI [of _ "t # ts"] exI [of _ "r # outcomes"]) (simp add: step)
qed

text \<open>
  C30: the sweep over a tenant synchronizes every line once and goes on after a failure. Of the rows of a line it
  serves one, a row of it with no earlier assignment. Given a clock reading and an identifier factory for each
  line, the lines are synchronized in turn, each on the table the lines before it left; a line that fails leaves
  the table as it was and is noted with its error, and no other line is; the counts of periods generated and
  superseded and of lines changed are the sums over the lines that succeeded.
\<close>

theorem sweep_serves_every_line:
  assumes "dedupeObligations td rows = Inr obligations" "length runs = length obligations"
    and "replenishContractCadenceServicePeriodsForTenant td tz lc tenant prefix asOf runs rows t = Inr (summary, t')"
  shows "distinct (map co_contract_line_id obligations)
    \<and> co_contract_line_id ` set obligations = co_contract_line_id ` set rows
    \<and> (\<forall>row \<in> set obligations. row \<in> set rows \<and> (\<forall>q \<in> set rows. co_contract_line_id q = co_contract_line_id row
         \<longrightarrow> earlier_assignment td row q \<noteq> Inr True))
    \<and> (\<exists>ts outcomes. length ts = Suc (length obligations) \<and> length outcomes = length obligations
         \<and> ts ! 0 = t \<and> ts ! length obligations = t'
         \<and> (\<forall>i < length obligations. outcomes ! i = syncContractCadenceObligation td tz lc (fst (runs ! i)) (snd (runs ! i))
                tenant (obligations ! i) prefix (Some asOf) (ts ! i)
              \<and> ts ! Suc i = (case outcomes ! i of Inl _ \<Rightarrow> ts ! i | Inr (_, u) \<Rightarrow> u))
         \<and> rs_failures summary = concat (map2 (\<lambda>obligation outcome. case outcome of
              Inl e \<Rightarrow> [(co_contract_line_id obligation, e)] | Inr _ \<Rightarrow> []) obligations outcomes)
         \<and> rs_periods_generated summary = (\<Sum>r\<leftarrow>outcomes. counted sy_periods_generated r)
         \<and> rs_periods_superseded summary = (\<Sum>r\<leftarrow>outcomes. counted sy_periods_superseded r)
         \<and> rs_lines_replenished summary = (\<Sum>r\<leftarrow>outcomes. counted (\<lambda>res. if sy_changed res then 1 else 0) r))
    \<and> rs_lines_examined summary = length obligations"
proof -
  let ?steps = "map (\<lambda>((now, factory), obligation). (now, factory, obligation)) (zip runs obligations)"
  have steps: "length ?steps = length obligations" "map (\<lambda>step. snd (snd step)) ?steps = obligations" using assms(2)
    by (simp_all add: list_eq_iff_nth_eq split_beta)
  have fold: "foldl (replenish_line td tz lc tenant prefix asOf)
      (\<lparr>rs_tenant = tenant, rs_as_of = asOf, rs_lines_examined = length obligations,
             rs_lines_replenished = 0, rs_periods_generated = 0, rs_periods_realigned = 0,
             rs_periods_superseded = 0, rs_lines_at_period_cap = 0, rs_lines_awaiting_coverage = 0,
             rs_lines_exhausted_before_run = 0, rs_override_conflicts = 0, rs_unresolved_gap_count = 0,
             rs_failures = []\<rparr>, t) ?steps = (summary, t')"
    using assms(1,3) by (simp add: replenishContractCadenceServicePeriodsForTenant_def Let_def)
  from replenish_lines_outcomes [OF this, unfolded steps replenishment_summary.select_convs add_0 append_Nil] obtain ts outcomes where out:
    "length ts = Suc (length obligations)" "length outcomes = length obligations" "ts ! 0 = t" "ts ! length obligations = t'"
    "\<forall>i < length obligations. outcomes ! i = syncContractCadenceObligation td tz lc (fst (?steps ! i)) (fst (snd (?steps ! i)))
            tenant (snd (snd (?steps ! i))) prefix (Some asOf) (ts ! i)
          \<and> ts ! Suc i = table_after (ts ! i) (outcomes ! i)"
    "rs_failures summary = concat (map2 failure_noted obligations outcomes)"
    "rs_periods_generated summary = (\<Sum>r\<leftarrow>outcomes. counted sy_periods_generated r)"
    "rs_periods_superseded summary = (\<Sum>r\<leftarrow>outcomes. counted sy_periods_superseded r)"
    "rs_lines_replenished summary = (\<Sum>r\<leftarrow>outcomes. counted (\<lambda>res. if sy_changed res then 1 else 0) r)"
    "rs_lines_examined summary = length obligations"
    by blast
  have nth: "?steps ! i = (fst (runs ! i), snd (runs ! i), obligations ! i)" if "i < length obligations" for i
    using that assms(2) by (simp add: split_beta)
  have "\<forall>i < length obligations. outcomes ! i = syncContractCadenceObligation td tz lc (fst (runs ! i)) (snd (runs ! i))
                tenant (obligations ! i) prefix (Some asOf) (ts ! i)
              \<and> ts ! Suc i = (case outcomes ! i of Inl _ \<Rightarrow> ts ! i | Inr (_, u) \<Rightarrow> u)"
    using out(5) by (simp add: nth table_after_def)
  then show ?thesis
    using dedupe_keeps_earliest [OF assms(1)] out(1-4,6-10)
    unfolding failure_noted_def [abs_def] by (intro conjI exI [of _ ts] exI [of _ outcomes]) blast+
qed

text \<open>A line whose start cannot be read, and a line with two assignments.\<close>

abbreviation sample_rows :: "contract_obligation_row list" where
  "sample_rows \<equiv> [sample_line\<lparr>co_contract_line_id := ''b'', co_assignment_start_date := Db_Text (Iso 20454 ''x'')\<rparr>,
     sample_line\<lparr>co_assignment_start_date := Db_Text (date_only 20460)\<rparr>, sample_line]"

abbreviation sample_runs :: "(iso8601 \<times> record_id_factory) list" where
  "sample_runs \<equiv> [(utc_midnight 20460, defaultRecordIdFactory), (utc_midnight 20460, defaultRecordIdFactory)]"

theorem sweep_serves_every_line_witness:
  "\<exists>obligations summary t. dedupeObligations gregorian sample_rows = Inr obligations
     \<and> obligations = [hd sample_rows, sample_line]
     \<and> replenishContractCadenceServicePeriodsForTenant gregorian 0 text_order ''t'' ''run'' (utc_midnight 20460)
         sample_runs sample_rows [] = Inr (summary, t)
     \<and> rs_lines_examined summary = 2 \<and> map fst (rs_failures summary) = [''b''] \<and> t \<noteq> []"
proof -
  let ?sweep = "replenishContractCadenceServicePeriodsForTenant gregorian 0 text_order ''t'' ''run'' (utc_midnight 20460)
    sample_runs sample_rows []"
  have "case dedupeObligations gregorian sample_rows of Inl _ \<Rightarrow> False | Inr obs \<Rightarrow> obs = [hd sample_rows, sample_line]" by code_simp
  then obtain obs where obs: "dedupeObligations gregorian sample_rows = Inr obs" "obs = [hd sample_rows, sample_line]"
    by (auto split: sum.splits)
  have "case ?sweep of Inl _ \<Rightarrow> False | Inr (summary, t) \<Rightarrow> map fst (rs_failures summary) = [''b''] \<and> 0 < length t" by code_simp
  then obtain summary t where sweep: "?sweep = Inr (summary, t)" "map fst (rs_failures summary) = [''b'']" "t \<noteq> []"
    by (auto split: sum.splits)
  have "length sample_runs = length obs" by (simp add: obs(2))
  from sweep_serves_every_line [OF obs(1) this sweep(1)] have "rs_lines_examined summary = 2" by (simp add: obs(2))
  with obs sweep show ?thesis by (intro exI conjI)
qed

end
