(* ===== verification/Invoice_Claims.thy ===== *)
theory Invoice_Claims
  imports Ledger_System
begin

text \<open>
  What claiming the rows of a selection (\<open>claimRecurringServicePeriodsForSelectionInputs\<close>) and
  releasing an invoice do, over the statements of \<open>Ledger_Table\<close>.
\<close>

section \<open>One claim\<close>

text \<open>Usage rows whose period the selection omits, and rows excluded by identifier, are passed over.\<close>

definition omitted :: "int \<Rightarrow> claim_params \<Rightarrow> ledger_row \<Rightarrow> bool" where
  "omitted tz p row \<longleftrightarrow> row_charge_family row = Usage
     \<and> (row_obligation_id row, storedDate tz (row_service_period_start row), storedDate tz (row_service_period_end row))
       \<in> set (omitted_usage p)"

definition wanted :: "int \<Rightarrow> claim_params \<Rightarrow> ledger_row \<Rightarrow> bool" where
  "wanted tz p row \<longleftrightarrow> \<not> omitted tz p row \<and> row_record_id row \<notin> set (cl_excluded_record_ids p)"

definition claimed :: "claim_params \<Rightarrow> ledger_row \<Rightarrow> ledger_row" where
  "claimed p row = row\<lparr>row_lifecycle_state := Billed, row_invoice_id := Some (cl_invoice_id p),
     row_invoice_linked_at := Some (cl_linked_at p), row_updated_at := cl_linked_at p\<rparr>"

text \<open>A row the invoice may take, or has already.\<close>

definition claimable :: "claim_params \<Rightarrow> ledger_row \<Rightarrow> bool" where
  "claimable p row \<longleftrightarrow> row_invoice_id row = Some (cl_invoice_id p)
     \<or> row_invoice_id row = None \<and> row_lifecycle_state row \<in> {Generated, Edited, Locked}"

definition take_rows :: "claim_params \<Rightarrow> (ledger_row \<Rightarrow> bool) \<Rightarrow> ledger_table \<Rightarrow> ledger_table" where
  "take_rows p Q t = map (\<lambda>row. if Q row \<and> row_invoice_id row = None then claimed p row else row) t"

lemma claimed_simps [simp]:
  "row_invoice_id (claimed p row) = Some (cl_invoice_id p)"
  "row_record_id (claimed p row) = row_record_id row"
  "row_primary_key (claimed p row) = row_primary_key row"
  by (simp_all add: claimed_def row_primary_key_def)

lemma take_none: "\<forall>row \<in> set t. Q row \<longrightarrow> row_invoice_id row \<noteq> None \<Longrightarrow> take_rows p Q t = t"
  unfolding take_rows_def by (rule map_idI) auto

lemma take_take: "take_rows p Q (take_rows p R t) = take_rows p (\<lambda>row. R row \<or> Q row) t"
  unfolding take_rows_def map_map o_def by (rule map_cong [OF refl]) auto

lemma take_cong:
  "(\<And>row. row \<in> set t \<Longrightarrow> row_invoice_id row = None \<Longrightarrow> Q row = R row) \<Longrightarrow> take_rows p Q t = take_rows p R t"
  unfolding take_rows_def by (rule map_cong [OF refl]) auto

lemma in_take: "row \<in> set t \<Longrightarrow> \<not> Q row \<Longrightarrow> row \<in> set (take_rows p Q t)"
  unfolding take_rows_def by force

text \<open>The row is found by its identifier, and no other row of the tenant has it.\<close>

lemma claim_row_takes:
  assumes "claim_row tz p row t = Inr t'" "table_constraints t" "row \<in> set t" "of_tenant (cl_tenant p) row"
  shows "t' = take_rows p (\<lambda>r. r = row \<and> wanted tz p r) t \<and> table_constraints t' \<and> (wanted tz p row \<longrightarrow> claimable p row)"
proof -
  define c where "c = (\<lambda>r. of_tenant (cl_tenant p) r \<and> row_record_id r = row_record_id row \<and> row_invoice_id r = None
            \<and> row_lifecycle_state r \<in> {Generated, Edited, Locked})"
  have claimed: "(\<lambda>r. r\<lparr>row_lifecycle_state := Billed, row_invoice_id := Some (cl_invoice_id p),
      row_invoice_linked_at := Some (cl_linked_at p), row_updated_at := cl_linked_at p\<rparr>) = claimed p"
    by (simp add: claimed_def fun_eq_iff)
  have only: "r = row" if "r \<in> set t" "c r" for r
  proof -
    have "row_primary_key r = row_primary_key row" using that(2) assms(4) by (simp add: c_def row_primary_key_def of_tenant_def)
    moreover have "inj_on row_primary_key (set t)" using assms(2) by (simp add: table_constraints_def distinct_map)
    ultimately show ?thesis using inj_onD that(1) assms(3) by metis
  qed
  have "(\<not> wanted tz p row \<or> row_invoice_id row = Some (cl_invoice_id p)) \<and> t' = t
      \<or> wanted tz p row \<and> and_then (update_where c (claimed p) t) (\<lambda>(n, t'). if n \<noteq> 1
          then Inl (Period_Not_Claimed (row_record_id row) (cl_invoice_id p)) else Inr t') = Inr t'"
    using assms(1) unfolding claim_row_def wanted_def omitted_def [symmetric] c_def [symmetric] claimed
    by (simp only: sum.inject sum.distinct split: if_split_asm) blast+
  then consider "\<not> wanted tz p row \<or> row_invoice_id row = Some (cl_invoice_id p)" "t' = t"
    | "wanted tz p row" "update_where c (claimed p) t = Inr (1, t')"
    by (elim disjE conjE) (auto simp: and_then_Inr_iff split: if_splits)
  then show ?thesis
  proof cases
    case 1
    then show ?thesis using assms(2) take_none [of t "\<lambda>r. r = row \<and> wanted tz p r" p] by (auto simp: claimable_def)
  next
    case 2
    note upd = 2(2) [unfolded update_where_Inr]
    have one: "length (filter c t) = 1" and t': "t' = map (\<lambda>r. if c r then claimed p r else r) t" "table_constraints t'"
      using upd by (blast intro: sym)+
    have "filter c t \<noteq> []" using one by auto
    then obtain r where "r \<in> set (filter c t)" using hd_in_set by blast
    then have "c row" using only by auto
    moreover from this have "row_invoice_id row = None" by (simp add: c_def)
    ultimately have "c r \<longleftrightarrow> (r = row \<and> wanted tz p r) \<and> row_invoice_id r = None" if "r \<in> set t" for r
      using only [OF that] 2(1) by blast
    then have "(if c r then claimed p r else r) = (if (r = row \<and> wanted tz p r) \<and> row_invoice_id r = None then claimed p r else r)"
      if "r \<in> set t" for r using that by presburger
    then have "t' = take_rows p (\<lambda>r. r = row \<and> wanted tz p r) t" unfolding t'(1) take_rows_def by (rule map_cong [OF refl])
    with \<open>c row\<close> t'(2) show ?thesis by (simp add: c_def claimable_def)
  qed
qed

section \<open>The claim of a selection\<close>

lemma claim_rows_take:
  assumes "claim_rows tz p rows t = Inr t'" "table_constraints t" "distinct rows" "set rows \<subseteq> set t"
    and "\<forall>row \<in> set rows. of_tenant (cl_tenant p) row"
  shows "t' = take_rows p (\<lambda>r. r \<in> set rows \<and> wanted tz p r) t \<and> table_constraints t'
    \<and> (\<forall>row \<in> set rows. wanted tz p row \<longrightarrow> claimable p row)"
  using assms
proof (induction rows arbitrary: t)
  case Nil
  then show ?case by (simp add: take_none)
next
  case (Cons row rows)
  then obtain t1 where t1: "claim_row tz p row t = Inr t1" "claim_rows tz p rows t1 = Inr t'"
    by (auto simp: result_simps)
  have one: "t1 = take_rows p (\<lambda>r. r = row \<and> wanted tz p r) t \<and> table_constraints t1 \<and> (wanted tz p row \<longrightarrow> claimable p row)"
    by (rule claim_row_takes [OF t1(1)]) (use Cons.prems in simp_all)
  have "set rows \<subseteq> set t1"
  proof
    fix r assume "r \<in> set rows"
    then have "r \<in> set t" "r \<noteq> row" using Cons.prems(3,4) by auto
    then show "r \<in> set t1" using one in_take by simp
  qed
  moreover have "distinct rows" "\<forall>row \<in> set rows. of_tenant (cl_tenant p) row" using Cons.prems by simp_all
  ultimately have rest: "t' = take_rows p (\<lambda>r. r \<in> set rows \<and> wanted tz p r) t1 \<and> table_constraints t'
      \<and> (\<forall>row \<in> set rows. wanted tz p row \<longrightarrow> claimable p row)"
    using Cons.IH [OF t1(2)] one by blast
  have "t' = take_rows p (\<lambda>r. r \<in> set (row # rows) \<and> wanted tz p r) t"
    using conjunct1 [OF rest] conjunct1 [OF one] by (auto simp: take_take intro!: take_cong)
  then show ?case using one conjunct2 [OF rest] by (intro conjI) auto
qed

lemma window_rows_claimed:
  "window_rows tenant w = Some cond \<Longrightarrow> claimable p row \<Longrightarrow> row_invoice_id row = None \<Longrightarrow> cond (claimed p row) = cond row"
  by (auto simp: window_rows_def Let_def claimable_def claimed_def of_tenant_def split: window_kind.splits if_splits)

lemma window_rows_tenant: "window_rows tenant w = Some cond \<Longrightarrow> cond row \<Longrightarrow> of_tenant tenant row"
  by (auto simp: window_rows_def Let_def split: window_kind.splits if_splits)

text \<open>The rows a selection asks for: those of its windows, less the omitted and the excluded ones.\<close>

definition in_window :: "string \<Rightarrow> due_selection_input \<Rightarrow> ledger_row \<Rightarrow> bool" where
  "in_window tenant w row \<longleftrightarrow> (\<exists>cond. window_rows tenant w = Some cond \<and> cond row)"

definition asked :: "int \<Rightarrow> claim_params \<Rightarrow> due_selection_input list \<Rightarrow> ledger_row \<Rightarrow> bool" where
  "asked tz p ws row \<longleftrightarrow> (\<exists>w \<in> set ws. in_window (cl_tenant p) w row) \<and> wanted tz p row"

lemma take_keeps_windows:
  assumes "\<forall>row \<in> set t. Q row \<longrightarrow> claimable p row" "r \<in> set (take_rows p Q t)"
  obtains row where "row \<in> set t" "r = row \<or> r = claimed p row" "in_window tenant w r = in_window tenant w row"
proof -
  obtain row where row: "row \<in> set t" "r = (if Q row \<and> row_invoice_id row = None then claimed p row else row)"
    using assms(2) by (auto simp: take_rows_def)
  have "in_window tenant w (claimed p row) = in_window tenant w row" if "Q row" "row_invoice_id row = None"
    using assms(1) row(1) that window_rows_claimed unfolding in_window_def by blast
  then show ?thesis using row that by (cases "Q row \<and> row_invoice_id row = None") simp_all
qed

lemma claim_windows_take:
  assumes "claim_windows tz p ws t = Inr t'" "table_constraints t"
  shows "t' = take_rows p (asked tz p ws) t \<and> (\<forall>row \<in> set t. asked tz p ws row \<longrightarrow> claimable p row)
    \<and> (\<forall>w \<in> set ws. window_rows (cl_tenant p) w \<noteq> None \<longrightarrow> (\<exists>row \<in> set t. in_window (cl_tenant p) w row))"
  using assms
proof (induction ws arbitrary: t)
  case Nil
  then show ?case by (simp add: take_none asked_def)
next
  case (Cons w ws)
  show ?case
  proof (cases "window_rows (cl_tenant p) w")
    case None
    then have "in_window (cl_tenant p) w row = False" for row by (simp add: in_window_def)
    then show ?thesis using Cons.IH [OF _ Cons.prems(2)] Cons.prems(1) None by (simp add: asked_def)
  next
    case (Some cond)
    then obtain t1 where t1: "filter cond t \<noteq> []" "claim_rows tz p (filter cond t) t = Inr t1" "claim_windows tz p ws t1 = Inr t'"
      using Cons.prems(1) by (auto simp: result_simps Let_def)
    have win: "in_window (cl_tenant p) w row = cond row" for row using Some by (simp add: in_window_def)
    have "distinct t" using Cons.prems(2) by (auto simp: table_constraints_def distinct_map)
    then have one: "t1 = take_rows p (\<lambda>r. r \<in> set (filter cond t) \<and> wanted tz p r) t \<and> table_constraints t1
        \<and> (\<forall>row \<in> set (filter cond t). wanted tz p row \<longrightarrow> claimable p row)"
      by (intro claim_rows_take [OF t1(2) Cons.prems(2)]) (auto intro: window_rows_tenant [OF Some])
    have first: "t1 = take_rows p (\<lambda>r. cond r \<and> wanted tz p r) t" using one by (auto intro!: take_cong)
    have free: "\<forall>row \<in> set t. cond row \<and> wanted tz p row \<longrightarrow> claimable p row" using one by simp
    note rest = Cons.IH [OF t1(3) conjunct1 [OF conjunct2 [OF one]]]
    have all: "asked tz p (w # ws) row \<longleftrightarrow> cond row \<and> wanted tz p row \<or> asked tz p ws row" for row
      by (auto simp: asked_def win)
    have "asked tz p (w # ws) = (\<lambda>row. cond row \<and> wanted tz p row \<or> asked tz p ws row)" using all by (simp add: fun_eq_iff)
    then have "t' = take_rows p (asked tz p (w # ws)) t" using rest by (simp add: first take_take)
    moreover have "claimable p row" if "row \<in> set t" "asked tz p (w # ws) row" for row
    proof (cases "cond row \<and> wanted tz p row")
      case True
      then show ?thesis using free that(1) by blast
    next
      case False
      then have "asked tz p ws row" using that(2) all by blast
      moreover have "row \<in> set t1" unfolding first using False that(1) by (intro in_take)
      ultimately have "row \<in> set t1" "asked tz p ws row" by simp_all
      then show ?thesis using rest by blast
    qed
    moreover have "\<exists>row \<in> set t. in_window (cl_tenant p) v row"
      if v: "v \<in> set (w # ws)" "window_rows (cl_tenant p) v \<noteq> None" for v
    proof (cases "v = w")
      case True
      then show ?thesis using t1(1) win by (auto simp: filter_empty_conv)
    next
      case False
      then obtain r where "r \<in> set t1" "in_window (cl_tenant p) v r" using v rest by auto
      then show ?thesis using take_keeps_windows [OF free, of r "cl_tenant p" v] first by metis
    qed
    ultimately show ?thesis by blast
  qed
qed

text \<open>
  C28: a claim that succeeds is complete, takes nothing from another invoice and changes nothing else. The rows it
  asks for are those of the windows of the selection, less the usage rows of omitted periods and the excluded rows.
  Each of them was free and generated, edited or locked, or held by this invoice already; afterwards exactly the
  free ones have become billed rows of the invoice, and every other row of the table is as it was. Every window that
  can be resolved to rows has some; a contract window that names no line is passed over.
\<close>

theorem claim_takes_selection:
  assumes "table_constraints t" "claimRecurringServicePeriodsForSelectionInputs tz p t = Inr t'"
  shows "t' = map (\<lambda>row. if asked tz p (cl_selector_inputs p) row \<and> row_invoice_id row = None
        then row\<lparr>row_lifecycle_state := Billed, row_invoice_id := Some (cl_invoice_id p),
          row_invoice_linked_at := Some (cl_linked_at p), row_updated_at := cl_linked_at p\<rparr> else row) t
    \<and> (\<forall>row \<in> set t. asked tz p (cl_selector_inputs p) row \<longrightarrow> row_invoice_id row = Some (cl_invoice_id p)
        \<or> row_invoice_id row = None \<and> row_lifecycle_state row \<in> {Generated, Edited, Locked})
    \<and> (\<forall>w \<in> set (cl_selector_inputs p). window_rows (cl_tenant p) w \<noteq> None \<longrightarrow>
        (\<exists>row \<in> set t. in_window (cl_tenant p) w row))"
  using claim_windows_take [OF assms(2) [unfolded claimRecurringServicePeriodsForSelectionInputs_def] assms(1)]
  unfolding take_rows_def claimed_def claimable_def .

definition sample_claimed :: ledger_table where
  "sample_claimed = [(sample_row ''y'' Generated 20454 20819)\<lparr>row_invoice_window_start := 20454, row_invoice_window_end := 20819\<rparr>,
     sample_row ''z'' Generated 20819 21184]"

theorem claim_takes_selection_witness:
  "\<exists>t'. claimRecurringServicePeriodsForSelectionInputs 0 sample_claim sample_claimed = Inr t'
     \<and> map (\<lambda>row. (row_lifecycle_state row, row_invoice_id row)) t' = [(Billed, Some ''i''), (Generated, None)]"
proof -
  let ?claim = "claimRecurringServicePeriodsForSelectionInputs 0 sample_claim sample_claimed"
  have "case ?claim of Inl _ \<Rightarrow> False | Inr t' \<Rightarrow> True" by code_simp
  then obtain t' where run: "?claim = Inr t'" by (auto split: sum.splits)
  have con: "table_constraints sample_claimed" by code_simp
  have "case window_rows ''t'' (hd (cl_selector_inputs sample_claim)) of None \<Rightarrow> False
      | Some cond \<Rightarrow> map cond sample_claimed = [True, False]" by code_simp
  then obtain cond where cond: "window_rows ''t'' (hd (cl_selector_inputs sample_claim)) = Some cond" "map cond sample_claimed = [True, False]"
    by (auto split: option.splits)
  have asks: "asked 0 sample_claim (cl_selector_inputs sample_claim) row = cond row" for row
    using cond(1) by (simp add: asked_def in_window_def wanted_def omitted_def omitted_usage_def sample_claim_def)
  show ?thesis
    using claim_takes_selection [OF con run] run cond(2) unfolding asks
    by (simp add: sample_claimed_def sample_row_def slot_record_def sample_record_def serializeRecurringServicePeriodRecord_def sample_claim_def)
qed

section \<open>Release\<close>

text \<open>
  Releasing an invoice leaves no row with that invoice, gives each of its rows back as a locked one
  with the same identity and period, which a later claim may take, and changes no other row.
\<close>

theorem release_returns_rows:
  assumes "releaseRecurringServicePeriodInvoiceLinkageForInvoice tenant invoice u t = Inr t'"
  shows "length t' = length t
    \<and> (\<forall>row \<in> set t'. of_tenant tenant row \<longrightarrow> row_invoice_id row \<noteq> Some invoice)
    \<and> (\<forall>i < length t. if of_tenant tenant (t ! i) \<and> row_invoice_id (t ! i) = Some invoice
        then row_lifecycle_state (t' ! i) = Locked \<and> row_invoice_charge_detail_id (t' ! i) = None
          \<and> mapRecurringServicePeriodRow tz (t' ! i) = (mapRecurringServicePeriodRow tz (t ! i))
              \<lparr>rec_lifecycle_state := Locked, rec_invoice_linkage := None, rec_updated_at := u\<rparr>
        else t' ! i = t ! i)"
proof -
  have t': "t' = map (\<lambda>row. if of_tenant tenant row \<and> row_invoice_id row = Some invoice
      then row\<lparr>row_lifecycle_state := Locked, row_invoice_id := None, row_invoice_charge_id := None,
           row_invoice_charge_detail_id := None, row_invoice_linked_at := None, row_updated_at := u\<rparr> else row) t"
    using assms by (auto simp: releaseRecurringServicePeriodInvoiceLinkageForInvoice_def result_simps)
  show ?thesis by (auto simp: t' mapRecurringServicePeriodRow_def)
qed

theorem release_returns_rows_witness:
  "\<exists>t'. releaseRecurringServicePeriodInvoiceLinkageForInvoice ''t'' ''i'' (utc_midnight 20490)
      [(sample_row ''y'' Billed 20454 20819)\<lparr>row_invoice_id := Some ''i'', row_invoice_linked_at := Some (utc_midnight 20480)\<rparr>] = Inr t'
    \<and> row_lifecycle_state (t' ! 0) = Locked"
proof -
  let ?t = "[(sample_row ''y'' Billed 20454 20819)\<lparr>row_invoice_id := Some ''i'', row_invoice_linked_at := Some (utc_midnight 20480)\<rparr>]"
  let ?release = "releaseRecurringServicePeriodInvoiceLinkageForInvoice ''t'' ''i'' (utc_midnight 20490) ?t"
  have "case ?release of Inl _ \<Rightarrow> False | Inr _ \<Rightarrow> True" by code_simp
  then obtain t' where run: "?release = Inr t'" by (auto split: sum.splits)
  moreover have "of_tenant ''t'' (?t ! 0)" by code_simp
  ultimately show ?thesis using release_returns_rows [OF run, of 0] by simp
qed

section \<open>Stale plans\<close>

text \<open>
  C29: a contract line's plan, however old the ledger it was made from, never overwrites what happened
  since: writing it fails unless every row it supersedes is still free, so every row that was edited,
  locked, skipped, claimed or billed meanwhile is kept.
\<close>

theorem contract_write_guarded:
  assumes "table_constraints t" "persistContractRegeneration tenant gone ins t = Inr t'"
  shows "(\<forall>r \<in> set gone. \<forall>row \<in> set t. of_tenant tenant row \<and> row_record_id row = rec_id r \<longrightarrow> still_replaceable row)
    \<and> (\<forall>row \<in> set t. \<not> still_replaceable row \<longrightarrow> row \<in> set t')"
proof -
  have wr: "written tenant gone ins t t'" "\<forall>row \<in> set t. addressed tenant gone row \<longrightarrow> still_replaceable row"
    using persist_contract_written [OF assms(2,1)] by blast+
  have "\<forall>row \<in> set t. \<not> still_replaceable row \<longrightarrow> row \<in> set t'" using written_keeps [OF wr(1)] wr(2) by blast
  moreover have "\<forall>r \<in> set gone. \<forall>row \<in> set t. of_tenant tenant row \<and> row_record_id row = rec_id r \<longrightarrow> still_replaceable row"
    using wr(2) by (auto simp: addressed_def)
  ultimately show ?thesis by blast
qed

definition sample_plan_row :: period_record where
  "sample_plan_row = (mapRecurringServicePeriodRow 0 (sample_row ''z'' Generated 20819 21184))
     \<lparr>rec_lifecycle_state := Superseded, rec_updated_at := utc_midnight 20500\<rparr>"

theorem contract_write_guarded_witness:
  "\<exists>t'. persistContractRegeneration ''t'' [sample_plan_row] [] sample_claimed = Inr t' \<and> hd sample_claimed \<in> set sample_claimed
    \<and> still_replaceable (sample_claimed ! 1)"
proof -
  have "case persistContractRegeneration ''t'' [sample_plan_row] [] sample_claimed of Inl _ \<Rightarrow> False | Inr _ \<Rightarrow> True" by code_simp
  then obtain t' where run: "persistContractRegeneration ''t'' [sample_plan_row] [] sample_claimed = Inr t'" by (auto split: sum.splits)
  have con: "table_constraints sample_claimed" by code_simp
  have "of_tenant ''t'' (sample_claimed ! 1) \<and> row_record_id (sample_claimed ! 1) = rec_id sample_plan_row"
    "length sample_claimed = 2" by code_simp+
  then show ?thesis using contract_write_guarded [OF con run] run by (simp add: sample_claimed_def)
qed

text \<open>
  The same statement of the client's replenishment has no such condition: a plan made before a claim
  without charges supersedes the claimed row, and the constraints of the table allow it.
\<close>

lemma client_write_unguarded:
  "\<exists>t t'. claimRecurringServicePeriodsForSelectionInputs 0 sample_claim sample_claimed = Inr t
     \<and> persistRecurringServicePeriodRegeneration ''t''
        [sample_plan_row\<lparr>rec_id := row_record_id (hd sample_claimed)\<rparr>] [] t = Inr t'
     \<and> row_invoice_id (hd t) = Some ''i'' \<and> row_lifecycle_state (hd t) = Billed
     \<and> row_invoice_id (hd t') = Some ''i'' \<and> row_lifecycle_state (hd t') = Superseded"
proof -
  have "case and_then (claimRecurringServicePeriodsForSelectionInputs 0 sample_claim sample_claimed) (\<lambda>t.
      and_then (persistRecurringServicePeriodRegeneration ''t''
        [sample_plan_row\<lparr>rec_id := row_record_id (hd sample_claimed)\<rparr>] [] t) (\<lambda>t'. Inr (t, t'))) of
     Inl _ \<Rightarrow> False | Inr (t, t') \<Rightarrow> row_invoice_id (hd t) = Some ''i'' \<and> row_lifecycle_state (hd t) = Billed
     \<and> row_invoice_id (hd t') = Some ''i'' \<and> row_lifecycle_state (hd t') = Superseded" by code_simp
  then show ?thesis by (auto simp: and_then_Inr_iff split: sum.splits)
qed

end
