(* ===== verification/Js_Numbers.thy ===== *)
theory Js_Numbers
  imports Due_Work Js_Doubles
begin

text \<open>
  Numbers read from columns and texts, as the sources read them: \<open>parseFloat\<close>, \<open>Number\<close> and \<open>Math.round\<close>;
  a result of the code that may be inexact is rounded to a double (\<open>Js_Doubles\<close>).
\<close>

section \<open>Numbers\<close>

text \<open>A column \<open>number | string | null\<close>; \<open>Cell_Not_Finite\<close> is \<open>NaN\<close> or infinite.\<close>

datatype cell = Cell_Null | Cell_Number rat | Cell_Not_Finite | Cell_Text string

definition js_digit :: "char \<Rightarrow> bool" where
  "js_digit c \<longleftrightarrow> CHR ''0'' \<le> c \<and> c \<le> CHR ''9''"

definition digits_value :: "string \<Rightarrow> nat" where
  "digits_value ds = foldl (\<lambda>n c. 10 * n + (of_char c - 48)) 0 ds"

definition js_sign :: "string \<Rightarrow> bool \<times> string" where
  "js_sign s = (case s of [] \<Rightarrow> (False, [])
     | c # cs \<Rightarrow> if c = CHR ''-'' then (True, cs) else if c = CHR ''+'' then (False, cs) else (False, s))"

definition js_exponent :: "string \<Rightarrow> int \<times> string" where
  "js_exponent s = (case s of [] \<Rightarrow> (0, [])
     | c # cs \<Rightarrow> if c \<noteq> CHR ''e'' \<and> c \<noteq> CHR ''E'' then (0, s)
         else case js_sign cs of (negative, ds) \<Rightarrow>
           if takeWhile js_digit ds = [] then (0, s)
           else ((if negative then -1 else 1) * int (digits_value (takeWhile js_digit ds)), dropWhile js_digit ds))"

text \<open>The longest decimal literal a text starts with, and the text after it.\<close>

definition js_decimal :: "string \<Rightarrow> (rat \<times> string) option" where
  "js_decimal s = (case js_sign s of (negative, s1) \<Rightarrow>
     let ints = takeWhile js_digit s1;
         s2 = dropWhile js_digit s1;
         dot = (case s2 of [] \<Rightarrow> False | c # _ \<Rightarrow> c = CHR ''.'');
         fracs = (if dot then takeWhile js_digit (tl s2) else []);
         s3 = (if dot then dropWhile js_digit (tl s2) else s2)
     in if ints = [] \<and> fracs = [] then None
        else case js_exponent s3 of (e, rest) \<Rightarrow>
          Some ((if negative then -1 else 1) * of_nat (digits_value (ints @ fracs)) / 10 ^ length fracs
            * (if e \<ge> 0 then 10 ^ nat e else 1 / 10 ^ nat (- e)), rest))"

text \<open>\<open>parseFloat\<close> and \<open>Number\<close> of a text; \<open>None\<close> when the number is not finite.\<close>

definition js_parse_float :: "string \<Rightarrow> rat option" where
  "js_parse_float s = map_option (\<lambda>r. dbl (fst r)) (js_decimal (dropWhile js_space s))"

definition hex_value :: "char \<Rightarrow> nat option" where
  "hex_value c = (if js_digit c then Some (of_char c - 48)
     else if CHR ''a'' \<le> c \<and> c \<le> CHR ''f'' then Some (of_char c - 87)
     else if CHR ''A'' \<le> c \<and> c \<le> CHR ''F'' then Some (of_char c - 55) else None)"

definition radix_literal :: "nat \<Rightarrow> string \<Rightarrow> rat option" where
  "radix_literal base ds =
     (if ds \<noteq> [] \<and> list_all (\<lambda>c. case hex_value c of None \<Rightarrow> False | Some v \<Rightarrow> v < base) ds
      then Some (dbl (of_nat (foldl (\<lambda>n c. base * n + the (hex_value c)) 0 ds))) else None)"

definition js_number :: "string \<Rightarrow> rat option" where
  "js_number s =
     (let t = js_trim s
      in if t = [] then Some 0
         else case t of
           z # x # ds \<Rightarrow>
             if z = CHR ''0'' \<and> x \<in> {CHR ''x'', CHR ''X''} then radix_literal 16 ds
             else if z = CHR ''0'' \<and> x \<in> {CHR ''o'', CHR ''O''} then radix_literal 8 ds
             else if z = CHR ''0'' \<and> x \<in> {CHR ''b'', CHR ''B''} then radix_literal 2 ds
             else (case js_decimal t of Some (v, []) \<Rightarrow> Some (dbl v) | _ \<Rightarrow> None)
         | _ \<Rightarrow> (case js_decimal t of Some (v, []) \<Rightarrow> Some (dbl v) | _ \<Rightarrow> None))"

definition js_round :: "rat \<Rightarrow> int" where
  "js_round x = \<lfloor>x + 1 / 2\<rfloor>"

fun cell_number :: "cell \<Rightarrow> rat option" where
  "cell_number Cell_Null = Some 0"
| "cell_number (Cell_Number x) = Some x"
| "cell_number Cell_Not_Finite = None"
| "cell_number (Cell_Text s) = js_number s"

end
