(* ===== verification/Fixed_Rates.thy ===== *)
theory Fixed_Rates
  imports Due_Work Js_Numbers Complex_Main "HOL-Library.Option_ord"
begin

text \<open>
  \<open>shared/billingClients/resolveFixedLineRate.ts\<close>: the rate of a fixed line, of each of its services,
  and of a clone. A number of the code is a rational number, rounded to a double where the
  code computes with it (\<open>Js_Numbers\<close>), a calendar date \<open>YYYY-MM-DD\<close> is the number of its day, whose order is the
  order of the texts. The warning that the legacy fallback logs is left out.
\<close>

section \<open>Cents\<close>

fun toCents :: "cell \<Rightarrow> int option" where
  "toCents Cell_Null = None"
| "toCents (Cell_Text s) = (if s = [] then None else map_option js_round (js_parse_float s))"
| "toCents (Cell_Number x) = Some (js_round x)"
| "toCents Cell_Not_Finite = None"

section \<open>Dates\<close>

text \<open>A \<open>string | Date\<close>: a text that starts with a date, another text, a \<open>Date\<close> or an invalid one.\<close>

datatype date_cell = Date_Text iso8601 | Date_Other_Text | Date_Value int | Date_Invalid

fun toCalendarDate :: "date_cell \<Rightarrow> int option" where
  "toCalendarDate (Date_Value ms) = Some (ms div ms_per_day)"
| "toCalendarDate Date_Invalid = None"
| "toCalendarDate (Date_Text v) = Some (iso_day v)"
| "toCalendarDate Date_Other_Text = None"

fun compareCalendarDates :: "int option \<Rightarrow> int option \<Rightarrow> int" where
  "compareCalendarDates None None = 0"
| "compareCalendarDates None (Some b) = -1"
| "compareCalendarDates (Some a) None = 1"
| "compareCalendarDates (Some a) (Some b) = (if a < b then -1 else if a > b then 1 else 0)"

section \<open>Rows\<close>

datatype rate_provenance = RP_Custom | RP_Inherited | RP_Unreviewed

datatype rate_source = RS_Pricing_Schedule | RS_Line_Override | RS_Derived | RS_Unit_Revision
  | RS_Service_Override | RS_Config_Override | RS_Catalog | RS_Catalog_Legacy

record resolved_rate =
  rr_rate_cents :: "int option"
  rr_source :: "rate_source option"
  rr_source_id :: "string option"
  rr_provenance :: rate_provenance

record contract_line_rate_row =
  cl_contract_line_id :: string
  cl_custom_rate :: cell
  cl_rate_provenance :: "string option"

record plan_service_rate_row =
  sv_service_id :: string
  sv_config_id :: string
  sv_quantity :: cell
  sv_service_quantity :: cell
  sv_configuration_quantity :: cell
  sv_service_base_rate :: cell
  sv_base_rate_provenance :: "string option"
  sv_configuration_custom_rate :: cell
  sv_default_rate :: cell

record pricing_schedule_rate_row =
  sd_schedule_id :: "string option"
  sd_contract_line_id :: "string option"
  sd_effective_date :: date_cell
  sd_end_date :: "date_cell option"
  sd_custom_rate :: cell

record unit_pricing_revision_row =
  ur_revision_id :: "string option"
  ur_service_id :: string
  ur_config_id :: string
  ur_effective_period_start :: date_cell
  ur_unit_rate_cents :: cell
  ur_created_at :: "date_cell option"

record service_price_rate_row =
  sp_price_id :: "string option"
  sp_service_id :: string
  sp_currency_code :: string
  sp_rate :: cell
  sp_effective_date :: "date_cell option"
  sp_created_at :: "date_cell option"

record rate_period =
  rp_start :: int
  rp_end :: int

record fixed_line_rate_input =
  fl_line :: contract_line_rate_row
  fl_plan_services :: "plan_service_rate_row list"
  fl_schedules :: "pricing_schedule_rate_row list"
  fl_revisions :: "unit_pricing_revision_row list"
  fl_catalog_prices :: "service_price_rate_row list"
  fl_period :: rate_period
  fl_currency :: string
  fl_tenant_default_currency :: "string option"

record fixed_line_rate_result =
  fr_line :: resolved_rate
  fr_per_service :: "string \<Rightarrow> resolved_rate option"

text \<open>A label is a text of a column; \<open>isRateProvenance\<close> tells the three known ones.\<close>

definition isRateProvenance :: "string \<Rightarrow> rate_provenance option" where
  "isRateProvenance value = (if value = ''custom'' then Some RP_Custom
     else if value = ''inherited'' then Some RP_Inherited
     else if value = ''unreviewed'' then Some RP_Unreviewed else None)"

definition normalizeProvenance :: "string option \<Rightarrow> int option \<Rightarrow> rate_provenance" where
  "normalizeProvenance value rateCents =
     (case (case value of None \<Rightarrow> None | Some v \<Rightarrow> isRateProvenance v) of
        Some p \<Rightarrow> p
      | None \<Rightarrow> if rateCents = None then RP_Inherited else RP_Unreviewed)"

text \<open>\<open>a ?? b\<close> of cells\<close>

definition or_cell :: "cell \<Rightarrow> cell \<Rightarrow> cell" where
  "or_cell a b = (if a = Cell_Null then b else a)"

definition quantityOf :: "plan_service_rate_row \<Rightarrow> rat" where
  "quantityOf service =
     (let raw = or_cell (or_cell (sv_configuration_quantity service) (sv_service_quantity service)) (sv_quantity service)
      in if raw = Cell_Null then 1 else or_else (cell_number raw) 1)"

section \<open>Effective prices\<close>

definition price_date :: "service_price_rate_row \<Rightarrow> int option" where
  "price_date price = (case sp_effective_date price of None \<Rightarrow> Some 0 | Some d \<Rightarrow> toCalendarDate d)"

definition optional_date :: "date_cell option \<Rightarrow> int option" where
  "optional_date d = (case d of None \<Rightarrow> None | Some c \<Rightarrow> toCalendarDate c)"

definition compareServicePriceCandidates :: "service_price_rate_row \<Rightarrow> service_price_rate_row \<Rightarrow> int" where
  "compareServicePriceCandidates a b =
     (let byDate = compareCalendarDates (price_date b) (price_date a)
      in if byDate \<noteq> 0 then byDate
         else if (sp_price_id a = None) \<noteq> (sp_price_id b = None) then (if sp_price_id a = None then -1 else 1)
         else
           let byCreated = compareCalendarDates (optional_date (sp_created_at b)) (optional_date (sp_created_at a))
           in if byCreated \<noteq> 0 then byCreated
              else let aId = or_else (sp_price_id a) []; bId = or_else (sp_price_id b) []
                in if aId < bId then -1 else if aId > bId then 1 else 0)"

record effective_service_price =
  ep_price_id :: "string option"
  ep_rate_cents :: "int option"
  ep_effective_date :: "int option"

definition admitted_price :: "string \<Rightarrow> string \<Rightarrow> int \<Rightarrow> service_price_rate_row \<Rightarrow> bool" where
  "admitted_price serviceId currency asOf price \<longleftrightarrow> sp_service_id price = serviceId
     \<and> sp_currency_code price = currency \<and> compareCalendarDates (price_date price) (Some asOf) \<le> 0"

definition selectEffectiveServicePrice :: "service_price_rate_row list \<Rightarrow> string \<Rightarrow> string \<Rightarrow> int
    \<Rightarrow> effective_service_price option" where
  "selectEffectiveServicePrice prices serviceId currency asOf =
     (case js_sort compareServicePriceCandidates (filter (admitted_price serviceId currency asOf) prices) of
        [] \<Rightarrow> None
      | winner # _ \<Rightarrow> Some \<lparr>ep_price_id = sp_price_id winner, ep_rate_cents = toCents (sp_rate winner),
          ep_effective_date = price_date winner\<rparr>)"

definition hasAnyServicePrice :: "service_price_rate_row list \<Rightarrow> string \<Rightarrow> string \<Rightarrow> bool" where
  "hasAnyServicePrice prices serviceId currency \<longleftrightarrow>
     list_ex (\<lambda>price. sp_service_id price = serviceId \<and> sp_currency_code price = currency) prices"

section \<open>The rate of a service\<close>

definition compare_revisions :: "unit_pricing_revision_row \<Rightarrow> unit_pricing_revision_row \<Rightarrow> int" where
  "compare_revisions a b =
     (let byDate = compareCalendarDates (toCalendarDate (ur_effective_period_start b)) (toCalendarDate (ur_effective_period_start a))
      in if byDate \<noteq> 0 then byDate
         else compareCalendarDates (optional_date (ur_created_at b)) (optional_date (ur_created_at a)))"

definition applicable_revisions :: "fixed_line_rate_input \<Rightarrow> plan_service_rate_row \<Rightarrow> unit_pricing_revision_row list" where
  "applicable_revisions inp service = js_sort compare_revisions
     (filter (\<lambda>revision. ur_service_id revision = sv_service_id service \<and> ur_config_id revision = sv_config_id service
        \<and> compareCalendarDates (toCalendarDate (ur_effective_period_start revision)) (Some (rp_start (fl_period inp))) \<le> 0)
       (fl_revisions inp))"

definition rate_of :: "int \<Rightarrow> rate_source \<Rightarrow> string option \<Rightarrow> rate_provenance \<Rightarrow> resolved_rate" where
  "rate_of cents source sourceId provenance = \<lparr>rr_rate_cents = Some cents, rr_source = Some source,
     rr_source_id = sourceId, rr_provenance = provenance\<rparr>"

definition no_rate :: resolved_rate where
  "no_rate = \<lparr>rr_rate_cents = None, rr_source = None, rr_source_id = None, rr_provenance = RP_Inherited\<rparr>"

definition resolveMemberRate :: "fixed_line_rate_input \<Rightarrow> plan_service_rate_row \<Rightarrow> resolved_rate" where
  "resolveMemberRate inp service =
     (let revision = (case applicable_revisions inp service of [] \<Rightarrow> None
            | r # _ \<Rightarrow> map_option (\<lambda>c. rate_of c RS_Unit_Revision (ur_revision_id r) RP_Custom) (toCents (ur_unit_rate_cents r)))
      in case revision of Some rate \<Rightarrow> rate
      | None \<Rightarrow>
          let baseRateCents = toCents (sv_service_base_rate service);
              baseRateProvenance = normalizeProvenance (sv_base_rate_provenance service) baseRateCents
          in if baseRateCents \<noteq> None \<and> (baseRateProvenance = RP_Custom \<or> baseRateProvenance = RP_Unreviewed)
             then rate_of (the baseRateCents) RS_Service_Override (Some (sv_config_id service)) baseRateProvenance
             else case toCents (sv_configuration_custom_rate service) of
               Some configRateCents \<Rightarrow> rate_of configRateCents RS_Config_Override (Some (sv_config_id service)) RP_Custom
             | None \<Rightarrow>
                 let catalogPrice = selectEffectiveServicePrice (fl_catalog_prices inp) (sv_service_id service)
                       (fl_currency inp) (rp_start (fl_period inp));
                     legacy = (if (\<not> truthy (fl_tenant_default_currency inp)
                           \<or> fl_tenant_default_currency inp = Some (fl_currency inp))
                         \<and> \<not> hasAnyServicePrice (fl_catalog_prices inp) (sv_service_id service) (fl_currency inp)
                       then (case toCents (sv_default_rate service) of
                           Some legacyRateCents \<Rightarrow> rate_of legacyRateCents RS_Catalog_Legacy (Some (sv_service_id service)) RP_Inherited
                         | None \<Rightarrow> no_rate)
                       else no_rate)
                 in case catalogPrice of
                      None \<Rightarrow> legacy
                    | Some price \<Rightarrow> (case ep_rate_cents price of
                        Some c \<Rightarrow> rate_of c RS_Catalog (ep_price_id price) RP_Inherited
                      | None \<Rightarrow> legacy))"

section \<open>The rate of a line\<close>

definition isActivePricingSchedule :: "pricing_schedule_rate_row \<Rightarrow> rate_period \<Rightarrow> bool" where
  "isActivePricingSchedule schedule period =
     (case toCalendarDate (sd_effective_date schedule) of
        None \<Rightarrow> False
      | Some effectiveDate \<Rightarrow>
          if compareCalendarDates (Some effectiveDate) (Some (rp_end period)) \<ge> 0 then False
          else case optional_date (sd_end_date schedule) of
            None \<Rightarrow> True
          | Some endDate \<Rightarrow> compareCalendarDates (Some endDate) (Some (rp_start period)) > 0)"

definition applicable_schedule :: "string \<Rightarrow> rate_period \<Rightarrow> pricing_schedule_rate_row \<Rightarrow> bool" where
  "applicable_schedule lineId period schedule \<longleftrightarrow>
     (case sd_contract_line_id schedule of None \<Rightarrow> True | Some scope \<Rightarrow> scope = lineId)
     \<and> isActivePricingSchedule schedule period"

definition compare_schedules :: "pricing_schedule_rate_row \<Rightarrow> pricing_schedule_rate_row \<Rightarrow> int" where
  "compare_schedules a b =
     (let byScope = (if sd_contract_line_id b \<noteq> None then 1 else 0) - (if sd_contract_line_id a \<noteq> None then 1 else 0)
      in if byScope \<noteq> 0 then byScope
         else compareCalendarDates (toCalendarDate (sd_effective_date b)) (toCalendarDate (sd_effective_date a)))"

definition selectActivePricingSchedule :: "pricing_schedule_rate_row list \<Rightarrow> string \<Rightarrow> rate_period
    \<Rightarrow> pricing_schedule_rate_row option" where
  "selectActivePricingSchedule schedules lineId period =
     (case js_sort compare_schedules (filter (applicable_schedule lineId period) schedules) of
        [] \<Rightarrow> None | s # _ \<Rightarrow> Some s)"

text \<open>The loop that derives the rate of the line from its services: the sum and whether any has a rate.\<close>

definition derive_line :: "(string \<Rightarrow> resolved_rate option) \<Rightarrow> plan_service_rate_row list \<Rightarrow> rat \<times> bool" where
  "derive_line perService services = foldl (\<lambda>(derived, hasMemberRate) service.
     case perService (sv_config_id service) of
       None \<Rightarrow> (derived, hasMemberRate)
     | Some member \<Rightarrow> (case rr_rate_cents member of
         None \<Rightarrow> (derived, hasMemberRate)
       | Some cents \<Rightarrow> (dbl (derived + dbl (of_int cents * quantityOf service)), True))) (0, False) services"

definition resolveFixedLineRate :: "fixed_line_rate_input \<Rightarrow> fixed_line_rate_result" where
  "resolveFixedLineRate inp =
     (let perService = foldl (\<lambda>m service. m(sv_config_id service \<mapsto> resolveMemberRate inp service)) Map.empty
            (fl_plan_services inp);
          scheduled = (case selectActivePricingSchedule (fl_schedules inp) (cl_contract_line_id (fl_line inp)) (fl_period inp) of
              None \<Rightarrow> None
            | Some s \<Rightarrow> map_option (\<lambda>c. rate_of c RS_Pricing_Schedule (sd_schedule_id s) RP_Custom) (toCents (sd_custom_rate s)));
          lineRateCents = toCents (cl_custom_rate (fl_line inp));
          lineProvenance = normalizeProvenance (cl_rate_provenance (fl_line inp)) lineRateCents
      in case scheduled of
        Some rate \<Rightarrow> \<lparr>fr_line = rate, fr_per_service = perService\<rparr>
      | None \<Rightarrow>
          if lineRateCents \<noteq> None \<and> (lineProvenance = RP_Custom \<or> lineProvenance = RP_Unreviewed)
          then \<lparr>fr_line = rate_of (the lineRateCents) RS_Line_Override (Some (cl_contract_line_id (fl_line inp))) lineProvenance,
                fr_per_service = perService\<rparr>
          else case derive_line perService (fl_plan_services inp) of (derived, hasMemberRate) \<Rightarrow>
            \<lparr>fr_line = \<lparr>rr_rate_cents = (if hasMemberRate then Some (js_round derived) else None),
               rr_source = (if hasMemberRate then Some RS_Derived else None),
               rr_source_id = None, rr_provenance = RP_Inherited\<rparr>,
             fr_per_service = perService\<rparr>)"

section \<open>The rate of a clone\<close>

record cloned_rate_input =
  ci_explicit_rate :: cell
  ci_template_rate :: cell
  ci_template_provenance :: "string option"
  ci_template_base_rate :: cell

definition resolveClonedRate :: "cloned_rate_input \<Rightarrow> int option \<times> rate_provenance" where
  "resolveClonedRate inp =
     (case toCents (ci_explicit_rate inp) of
        Some explicit \<Rightarrow> (Some explicit, RP_Custom)
      | None \<Rightarrow>
          let snapshotRate = (case toCents (ci_template_rate inp) of Some r \<Rightarrow> Some r
                | None \<Rightarrow> toCents (ci_template_base_rate inp));
              provenance = normalizeProvenance (ci_template_provenance inp) snapshotRate
          in if provenance = RP_Inherited \<or> snapshotRate = None then (None, RP_Inherited)
             else (snapshotRate, provenance))"

section \<open>The choice of a price\<close>

lemma compareCalendarDates_compare: "compareCalendarDates a b = locale_compare a b"
  by (cases a; cases b) (auto simp: locale_compare_def)

text \<open>A comparator whose ties share a key: the first of a sorted list does not depend on the order given.\<close>

locale keyed_comparator = comparator cmp for cmp :: "'a \<Rightarrow> 'a \<Rightarrow> int" +
  fixes key :: "'a \<Rightarrow> 'k"
  assumes ties: "cmp x y \<le> 0 \<Longrightarrow> cmp y x \<le> 0 \<Longrightarrow> key x = key y"
begin

lemma first_least: "js_sort cmp xs = x # rest \<Longrightarrow> x \<in> set xs \<and> (\<forall>y \<in> set xs. cmp x y \<le> 0)"
proof -
  assume sort: "js_sort cmp xs = x # rest"
  have "set xs = insert x (set rest)" using set_js_sort [of cmp xs] sort by simp
  moreover have "\<forall>y \<in> set rest. cmp x y \<le> 0" using sorted_js_sort [of xs] sort by simp
  moreover have "cmp x x \<le> 0" using cmp_total [of x x] by (cases "cmp x x \<le> 0") simp_all
  ultimately show ?thesis by simp
qed

lemma first_order_free:
  assumes "mset xs = mset ys" "distinct (map key xs)" "js_sort cmp xs = x # xs'" "js_sort cmp ys = y # ys'"
  shows "x = y"
proof -
  have set: "set xs = set ys" using assms(1) by (rule mset_eq_setD)
  have "cmp x y \<le> 0" "cmp y x \<le> 0" "x \<in> set xs" "y \<in> set xs"
    using first_least [OF assms(3)] first_least [OF assms(4)] set by auto
  then show ?thesis using ties assms(2) by (metis distinct_map inj_onD)
qed

end

lemma price_compare_iff:
  "compareServicePriceCandidates a b \<le> 0 \<longleftrightarrow> price_date b < price_date a \<or> price_date b = price_date a \<and>
     (sp_price_id a = None \<and> sp_price_id b \<noteq> None \<or> (sp_price_id a = None) = (sp_price_id b = None) \<and>
       (optional_date (sp_created_at b) < optional_date (sp_created_at a)
        \<or> optional_date (sp_created_at b) = optional_date (sp_created_at a)
          \<and> or_else (sp_price_id a) [] \<le> or_else (sp_price_id b) []))"
  by (auto simp: compareServicePriceCandidates_def compareCalendarDates_compare locale_compare_def Let_def)

interpretation price_order: keyed_comparator compareServicePriceCandidates sp_price_id
proof
  fix a b c :: service_price_rate_row
  show "compareServicePriceCandidates a b > 0 \<Longrightarrow> compareServicePriceCandidates b a \<le> 0"
    unfolding linorder_not_le [symmetric] price_compare_iff by (auto simp: not_less)
  show "compareServicePriceCandidates a b \<le> 0 \<Longrightarrow> compareServicePriceCandidates b c \<le> 0 \<Longrightarrow> compareServicePriceCandidates a c \<le> 0"
    unfolding price_compare_iff by auto
  show "compareServicePriceCandidates a b \<le> 0 \<Longrightarrow> compareServicePriceCandidates b a \<le> 0 \<Longrightarrow> sp_price_id a = sp_price_id b"
    unfolding price_compare_iff by (cases "sp_price_id a"; cases "sp_price_id b") auto
qed

text \<open>
  C35: which catalog price is in effect does not depend on the order the rows are given in, as long as no two
  admitted rows share an identifier, a proposed row without one included; and it is the newest price whose
  date is not after the asked one.
\<close>

theorem effective_price_order_free:
  assumes "distinct (map sp_price_id (filter (admitted_price service currency asOf) prices))"
  shows "(mset prices' = mset prices \<longrightarrow> selectEffectiveServicePrice prices' service currency asOf
      = selectEffectiveServicePrice prices service currency asOf)
    \<and> (case selectEffectiveServicePrice prices service currency asOf of
        None \<Rightarrow> filter (admitted_price service currency asOf) prices = []
      | Some p \<Rightarrow> (\<forall>price \<in> set prices. admitted_price service currency asOf price \<longrightarrow> price_date price \<le> ep_effective_date p)
          \<and> (\<exists>price \<in> set prices. admitted_price service currency asOf price \<and> ep_price_id p = sp_price_id price
            \<and> ep_rate_cents p = toCents (sp_rate price) \<and> ep_effective_date p = price_date price))"
proof -
  let ?a = "filter (admitted_price service currency asOf)"
  have same: "selectEffectiveServicePrice prices' service currency asOf = selectEffectiveServicePrice prices service currency asOf"
    if perm: "mset prices' = mset prices"
  proof -
    have m: "mset (?a prices) = mset (?a prices')" using perm by (metis mset_filter)
    show ?thesis
    proof (cases "js_sort compareServicePriceCandidates (?a prices)")
      case Nil
      then have "?a prices = []" by simp
      moreover from this m have "?a prices' = []" by simp
      ultimately show ?thesis by (simp add: selectEffectiveServicePrice_def)
    next
      case (Cons w rest)
      then have "?a prices \<noteq> []" by auto
      then have "?a prices' \<noteq> []" using m by (metis mset_zero_iff)
      then obtain w' rest' where w': "js_sort compareServicePriceCandidates (?a prices') = w' # rest'"
        by (metis js_sort_Nil_iff neq_Nil_conv)
      have "w = w'" by (rule price_order.first_order_free [OF m assms Cons w'])
      then show ?thesis by (simp add: selectEffectiveServicePrice_def Cons w')
    qed
  qed
  have newest: "case selectEffectiveServicePrice prices service currency asOf of
        None \<Rightarrow> ?a prices = []
      | Some p \<Rightarrow> (\<forall>price \<in> set prices. admitted_price service currency asOf price \<longrightarrow> price_date price \<le> ep_effective_date p)
          \<and> (\<exists>price \<in> set prices. admitted_price service currency asOf price \<and> ep_price_id p = sp_price_id price
            \<and> ep_rate_cents p = toCents (sp_rate price) \<and> ep_effective_date p = price_date price)"
  proof (cases "js_sort compareServicePriceCandidates (?a prices)")
    case Nil
    then have "?a prices = []" by simp
    then show ?thesis by (simp add: selectEffectiveServicePrice_def)
  next
    case (Cons w rest)
    have least: "w \<in> set (?a prices)" "\<forall>y \<in> set (?a prices). compareServicePriceCandidates w y \<le> 0"
      using price_order.first_least [OF Cons] by blast+
    then have "\<forall>y \<in> set prices. admitted_price service currency asOf y \<longrightarrow> price_date y \<le> price_date w"
      unfolding price_compare_iff by (auto simp: less_imp_le)
    then show ?thesis using least(1) by (auto simp: selectEffectiveServicePrice_def Cons)
  qed
  show ?thesis using same newest by blast
qed

text \<open>A stored price and a proposed one of the same day: the proposed one wins in either order.\<close>

definition sample_price :: "string option \<Rightarrow> rat \<Rightarrow> service_price_rate_row" where
  "sample_price i r = \<lparr>sp_price_id = i, sp_service_id = ''s'', sp_currency_code = ''USD'', sp_rate = Cell_Number r,
     sp_effective_date = Some (Date_Text (date_only 20454)), sp_created_at = None\<rparr>"

theorem effective_price_order_free_witness:
  "selectEffectiveServicePrice [sample_price (Some ''p'') 1000, sample_price None 1200] ''s'' ''USD'' 20460
     = selectEffectiveServicePrice [sample_price None 1200, sample_price (Some ''p'') 1000] ''s'' ''USD'' 20460"
proof -
  have "distinct (map sp_price_id (filter (admitted_price ''s'' ''USD'' 20460) [sample_price None 1200, sample_price (Some ''p'') 1000]))"
    by (simp add: sample_price_def admitted_price_def price_date_def compareCalendarDates_compare)
  from effective_price_order_free [OF this, of "[sample_price (Some ''p'') 1000, sample_price None 1200]"]
  show ?thesis by (simp add: add_mset_commute)
qed

section \<open>The schedule that governs\<close>

lemma schedule_compare_iff:
  "compare_schedules a b \<le> 0 \<longleftrightarrow> (sd_contract_line_id a \<noteq> None \<and> sd_contract_line_id b = None)
     \<or> (sd_contract_line_id a = None) = (sd_contract_line_id b = None)
       \<and> toCalendarDate (sd_effective_date b) \<le> toCalendarDate (sd_effective_date a)"
  by (auto simp: compare_schedules_def compareCalendarDates_compare Let_def)

interpretation schedule_order: keyed_comparator compare_schedules "\<lambda>s. toCalendarDate (sd_effective_date s)"
  by unfold_locales (auto simp: linorder_not_le [symmetric] schedule_compare_iff)

lemma member_rate_schedules: "resolveMemberRate (inp\<lparr>fl_schedules := ss\<rparr>) = resolveMemberRate inp"
  by (rule ext) (simp add: resolveMemberRate_def applicable_revisions_def Let_def cong: option.case_cong list.case_cong if_cong)

text \<open>
  C36: the schedule that governs a line is one that is active in the period, a schedule of the line before
  one without a line, and the newest of those; when it carries no rate it does not give way to an older
  schedule: the line is then priced as if there were no schedules at all.
\<close>

theorem schedule_governs:
  "(case selectActivePricingSchedule (fl_schedules inp) (cl_contract_line_id (fl_line inp)) (fl_period inp) of
      None \<Rightarrow> (\<forall>s \<in> set (fl_schedules inp). \<not> applicable_schedule (cl_contract_line_id (fl_line inp)) (fl_period inp) s)
        \<and> resolveFixedLineRate inp = resolveFixedLineRate (inp\<lparr>fl_schedules := []\<rparr>)
    | Some s \<Rightarrow> s \<in> set (fl_schedules inp) \<and> applicable_schedule (cl_contract_line_id (fl_line inp)) (fl_period inp) s
        \<and> (\<forall>s' \<in> set (fl_schedules inp). applicable_schedule (cl_contract_line_id (fl_line inp)) (fl_period inp) s' \<longrightarrow>
            (sd_contract_line_id s \<noteq> None \<and> sd_contract_line_id s' = None)
            \<or> (sd_contract_line_id s = None) = (sd_contract_line_id s' = None)
              \<and> toCalendarDate (sd_effective_date s') \<le> toCalendarDate (sd_effective_date s))
        \<and> (case toCents (sd_custom_rate s) of
             Some c \<Rightarrow> fr_line (resolveFixedLineRate inp) = rate_of c RS_Pricing_Schedule (sd_schedule_id s) RP_Custom
           | None \<Rightarrow> resolveFixedLineRate inp = resolveFixedLineRate (inp\<lparr>fl_schedules := []\<rparr>)))"
proof -
  let ?line = "cl_contract_line_id (fl_line inp)"
  let ?sorted = "js_sort compare_schedules (filter (applicable_schedule ?line (fl_period inp)) (fl_schedules inp))"
  have none: "selectActivePricingSchedule [] ?line (fl_period inp) = None"
    by (simp add: selectActivePricingSchedule_def)
  have unscheduled: "resolveFixedLineRate inp = resolveFixedLineRate (inp\<lparr>fl_schedules := []\<rparr>)"
    if "case selectActivePricingSchedule (fl_schedules inp) ?line (fl_period inp) of None \<Rightarrow> True
      | Some s \<Rightarrow> toCents (sd_custom_rate s) = None"
    using that none by (cases "selectActivePricingSchedule (fl_schedules inp) ?line (fl_period inp)")
      (simp_all add: resolveFixedLineRate_def member_rate_schedules Let_def cong: prod.case_cong if_cong)
  show ?thesis
  proof (cases ?sorted)
    case Nil
    then have "selectActivePricingSchedule (fl_schedules inp) ?line (fl_period inp) = None"
      by (simp add: selectActivePricingSchedule_def)
    moreover have "filter (applicable_schedule ?line (fl_period inp)) (fl_schedules inp) = []" using Nil by simp
    ultimately show ?thesis using unscheduled by (simp add: filter_empty_conv)
  next
    case (Cons s rest)
    then have sel: "selectActivePricingSchedule (fl_schedules inp) ?line (fl_period inp) = Some s"
      by (simp add: selectActivePricingSchedule_def)
    have least: "s \<in> set (fl_schedules inp)" "applicable_schedule ?line (fl_period inp) s"
      "\<forall>s' \<in> set (fl_schedules inp). applicable_schedule ?line (fl_period inp) s' \<longrightarrow> compare_schedules s s' \<le> 0"
      using schedule_order.first_least [OF Cons] by auto
    have "case toCents (sd_custom_rate s) of
             Some c \<Rightarrow> fr_line (resolveFixedLineRate inp) = rate_of c RS_Pricing_Schedule (sd_schedule_id s) RP_Custom
           | None \<Rightarrow> resolveFixedLineRate inp = resolveFixedLineRate (inp\<lparr>fl_schedules := []\<rparr>)"
    proof (cases "toCents (sd_custom_rate s)")
      case None
      then show ?thesis using unscheduled sel by simp
    next
      case (Some c)
      then show ?thesis using sel by (simp add: resolveFixedLineRate_def Let_def)
    qed
    with least show ?thesis unfolding sel schedule_compare_iff by simp
  qed
qed

text \<open>A newer schedule without a rate hides the older one: the line falls back to its own rate.\<close>

definition sample_line_rate :: fixed_line_rate_input where
  "sample_line_rate = \<lparr>fl_line = \<lparr>cl_contract_line_id = ''l'', cl_custom_rate = Cell_Number 5000, cl_rate_provenance = None\<rparr>,
     fl_plan_services = [],
     fl_schedules = [\<lparr>sd_schedule_id = Some ''old'', sd_contract_line_id = Some ''l'', sd_effective_date = Date_Text (date_only 20300),
         sd_end_date = None, sd_custom_rate = Cell_Number 4000\<rparr>,
       \<lparr>sd_schedule_id = Some ''new'', sd_contract_line_id = Some ''l'', sd_effective_date = Date_Text (date_only 20400),
         sd_end_date = None, sd_custom_rate = Cell_Null\<rparr>],
     fl_revisions = [], fl_catalog_prices = [], fl_period = \<lparr>rp_start = 20454, rp_end = 20485\<rparr>,
     fl_currency = ''USD'', fl_tenant_default_currency = None\<rparr>"

theorem schedule_governs_witness:
  "rr_rate_cents (fr_line (resolveFixedLineRate sample_line_rate)) = Some 5000
   \<and> resolveFixedLineRate sample_line_rate = resolveFixedLineRate (sample_line_rate\<lparr>fl_schedules := []\<rparr>)"
proof -
  have "case selectActivePricingSchedule (fl_schedules sample_line_rate) (cl_contract_line_id (fl_line sample_line_rate))
      (fl_period sample_line_rate) of None \<Rightarrow> True | Some s \<Rightarrow> toCents (sd_custom_rate s) = None" by code_simp
  then have "resolveFixedLineRate sample_line_rate = resolveFixedLineRate (sample_line_rate\<lparr>fl_schedules := []\<rparr>)"
    using schedule_governs [of sample_line_rate] by (auto split: option.splits)
  moreover have "rr_rate_cents (fr_line (resolveFixedLineRate sample_line_rate)) = Some 5000" by code_simp
  ultimately show ?thesis by blast
qed

end
