(* ===== verification/Hour_Blocks.thy ===== *)
theory Hour_Blocks
  imports Recurring_Types Complex_Main
begin

text \<open>
  Prepaid hour blocks, \<open>shared/billingClients/hourBlockService.ts\<close>: which entries may draw minutes, from
  which blocks and in which order; the burn of an entry, its reversal, the nightly reconcile and the
  derived balances. The store holds the tables of \<open>server/migrations\<close> for one tenant, every statement
  being scoped to it. A statement either returns the store after it or the error that aborts its
  transaction. Days are day numbers, instants are milliseconds; \<open>local_day\<close> is the calendar of the
  process (\<open>Date.getFullYear\<close> and its companions), an argument.
\<close>

section \<open>The tables\<close>

datatype block_status = Block_Pending | Block_Active | Block_Expired | Block_Voided

datatype block_source = Source_Purchase | Source_Grant

record hour_block =
  hb_block_id :: string
  hb_client_id :: string
  hb_service_id :: string
  hb_total_minutes :: int
  hb_remaining_minutes :: int
  hb_hourly_rate :: int
  hb_purchase_amount :: int
  hb_currency_code :: string
  hb_status :: block_status
  hb_purchased_at :: "int option"
  hb_expiration_date :: "int option"
  hb_source_invoice_id :: "string option"
  hb_source_invoice_charge_id :: "string option"
  hb_source_type :: block_source
  hb_replenishment_bucket_usage_id :: "string option"
  hb_first_allocated_at :: "int option"
  hb_voided_at :: "int option"
  hb_voided_by :: "string option"
  hb_void_reason :: "string option"
  hb_created_by :: "string option"
  hb_notes :: "string option"
  hb_created_at :: "int option"
  hb_updated_at :: int

record block_allocation =
  ba_block_id :: string
  ba_time_entry_id :: string
  ba_minutes :: int

datatype block_audit_type = Audit_Purchase | Audit_Grant | Audit_Adjustment | Audit_Expiration_Change
  | Audit_Manual_Expiration | Audit_Auto_Expiration | Audit_Void | Audit_Purchase_Reversal

text \<open>The metadata of an audit row: the values its kind of row carries.\<close>

datatype block_audit_metadata = No_Metadata
  | Previous_Remaining int
  | Expiration_Dates "int option" "int option"
  | Remaining_At_Expiration int
  | Auto_Expiration "int option" int
  | Source_Invoice string "string option"
  | Synced_Line string string rat rat

record block_audit =
  bu_block_id :: string
  bu_type :: block_audit_type
  bu_minutes_delta :: "int option"
  bu_reason :: "string option"
  bu_created_by :: "string option"
  bu_metadata :: block_audit_metadata

record time_entry =
  te_entry_id :: string
  te_service_id :: "string option"
  te_billable_duration :: "int option"
  te_contract_line_id :: "string option"
  te_work_item_id :: "string option"
  te_work_item_type :: "string option"
  te_work_date :: "int option"
  te_start_time :: "int option"
  te_invoiced :: bool

record client_contract =
  cc_client_id :: string
  cc_contract_id :: string
  cc_is_active :: bool
  cc_start_date :: int
  cc_end_date :: "int option"

text \<open>
  The tables that the statements read or write. A task is listed with the client of its project (the
  joined rows), a ticket and an interaction with their own client.
\<close>

record block_store =
  bs_blocks :: "hour_block list"
  bs_scopes :: "(string \<times> string) list"
  bs_allocations :: "block_allocation list"
  bs_audit :: "block_audit list"
  bs_entries :: "time_entry list"
  bs_task_clients :: "(string \<times> string) list"
  bs_ticket_clients :: "(string \<times> string) list"
  bs_interaction_clients :: "(string \<times> string) list"
  bs_client_contracts :: "client_contract list"
  bs_contract_lines :: "(string \<times> string) list"
  bs_contract_line_services :: "(string \<times> string) list"

datatype block_error = Check_Violation | Unique_Violation | Foreign_Key_Violation | Invalid_Integer
  | Block_Not_Found string | Cannot_Adjust | Expire_Voided | Expire_Pending | Update_Expiration_Voided
  | Only_Pending_Or_Active_Void | Block_Used | Unfinalize_Used string | Delete_Linked string | Reason_Required
  | Permission_Denied | Client_Required | Hours_Positive | Rate_Not_Negative | Service_Required | Client_Missing

text \<open>The checks of the table, and the range of an \<open>integer\<close> column.\<close>

definition int4 :: "int \<Rightarrow> bool" where
  "int4 n \<longleftrightarrow> - 2147483648 \<le> n \<and> n \<le> 2147483647"

definition block_checks :: "hour_block \<Rightarrow> bool" where
  "block_checks b \<longleftrightarrow> 0 \<le> hb_remaining_minutes b \<and> 0 < hb_total_minutes b \<and> int4 (hb_remaining_minutes b)
     \<and> int4 (hb_total_minutes b) \<and> int4 (hb_hourly_rate b) \<and> int4 (hb_purchase_amount b)"

text \<open>An update of the rows that satisfy a condition.\<close>

definition update_blocks :: "(hour_block \<Rightarrow> bool) \<Rightarrow> (hour_block \<Rightarrow> hour_block) \<Rightarrow> block_store \<Rightarrow> block_error + block_store" where
  "update_blocks P f db =
     (if list_all (\<lambda>b. P b \<longrightarrow> block_checks (f b)) (bs_blocks db)
      then Inr (db\<lparr>bs_blocks := map (\<lambda>b. if P b then f b else b) (bs_blocks db)\<rparr>)
      else Inl Check_Violation)"

definition insert_allocation :: "block_allocation \<Rightarrow> block_store \<Rightarrow> block_error + block_store" where
  "insert_allocation a db =
     (if (ba_block_id a, ba_time_entry_id a) \<in> (\<lambda>r. (ba_block_id r, ba_time_entry_id r)) ` set (bs_allocations db)
      then Inl Unique_Violation
      else if ba_block_id a \<notin> hb_block_id ` set (bs_blocks db) then Inl Foreign_Key_Violation
      else Inr (db\<lparr>bs_allocations := bs_allocations db @ [a]\<rparr>))"

section \<open>FIFO allocation\<close>

fun fifo_loop :: "int \<Rightarrow> (string \<times> int) list \<Rightarrow> (string \<times> int) list" where
  "fifo_loop remaining [] = []"
| "fifo_loop remaining ((block_id, remaining_minutes) # blocks) =
     (if remaining \<le> 0 then []
      else let available = max 0 remaining_minutes
        in if available \<le> 0 then fifo_loop remaining blocks
           else let minutes = min available remaining
             in (block_id, minutes) # fifo_loop (remaining - minutes) blocks)"

definition computeFifoAllocation :: "rat \<Rightarrow> (string \<times> int) list \<Rightarrow> (string \<times> int) list" where
  "computeFifoAllocation neededMinutes blocks =
     (let remaining = max 0 \<lfloor>neededMinutes\<rfloor> in if remaining = 0 then [] else fifo_loop remaining blocks)"

section \<open>Eligibility\<close>

definition resolveClientIdForWorkItem :: "block_store \<Rightarrow> string option \<Rightarrow> string option \<Rightarrow> string option" where
  "resolveClientIdForWorkItem db workItemId workItemType =
     (if \<not> truthy workItemId \<or> \<not> truthy workItemType then None
      else if workItemType = Some ''project_task'' then map_of (bs_task_clients db) (the workItemId)
      else if workItemType = Some ''ticket'' then map_of (bs_ticket_clients db) (the workItemId)
      else if workItemType = Some ''interaction'' then map_of (bs_interaction_clients db) (the workItemId)
      else None)"

definition getEligibleContractLineCountForServiceAtDate :: "block_store \<Rightarrow> string \<Rightarrow> string \<Rightarrow> int \<Rightarrow> nat" where
  "getEligibleContractLineCountForServiceAtDate db clientId serviceId workDate =
     length (remdups (concat (map (\<lambda>cc.
       if cc_client_id cc = clientId \<and> cc_is_active cc \<and> cc_start_date cc \<le> workDate
         \<and> (case cc_end_date cc of None \<Rightarrow> True | Some d \<Rightarrow> workDate \<le> d)
       then map fst (filter (\<lambda>(line, contract). contract = cc_contract_id cc
         \<and> (line, serviceId) \<in> set (bs_contract_line_services db)) (bs_contract_lines db))
       else []) (bs_client_contracts db))))"

text \<open>\<open>toDateOnly(entry.work_date) ?? toDateOnly(entry.start_time)\<close>\<close>

definition entry_date :: "(int \<Rightarrow> int) \<Rightarrow> time_entry \<Rightarrow> int option" where
  "entry_date local_day entry = (case te_work_date entry of Some d \<Rightarrow> Some d
     | None \<Rightarrow> map_option local_day (te_start_time entry))"

text \<open>\<open>Math.floor(Number(entry.billable_duration) || 0)\<close>\<close>

definition needed_minutes :: "time_entry \<Rightarrow> int" where
  "needed_minutes entry = or_else (te_billable_duration entry) 0"

definition isEntryEligibleForBlockBurn :: "(int \<Rightarrow> int) \<Rightarrow> block_store \<Rightarrow> time_entry \<Rightarrow> string option \<Rightarrow> bool" where
  "isEntryEligibleForBlockBurn local_day db entry clientId =
     (if \<not> truthy (te_service_id entry) then False
      else if needed_minutes entry \<le> 0 then False
      else if truthy (te_contract_line_id entry) then False
      else
        let resolvedClientId = (case clientId of Some c \<Rightarrow> Some c
              | None \<Rightarrow> resolveClientIdForWorkItem db (te_work_item_id entry) (te_work_item_type entry))
        in if \<not> truthy resolvedClientId then False
           else case entry_date local_day entry of
             None \<Rightarrow> False
           | Some workDate \<Rightarrow> getEligibleContractLineCountForServiceAtDate db (the resolvedClientId)
               (the (te_service_id entry)) workDate \<noteq> 1)"

text \<open>A block without scope rows covers every service, one with scope rows exactly those.\<close>

definition scope_covers :: "block_store \<Rightarrow> string \<Rightarrow> string \<Rightarrow> bool" where
  "scope_covers db block_id service_id \<longleftrightarrow>
     block_id \<notin> fst ` set (bs_scopes db) \<or> (block_id, service_id) \<in> set (bs_scopes db)"

definition not_expired_at :: "int \<Rightarrow> hour_block \<Rightarrow> bool" where
  "not_expired_at day b \<longleftrightarrow> (case hb_expiration_date b of None \<Rightarrow> True | Some d \<Rightarrow> day \<le> d)"

definition burn_compare :: "hour_block \<Rightarrow> hour_block \<Rightarrow> int" where
  "burn_compare a b =
     (if hb_expiration_date a = None \<and> hb_expiration_date b \<noteq> None then 1
      else if hb_expiration_date a \<noteq> None \<and> hb_expiration_date b = None then -1
      else if hb_expiration_date a \<noteq> hb_expiration_date b
        then (if the (hb_expiration_date a) < the (hb_expiration_date b) then -1 else 1)
      else if hb_purchased_at a \<noteq> hb_purchased_at b
        then (case (hb_purchased_at a, hb_purchased_at b) of
            (None, _) \<Rightarrow> -1 | (_, None) \<Rightarrow> 1 | (Some p, Some q) \<Rightarrow> if p < q then -1 else 1)
      else if hb_created_at a \<noteq> hb_created_at b
        then (case (hb_created_at a, hb_created_at b) of
            (None, _) \<Rightarrow> -1 | (_, None) \<Rightarrow> 1 | (Some p, Some q) \<Rightarrow> if p < q then -1 else 1)
      else if hb_block_id a < hb_block_id b then -1 else 1)"

definition burnable :: "block_store \<Rightarrow> string \<Rightarrow> string \<Rightarrow> int \<Rightarrow> hour_block \<Rightarrow> bool" where
  "burnable db clientId serviceId day b \<longleftrightarrow> hb_client_id b = clientId \<and> hb_status b = Block_Active
     \<and> hb_remaining_minutes b > 0 \<and> not_expired_at day b \<and> scope_covers db (hb_block_id b) serviceId"

definition selectEligibleBlocks :: "(int \<Rightarrow> int) \<Rightarrow> block_store \<Rightarrow> string \<Rightarrow> time_entry \<Rightarrow> hour_block list" where
  "selectEligibleBlocks local_day db clientId entry =
     (case entry_date local_day entry of
        None \<Rightarrow> []
      | Some workDate \<Rightarrow> js_sort burn_compare (js_sort (\<lambda>a b. locale_compare (hb_block_id a) (hb_block_id b))
          (filter (burnable db clientId (or_else (te_service_id entry) []) workDate) (bs_blocks db))))"

section \<open>Burn and reversal\<close>

definition burn_block :: "int \<Rightarrow> int \<Rightarrow> hour_block \<Rightarrow> hour_block" where
  "burn_block now minutes b = b\<lparr>hb_remaining_minutes := hb_remaining_minutes b - minutes,
     hb_first_allocated_at := Some (or_else (hb_first_allocated_at b) now), hb_updated_at := now\<rparr>"

fun burn_all :: "int \<Rightarrow> string \<Rightarrow> (string \<times> int) list \<Rightarrow> block_store \<Rightarrow> block_error + block_store" where
  "burn_all now entry_id [] db = Inr db"
| "burn_all now entry_id ((block_id, minutes) # rest) db =
     and_then (insert_allocation \<lparr>ba_block_id = block_id, ba_time_entry_id = entry_id, ba_minutes = minutes\<rparr> db)
       (\<lambda>db1. and_then (update_blocks (\<lambda>b. hb_block_id b = block_id) (burn_block now minutes) db1)
         (\<lambda>db2. burn_all now entry_id rest db2))"

definition allocateTimeEntry :: "(int \<Rightarrow> int) \<Rightarrow> int \<Rightarrow> string \<Rightarrow> time_entry \<Rightarrow> block_store
    \<Rightarrow> block_error + ((string \<times> int) list \<times> block_store)" where
  "allocateTimeEntry local_day now clientId entry db =
     (if \<not> isEntryEligibleForBlockBurn local_day db entry (Some clientId) then Inr ([], db)
      else
        let neededMinutes = needed_minutes entry
        in if neededMinutes \<le> 0 then Inr ([], db)
           else
             let blocks = selectEligibleBlocks local_day db clientId entry;
                 allocations = computeFifoAllocation (of_int neededMinutes)
                   (map (\<lambda>b. (hb_block_id b, hb_remaining_minutes b)) blocks)
             in if allocations = [] then Inr (allocations, db)
                else and_then (burn_all now (te_entry_id entry) allocations db) (\<lambda>db'. Inr (allocations, db')))"

definition restore_block :: "int \<Rightarrow> int \<Rightarrow> hour_block \<Rightarrow> hour_block" where
  "restore_block now minutes b = b\<lparr>hb_remaining_minutes := hb_remaining_minutes b + minutes, hb_updated_at := now\<rparr>"

fun restore_all :: "int \<Rightarrow> block_allocation list \<Rightarrow> block_store \<Rightarrow> block_error + block_store" where
  "restore_all now [] db = Inr db"
| "restore_all now (a # rest) db =
     and_then (update_blocks (\<lambda>b. hb_block_id b = ba_block_id a) (restore_block now (ba_minutes a)) db)
       (\<lambda>db'. restore_all now rest db')"

definition reverseTimeEntryAllocations :: "int \<Rightarrow> string \<Rightarrow> block_store \<Rightarrow> block_error + block_store" where
  "reverseTimeEntryAllocations now timeEntryId db =
     (let allocations = filter (\<lambda>a. ba_time_entry_id a = timeEntryId) (bs_allocations db)
      in if allocations = [] then Inr db
         else and_then (restore_all now allocations db)
           (\<lambda>db'. Inr (db'\<lparr>bs_allocations := filter (\<lambda>a. ba_time_entry_id a \<noteq> timeEntryId) (bs_allocations db')\<rparr>)))"

text \<open>The blocks of a client.\<close>

definition client_blocks :: "block_store \<Rightarrow> string \<Rightarrow> string set" where
  "client_blocks db clientId = hb_block_id ` {b \<in> set (bs_blocks db). hb_client_id b = clientId}"

definition reverseClientTimeEntryAllocations :: "int \<Rightarrow> string \<Rightarrow> string \<Rightarrow> block_store \<Rightarrow> block_error + block_store" where
  "reverseClientTimeEntryAllocations now clientId timeEntryId db =
     (let allocations = filter (\<lambda>a. ba_time_entry_id a = timeEntryId \<and> ba_block_id a \<in> client_blocks db clientId) (bs_allocations db);
          blockIds = map ba_block_id allocations
      in if allocations = [] then Inr db
         else and_then (restore_all now allocations db)
           (\<lambda>db'. Inr (db'\<lparr>bs_allocations := filter (\<lambda>a. \<not> (ba_time_entry_id a = timeEntryId \<and> ba_block_id a \<in> set blockIds))
             (bs_allocations db')\<rparr>)))"

section \<open>The nightly reconcile\<close>

definition work_item_client :: "block_store \<Rightarrow> time_entry \<Rightarrow> string \<Rightarrow> bool" where
  "work_item_client db e clientId \<longleftrightarrow> (case (te_work_item_id e, te_work_item_type e) of
     (Some i, Some t) \<Rightarrow> t = ''ticket'' \<and> map_of (bs_ticket_clients db) i = Some clientId
       \<or> t = ''project_task'' \<and> map_of (bs_task_clients db) i = Some clientId
       \<or> t = ''interaction'' \<and> map_of (bs_interaction_clients db) i = Some clientId
   | _ \<Rightarrow> False)"

definition selectClientEligibleEntries :: "block_store \<Rightarrow> string \<Rightarrow> time_entry list" where
  "selectClientEligibleEntries db clientId = filter (\<lambda>e. te_contract_line_id e = None \<and> te_service_id e \<noteq> None
     \<and> \<not> te_invoiced e \<and> (case te_billable_duration e of None \<Rightarrow> False | Some d \<Rightarrow> 0 < d)
     \<and> work_item_client db e clientId) (bs_entries db)"

text \<open>
  The entries that hold allocations against a block of the client and are not invoiced. The database
  returns distinct rows in an order of its own, \<open>row_order\<close>.
\<close>

definition entries_with_allocations :: "(string list \<Rightarrow> string list) \<Rightarrow> block_store \<Rightarrow> string \<Rightarrow> string list" where
  "entries_with_allocations row_order db clientId = row_order (remdups (map ba_time_entry_id
     (filter (\<lambda>a. ba_block_id a \<in> client_blocks db clientId
       \<and> list_ex (\<lambda>e. te_entry_id e = ba_time_entry_id a \<and> \<not> te_invoiced e) (bs_entries db)) (bs_allocations db))))"

text \<open>The entries of the loop, in its order, each with the row that the maps hold for it.\<close>

definition reconcile_candidates :: "(string list \<Rightarrow> string list) \<Rightarrow> block_store \<Rightarrow> string \<Rightarrow> time_entry list" where
  "reconcile_candidates row_order db clientId =
     (let withAllocations = entries_with_allocations row_order db clientId;
          clientEligible = selectClientEligibleEntries db clientId;
          missingIds = filter (\<lambda>i. i \<notin> te_entry_id ` set clientEligible) withAllocations;
          staleRows = filter (\<lambda>e. te_entry_id e \<in> set missingIds \<and> \<not> te_invoiced e) (bs_entries db);
          entryById = clientEligible @ staleRows;
          candidateIds = js_unique (withAllocations @ map te_entry_id entryById)
      in map (\<lambda>i. case List.find (\<lambda>e. te_entry_id e = i) entryById of
            Some e \<Rightarrow> e
          | None \<Rightarrow> \<lparr>te_entry_id = i, te_service_id = None, te_billable_duration = None, te_contract_line_id = None,
              te_work_item_id = None, te_work_item_type = None, te_work_date = None, te_start_time = None, te_invoiced = False\<rparr>)
          candidateIds)"

definition reconcile_entry :: "(int \<Rightarrow> int) \<Rightarrow> int \<Rightarrow> string \<Rightarrow> time_entry \<Rightarrow> nat \<times> block_store
    \<Rightarrow> block_error + (nat \<times> block_store)" where
  "reconcile_entry local_day now clientId entry state = (case state of (reconciled, db) \<Rightarrow>
     and_then (reverseClientTimeEntryAllocations now clientId (te_entry_id entry) db) (\<lambda>db1.
       if resolveClientIdForWorkItem db (te_work_item_id entry) (te_work_item_type entry) \<noteq> Some clientId
       then Inr (reconciled, db1)
       else if isEntryEligibleForBlockBurn local_day db1 entry (Some clientId)
       then and_then (allocateTimeEntry local_day now clientId entry db1) (\<lambda>(_, db2). Inr (reconciled + 1, db2))
       else Inr (reconciled, db1)))"

fun reconcile_loop :: "(int \<Rightarrow> int) \<Rightarrow> int \<Rightarrow> string \<Rightarrow> time_entry list \<Rightarrow> nat \<times> block_store
    \<Rightarrow> block_error + (nat \<times> block_store)" where
  "reconcile_loop local_day now clientId [] state = Inr state"
| "reconcile_loop local_day now clientId (e # es) state =
     and_then (reconcile_entry local_day now clientId e state) (\<lambda>state'. reconcile_loop local_day now clientId es state')"

definition reconcileClientAllocations :: "(int \<Rightarrow> int) \<Rightarrow> (string list \<Rightarrow> string list) \<Rightarrow> int \<Rightarrow> string \<Rightarrow> block_store
    \<Rightarrow> block_error + (nat \<times> block_store)" where
  "reconcileClientAllocations local_day row_order now clientId db =
     reconcile_loop local_day now clientId (reconcile_candidates row_order db clientId) (0, db)"

section \<open>Derived balances\<close>

definition available_block :: "string \<Rightarrow> int \<Rightarrow> hour_block \<Rightarrow> bool" where
  "available_block clientId today b \<longleftrightarrow> hb_client_id b = clientId \<and> hb_status b = Block_Active
     \<and> hb_remaining_minutes b > 0 \<and> not_expired_at today b"

definition getAvailableHourBlockMinutes :: "int \<Rightarrow> block_store \<Rightarrow> string \<Rightarrow> string option \<Rightarrow> int" where
  "getAvailableHourBlockMinutes today db clientId serviceId =
     sum_list (map hb_remaining_minutes (filter (\<lambda>b. available_block clientId today b
       \<and> (truthy serviceId \<longrightarrow> scope_covers db (hb_block_id b) (the serviceId))) (bs_blocks db)))"

text \<open>The subject that a block is counted for; subjects are pairs of a key and a service.\<close>

definition block_owner :: "block_store \<Rightarrow> (string \<times> string) list \<Rightarrow> hour_block \<Rightarrow> (string \<times> string) option" where
  "block_owner db orderedSubjects block =
     (let scopedServices = map snd (filter (\<lambda>(i, _). i = hb_block_id block) (bs_scopes db));
          attributedOwner = (if truthy (hb_replenishment_bucket_usage_id block)
            then List.find (\<lambda>(key, _). key = the (hb_replenishment_bucket_usage_id block)) orderedSubjects else None);
          owner = (case attributedOwner of Some s \<Rightarrow> Some s
            | None \<Rightarrow> List.find (\<lambda>(_, service). scopedServices = [] \<or> service \<in> set scopedServices) orderedSubjects)
      in case owner of
           None \<Rightarrow> None
         | Some (key, service) \<Rightarrow>
             if scopedServices \<noteq> [] \<and> service \<notin> set scopedServices then None else Some (key, service))"

definition getAvailableHourBlockMinutesForSubjects :: "(string \<Rightarrow> string \<Rightarrow> int) \<Rightarrow> int \<Rightarrow> block_store \<Rightarrow> string
    \<Rightarrow> (string \<times> string) list \<Rightarrow> string \<Rightarrow> int option" where
  "getAvailableHourBlockMinutesForSubjects lc today db clientId subjects =
     (let result = map_of (map (\<lambda>s. (fst s, 0)) subjects);
          blocks = js_sort (\<lambda>a b. locale_compare (hb_block_id a) (hb_block_id b)) (filter (available_block clientId today) (bs_blocks db));
          orderedSubjects = js_sort (\<lambda>a b. lc (fst a) (fst b)) subjects
      in if subjects = [] \<or> blocks = [] then result
         else foldl (\<lambda>r block. case block_owner db orderedSubjects block of
             None \<Rightarrow> r
           | Some (key, _) \<Rightarrow> r(key \<mapsto> or_else (r key) 0 + hb_remaining_minutes block)) result blocks)"

section \<open>FIFO order\<close>

lemma fifo_loop_stop: "r \<le> 0 \<Longrightarrow> fifo_loop r bs = []"
  by (cases bs) auto

lemma fifo_loop_total:
  "sum_list (map snd (fifo_loop r bs)) = min (max 0 r) (sum_list (map (\<lambda>b. max 0 (snd b)) bs))"
proof (induction bs arbitrary: r)
  case Nil
  then show ?case by simp
next
  case (Cons b bs)
  have nonneg: "0 \<le> sum_list (map (\<lambda>b. max 0 (snd b)) bs)" by (induction bs) auto
  show ?case
  proof (cases b)
    case (Pair i rm)
    show ?thesis using Cons.IH [of "r - min rm r"] Cons.IH [of r] nonneg by (auto simp: Pair Let_def fifo_loop_stop)
  qed
qed

lemma fifo_loop_bounds: "(i, m) \<in> set (fifo_loop r bs) \<Longrightarrow> 0 < m \<and> (\<exists>rm. (i, rm) \<in> set bs \<and> m \<le> rm)"
proof (induction bs arbitrary: r)
  case Nil
  then show ?case by simp
next
  case (Cons b bs)
  obtain j rm where b: "b = (j, rm)" by force
  from Cons.prems consider "(i, m) \<in> set (fifo_loop r bs)" | "i = j \<and> m = min rm r \<and> 0 < r \<and> 0 < rm"
    | "(i, m) \<in> set (fifo_loop (r - min rm r) bs)" by (auto simp: b Let_def split: if_splits)
  then show ?case
  proof cases
    case 1
    then show ?thesis using Cons.IH [of r] b by auto
  next
    case 2
    then show ?thesis using b by auto
  next
    case 3
    then show ?thesis using Cons.IH [of "r - min rm r"] b by auto
  qed
qed

lemma fifo_loop_ids: "set (map fst (fifo_loop r bs)) \<subseteq> set (map fst bs)
    \<and> (distinct (map fst bs) \<longrightarrow> distinct (map fst (fifo_loop r bs)))"
proof (induction bs arbitrary: r)
  case Nil
  then show ?case by simp
next
  case (Cons b bs)
  obtain j rm where b: "b = (j, rm)" by force
  show ?case using Cons.IH [of r] Cons.IH [of "r - min rm r"] by (auto simp: b Let_def)
qed

text \<open>A block is drawn from only when every one before it is drawn to its end.\<close>

lemma fifo_loop_exhausts:
  assumes "distinct (map fst (pre @ (i, rm) # post))" "(i, m) \<in> set (fifo_loop r (pre @ (i, rm) # post))"
    "(j, rj) \<in> set pre" "0 < rj"
  shows "(j, rj) \<in> set (fifo_loop r (pre @ (i, rm) # post))"
  using assms
proof (induction pre arbitrary: r)
  case Nil
  then show ?case by simp
next
  case (Cons b pre)
  obtain k rk where b: "b = (k, rk)" by force
  let ?rest = "pre @ (i, rm) # post"
  have k: "k \<noteq> i" using Cons.prems(1) b by auto
  have r: "0 < r" using Cons.prems(2) by (cases "r \<le> 0") (auto simp: fifo_loop_stop)
  show ?case
  proof (cases "rk \<le> 0")
    case True
    then show ?thesis using Cons.prems Cons.IH [of r] r b by auto
  next
    case False
    have in_rest: "(i, m) \<in> set (fifo_loop (r - min rk r) ?rest)" using Cons.prems(2) k r False b by (auto simp: Let_def)
    then have "rk < r" by (cases "rk < r") (auto simp: fifo_loop_stop min_def)
    then have step: "fifo_loop r (b # ?rest) = (k, rk) # fifo_loop (r - rk) ?rest" using False r b by (auto simp: Let_def min_def)
    have "(i, m) \<in> set (fifo_loop (r - rk) ?rest)" using in_rest \<open>rk < r\<close> by (simp add: min_def)
    then show ?thesis using Cons.prems Cons.IH [of "r - rk"] step b by auto
  qed
qed

text \<open>The burn order, and the sort that the code does with it: identifiers differ, so ties do not occur.\<close>

lemma insert_cmp_cong:
  "(\<And>y. y \<in> set ys \<Longrightarrow> cmp x y \<le> 0 \<longleftrightarrow> cmp' x y \<le> 0) \<Longrightarrow> insert_cmp cmp x ys = insert_cmp cmp' x ys"
  by (induction ys) auto

lemma js_sort_cong:
  "distinct xs \<Longrightarrow> (\<And>x y. x \<in> set xs \<Longrightarrow> y \<in> set xs \<Longrightarrow> x \<noteq> y \<Longrightarrow> cmp x y \<le> 0 \<longleftrightarrow> cmp' x y \<le> 0)
   \<Longrightarrow> js_sort cmp xs = js_sort cmp' xs"
proof (induction xs)
  case Nil
  then show ?case by simp
next
  case (Cons x xs)
  have "js_sort cmp xs = js_sort cmp' xs" by (rule Cons.IH) (use Cons.prems in auto)
  moreover have "insert_cmp cmp x (js_sort cmp' xs) = insert_cmp cmp' x (js_sort cmp' xs)"
    by (rule insert_cmp_cong) (use Cons.prems in auto)
  ultimately show ?case by simp
qed

definition option_less :: "int option \<Rightarrow> int option \<Rightarrow> bool" where
  "option_less a b \<longleftrightarrow> (case (a, b) of (_, None) \<Rightarrow> False | (None, Some _) \<Rightarrow> True | (Some p, Some q) \<Rightarrow> p < q)"

definition expires_before :: "hour_block \<Rightarrow> hour_block \<Rightarrow> bool" where
  "expires_before a b \<longleftrightarrow> (case (hb_expiration_date a, hb_expiration_date b) of
     (None, _) \<Rightarrow> False | (Some _, None) \<Rightarrow> True | (Some p, Some q) \<Rightarrow> p < q)"

definition burns_before :: "hour_block \<Rightarrow> hour_block \<Rightarrow> bool" where
  "burns_before a b \<longleftrightarrow> expires_before a b \<or> hb_expiration_date a = hb_expiration_date b \<and>
     (option_less (hb_purchased_at a) (hb_purchased_at b) \<or> hb_purchased_at a = hb_purchased_at b \<and>
       (option_less (hb_created_at a) (hb_created_at b) \<or> hb_created_at a = hb_created_at b \<and> hb_block_id a < hb_block_id b))"

definition burn_order :: "hour_block \<Rightarrow> hour_block \<Rightarrow> int" where
  "burn_order a b = (if burns_before b a then 1 else 0)"

lemma burn_compare_iff: "hb_block_id a \<noteq> hb_block_id b \<Longrightarrow> burn_compare a b \<le> 0 \<longleftrightarrow> burns_before a b"
  by (cases "hb_expiration_date a"; cases "hb_expiration_date b"; cases "hb_purchased_at a"; cases "hb_purchased_at b";
      cases "hb_created_at a"; cases "hb_created_at b")
    (auto simp: burn_compare_def burns_before_def expires_before_def option_less_def)

lemma burn_order_iff: "burn_order a b \<le> 0 \<longleftrightarrow> \<not> burns_before b a"
  by (simp add: burn_order_def)

lemma expiration_order:
  "expires_before a b \<longleftrightarrow> (case hb_expiration_date b of None \<Rightarrow> hb_expiration_date a \<noteq> None
     | Some q \<Rightarrow> (case hb_expiration_date a of None \<Rightarrow> False | Some p \<Rightarrow> p < q))"
  by (auto simp: expires_before_def split: option.splits)

interpretation burn_order: comparator burn_order
proof
  fix x y z :: hour_block
  show "0 < burn_order x y \<Longrightarrow> burn_order y x \<le> 0"
    unfolding linorder_not_le [symmetric] burn_order_iff burns_before_def expiration_order option_less_def
    by (auto split: option.splits)
  show "burn_order x y \<le> 0 \<Longrightarrow> burn_order y z \<le> 0 \<Longrightarrow> burn_order x z \<le> 0"
    unfolding burn_order_iff burns_before_def expiration_order option_less_def
    by (auto split: option.splits)
qed

lemma burns_before_total: "hb_block_id a \<noteq> hb_block_id b \<Longrightarrow> burns_before a b \<or> burns_before b a"
  unfolding burns_before_def expiration_order option_less_def by (auto split: option.splits)

lemma burns_before_asym: "burns_before a b \<Longrightarrow> \<not> burns_before b a"
  unfolding burns_before_def expiration_order option_less_def by (auto split: option.splits)

lemma burn_sort:
  assumes "distinct (map hb_block_id bs)"
  shows "js_sort burn_compare bs = js_sort burn_order bs"
proof (rule js_sort_cong)
  show "distinct bs" using assms by (simp add: distinct_map)
  fix x y assume "x \<in> set bs" "y \<in> set bs" "x \<noteq> y"
  then have "hb_block_id x \<noteq> hb_block_id y" using assms by (metis distinct_map inj_onD)
  then show "burn_compare x y \<le> 0 \<longleftrightarrow> burn_order x y \<le> 0"
    using burns_before_total burns_before_asym by (auto simp: burn_compare_iff burn_order_iff)
qed

text \<open>The blocks selected for an entry: the burnable ones, in burn order.\<close>

lemma selected_blocks:
  assumes "distinct (map hb_block_id (bs_blocks db))"
  shows "entry_date local_day e = Some d \<Longrightarrow>
      set (selectEligibleBlocks local_day db c e) = {b \<in> set (bs_blocks db). burnable db c (or_else (te_service_id e) []) d b}"
    and "entry_date local_day e = Some d \<Longrightarrow> mset (selectEligibleBlocks local_day db c e)
      = mset (filter (burnable db c (or_else (te_service_id e) []) d) (bs_blocks db))"
    and "distinct (map hb_block_id (selectEligibleBlocks local_day db c e))"
    and "sorted_wrt burns_before (selectEligibleBlocks local_day db c e)"
proof -
  let ?s = "selectEligibleBlocks local_day db c e"
  show "entry_date local_day e = Some d \<Longrightarrow>
      set ?s = {b \<in> set (bs_blocks db). burnable db c (or_else (te_service_id e) []) d b}"
    by (simp add: selectEligibleBlocks_def)
  show "entry_date local_day e = Some d \<Longrightarrow> mset ?s = mset (filter (burnable db c (or_else (te_service_id e) []) d) (bs_blocks db))"
    by (simp add: selectEligibleBlocks_def)
  show dist: "distinct (map hb_block_id ?s)"
    using assms by (auto simp: selectEligibleBlocks_def distinct_map_filter split: option.split)
  have "sorted_wrt (\<lambda>a b. burn_order a b \<le> 0) ?s"
  proof (cases "entry_date local_day e")
    case None
    then show ?thesis by (simp add: selectEligibleBlocks_def)
  next
    case (Some d)
    let ?bs = "js_sort (\<lambda>a b. locale_compare (hb_block_id a) (hb_block_id b))
      (filter (burnable db c (or_else (te_service_id e) []) d) (bs_blocks db))"
    have "?s = js_sort burn_order ?bs"
      unfolding selectEligibleBlocks_def Some option.case using assms by (intro burn_sort) (simp add: distinct_map_filter)
    then show ?thesis using burn_order.sorted_js_sort [of ?bs] by simp
  qed
  moreover have "sorted_wrt (\<lambda>a b. burn_order a b \<le> 0) xs \<Longrightarrow> distinct (map hb_block_id xs) \<Longrightarrow> sorted_wrt burns_before xs" for xs
    by (induction xs) (auto simp: burn_order_iff dest: burns_before_total)
  ultimately show "sorted_wrt burns_before ?s" using dist by blast
qed

section \<open>The statements in closed form\<close>

abbreviation allocation_key :: "block_allocation \<Rightarrow> string \<times> string" where
  "allocation_key a \<equiv> (ba_block_id a, ba_time_entry_id a)"

definition store_ok :: "block_store \<Rightarrow> bool" where
  "store_ok db \<longleftrightarrow> distinct (map hb_block_id (bs_blocks db)) \<and> list_all block_checks (bs_blocks db)
     \<and> distinct (map allocation_key (bs_allocations db)) \<and> distinct (map te_entry_id (bs_entries db))
     \<and> (\<forall>a \<in> set (bs_allocations db). 0 < ba_minutes a \<and> ba_block_id a \<in> hb_block_id ` set (bs_blocks db))"

lemma map_of_None_iff: "map_of xs i = None \<longleftrightarrow> i \<notin> set (map fst xs)"
  by (simp add: map_of_eq_None_iff)

definition allocation_rows :: "string \<Rightarrow> (string \<times> int) list \<Rightarrow> block_allocation list" where
  "allocation_rows entry_id as = map (\<lambda>(i, m). \<lparr>ba_block_id = i, ba_time_entry_id = entry_id, ba_minutes = m\<rparr>) as"

definition on_block :: "(string \<times> int) list \<Rightarrow> (int \<Rightarrow> hour_block \<Rightarrow> hour_block) \<Rightarrow> hour_block \<Rightarrow> hour_block" where
  "on_block as f b = (case map_of as (hb_block_id b) of None \<Rightarrow> b | Some m \<Rightarrow> f m b)"

lemma burn_block_simps [simp]:
  "hb_block_id (burn_block now m b) = hb_block_id b" "hb_client_id (burn_block now m b) = hb_client_id b"
  "hb_status (burn_block now m b) = hb_status b" "hb_remaining_minutes (burn_block now m b) = hb_remaining_minutes b - m"
  "hb_first_allocated_at (burn_block now m b) = Some (or_else (hb_first_allocated_at b) now)"
  "hb_block_id (restore_block now m b) = hb_block_id b" "hb_client_id (restore_block now m b) = hb_client_id b"
  "hb_status (restore_block now m b) = hb_status b" "hb_remaining_minutes (restore_block now m b) = hb_remaining_minutes b + m"
  "hb_first_allocated_at (restore_block now m b) = hb_first_allocated_at b"
  "block_checks (restore_block now m b) \<longleftrightarrow> block_checks (b\<lparr>hb_remaining_minutes := hb_remaining_minutes b + m\<rparr>)"
  by (simp_all add: burn_block_def restore_block_def block_checks_def)

lemma same_ids:
  assumes "\<And>b. hb_block_id (f b) = hb_block_id b"
  shows "map hb_block_id (map f bs) = map hb_block_id bs" "hb_block_id ` f ` set bs = hb_block_id ` set bs"
  using assms by (simp_all add: image_image)

lemma burn_all_closed:
  assumes "distinct (map fst as)"
    and "\<forall>(i, m) \<in> set as. 0 \<le> m \<and> i \<in> hb_block_id ` set (bs_blocks db)
      \<and> (i, entry_id) \<notin> allocation_key ` set (bs_allocations db)
      \<and> (\<forall>b \<in> set (bs_blocks db). hb_block_id b = i \<longrightarrow> m \<le> hb_remaining_minutes b \<and> block_checks b)"
  shows "burn_all now entry_id as db = Inr (db\<lparr>bs_blocks := map (on_block as (burn_block now)) (bs_blocks db),
      bs_allocations := bs_allocations db @ allocation_rows entry_id as\<rparr>)"
  using assms
proof (induction as arbitrary: db)
  case Nil
  then show ?case by (simp add: allocation_rows_def on_block_def)
next
  case (Cons a as)
  obtain i m where a: "a = (i, m)" by force
  have new: "i \<notin> set (map fst as)" using Cons.prems(1) a by simp
  let ?db1 = "db\<lparr>bs_allocations := bs_allocations db @ [\<lparr>ba_block_id = i, ba_time_entry_id = entry_id, ba_minutes = m\<rparr>]\<rparr>"
  let ?f = "\<lambda>b. if hb_block_id b = i then burn_block now m b else b"
  let ?db2 = "?db1\<lparr>bs_blocks := map ?f (bs_blocks db)\<rparr>"
  have ins: "insert_allocation \<lparr>ba_block_id = i, ba_time_entry_id = entry_id, ba_minutes = m\<rparr> db = Inr ?db1"
    using Cons.prems(2) a by (auto simp: insert_allocation_def)
  have upd: "update_blocks (\<lambda>b. hb_block_id b = i) (burn_block now m) ?db1 = Inr ?db2"
    using Cons.prems(2) a by (auto simp: update_blocks_def list_all_iff burn_block_def block_checks_def int4_def)
  have ids: "hb_block_id (?f b) = hb_block_id b" for b by (simp add: burn_block_def)
  have rest: "\<forall>(j, n) \<in> set as. 0 \<le> n \<and> j \<in> hb_block_id ` set (bs_blocks ?db2)
      \<and> (j, entry_id) \<notin> allocation_key ` set (bs_allocations ?db2)
      \<and> (\<forall>b \<in> set (bs_blocks ?db2). hb_block_id b = j \<longrightarrow> n \<le> hb_remaining_minutes b \<and> block_checks b)"
  proof (clarify, intro conjI)
    fix j n assume jn: "(j, n) \<in> set as"
    then have j: "j \<noteq> i" using new by force
    have old: "0 \<le> n" "j \<in> hb_block_id ` set (bs_blocks db)" "(j, entry_id) \<notin> allocation_key ` set (bs_allocations db)"
      "\<forall>b \<in> set (bs_blocks db). hb_block_id b = j \<longrightarrow> n \<le> hb_remaining_minutes b \<and> block_checks b"
      using Cons.prems(2) jn by auto
    show "0 \<le> n" by (rule old(1))
    show "j \<in> hb_block_id ` set (bs_blocks ?db2)" using old(2) same_ids(2) [of ?f "bs_blocks db"] ids by simp
    show "(j, entry_id) \<notin> allocation_key ` set (bs_allocations ?db2)" using old(3) j by auto
    show "\<forall>b \<in> set (bs_blocks ?db2). hb_block_id b = j \<longrightarrow> n \<le> hb_remaining_minutes b \<and> block_checks b"
      using old(4) j by auto
  qed
  have ih: "burn_all now entry_id as ?db2 = Inr (?db2\<lparr>bs_blocks := map (on_block as (burn_block now)) (bs_blocks ?db2),
      bs_allocations := bs_allocations ?db2 @ allocation_rows entry_id as\<rparr>)"
    by (rule Cons.IH) (use Cons.prems(1) rest in simp_all)
  have gone: "map_of as i = None" using new by (simp add: map_of_eq_None_iff)
  have comp: "on_block as (burn_block now) (?f b) = on_block (a # as) (burn_block now) b" for b
    using gone by (cases "hb_block_id b = i") (simp_all add: on_block_def a)
  show ?case unfolding a burn_all.simps ins and_then_simps upd ih
    using comp by (simp add: allocation_rows_def o_def a)
qed

lemma on_block_Nil [simp]: "on_block [] f = (\<lambda>b. b)"
  by (rule ext) (simp add: on_block_def)

abbreviation drawn :: "block_allocation list \<Rightarrow> (string \<times> int) list" where
  "drawn as \<equiv> map (\<lambda>a. (ba_block_id a, ba_minutes a)) as"

lemma restore_all_closed:
  "distinct (map ba_block_id as) \<Longrightarrow> restore_all now as db =
     (if list_all (\<lambda>b. case map_of (drawn as) (hb_block_id b) of None \<Rightarrow> True | Some m \<Rightarrow> block_checks (restore_block now m b)) (bs_blocks db)
      then Inr (db\<lparr>bs_blocks := map (on_block (drawn as) (restore_block now)) (bs_blocks db)\<rparr>) else Inl Check_Violation)"
proof (induction as arbitrary: db)
  case Nil
  show ?case by (simp add: list_all_iff)
next
  case (Cons a as)
  let ?f = "\<lambda>b. if hb_block_id b = ba_block_id a then restore_block now (ba_minutes a) b else b"
  let ?ok = "\<lambda>b. case map_of (drawn as) (hb_block_id b) of None \<Rightarrow> True | Some m \<Rightarrow> block_checks (restore_block now m b)"
  have gone: "map_of (drawn as) (ba_block_id a) = None"
    using Cons.prems by (auto simp: map_of_eq_None_iff)
  have comp: "on_block (drawn as) (restore_block now) (?f b) = on_block (drawn (a # as)) (restore_block now) b" for b
    using gone by (cases "hb_block_id b = ba_block_id a") (simp_all add: on_block_def)
  have ok: "(case map_of (drawn (a # as)) (hb_block_id b) of None \<Rightarrow> True | Some m \<Rightarrow> block_checks (restore_block now m b))
      \<longleftrightarrow> (hb_block_id b = ba_block_id a \<longrightarrow> block_checks (restore_block now (ba_minutes a) b)) \<and> ?ok (?f b)" for b
    using gone by (cases "hb_block_id b = ba_block_id a") (simp_all del: burn_block_simps(11))
  show ?case
  proof (cases "list_all (\<lambda>b. hb_block_id b = ba_block_id a \<longrightarrow> block_checks (restore_block now (ba_minutes a) b)) (bs_blocks db)")
    case False
    then have "\<not> list_all (\<lambda>b. case map_of (drawn (a # as)) (hb_block_id b) of None \<Rightarrow> True
        | Some m \<Rightarrow> block_checks (restore_block now m b)) (bs_blocks db)"
      unfolding ok list_all_iff by blast
    then show ?thesis using False by (simp only: restore_all.simps update_blocks_def if_False and_then_simps)
  next
    case True
    let ?db1 = "db\<lparr>bs_blocks := map ?f (bs_blocks db)\<rparr>"
    have step: "update_blocks (\<lambda>b. hb_block_id b = ba_block_id a) (restore_block now (ba_minutes a)) db = Inr ?db1"
      using True by (simp add: update_blocks_def)
    have all: "list_all ?ok (bs_blocks ?db1) \<longleftrightarrow> list_all (\<lambda>b. case map_of (drawn (a # as)) (hb_block_id b) of None \<Rightarrow> True
        | Some m \<Rightarrow> block_checks (restore_block now m b)) (bs_blocks db)"
    proof -
      have "list_all ?ok (bs_blocks ?db1) \<longleftrightarrow> list_all (\<lambda>b. ?ok (?f b)) (bs_blocks db)"
        by (simp add: list.pred_map o_def del: burn_block_simps cong: option.case_cong)
      then show ?thesis unfolding ok using True unfolding list_all_iff by blast
    qed
    have blocks: "map (on_block (drawn as) (restore_block now)) (bs_blocks ?db1) = map (on_block (drawn (a # as)) (restore_block now)) (bs_blocks db)"
      using comp by simp
    have ih: "restore_all now as ?db1 = (if list_all ?ok (bs_blocks ?db1)
        then Inr (?db1\<lparr>bs_blocks := map (on_block (drawn as) (restore_block now)) (bs_blocks ?db1)\<rparr>) else Inl Check_Violation)"
      by (rule Cons.IH) (use Cons.prems in simp)
    show ?thesis unfolding restore_all.simps step and_then_simps ih blocks all by simp
  qed
qed

text \<open>Both reversals take back a set of rows of one entry.\<close>

definition reverse_where :: "int \<Rightarrow> (block_allocation \<Rightarrow> bool) \<Rightarrow> block_store \<Rightarrow> block_error + block_store" where
  "reverse_where now P db =
     (let as = drawn (filter P (bs_allocations db))
      in if list_all (\<lambda>b. case map_of as (hb_block_id b) of None \<Rightarrow> True | Some m \<Rightarrow> block_checks (restore_block now m b)) (bs_blocks db)
         then Inr (db\<lparr>bs_blocks := map (on_block as (restore_block now)) (bs_blocks db),
           bs_allocations := filter (\<lambda>a. \<not> P a) (bs_allocations db)\<rparr>) else Inl Check_Violation)"

lemma rows_of_entry:
  assumes "distinct (map allocation_key as)" "\<And>a. P a \<Longrightarrow> ba_time_entry_id a = e"
  shows "distinct (map ba_block_id (filter P as))"
  using assms(1)
proof (induction as)
  case Nil
  then show ?case by simp
next
  case (Cons a as)
  have other: "P a \<Longrightarrow> b \<in> set as \<Longrightarrow> P b \<Longrightarrow> ba_block_id b \<noteq> ba_block_id a" for b
    
  proof
    assume pa: "P a" and b: "b \<in> set as" "P b" and eq: "ba_block_id b = ba_block_id a"
    have "allocation_key b \<in> allocation_key ` set as" using b(1) by (rule imageI)
    then show False using Cons.prems eq assms(2) [OF pa] assms(2) [OF b(2)] by simp
  qed
  have "P a \<Longrightarrow> ba_block_id a \<notin> ba_block_id ` set (filter P as)" using other by fastforce
  then show ?case using Cons by simp
qed

lemma filter_all: "filter P xs = [] \<Longrightarrow> filter (\<lambda>x. \<not> P x) xs = xs"
  by (simp add: filter_empty_conv)

lemma reverse_entry_where:
  assumes "store_ok db"
  shows "reverseTimeEntryAllocations now e db = reverse_where now (\<lambda>a. ba_time_entry_id a = e) db"
proof (cases "filter (\<lambda>a. ba_time_entry_id a = e) (bs_allocations db) = []")
  case True
  then show ?thesis
    by (simp add: reverseTimeEntryAllocations_def reverse_where_def filter_all list_all_iff)
next
  case False
  have "distinct (map ba_block_id (filter (\<lambda>a. ba_time_entry_id a = e) (bs_allocations db)))"
    using assms by (intro rows_of_entry [where e = e]) (simp_all add: store_ok_def)
  then show ?thesis using False
    by (simp add: reverseTimeEntryAllocations_def reverse_where_def restore_all_closed Let_def del: burn_block_simps)
qed

lemma reverse_client_where:
  assumes "store_ok db"
  shows "reverseClientTimeEntryAllocations now c e db
    = reverse_where now (\<lambda>a. ba_time_entry_id a = e \<and> ba_block_id a \<in> client_blocks db c) db"
proof -
  let ?P = "\<lambda>a. ba_time_entry_id a = e \<and> ba_block_id a \<in> client_blocks db c"
  have del: "filter (\<lambda>a. \<not> (ba_time_entry_id a = e \<and> ba_block_id a \<in> set (map ba_block_id (filter ?P (bs_allocations db))))) (bs_allocations db)
      = filter (\<lambda>a. \<not> ?P a) (bs_allocations db)"
    by (rule filter_cong) auto
  show ?thesis
  proof (cases "filter ?P (bs_allocations db) = []")
    case True
    then have "filter (\<lambda>a. \<not> ?P a) (bs_allocations db) = bs_allocations db" by (rule filter_all)
    then show ?thesis using True
      by (simp add: reverseClientTimeEntryAllocations_def reverse_where_def list_all_iff)
  next
    case False
    have "distinct (map ba_block_id (filter ?P (bs_allocations db)))"
      using assms by (intro rows_of_entry [where e = e]) (simp_all add: store_ok_def)
    then show ?thesis using False del
      by (simp add: reverseClientTimeEntryAllocations_def reverse_where_def restore_all_closed Let_def del: burn_block_simps)
  qed
qed

section \<open>Minutes are conserved\<close>

text \<open>The minutes a block stands for: those left on it and those entries have drawn from it.\<close>

definition allocated :: "block_store \<Rightarrow> string \<Rightarrow> int" where
  "allocated db i = sum_list (map ba_minutes (filter (\<lambda>a. ba_block_id a = i) (bs_allocations db)))"

definition balances :: "block_store \<Rightarrow> (string \<times> int) list" where
  "balances db = map (\<lambda>b. (hb_block_id b, hb_remaining_minutes b + allocated db (hb_block_id b))) (bs_blocks db)"

definition burn_of :: "(int \<Rightarrow> int) \<Rightarrow> string \<Rightarrow> time_entry \<Rightarrow> block_store \<Rightarrow> (string \<times> int) list" where
  "burn_of local_day c e db = (if isEntryEligibleForBlockBurn local_day db e (Some c)
     then computeFifoAllocation (of_int (needed_minutes e))
       (map (\<lambda>b. (hb_block_id b, hb_remaining_minutes b)) (selectEligibleBlocks local_day db c e)) else [])"

definition burned :: "int \<Rightarrow> string \<Rightarrow> (string \<times> int) list \<Rightarrow> block_store \<Rightarrow> block_store" where
  "burned now i as db = db\<lparr>bs_blocks := map (on_block as (burn_block now)) (bs_blocks db),
     bs_allocations := bs_allocations db @ allocation_rows i as\<rparr>"

lemma burned_Nil [simp]: "burned now i [] db = db"
  by (simp add: burned_def allocation_rows_def)

lemma eligible_needed: "isEntryEligibleForBlockBurn local_day db e c \<Longrightarrow> 0 < needed_minutes e"
  by (auto simp: isEntryEligibleForBlockBurn_def split: if_splits)

text \<open>What is drawn: from each block at most once, at most what is left, and only from burnable blocks.\<close>

lemma burn_of_bounds:
  assumes "store_ok db"
  shows "distinct (map fst (burn_of local_day c e db))"
    and "(i, m) \<in> set (burn_of local_day c e db) \<Longrightarrow> 0 < m \<and> (\<exists>b d. b \<in> set (bs_blocks db) \<and> hb_block_id b = i
      \<and> m \<le> hb_remaining_minutes b \<and> entry_date local_day e = Some d \<and> burnable db c (or_else (te_service_id e) []) d b)"
proof -
  let ?s = "map (\<lambda>b. (hb_block_id b, hb_remaining_minutes b)) (selectEligibleBlocks local_day db c e)"
  have ids: "distinct (map hb_block_id (bs_blocks db))" using assms by (simp add: store_ok_def)
  have "distinct (map fst ?s)" using selected_blocks(3) [OF ids] by (simp add: o_def)
  then show "distinct (map fst (burn_of local_day c e db))"
    using fifo_loop_ids by (simp add: burn_of_def computeFifoAllocation_def Let_def)
  assume "(i, m) \<in> set (burn_of local_day c e db)"
  then have "(i, m) \<in> set (fifo_loop (max 0 (needed_minutes e)) ?s)"
    by (auto simp: burn_of_def computeFifoAllocation_def Let_def split: if_splits)
  from fifo_loop_bounds [OF this] obtain b where b: "0 < m" "b \<in> set (selectEligibleBlocks local_day db c e)"
    "hb_block_id b = i" "m \<le> hb_remaining_minutes b" by auto
  then obtain d where d: "entry_date local_day e = Some d" by (cases "entry_date local_day e") (auto simp: selectEligibleBlocks_def)
  show "0 < m \<and> (\<exists>b d. b \<in> set (bs_blocks db) \<and> hb_block_id b = i
      \<and> m \<le> hb_remaining_minutes b \<and> entry_date local_day e = Some d \<and> burnable db c (or_else (te_service_id e) []) d b)"
    using b d selected_blocks(1) [OF ids d] by blast
qed

lemma allocate_closed:
  assumes ok: "store_ok db"
    and fresh: "\<forall>a \<in> set (bs_allocations db). ba_time_entry_id a = te_entry_id e \<longrightarrow> ba_block_id a \<notin> client_blocks db c"
  shows "allocateTimeEntry local_day now c e db = Inr (burn_of local_day c e db, burned now (te_entry_id e) (burn_of local_day c e db) db)"
proof (cases "isEntryEligibleForBlockBurn local_day db e (Some c)")
  case False
  then show ?thesis by (simp add: allocateTimeEntry_def burn_of_def)
next
  case True
  let ?as = "burn_of local_day c e db"
  have as: "computeFifoAllocation (of_int (needed_minutes e))
      (map (\<lambda>b. (hb_block_id b, hb_remaining_minutes b)) (selectEligibleBlocks local_day db c e)) = ?as"
    using True by (simp add: burn_of_def)
  have "burn_all now (te_entry_id e) ?as db = Inr (burned now (te_entry_id e) ?as db)"
    unfolding burned_def
  proof (rule burn_all_closed [OF burn_of_bounds(1) [OF ok]], clarify, intro conjI)
    fix i m assume "(i, m) \<in> set ?as"
    from burn_of_bounds(2) [OF ok this] obtain b d where b: "0 < m" "b \<in> set (bs_blocks db)" "hb_block_id b = i"
      "m \<le> hb_remaining_minutes b" "burnable db c (or_else (te_service_id e) []) d b" by blast
    show "0 \<le> m" using b by simp
    show "i \<in> hb_block_id ` set (bs_blocks db)" using b by blast
    have "i \<in> client_blocks db c" using b by (auto simp: client_blocks_def burnable_def)
    then show "(i, te_entry_id e) \<notin> allocation_key ` set (bs_allocations db)" using fresh by auto
    have "b' = b" if "b' \<in> set (bs_blocks db)" "hb_block_id b' = i" for b'
      using that b ok unfolding store_ok_def distinct_map by (metis inj_onD)
    then show "\<forall>b \<in> set (bs_blocks db). hb_block_id b = i \<longrightarrow> m \<le> hb_remaining_minutes b \<and> block_checks b"
      using b(4) ok by (auto simp: store_ok_def list_all_iff)
  qed
  then show ?thesis using True eligible_needed [OF True] by (auto simp: allocateTimeEntry_def as Let_def)
qed

lemma allocated_append: "sum_list (map ba_minutes (filter (\<lambda>a. ba_block_id a = i) (allocation_rows e as)))
    = sum_list (map snd (filter (\<lambda>p. fst p = i) as))"
  by (induction as) (auto simp: allocation_rows_def)

lemma drawn_from: "distinct (map fst as) \<Longrightarrow> sum_list (map snd (filter (\<lambda>p. fst p = i) as)) = or_else (map_of as i) 0"
proof (induction as)
  case Nil
  then show ?case by simp
next
  case (Cons p as)
  then have "fst p = i \<Longrightarrow> map_of as i = None" by (auto simp: map_of_eq_None_iff)
  then show ?case using Cons by (cases p) auto
qed

lemma store_ok_change:
  assumes "store_ok db" and ids: "\<And>b. hb_block_id (f b) = hb_block_id b"
    and "\<And>b. b \<in> set (bs_blocks db) \<Longrightarrow> block_checks (f b)" and "distinct (map allocation_key as)"
    and "\<And>a. a \<in> set as \<Longrightarrow> 0 < ba_minutes a \<and> ba_block_id a \<in> hb_block_id ` set (bs_blocks db)"
  shows "store_ok (db\<lparr>bs_blocks := map f (bs_blocks db), bs_allocations := as\<rparr>)"
proof -
  have "hb_block_id \<circ> f = hb_block_id" using ids by (simp add: fun_eq_iff)
  moreover have "hb_block_id ` f ` set (bs_blocks db) = hb_block_id ` set (bs_blocks db)" by (rule same_ids(2) [OF ids])
  ultimately show ?thesis using assms by (simp add: store_ok_def list_all_iff)
qed

lemma burned_conserves:
  assumes ok: "store_ok db" and as: "distinct (map fst as)"
    and bounds: "\<forall>(i, m) \<in> set as. 0 < m \<and> i \<in> hb_block_id ` set (bs_blocks db)
      \<and> (i, e) \<notin> allocation_key ` set (bs_allocations db)
      \<and> (\<forall>b \<in> set (bs_blocks db). hb_block_id b = i \<longrightarrow> m \<le> hb_remaining_minutes b)"
  shows "store_ok (burned now e as db) \<and> balances (burned now e as db) = balances db"
proof
  have ids: "hb_block_id (on_block as (burn_block now) b) = hb_block_id b" for b
    by (simp add: on_block_def split: option.split)
  have checks: "block_checks (on_block as (burn_block now) b)" if b: "b \<in> set (bs_blocks db)" for b
  proof (cases "map_of as (hb_block_id b)")
    case None
    then show ?thesis using ok b by (simp add: on_block_def store_ok_def list_all_iff)
  next
    case (Some m)
    then have "0 < m" "m \<le> hb_remaining_minutes b" using bounds b map_of_SomeD [OF Some] by auto
    then show ?thesis using Some ok b by (auto simp: on_block_def store_ok_def list_all_iff block_checks_def int4_def burn_block_def)
  qed
  have keys: "map allocation_key (allocation_rows e as) = map (\<lambda>p. (fst p, e)) as"
    by (simp add: allocation_rows_def case_prod_beta o_def)
  have "distinct (map (\<lambda>p. (fst p, e)) as)" using as by (simp add: distinct_map inj_on_def)
  moreover have "set (map (\<lambda>p. (fst p, e)) as) \<inter> allocation_key ` set (bs_allocations db) = {}" using bounds by fastforce
  ultimately have dist: "distinct (map allocation_key (bs_allocations db @ allocation_rows e as))"
    using ok unfolding map_append keys distinct_append store_ok_def by auto
  have rows: "0 < ba_minutes a \<and> ba_block_id a \<in> hb_block_id ` set (bs_blocks db)" if "a \<in> set (allocation_rows e as)" for a
    using that bounds by (auto simp: allocation_rows_def)
  show "store_ok (burned now e as db)"
    unfolding burned_def
  proof (rule store_ok_change [OF ok ids checks dist])
    fix a assume "a \<in> set (bs_allocations db @ allocation_rows e as)"
    then show "0 < ba_minutes a \<and> ba_block_id a \<in> hb_block_id ` set (bs_blocks db)"
      using rows ok by (auto simp: store_ok_def)
  qed
  have "allocated (burned now e as db) i = allocated db i + or_else (map_of as i) 0" for i
    unfolding allocated_def burned_def by (simp add: allocated_append drawn_from [OF as])
  then show "balances (burned now e as db) = balances db"
    by (auto simp: balances_def burned_def on_block_def split: option.split)
qed

lemma allocate_conserves:
  assumes ok: "store_ok db"
    and fresh: "\<forall>a \<in> set (bs_allocations db). ba_time_entry_id a = te_entry_id e \<longrightarrow> ba_block_id a \<notin> client_blocks db c"
  shows "store_ok (burned now (te_entry_id e) (burn_of local_day c e db) db)
    \<and> balances (burned now (te_entry_id e) (burn_of local_day c e db) db) = balances db"
proof (rule burned_conserves [OF ok burn_of_bounds(1) [OF ok]], clarify, intro conjI)
  fix i m assume "(i, m) \<in> set (burn_of local_day c e db)"
  from burn_of_bounds(2) [OF ok this] obtain b d where b: "0 < m" "b \<in> set (bs_blocks db)" "hb_block_id b = i"
    "m \<le> hb_remaining_minutes b" "burnable db c (or_else (te_service_id e) []) d b" by blast
  show "0 < m" "i \<in> hb_block_id ` set (bs_blocks db)" using b by auto
  have "i \<in> client_blocks db c" using b by (auto simp: client_blocks_def burnable_def)
  then show "(i, te_entry_id e) \<notin> allocation_key ` set (bs_allocations db)" using fresh by auto
  have "b' = b" if "b' \<in> set (bs_blocks db)" "hb_block_id b' = i" for b'
    using that b ok unfolding store_ok_def distinct_map by (metis inj_onD)
  then show "\<forall>b \<in> set (bs_blocks db). hb_block_id b = i \<longrightarrow> m \<le> hb_remaining_minutes b" using b(4) by blast
qed

definition reversed :: "int \<Rightarrow> (block_allocation \<Rightarrow> bool) \<Rightarrow> block_store \<Rightarrow> block_store" where
  "reversed now P db = db\<lparr>bs_blocks := map (on_block (drawn (filter P (bs_allocations db))) (restore_block now)) (bs_blocks db),
     bs_allocations := filter (\<lambda>a. \<not> P a) (bs_allocations db)\<rparr>"

lemma sum_split: "sum_list (map f (filter Q xs)) = sum_list (map f (filter (\<lambda>x. Q x \<and> P x) xs)) + sum_list (map f (filter (\<lambda>x. Q x \<and> \<not> P x) xs))"
  for f :: "'a \<Rightarrow> int"
  by (induction xs) auto

lemma drawn_rows:
  assumes "distinct (map ba_block_id as)"
  shows "sum_list (map ba_minutes (filter (\<lambda>a. ba_block_id a = i) as)) = or_else (map_of (drawn as) i) 0"
proof -
  have "map fst (drawn as) = map ba_block_id as" by simp
  then have "sum_list (map snd (filter (\<lambda>p. fst p = i) (drawn as))) = or_else (map_of (drawn as) i) 0"
    using assms by (intro drawn_from) (simp add: o_def)
  then show ?thesis by (simp add: filter_map o_def)
qed

lemma reversed_balance:
  assumes ok: "store_ok db" and P: "\<And>a. P a \<Longrightarrow> ba_time_entry_id a = e"
  shows "allocated db i = allocated (reversed now P db) i + or_else (map_of (drawn (filter P (bs_allocations db))) i) 0"
proof -
  have "distinct (map ba_block_id (filter P (bs_allocations db)))"
    using ok by (intro rows_of_entry [where e = e] P) (simp_all add: store_ok_def)
  from drawn_rows [OF this] show ?thesis
    using sum_split [of ba_minutes "\<lambda>a. ba_block_id a = i" "bs_allocations db" P]
    by (simp add: allocated_def reversed_def conj_commute)
qed

lemma allocated_nonneg: "store_ok db \<Longrightarrow> 0 \<le> allocated db i"
  unfolding allocated_def by (rule sum_list_nonneg) (auto simp: store_ok_def less_imp_le)

lemma reverse_where_conserves:
  assumes ok: "store_ok db" and P: "\<And>a. P a \<Longrightarrow> ba_time_entry_id a = e" and rev: "reverse_where now P db = Inr db'"
  shows "db' = reversed now P db \<and> store_ok db' \<and> balances db' = balances db"
proof -
  let ?f = "on_block (drawn (filter P (bs_allocations db))) (restore_block now)"
  have fits: "list_all (\<lambda>b. case map_of (drawn (filter P (bs_allocations db))) (hb_block_id b) of None \<Rightarrow> True
      | Some m \<Rightarrow> block_checks (restore_block now m b)) (bs_blocks db)" and db': "db' = reversed now P db"
    using rev by (auto simp: reverse_where_def reversed_def Let_def split: if_splits)
  have checks: "block_checks (?f b)" if "b \<in> set (bs_blocks db)" for b
    using that fits ok by (auto simp: on_block_def list_all_iff store_ok_def split: option.split)
  have ids: "hb_block_id (?f b) = hb_block_id b" for b by (simp add: on_block_def split: option.split)
  have "store_ok (reversed now P db)"
    unfolding reversed_def
    by (rule store_ok_change [OF ok ids checks]) (use ok in \<open>auto simp: store_ok_def distinct_map_filter\<close>)
  moreover have "balances (reversed now P db) = balances db"
    using reversed_balance [OF ok P, where now = now]
    by (auto simp: balances_def reversed_def on_block_def split: option.split)
  ultimately show ?thesis using db' by blast
qed

lemma reverse_where_total:
  assumes ok: "store_ok db" and P: "\<And>a. P a \<Longrightarrow> ba_time_entry_id a = e"
    and range: "\<forall>(i, n) \<in> set (balances db). n \<le> 2147483647"
  shows "reverse_where now P db = Inr (reversed now P db)"
proof -
  let ?d = "drawn (filter P (bs_allocations db))"
  have "block_checks (restore_block now m b)" if b: "b \<in> set (bs_blocks db)" and m: "map_of ?d (hb_block_id b) = Some m" for b m
  proof -
    have row: "\<exists>a \<in> set (bs_allocations db). ba_minutes a = m" using map_of_SomeD [OF m] by auto
    then have "0 < m" using ok by (auto simp: store_ok_def)
    have "hb_remaining_minutes b + allocated db (hb_block_id b) \<le> 2147483647" using range b by (auto simp: balances_def)
    moreover have "m \<le> allocated db (hb_block_id b)"
    proof -
      have "0 \<le> allocated (reversed now P db) (hb_block_id b)"
        unfolding allocated_def by (rule sum_list_nonneg) (use ok in \<open>auto simp: reversed_def store_ok_def less_imp_le\<close>)
      then show ?thesis using reversed_balance [OF ok P, where i = "hb_block_id b" and now = now] m by simp
    qed
    ultimately show ?thesis using \<open>0 < m\<close> ok b by (auto simp: store_ok_def list_all_iff block_checks_def int4_def restore_block_def)
  qed
  then have "list_all (\<lambda>b. case map_of ?d (hb_block_id b) of None \<Rightarrow> True
      | Some m \<Rightarrow> block_checks (restore_block now m b)) (bs_blocks db)"
    unfolding list_all_iff by (auto split: option.split)
  then show ?thesis by (simp add: reverse_where_def reversed_def Let_def)
qed

section \<open>What a burn leaves alone\<close>

text \<open>
  \<open>block_kept\<close>: only the balance, the time of the update and a first burn may differ. \<open>frame c E\<close>: only blocks
  of the client \<open>c\<close> change, only rows of the entries \<open>E\<close> on those blocks, and no other table.
\<close>

definition block_kept :: "hour_block \<Rightarrow> hour_block \<Rightarrow> bool" where
  "block_kept b b' \<longleftrightarrow> b'\<lparr>hb_remaining_minutes := hb_remaining_minutes b, hb_first_allocated_at := hb_first_allocated_at b,
     hb_updated_at := hb_updated_at b\<rparr> = b \<and> (hb_first_allocated_at b \<noteq> None \<longrightarrow> hb_first_allocated_at b' = hb_first_allocated_at b)"

definition frame :: "string \<Rightarrow> string set \<Rightarrow> block_store \<Rightarrow> block_store \<Rightarrow> bool" where
  "frame c E db db' \<longleftrightarrow> db'\<lparr>bs_blocks := bs_blocks db, bs_allocations := bs_allocations db\<rparr> = db
     \<and> list_all2 (\<lambda>b b'. block_kept b b' \<and> (hb_client_id b \<noteq> c \<longrightarrow> b' = b)) (bs_blocks db) (bs_blocks db')
     \<and> filter (\<lambda>a. ba_block_id a \<notin> client_blocks db c \<or> ba_time_entry_id a \<notin> E) (bs_allocations db')
       = filter (\<lambda>a. ba_block_id a \<notin> client_blocks db c \<or> ba_time_entry_id a \<notin> E) (bs_allocations db)"

lemma block_kept_refl [simp]: "block_kept b b"
  by (simp add: block_kept_def)

lemma block_kept_selectors:
  assumes "block_kept b b'"
  shows "hb_block_id b' = hb_block_id b" "hb_client_id b' = hb_client_id b" "hb_status b' = hb_status b"
    "hb_expiration_date b' = hb_expiration_date b" "hb_total_minutes b' = hb_total_minutes b"
    "hb_source_invoice_id b' = hb_source_invoice_id b"
  using assms by (cases b; cases b'; simp add: block_kept_def)+

lemma block_kept_burn [simp]: "block_kept b (burn_block now m b)" "block_kept b (restore_block now m b)"
  by (cases b; auto simp: block_kept_def burn_block_def restore_block_def)+

lemma block_kept_trans: "block_kept a b \<Longrightarrow> block_kept b c \<Longrightarrow> block_kept a c"
  by (cases a; cases b; cases c) (auto simp: block_kept_def)

lemma client_blocks_pairs: "client_blocks db c = {i. (i, c) \<in> set (map (\<lambda>b. (hb_block_id b, hb_client_id b)) (bs_blocks db))}"
  by (auto simp: client_blocks_def)

lemma list_all2_map_eq: "list_all2 (\<lambda>x y. g y = g x) xs ys \<Longrightarrow> map g ys = map g xs"
  by (induction rule: list_all2_induct) auto

lemma frame_client_blocks:
  assumes "frame c E db db'"
  shows "client_blocks db' d = client_blocks db d"
proof -
  have "list_all2 (\<lambda>b b'. (hb_block_id b', hb_client_id b') = (hb_block_id b, hb_client_id b)) (bs_blocks db) (bs_blocks db')"
    by (rule list_all2_mono [of "\<lambda>b b'. block_kept b b' \<and> (hb_client_id b \<noteq> c \<longrightarrow> b' = b)"])
      (use assms block_kept_selectors in \<open>auto simp: frame_def\<close>)
  then show ?thesis unfolding client_blocks_pairs by (simp only: list_all2_map_eq)
qed

lemma frame_refl [simp]: "frame c E db db"
  by (simp add: frame_def list_all2_same)

lemma frame_trans:
  assumes "frame c E db1 db2" "frame c E db2 db3"
  shows "frame c E db1 db3"
proof -
  have cb: "client_blocks db2 c = client_blocks db1 c" by (rule frame_client_blocks [OF assms(1)])
  have "db3\<lparr>bs_blocks := bs_blocks db1, bs_allocations := bs_allocations db1\<rparr> = db1"
    using assms unfolding frame_def by (cases db1; cases db2; cases db3) simp
  moreover have "list_all2 (\<lambda>b b'. block_kept b b' \<and> (hb_client_id b \<noteq> c \<longrightarrow> b' = b)) (bs_blocks db1) (bs_blocks db3)"
  proof (rule list_all2_trans [where as = "bs_blocks db1" and bs = "bs_blocks db2" and cs = "bs_blocks db3"
        and ?P1.0 = "\<lambda>b b'. block_kept b b' \<and> (hb_client_id b \<noteq> c \<longrightarrow> b' = b)"
        and ?P2.0 = "\<lambda>b b'. block_kept b b' \<and> (hb_client_id b \<noteq> c \<longrightarrow> b' = b)"])
    fix x y z assume "block_kept x y \<and> (hb_client_id x \<noteq> c \<longrightarrow> y = x)" "block_kept y z \<and> (hb_client_id y \<noteq> c \<longrightarrow> z = y)"
    then show "block_kept x z \<and> (hb_client_id x \<noteq> c \<longrightarrow> z = x)" using block_kept_trans by auto
  qed (use assms in \<open>auto simp: frame_def\<close>)
  ultimately show ?thesis using assms cb by (simp add: frame_def)
qed

lemma frame_on_block:
  assumes ids: "distinct (map hb_block_id (bs_blocks db))" and f: "\<And>m b. block_kept b (f m b)"
    and own: "\<And>i m. (i, m) \<in> set as \<Longrightarrow> i \<in> client_blocks db c"
    and rows: "filter (\<lambda>a. ba_block_id a \<notin> client_blocks db c \<or> ba_time_entry_id a \<notin> E) rs
       = filter (\<lambda>a. ba_block_id a \<notin> client_blocks db c \<or> ba_time_entry_id a \<notin> E) (bs_allocations db)"
  shows "frame c E db (db\<lparr>bs_blocks := map (on_block as f) (bs_blocks db), bs_allocations := rs\<rparr>)"
proof -
  have "block_kept b (on_block as f b) \<and> (hb_client_id b \<noteq> c \<longrightarrow> on_block as f b = b)" if b: "b \<in> set (bs_blocks db)" for b
  proof (cases "map_of as (hb_block_id b)")
    case None
    then show ?thesis by (simp add: on_block_def)
  next
    case (Some m)
    then have "hb_block_id b \<in> client_blocks db c" using own map_of_SomeD by fast
    then have "hb_client_id b = c" using b ids unfolding client_blocks_def distinct_map inj_on_def by auto
    then show ?thesis using Some f by (simp add: on_block_def)
  qed
  then have "list_all2 (\<lambda>b b'. block_kept b b' \<and> (hb_client_id b \<noteq> c \<longrightarrow> b' = b)) (bs_blocks db) (map (on_block as f) (bs_blocks db))"
    by (simp add: list_all2_map2 list_all2_same)
  then show ?thesis using rows by (simp add: frame_def)
qed

lemma frame_reversed:
  assumes "store_ok db" "\<And>a. P a \<longleftrightarrow> ba_time_entry_id a = e \<and> ba_block_id a \<in> client_blocks db c" "e \<in> E"
  shows "frame c E db (reversed now P db)"
  unfolding reversed_def
proof (rule frame_on_block)
  show "filter (\<lambda>a. ba_block_id a \<notin> client_blocks db c \<or> ba_time_entry_id a \<notin> E) (filter (\<lambda>a. \<not> P a) (bs_allocations db))
      = filter (\<lambda>a. ba_block_id a \<notin> client_blocks db c \<or> ba_time_entry_id a \<notin> E) (bs_allocations db)"
    using assms(2,3) by (auto simp: filter_filter intro!: filter_cong)
qed (use assms in \<open>auto simp: store_ok_def\<close>)

lemma frame_burned:
  assumes ok: "store_ok db" and e: "te_entry_id e \<in> E"
  shows "frame c E db (burned now (te_entry_id e) (burn_of local_day c e db) db)"
proof -
  have own: "i \<in> client_blocks db c" if "(i, m) \<in> set (burn_of local_day c e db)" for i m
    using burn_of_bounds(2) [OF ok that] by (auto simp: client_blocks_def burnable_def)
  have "filter (\<lambda>a. ba_block_id a \<notin> client_blocks db c \<or> ba_time_entry_id a \<notin> E) (allocation_rows (te_entry_id e) (burn_of local_day c e db)) = []"
    using own e by (auto simp: filter_empty_conv allocation_rows_def)
  then show ?thesis unfolding burned_def using own ok by (intro frame_on_block) (auto simp: store_ok_def)
qed

section \<open>The reconcile\<close>

lemma frame_balances_range: "balances db' = balances db \<Longrightarrow>
    (\<forall>(i, n) \<in> set (balances db). n \<le> 2147483647) \<longleftrightarrow> (\<forall>(i, n) \<in> set (balances db'). n \<le> 2147483647)"
  by simp

lemma reversed_fresh:
  assumes "store_ok db" "\<And>a. P a \<longleftrightarrow> ba_time_entry_id a = e \<and> ba_block_id a \<in> client_blocks db c"
  shows "\<forall>a \<in> set (bs_allocations (reversed now P db)). ba_time_entry_id a = e \<longrightarrow> ba_block_id a \<notin> client_blocks (reversed now P db) c"
proof -
  have "client_blocks (reversed now P db) c = client_blocks db c"
    by (rule frame_client_blocks [OF frame_reversed [OF assms, of "{e}"]]) simp
  then show ?thesis using assms(2) by (auto simp: reversed_def)
qed

lemma reconcile_entry_keeps:
  assumes ok: "store_ok db" and run: "reconcile_entry local_day now c e (n, db) = Inr (n', db')" and e: "te_entry_id e \<in> E"
  shows "store_ok db' \<and> balances db' = balances db \<and> frame c E db db'"
proof -
  let ?P = "\<lambda>a. ba_time_entry_id a = te_entry_id e \<and> ba_block_id a \<in> client_blocks db c"
  obtain db1 where rev: "reverseClientTimeEntryAllocations now c (te_entry_id e) db = Inr db1"
    using run by (cases "reverseClientTimeEntryAllocations now c (te_entry_id e) db") (auto simp: reconcile_entry_def)
  from rev have "reverse_where now ?P db = Inr db1" unfolding reverse_client_where [OF ok] .
  from reverse_where_conserves [OF ok _ this, of "te_entry_id e"]
  have db1: "db1 = reversed now ?P db" "store_ok db1" "balances db1 = balances db" by auto
  have f1: "frame c E db db1" unfolding db1(1) by (rule frame_reversed [OF ok _ e]) simp
  have fresh: "\<forall>a \<in> set (bs_allocations db1). ba_time_entry_id a = te_entry_id e \<longrightarrow> ba_block_id a \<notin> client_blocks db1 c"
    unfolding db1(1) by (rule reversed_fresh [OF ok]) simp
  have "db' = db1 \<or> db' = burned now (te_entry_id e) (burn_of local_day c e db1) db1"
    using run by (auto simp: reconcile_entry_def rev allocate_closed [OF db1(2) fresh] split: if_splits)
  then show ?thesis
    using db1 f1 allocate_conserves [OF db1(2) fresh, of now local_day] frame_trans [OF f1 frame_burned [OF db1(2) e]] by auto
qed

lemma reconcile_loop_keeps:
  "store_ok db \<Longrightarrow> reconcile_loop local_day now c es (n, db) = Inr (n', db') \<Longrightarrow> te_entry_id ` set es \<subseteq> E
   \<Longrightarrow> store_ok db' \<and> balances db' = balances db \<and> frame c E db db'"
proof (induction es arbitrary: n db)
  case Nil
  then show ?case by simp
next
  case (Cons e es)
  from Cons.prems(2) obtain m db1 where step: "reconcile_entry local_day now c e (n, db) = Inr (m, db1)"
    "reconcile_loop local_day now c es (m, db1) = Inr (n', db')" by (auto simp: result_simps)
  have one: "store_ok db1 \<and> balances db1 = balances db \<and> frame c E db db1"
    by (rule reconcile_entry_keeps [OF Cons.prems(1) step(1)]) (use Cons.prems(3) in simp)
  then have "store_ok db' \<and> balances db' = balances db1 \<and> frame c E db1 db'"
    using Cons.IH [OF _ step(2)] Cons.prems(3) by simp
  then show ?case using one frame_trans by metis
qed

lemma reconcile_loop_total:
  "store_ok db \<Longrightarrow> \<forall>(i, n) \<in> set (balances db). n \<le> 2147483647 \<Longrightarrow> \<exists>r. reconcile_loop local_day now c es (n, db) = Inr r"
proof (induction es arbitrary: n db)
  case Nil
  then show ?case by simp
next
  case (Cons e es)
  let ?P = "\<lambda>a. ba_time_entry_id a = te_entry_id e \<and> ba_block_id a \<in> client_blocks db c"
  have rev: "reverseClientTimeEntryAllocations now c (te_entry_id e) db = Inr (reversed now ?P db)"
    unfolding reverse_client_where [OF Cons.prems(1)]
    by (rule reverse_where_total [OF Cons.prems(1) _ Cons.prems(2), where e = "te_entry_id e"]) simp
  have "reverse_where now ?P db = Inr (reversed now ?P db)" using rev reverse_client_where [OF Cons.prems(1)] by simp
  from reverse_where_conserves [OF Cons.prems(1) _ this, of "te_entry_id e"] have ok: "store_ok (reversed now ?P db)" by auto
  have "\<exists>m db1. reconcile_entry local_day now c e (n, db) = Inr (m, db1)"
    using allocate_closed [OF ok reversed_fresh [OF Cons.prems(1)]] by (auto simp: reconcile_entry_def rev)
  then obtain m db1 where step: "reconcile_entry local_day now c e (n, db) = Inr (m, db1)" by blast
  from reconcile_entry_keeps [OF Cons.prems(1) this, of UNIV] have db1: "store_ok db1" "balances db1 = balances db" by simp_all
  have "\<forall>(i, n) \<in> set (balances db1). n \<le> 2147483647" unfolding db1(2) by (rule Cons.prems(2))
  from Cons.IH [OF db1(1) this] show ?case by (simp add: step)
qed

lemma found_key: "f d = i \<Longrightarrow> f (case List.find (\<lambda>e. f e = i) xs of Some e \<Rightarrow> e | None \<Rightarrow> d) = i"
  by (auto split: option.split dest: find_SomeD)

text \<open>An entry that is taken up is not invoiced.\<close>

lemma candidate_not_invoiced:
  assumes "distinct (map te_entry_id (bs_entries db))" "set (row_order (remdups (map ba_time_entry_id rows))) \<subseteq> ba_time_entry_id ` set rows"
    and "rows = filter (\<lambda>a. ba_block_id a \<in> client_blocks db c
       \<and> list_ex (\<lambda>e. te_entry_id e = ba_time_entry_id a \<and> \<not> te_invoiced e) (bs_entries db)) (bs_allocations db)"
    and "e \<in> set (reconcile_candidates row_order db c)" "x \<in> set (bs_entries db)" "te_entry_id x = te_entry_id e"
  shows "\<not> te_invoiced x"
proof -
  let ?with = "entries_with_allocations row_order db c"
  let ?stale = "filter (\<lambda>e. te_entry_id e \<in> set (filter (\<lambda>i. i \<notin> te_entry_id ` set (selectClientEligibleEntries db c)) ?with)
      \<and> \<not> te_invoiced e) (bs_entries db)"
  have same: "y = x" if "y \<in> set (bs_entries db)" "te_entry_id y = te_entry_id x" for y
    using that assms(1,5) unfolding distinct_map by (metis inj_onD)
  have "set (js_unique (?with @ map te_entry_id (selectClientEligibleEntries db c @ ?stale)))
      = set ?with \<union> te_entry_id ` (set (selectClientEligibleEntries db c) \<union> set ?stale)"
    by (simp add: image_Un)
  moreover have "te_entry_id e \<in> set (js_unique (?with @ map te_entry_id (selectClientEligibleEntries db c @ ?stale)))"
  proof -
    let ?entries = "selectClientEligibleEntries db c @ ?stale"
    have "te_entry_id (case List.find (\<lambda>e. te_entry_id e = i) ?entries of Some e \<Rightarrow> e
        | None \<Rightarrow> \<lparr>te_entry_id = i, te_service_id = None, te_billable_duration = None, te_contract_line_id = None,
            te_work_item_id = None, te_work_item_type = None, te_work_date = None, te_start_time = None, te_invoiced = False\<rparr>) = i" for i
      by (rule found_key) simp
    then have "map te_entry_id (reconcile_candidates row_order db c) = js_unique (?with @ map te_entry_id ?entries)"
      unfolding reconcile_candidates_def Let_def map_map o_def by (simp only: map_ident)
    then show ?thesis using assms(4) by (metis image_eqI list.set_map)
  qed
  ultimately consider "te_entry_id e \<in> set ?with" | y where "y \<in> set (selectClientEligibleEntries db c) \<union> set ?stale" "te_entry_id y = te_entry_id e"
    by auto
  then show ?thesis
  proof cases
    case 1
    then have "te_entry_id e \<in> ba_time_entry_id ` set rows" using assms(2,3) by (auto simp: entries_with_allocations_def)
    then obtain y where "y \<in> set (bs_entries db)" "te_entry_id y = te_entry_id e" "\<not> te_invoiced y"
      using assms(3) by (auto simp: list_ex_iff)
    then show ?thesis using same assms(6) by metis
  next
    case 2
    then have "y \<in> set (bs_entries db) \<and> \<not> te_invoiced y" by (auto simp: selectClientEligibleEntries_def)
    then show ?thesis using same 2 assms(6) by metis
  qed
qed

text \<open>The rows of a query, in whatever order the database returns them.\<close>

definition arranges :: "(string list \<Rightarrow> string list) \<Rightarrow> bool" where
  "arranges row_order \<longleftrightarrow> (\<forall>xs. mset (row_order xs) = mset xs)"

lemma reverse_entry_conserves:
  assumes "store_ok db" "reverseTimeEntryAllocations now i db = Inr db'"
  shows "db' = reversed now (\<lambda>a. ba_time_entry_id a = i) db \<and> store_ok db' \<and> balances db' = balances db
    \<and> (\<forall>a \<in> set (bs_allocations db'). ba_time_entry_id a \<noteq> i)"
proof -
  have "reverse_where now (\<lambda>a. ba_time_entry_id a = i) db = Inr db'" using assms reverse_entry_where by simp
  from reverse_where_conserves [OF assms(1) _ this, of i] show ?thesis by (auto simp: reversed_def)
qed

text \<open>
  C7: minutes are never lost or made. Taking back the burn of an entry, burning it again as an edit of the
  entry does, and the whole nightly reconcile leave every block with the same total of minutes left and
  minutes drawn; a burn after a reversal never runs into a constraint of the tables.
\<close>

theorem burn_conserves_minutes:
  assumes "store_ok db"
  shows "(\<forall>db1. reverseTimeEntryAllocations now (te_entry_id e) db = Inr db1 \<longrightarrow> store_ok db1 \<and> balances db1 = balances db
      \<and> (\<exists>as db2. allocateTimeEntry local_day now c e db1 = Inr (as, db2) \<and> store_ok db2 \<and> balances db2 = balances db))
    \<and> (\<forall>n db'. reconcileClientAllocations local_day row_order now c db = Inr (n, db') \<longrightarrow> store_ok db' \<and> balances db' = balances db)"
proof (intro conjI allI impI)
  fix db1 assume rev: "reverseTimeEntryAllocations now (te_entry_id e) db = Inr db1"
  from reverse_entry_conserves [OF assms this]
  have db1: "store_ok db1" "balances db1 = balances db" "\<forall>a \<in> set (bs_allocations db1). ba_time_entry_id a \<noteq> te_entry_id e" by auto
  then have fresh: "\<forall>a \<in> set (bs_allocations db1). ba_time_entry_id a = te_entry_id e \<longrightarrow> ba_block_id a \<notin> client_blocks db1 c" by blast
  show "store_ok db1" "balances db1 = balances db" by (rule db1)+
  show "\<exists>as db2. allocateTimeEntry local_day now c e db1 = Inr (as, db2) \<and> store_ok db2 \<and> balances db2 = balances db"
    using allocate_closed [OF db1(1) fresh] allocate_conserves [OF db1(1) fresh] db1(2) by simp
next
  fix n db' assume "reconcileClientAllocations local_day row_order now c db = Inr (n, db')"
  then have run: "reconcile_loop local_day now c (reconcile_candidates row_order db c) (0, db) = Inr (n, db')"
    by (simp add: reconcileClientAllocations_def)
  from reconcile_loop_keeps [OF assms run, of UNIV] show "store_ok db'" "balances db' = balances db" by auto
qed

text \<open>
  C10: the nightly reconcile of a client completes, whatever order the database returns its entries in, when the
  minutes left on and drawn from each block fit its integer column together (a reversal gives drawn minutes back).
  It changes no block of another client, no allocation on one, no allocation of an invoiced entry and no other
  table; of a block of the client it changes at most the balance, the time of the update and, where there is none
  yet, the mark of the first use.
\<close>

theorem reconcile_stays_within_client:
  assumes ok: "store_ok db" and order: "arranges row_order" and range: "\<forall>(i, n) \<in> set (balances db). n \<le> 2147483647"
  shows "\<exists>n db'. reconcileClientAllocations local_day row_order now c db = Inr (n, db')
    \<and> list_all2 (\<lambda>b b'. if hb_client_id b = c
          then b = b'\<lparr>hb_remaining_minutes := hb_remaining_minutes b, hb_first_allocated_at := hb_first_allocated_at b,
                 hb_updated_at := hb_updated_at b\<rparr>
            \<and> (hb_first_allocated_at b \<noteq> None \<longrightarrow> hb_first_allocated_at b' = hb_first_allocated_at b)
          else b' = b) (bs_blocks db) (bs_blocks db')
    \<and> (\<forall>a. ba_block_id a \<notin> client_blocks db c
          \<or> list_ex (\<lambda>x. te_entry_id x = ba_time_entry_id a \<and> te_invoiced x) (bs_entries db)
        \<longrightarrow> (a \<in> set (bs_allocations db') \<longleftrightarrow> a \<in> set (bs_allocations db)))
    \<and> db'\<lparr>bs_blocks := bs_blocks db, bs_allocations := bs_allocations db\<rparr> = db"
proof -
  let ?es = "reconcile_candidates row_order db c"
  obtain n db' where run: "reconcile_loop local_day now c ?es (0, db) = Inr (n, db')"
    using reconcile_loop_total [OF ok range] by (metis surj_pair)
  have fr: "frame c (te_entry_id ` set ?es) db db'"
    using reconcile_loop_keeps [OF ok run, of "te_entry_id ` set ?es"] by simp
  have kept: "list_all2 (\<lambda>b b'. block_kept b b' \<and> (hb_client_id b \<noteq> c \<longrightarrow> b' = b)) (bs_blocks db) (bs_blocks db')"
    using fr by (simp add: frame_def)
  have rows: "a \<in> set (bs_allocations db') \<longleftrightarrow> a \<in> set (bs_allocations db)"
    if a: "ba_block_id a \<notin> client_blocks db c \<or> list_ex (\<lambda>x. te_entry_id x = ba_time_entry_id a \<and> te_invoiced x) (bs_entries db)" for a
  proof -
    let ?Q = "\<lambda>a. ba_block_id a \<notin> client_blocks db c \<or> ba_time_entry_id a \<notin> te_entry_id ` set ?es"
    have q: "?Q a"
    proof (cases "ba_block_id a \<notin> client_blocks db c")
      case False
      then obtain x where x: "x \<in> set (bs_entries db)" "te_entry_id x = ba_time_entry_id a" "te_invoiced x"
        using a by (auto simp: list_ex_iff)
      have "te_entry_id e \<noteq> ba_time_entry_id a" if e: "e \<in> set ?es" for e
      proof
        assume eq: "te_entry_id e = ba_time_entry_id a"
        have "distinct (map te_entry_id (bs_entries db))" using ok by (simp add: store_ok_def)
        moreover have "set (row_order xs) = set xs" for xs using order mset_eq_setD unfolding arranges_def by blast
        ultimately have "\<not> te_invoiced x"
          using candidate_not_invoiced [OF _ _ refl e x(1)] x(2) eq by simp
        then show False using x(3) by simp
      qed
      then show ?thesis by force
    qed simp
    have "filter ?Q (bs_allocations db') = filter ?Q (bs_allocations db)" using fr by (simp add: frame_def)
    then have "a \<in> set (filter ?Q (bs_allocations db')) \<longleftrightarrow> a \<in> set (filter ?Q (bs_allocations db))" by simp
    with q show ?thesis unfolding set_filter mem_Collect_eq by blast
  qed
  have "list_all2 (\<lambda>b b'. if hb_client_id b = c
          then b = b'\<lparr>hb_remaining_minutes := hb_remaining_minutes b, hb_first_allocated_at := hb_first_allocated_at b,
                 hb_updated_at := hb_updated_at b\<rparr>
            \<and> (hb_first_allocated_at b \<noteq> None \<longrightarrow> hb_first_allocated_at b' = hb_first_allocated_at b)
          else b' = b) (bs_blocks db) (bs_blocks db')"
    by (rule list_all2_mono [OF kept]) (simp add: block_kept_def)
  moreover have "db'\<lparr>bs_blocks := bs_blocks db, bs_allocations := bs_allocations db\<rparr> = db" using fr by (simp add: frame_def)
  ultimately show ?thesis using run rows unfolding reconcileClientAllocations_def by blast
qed

section \<open>Burns are first in, first out\<close>

lemma burn_of_fifo:
  assumes ok: "store_ok db" and d: "entry_date local_day e = Some d" and im: "(i, m) \<in> set (burn_of local_day c e db)"
    and a: "a \<in> set (bs_blocks db)" "burnable db c (or_else (te_service_id e) []) d a"
    and b: "b \<in> set (bs_blocks db)" "hb_block_id b = i" "burns_before a b"
  shows "(hb_block_id a, hb_remaining_minutes a) \<in> set (burn_of local_day c e db)"
proof -
  let ?sel = "selectEligibleBlocks local_day db c e"
  let ?p = "\<lambda>b. (hb_block_id b, hb_remaining_minutes b)"
  have ids: "distinct (map hb_block_id (bs_blocks db))" using ok by (simp add: store_ok_def)
  have loop: "burn_of local_day c e db = fifo_loop (max 0 (needed_minutes e)) (map ?p ?sel)"
    using im by (auto simp: burn_of_def computeFifoAllocation_def Let_def split: if_splits)
  from burn_of_bounds(2) [OF ok im] obtain b' where b': "b' \<in> set (bs_blocks db)" "hb_block_id b' = i"
    "burnable db c (or_else (te_service_id e) []) d b'" using d by auto
  have "b' = b" using b' b ids unfolding distinct_map by (metis inj_onD)
  then have "b \<in> set ?sel" using b' selected_blocks(1) [OF ids d] by blast
  then obtain pre post where sel: "?sel = pre @ b # post" by (auto dest: split_list)
  have "a \<in> set ?sel" using a selected_blocks(1) [OF ids d] by blast
  moreover have "a \<notin> set (b # post)"
  proof
    assume "a \<in> set (b # post)"
    moreover have "\<forall>x \<in> set post. burns_before b x" using selected_blocks(4) [OF ids, of local_day c e] by (simp add: sel sorted_wrt_append)
    ultimately show False using b(3) burns_before_asym by auto
  qed
  ultimately have "a \<in> set pre" by (simp add: sel)
  then have pa: "?p a \<in> set (map ?p pre)" by simp
  have pos: "0 < hb_remaining_minutes a" using a(2) by (simp add: burnable_def)
  have dist: "distinct (map fst (map ?p pre @ (i, hb_remaining_minutes b) # map ?p post))"
    using selected_blocks(3) [OF ids, of local_day c e] b(2) by (simp add: sel o_def)
  have im': "(i, m) \<in> set (fifo_loop (max 0 (needed_minutes e)) (map ?p pre @ (i, hb_remaining_minutes b) # map ?p post))"
    using im unfolding loop sel by (simp only: map_append list.map b(2))
  have "?p a \<in> set (fifo_loop (max 0 (needed_minutes e)) (map ?p pre @ (i, hb_remaining_minutes b) # map ?p post))"
    by (rule fifo_loop_exhausts [OF dist im' pa pos])
  then show ?thesis unfolding loop sel by (simp only: map_append list.map b(2))
qed

lemma burn_of_total:
  assumes ok: "store_ok db" and d: "entry_date local_day e = Some d" and el: "isEntryEligibleForBlockBurn local_day db e (Some c)"
  shows "sum_list (map snd (burn_of local_day c e db)) = min (needed_minutes e) (getAvailableHourBlockMinutes d db c (te_service_id e))"
proof -
  let ?sel = "selectEligibleBlocks local_day db c e"
  have ids: "distinct (map hb_block_id (bs_blocks db))" using ok by (simp add: store_ok_def)
  have service: "truthy (te_service_id e)" using el by (auto simp: isEntryEligibleForBlockBurn_def split: if_splits)
  then obtain s where s: "te_service_id e = Some s" by (cases "te_service_id e") (auto simp: truthy_def)
  have same: "burnable db c s d = (\<lambda>b. available_block c d b \<and> scope_covers db (hb_block_id b) s)"
    by (rule ext) (auto simp: burnable_def available_block_def)
  have "mset (map hb_remaining_minutes ?sel) = mset (map hb_remaining_minutes (filter (burnable db c s d) (bs_blocks db)))"
    using selected_blocks(2) [OF ids d] by (simp add: s)
  then have "sum_list (map hb_remaining_minutes ?sel) = sum_list (map hb_remaining_minutes (filter (burnable db c s d) (bs_blocks db)))"
    by (metis sum_mset_sum_list)
  also have "\<dots> = getAvailableHourBlockMinutes d db c (te_service_id e)"
    using service by (simp add: getAvailableHourBlockMinutes_def s same)
  finally have avail: "sum_list (map hb_remaining_minutes ?sel) = getAvailableHourBlockMinutes d db c (te_service_id e)" .
  have "map (\<lambda>b. max 0 (hb_remaining_minutes b)) ?sel = map hb_remaining_minutes ?sel"
    using selected_blocks(1) [OF ids d, of c] by (auto simp: burnable_def)
  then have "sum_list (map (\<lambda>b. max 0 (hb_remaining_minutes b)) ?sel) = sum_list (map hb_remaining_minutes ?sel)"
    by (rule arg_cong)
  then have pos: "sum_list (map (\<lambda>p. max 0 (snd p)) (map (\<lambda>b. (hb_block_id b, hb_remaining_minutes b)) ?sel)) = sum_list (map hb_remaining_minutes ?sel)"
    by (simp add: o_def)
  have "0 < needed_minutes e" by (rule eligible_needed [OF el])
  then show ?thesis using el pos avail by (simp add: burn_of_def computeFifoAllocation_def Let_def fifo_loop_total)
qed

text \<open>
  C9: an eligible entry draws as many minutes as it needs or as are available to it at its date, whichever is
  less; only from blocks that are active, unexpired at its date and cover its service; and from a block only
  when every burnable block that burns before it (that expires sooner, was bought or created earlier) is drawn to its end.
\<close>

theorem burn_is_fifo:
  assumes "store_ok db" "\<forall>a \<in> set (bs_allocations db). ba_time_entry_id a \<noteq> te_entry_id e"
    and "isEntryEligibleForBlockBurn local_day db e (Some c)" "entry_date local_day e = Some d"
  shows "\<exists>as db'. allocateTimeEntry local_day now c e db = Inr (as, db')
    \<and> sum_list (map snd as) = min (needed_minutes e) (getAvailableHourBlockMinutes d db c (te_service_id e))
    \<and> (\<forall>i. allocated db' i = allocated db i + or_else (map_of as i) 0)
    \<and> (\<forall>(i, m) \<in> set as. \<exists>b \<in> set (bs_blocks db). hb_block_id b = i \<and> 0 < m \<and> m \<le> hb_remaining_minutes b
        \<and> burnable db c (or_else (te_service_id e) []) d b
        \<and> (\<forall>a \<in> set (bs_blocks db). burnable db c (or_else (te_service_id e) []) d a \<and> burns_before a b
            \<longrightarrow> (hb_block_id a, hb_remaining_minutes a) \<in> set as))"
proof (intro exI conjI allI)
  let ?as = "burn_of local_day c e db"
  show "allocateTimeEntry local_day now c e db = Inr (?as, burned now (te_entry_id e) ?as db)"
    by (rule allocate_closed [OF assms(1)]) (use assms(2) in blast)
  show "sum_list (map snd ?as) = min (needed_minutes e) (getAvailableHourBlockMinutes d db c (te_service_id e))"
    by (rule burn_of_total [OF assms(1,4,3)])
  show "allocated (burned now (te_entry_id e) ?as db) i = allocated db i + or_else (map_of ?as i) 0" for i
    unfolding allocated_def burned_def by (simp add: allocated_append drawn_from [OF burn_of_bounds(1) [OF assms(1)]])
  show "\<forall>(i, m) \<in> set ?as. \<exists>b \<in> set (bs_blocks db). hb_block_id b = i \<and> 0 < m \<and> m \<le> hb_remaining_minutes b
        \<and> burnable db c (or_else (te_service_id e) []) d b
        \<and> (\<forall>a \<in> set (bs_blocks db). burnable db c (or_else (te_service_id e) []) d a \<and> burns_before a b
            \<longrightarrow> (hb_block_id a, hb_remaining_minutes a) \<in> set ?as)"
  proof clarify
    fix i m assume im: "(i, m) \<in> set ?as"
    from burn_of_bounds(2) [OF assms(1) im] obtain b where b: "0 < m" "b \<in> set (bs_blocks db)" "hb_block_id b = i"
      "m \<le> hb_remaining_minutes b" "burnable db c (or_else (te_service_id e) []) d b" using assms(4) by auto
    show "\<exists>b \<in> set (bs_blocks db). hb_block_id b = i \<and> 0 < m \<and> m \<le> hb_remaining_minutes b
        \<and> burnable db c (or_else (te_service_id e) []) d b
        \<and> (\<forall>a \<in> set (bs_blocks db). burnable db c (or_else (te_service_id e) []) d a \<and> burns_before a b
            \<longrightarrow> (hb_block_id a, hb_remaining_minutes a) \<in> set ?as)"
      using b burn_of_fifo [OF assms(1,4) im _ _ b(2,3)] by blast
  qed
qed

text \<open>
  C37: taking back a burn right after it was made restores the store: every block as it was, but for the time
  of its last update and the mark that it has been used, and no allocation of the entry.
\<close>

theorem burn_reversal_round_trip:
  assumes "store_ok db" "\<forall>a \<in> set (bs_allocations db). ba_time_entry_id a \<noteq> te_entry_id e"
    and "allocateTimeEntry local_day now c e db = Inr (as, db1)"
  shows "\<exists>db2. reverseTimeEntryAllocations now' (te_entry_id e) db1 = Inr db2
    \<and> map (\<lambda>b. b\<lparr>hb_first_allocated_at := None, hb_updated_at := 0\<rparr>) (bs_blocks db2)
      = map (\<lambda>b. b\<lparr>hb_first_allocated_at := None, hb_updated_at := 0\<rparr>) (bs_blocks db)
    \<and> bs_allocations db2 = bs_allocations db
    \<and> db2\<lparr>bs_blocks := bs_blocks db, bs_allocations := bs_allocations db\<rparr> = db"
proof -
  have fresh: "\<forall>a \<in> set (bs_allocations db). ba_time_entry_id a = te_entry_id e \<longrightarrow> ba_block_id a \<notin> client_blocks db c"
    using assms(2) by blast
  let ?as = "burn_of local_day c e db"
  let ?P = "\<lambda>a. ba_time_entry_id a = te_entry_id e"
  have db1: "db1 = burned now (te_entry_id e) ?as db"
    using assms(3) unfolding allocate_closed [OF assms(1) fresh] by blast
  have ok1: "store_ok db1" unfolding db1 using allocate_conserves [OF assms(1) fresh] by blast
  have mine: "filter ?P (bs_allocations db1) = allocation_rows (te_entry_id e) ?as"
    "filter (\<lambda>a. \<not> ?P a) (bs_allocations db1) = bs_allocations db"
    using assms(2) by (auto simp: db1 burned_def allocation_rows_def filter_empty_conv filter_id_conv)
  have drawn: "drawn (allocation_rows (te_entry_id e) ?as) = ?as"
    by (simp add: allocation_rows_def o_def case_prod_beta)
  let ?b = "on_block ?as (burn_block now)" and ?r = "on_block ?as (restore_block now')"
  have id: "hb_block_id (?b b) = hb_block_id b" for b by (simp add: on_block_def split: option.split)
  have undone: "(?r (?b b))\<lparr>hb_first_allocated_at := None, hb_updated_at := 0\<rparr> = b\<lparr>hb_first_allocated_at := None, hb_updated_at := 0\<rparr>" for b
    by (cases b) (simp add: on_block_def burn_block_def restore_block_def split: option.split)
  have "block_checks (restore_block now' m (?b b))" if "b \<in> set (bs_blocks db)" "map_of ?as (hb_block_id b) = Some m" for b m
    using that assms(1) by (auto simp: on_block_def store_ok_def list_all_iff block_checks_def burn_block_def restore_block_def)
  then have "reverse_where now' ?P db1 = Inr (reversed now' ?P db1)"
    unfolding reverse_where_def reversed_def mine drawn Let_def
    by (auto simp: db1 burned_def list_all_iff id split: option.split)
  then have "reverseTimeEntryAllocations now' (te_entry_id e) db1 = Inr (reversed now' ?P db1)"
    using reverse_entry_where [OF ok1] by simp
  moreover have "map (\<lambda>b. b\<lparr>hb_first_allocated_at := None, hb_updated_at := 0\<rparr>) (bs_blocks (reversed now' ?P db1))
      = map (\<lambda>b. b\<lparr>hb_first_allocated_at := None, hb_updated_at := 0\<rparr>) (bs_blocks db)"
    unfolding reversed_def mine drawn using undone by (simp add: db1 burned_def o_def)
  ultimately show ?thesis by (auto simp: reversed_def mine) (simp add: db1 burned_def)
qed

section \<open>Sample stores\<close>

definition sample_block :: "string \<Rightarrow> block_status \<Rightarrow> int option \<Rightarrow> int \<Rightarrow> int \<Rightarrow> hour_block" where
  "sample_block i status expiration bought left = \<lparr>hb_block_id = i, hb_client_id = ''c'', hb_service_id = ''s'',
     hb_total_minutes = bought, hb_remaining_minutes = left, hb_hourly_rate = 12000, hb_purchase_amount = 200 * bought,
     hb_currency_code = ''USD'', hb_status = status, hb_purchased_at = Some 1000, hb_expiration_date = expiration,
     hb_source_invoice_id = None, hb_source_invoice_charge_id = None, hb_source_type = Source_Grant,
     hb_replenishment_bucket_usage_id = None, hb_first_allocated_at = None, hb_voided_at = None, hb_voided_by = None,
     hb_void_reason = None, hb_created_by = None, hb_notes = None, hb_created_at = Some 1000, hb_updated_at = 1000\<rparr>"

definition sample_entry :: "string \<Rightarrow> string \<Rightarrow> int \<Rightarrow> int \<Rightarrow> time_entry" where
  "sample_entry i service minutes day = \<lparr>te_entry_id = i, te_service_id = Some service, te_billable_duration = Some minutes,
     te_contract_line_id = None, te_work_item_id = Some ''t'', te_work_item_type = Some ''ticket'', te_work_date = Some day,
     te_start_time = None, te_invoiced = False\<rparr>"

definition sample_store :: "hour_block list \<Rightarrow> block_allocation list \<Rightarrow> time_entry list \<Rightarrow> (string \<times> string) list \<Rightarrow> block_store" where
  "sample_store blocks allocations entries covered = \<lparr>bs_blocks = blocks, bs_scopes = [], bs_allocations = allocations, bs_audit = [],
     bs_entries = entries, bs_task_clients = [], bs_ticket_clients = [(''t'', ''c'')], bs_interaction_clients = [],
     bs_client_contracts = [\<lparr>cc_client_id = ''c'', cc_contract_id = ''k'', cc_is_active = True, cc_start_date = 20400, cc_end_date = None\<rparr>],
     bs_contract_lines = [(''l'', ''k'')], bs_contract_line_services = covered\<rparr>"

text \<open>Ninety minutes against an hour that expires and two hours that do not.\<close>

definition fresh_store :: block_store where
  "fresh_store = sample_store [sample_block ''b2'' Block_Active None 120 120, sample_block ''b1'' Block_Active (Some 20500) 60 60]
     [] [sample_entry ''e'' ''s'' 90 20454] []"

lemma fresh_store_ok: "store_ok fresh_store"
  by code_simp

lemma fresh_entry: "\<forall>a \<in> set (bs_allocations fresh_store). ba_time_entry_id a \<noteq> te_entry_id (sample_entry ''e'' ''s'' 90 20454)"
  by (simp add: fresh_store_def sample_store_def)

lemma fresh_allocation: "\<exists>db. allocateTimeEntry id 7 ''c'' (sample_entry ''e'' ''s'' 90 20454) fresh_store = Inr ([(''b1'', 60), (''b2'', 30)], db)"
  using allocate_closed [OF fresh_store_ok, of "sample_entry ''e'' ''s'' 90 20454" "''c''"] fresh_entry
  by (simp add: burn_of_def) (code_simp)

theorem burn_conserves_minutes_witness:
  "balances fresh_store = [(''b2'', 120), (''b1'', 60)]
   \<and> (\<exists>n db'. reconcileClientAllocations id id 7 ''c'' fresh_store = Inr (n, db') \<and> balances db' = [(''b2'', 120), (''b1'', 60)])"
proof -
  have fresh: "balances fresh_store = [(''b2'', 120), (''b1'', 60)]" by code_simp
  have "case reconcileClientAllocations id id 7 ''c'' fresh_store of Inl _ \<Rightarrow> False | Inr _ \<Rightarrow> True" by code_simp
  then obtain n db' where "reconcileClientAllocations id id 7 ''c'' fresh_store = Inr (n, db')" by (auto split: sum.splits)
  then show ?thesis using burn_conserves_minutes [OF fresh_store_ok] fresh by fastforce
qed

theorem reconcile_stays_within_client_witness:
  "\<exists>n db'. reconcileClientAllocations id rev 7 ''c'' fresh_store = Inr (n, db')"
proof -
  have range: "\<forall>(i, n) \<in> set (balances fresh_store). n \<le> 2147483647" by code_simp
  have order: "arranges rev" by (simp add: arranges_def)
  show ?thesis using reconcile_stays_within_client [OF fresh_store_ok order range, of id 7 "''c''"] by blast
qed

theorem burn_is_fifo_witness:
  "\<exists>as db'. allocateTimeEntry id 7 ''c'' (sample_entry ''e'' ''s'' 90 20454) fresh_store = Inr (as, db') \<and> sum_list (map snd as) = 90"
proof -
  have el: "isEntryEligibleForBlockBurn id fresh_store (sample_entry ''e'' ''s'' 90 20454) (Some ''c'')" by code_simp
  have d: "entry_date id (sample_entry ''e'' ''s'' 90 20454) = Some 20454" by code_simp
  have total: "min (needed_minutes (sample_entry ''e'' ''s'' 90 20454))
      (getAvailableHourBlockMinutes 20454 fresh_store ''c'' (te_service_id (sample_entry ''e'' ''s'' 90 20454))) = 90" by code_simp
  show ?thesis using burn_is_fifo [OF fresh_store_ok fresh_entry el d, of 7] unfolding total by blast
qed

theorem burn_reversal_round_trip_witness:
  "\<exists>db1 db2. allocateTimeEntry id 7 ''c'' (sample_entry ''e'' ''s'' 90 20454) fresh_store = Inr ([(''b1'', 60), (''b2'', 30)], db1)
    \<and> reverseTimeEntryAllocations 8 ''e'' db1 = Inr db2 \<and> bs_allocations db2 = []"
proof -
  obtain db1 where a: "allocateTimeEntry id 7 ''c'' (sample_entry ''e'' ''s'' 90 20454) fresh_store = Inr ([(''b1'', 60), (''b2'', 30)], db1)"
    using fresh_allocation by blast
  have e: "te_entry_id (sample_entry ''e'' ''s'' 90 20454) = ''e''" "bs_allocations fresh_store = []"
    by (simp_all add: sample_entry_def fresh_store_def sample_store_def)
  show ?thesis using burn_reversal_round_trip [OF fresh_store_ok fresh_entry a, of 8] a unfolding e by blast
qed

section \<open>What the reconcile does not do\<close>

text \<open>
  Two entries, each on an hour of its own; then a contract is signed that covers the service of the first.
\<close>

definition signed_store :: block_store where
  "signed_store = sample_store [sample_block ''b1'' Block_Active (Some 20500) 60 0, sample_block ''b2'' Block_Active None 60 0]
     [\<lparr>ba_block_id = ''b2'', ba_time_entry_id = ''later'', ba_minutes = 60\<rparr>, \<lparr>ba_block_id = ''b1'', ba_time_entry_id = ''first'', ba_minutes = 60\<rparr>]
     [sample_entry ''first'' ''s1'' 60 20454, sample_entry ''later'' ''s2'' 60 20455] [(''l'', ''s1'')]"

definition drawn_after :: "(string list \<Rightarrow> string list) \<Rightarrow> nat \<Rightarrow> block_store \<Rightarrow> (string \<times> string \<times> int) list option" where
  "drawn_after row_order passes db = (case ((\<lambda>r. case r of Inl e \<Rightarrow> Inl e
       | Inr d \<Rightarrow> and_then (reconcileClientAllocations id row_order 7 ''c'' d) (\<lambda>(_, d'). Inr d')) ^^ passes) (Inr db) of
     Inl _ \<Rightarrow> None
   | Inr d \<Rightarrow> Some (map (\<lambda>a. (ba_time_entry_id a, ba_block_id a, ba_minutes a)) (bs_allocations d)))"

text \<open>
  The reconcile is not idempotent and one pass need not reach the FIFO state. With the entries in one
  order the freed hour, the one that expires, is only taken by the second pass; in the other order by the first.
\<close>

lemma reconcile_not_idempotent:
  "store_ok signed_store
   \<and> drawn_after id 1 signed_store = Some [(''later'', ''b2'', 60)]
   \<and> drawn_after id 2 signed_store = Some [(''later'', ''b1'', 60)]
   \<and> drawn_after rev 1 signed_store = Some [(''later'', ''b1'', 60)]"
  by (intro conjI) code_simp+

text \<open>An entry that drew an hour while its block was in force; the block has expired since with an hour left.\<close>

definition expired_store :: block_store where
  "expired_store = sample_store [sample_block ''b1'' Block_Expired (Some 20500) 120 60]
     [\<lparr>ba_block_id = ''b1'', ba_time_entry_id = ''e'', ba_minutes = 60\<rparr>] [sample_entry ''e'' ''s'' 60 20454] []"

text \<open>
  An entry dated before its block expired loses its burn in the first reconcile after the block has been
  marked expired, and gets no other: the minutes go back to a block that can no longer be drawn from.
\<close>

lemma expired_burn_taken_back:
  "store_ok expired_store \<and> list_all (not_expired_at 20454) (bs_blocks expired_store)
   \<and> drawn_after id 0 expired_store = Some [(''e'', ''b1'', 60)]
   \<and> drawn_after id 1 expired_store = Some []"
  by (intro conjI) code_simp+

section \<open>Balances of bucket subjects\<close>

lemma block_owner_key: "block_owner db subjects b = Some (k, s) \<Longrightarrow> (k, s) \<in> set subjects"
  by (auto simp: block_owner_def Let_def split: if_splits option.splits dest!: find_SomeD)

lemma sum_same: "mset xs = mset ys \<Longrightarrow> sum_list (map f xs) = sum_list (map f ys)" for f :: "'a \<Rightarrow> int"
  by (metis mset_map sum_mset_sum_list)

lemma owner_fold:
  fixes K :: "string set"
  assumes "finite K" and "\<And>b k s. own b = Some (k, s) \<Longrightarrow> k \<in> K"
  shows "(\<Sum>k \<in> K. or_else (foldl (\<lambda>r b. case own b of None \<Rightarrow> r | Some (k, _) \<Rightarrow> r(k \<mapsto> or_else (r k) 0 + hb_remaining_minutes b)) r bs k) 0)
    = (\<Sum>k \<in> K. or_else (r k) 0) + sum_list (map hb_remaining_minutes (filter (\<lambda>b. own b \<noteq> None) bs))"
proof (induction bs arbitrary: r)
  case Nil
  then show ?case by simp
next
  case (Cons b bs)
  show ?case
  proof (cases "own b")
    case None
    then show ?thesis using Cons.IH [of r] by simp
  next
    case (Some ks)
    obtain k s where ks: "ks = (k, s)" by force
    have k: "k \<in> K" using assms(2) Some ks by simp
    let ?r = "r(k \<mapsto> or_else (r k) 0 + hb_remaining_minutes b)"
    have step: "(\<Sum>j \<in> K. or_else (?r j) 0) = (\<Sum>j \<in> K. or_else (r j) 0) + hb_remaining_minutes b"
    proof -
      have "(\<Sum>j \<in> K. or_else (?r j) 0) = (\<Sum>j \<in> K. or_else (r j) 0 + (if j = k then hb_remaining_minutes b else 0))"
        by (rule sum.cong) auto
      also have "\<dots> = (\<Sum>j \<in> K. or_else (r j) 0) + hb_remaining_minutes b"
        using assms(1) k by (simp add: sum.distrib)
      finally show ?thesis .
    qed
    have "own b \<noteq> None" using Some by simp
    then have minutes: "sum_list (map hb_remaining_minutes (filter (\<lambda>b. own b \<noteq> None) (b # bs)))
        = hb_remaining_minutes b + sum_list (map hb_remaining_minutes (filter (\<lambda>b. own b \<noteq> None) bs))" by simp
    show ?thesis unfolding minutes foldl.simps Some ks option.case prod.case Cons.IH [of ?r] step by simp
  qed
qed

text \<open>
  C39: the balances of the subjects count no block twice: together they are the minutes of the available blocks
  that some subject owns, at most what the client has available.
\<close>

theorem subjects_count_blocks_once:
  "(\<Sum>k \<in> fst ` set subjects. or_else (getAvailableHourBlockMinutesForSubjects lc today db c subjects k) 0)
      = sum_list (map hb_remaining_minutes (filter (\<lambda>b. available_block c today b
          \<and> block_owner db (js_sort (\<lambda>a b. lc (fst a) (fst b)) subjects) b \<noteq> None) (bs_blocks db)))
    \<and> (\<Sum>k \<in> fst ` set subjects. or_else (getAvailableHourBlockMinutesForSubjects lc today db c subjects k) 0)
      \<le> getAvailableHourBlockMinutes today db c None"
proof -
  let ?ss = "js_sort (\<lambda>a b. lc (fst a) (fst b)) subjects"
  let ?bs = "js_sort (\<lambda>a b. locale_compare (hb_block_id a) (hb_block_id b)) (filter (available_block c today) (bs_blocks db))"
  let ?r = "map_of (map (\<lambda>s. (fst s, 0::int)) subjects)"
  let ?own = "block_owner db ?ss"
  let ?K = "fst ` set subjects"
  have zero: "or_else (?r k) 0 = 0" for k
    by (cases "?r k") (auto dest: map_of_SomeD)
  have key: "own = Some (k, s) \<Longrightarrow> own = ?own b \<Longrightarrow> k \<in> ?K" for own b k s
    using block_owner_key [of db ?ss b k s] by force
  have fold: "(\<Sum>k \<in> ?K. or_else (foldl (\<lambda>r b. case ?own b of None \<Rightarrow> r | Some (k, _) \<Rightarrow> r(k \<mapsto> or_else (r k) 0 + hb_remaining_minutes b)) ?r ?bs k) 0)
      = sum_list (map hb_remaining_minutes (filter (\<lambda>b. ?own b \<noteq> None) ?bs))"
    using owner_fold [of ?K ?own ?r ?bs] key zero by simp
  have "mset (filter (\<lambda>b. ?own b \<noteq> None) ?bs) = mset (filter (\<lambda>b. available_block c today b \<and> ?own b \<noteq> None) (bs_blocks db))"
    by (simp only: mset_filter mset_js_sort filter_filter_mset)
  then have sorted: "sum_list (map hb_remaining_minutes (filter (\<lambda>b. ?own b \<noteq> None) ?bs))
      = sum_list (map hb_remaining_minutes (filter (\<lambda>b. available_block c today b \<and> ?own b \<noteq> None) (bs_blocks db)))"
    by (rule sum_same)
  have total: "(\<Sum>k \<in> ?K. or_else (getAvailableHourBlockMinutesForSubjects lc today db c subjects k) 0)
      = sum_list (map hb_remaining_minutes (filter (\<lambda>b. available_block c today b \<and> ?own b \<noteq> None) (bs_blocks db)))"
  proof (cases "subjects = [] \<or> ?bs = []")
    case True
    have none: "subjects = [] \<Longrightarrow> ?own b = None" for b using block_owner_key [of db ?ss b] by (cases "?own b") auto
    have "filter (\<lambda>b. available_block c today b \<and> ?own b \<noteq> None) (bs_blocks db) = []"
      using True none by (auto simp: filter_empty_conv)
    then show ?thesis using True zero by (auto simp: getAvailableHourBlockMinutesForSubjects_def Let_def)
  next
    case False
    then show ?thesis using fold sorted by (simp add: getAvailableHourBlockMinutesForSubjects_def Let_def)
  qed
  moreover have "sum_list (map hb_remaining_minutes (filter (\<lambda>b. available_block c today b \<and> ?own b \<noteq> None) bs))
      \<le> sum_list (map hb_remaining_minutes (filter (available_block c today) bs))" for bs
    by (induction bs) (auto simp: available_block_def)
  ultimately show ?thesis by (simp add: getAvailableHourBlockMinutes_def truthy_def)
qed

end
