(* ===== verification/Hour_Block_Ledger.thy ===== *)
theory Hour_Block_Ledger
  imports Hour_Blocks Js_Numbers
begin

text \<open>
  The life of an hour block: sold or granted, activated when its invoice is finalized, adjusted, expired or
  voided (\<open>hourBlockActions.ts\<close>, \<open>prepaidReplenishmentSettlement.ts\<close>, \<open>invoiceModification.ts\<close>,
  \<open>expiredHourBlocksHandler.ts\<close>, the burn of a saved entry in \<open>timeEntryCrudActions.ts\<close>), and the system of
  all of these with the burns of \<open>Hour_Blocks\<close>. \<open>allowed\<close> is the answer of the permission check, \<open>user\<close> the
  caller, \<open>now\<close> the clock; a number is \<open>None\<close> when it is not finite.
\<close>

section \<open>Statements\<close>

definition int_column :: "rat \<Rightarrow> block_error + int" where
  "int_column x = (if of_int \<lfloor>x\<rfloor> = x \<and> int4 \<lfloor>x\<rfloor> then Inr \<lfloor>x\<rfloor> else Inl Invalid_Integer)"

definition find_block :: "string \<Rightarrow> block_store \<Rightarrow> block_error + hour_block" where
  "find_block blockId db = (case List.find (\<lambda>b. hb_block_id b = blockId) (bs_blocks db) of
     None \<Rightarrow> Inl (Block_Not_Found blockId) | Some b \<Rightarrow> Inr b)"

definition writeAudit :: "block_audit \<Rightarrow> block_store \<Rightarrow> block_store" where
  "writeAudit row db = db\<lparr>bs_audit := bs_audit db @ [row]\<rparr>"

definition insert_block :: "hour_block \<Rightarrow> block_store \<Rightarrow> block_error + block_store" where
  "insert_block b db =
     (if hb_block_id b \<in> hb_block_id ` set (bs_blocks db) then Inl Unique_Violation
      else if \<not> block_checks b then Inl Check_Violation
      else Inr (db\<lparr>bs_blocks := bs_blocks db @ [b]\<rparr>))"

definition resolveScopeServiceIds :: "string \<Rightarrow> string list \<Rightarrow> block_store \<Rightarrow> block_error + block_store" where
  "resolveScopeServiceIds blockId scopeServiceIds db =
     (if scopeServiceIds = [] then Inr db
      else if \<not> distinct scopeServiceIds \<or> (\<exists>s \<in> set scopeServiceIds. (blockId, s) \<in> set (bs_scopes db)) then Inl Unique_Violation
      else Inr (db\<lparr>bs_scopes := bs_scopes db @ map (\<lambda>s. (blockId, s)) scopeServiceIds\<rparr>))"

definition assertReason :: "string option \<Rightarrow> block_error + unit" where
  "assertReason reason = throw_if (\<not> truthy reason \<or> js_trim (the reason) = []) Reason_Required"

text \<open>\<open>notes?.trim() || null\<close>\<close>

definition trimmed_notes :: "string option \<Rightarrow> string option" where
  "trimmed_notes notes = (case notes of None \<Rightarrow> None | Some n \<Rightarrow> if js_trim n = [] then None else Some (js_trim n))"

section \<open>Selling and granting\<close>

record block_input =
  bi_client_id :: string
  bi_service_id :: string
  bi_hours :: "rat option"
  bi_hourly_rate :: "rat option option"
  bi_expiration_date :: "int option"
  bi_scope_service_ids :: "string list"
  bi_reason :: "string option"
  bi_notes :: "string option"

text \<open>
  The \<open>pending\<close> block of a purchase, inserted after its draft invoice and the invoice's line; the currency is that
  of the client, the rate is in cents.
\<close>

definition createHourBlockPurchaseInvoiceInternal :: "string \<Rightarrow> int \<Rightarrow> string \<Rightarrow> string \<Rightarrow> string \<Rightarrow> string option \<Rightarrow> string option
    \<Rightarrow> block_input \<Rightarrow> rat \<Rightarrow> rat \<Rightarrow> block_store \<Rightarrow> block_error + block_store" where
  "createHourBlockPurchaseInvoiceInternal blockId now invoiceId purchaseLineId currencyCode createdBy replenishmentBucketUsageId inp hours hourlyRate db =
     (let totalMinutes = js_round (dbl (hours * 60));
          purchaseAmount = js_round (dbl (hours * hourlyRate))
      in and_then (insert_block \<lparr>hb_block_id = blockId, hb_client_id = bi_client_id inp, hb_service_id = bi_service_id inp,
           hb_total_minutes = totalMinutes, hb_remaining_minutes = totalMinutes, hb_hourly_rate = js_round hourlyRate,
           hb_purchase_amount = purchaseAmount, hb_currency_code = currencyCode, hb_status = Block_Pending, hb_purchased_at = None,
           hb_expiration_date = bi_expiration_date inp, hb_source_invoice_id = Some invoiceId,
           hb_source_invoice_charge_id = Some purchaseLineId, hb_source_type = Source_Purchase,
           hb_replenishment_bucket_usage_id = replenishmentBucketUsageId, hb_first_allocated_at = None, hb_voided_at = None,
           hb_voided_by = None, hb_void_reason = None, hb_created_by = createdBy, hb_notes = trimmed_notes (bi_notes inp),
           hb_created_at = Some now, hb_updated_at = now\<rparr> db)
         (resolveScopeServiceIds blockId (bi_scope_service_ids inp)))"

text \<open>\<open>clients\<close> is the clients table: the default currency of a client, \<open>None\<close> for no such client.\<close>

definition grantHourBlock :: "bool \<Rightarrow> string \<Rightarrow> string \<Rightarrow> int \<Rightarrow> (string \<Rightarrow> string option option) \<Rightarrow> block_input
    \<Rightarrow> block_store \<Rightarrow> block_error + block_store" where
  "grantHourBlock allowed user blockId now clients inp db =
     and_then (throw_if (\<not> allowed) Permission_Denied) (\<lambda>_.
     and_then (throw_if (bi_client_id inp = []) Client_Required) (\<lambda>_.
     case bi_hours inp of None \<Rightarrow> Inl Hours_Positive | Some hours \<Rightarrow>
     and_then (throw_if (hours \<le> 0) Hours_Positive) (\<lambda>_.
     and_then (case bi_hourly_rate inp of None \<Rightarrow> Inr None | Some None \<Rightarrow> Inl Rate_Not_Negative
         | Some (Some r) \<Rightarrow> if r < 0 then Inl Rate_Not_Negative else Inr (Some r)) (\<lambda>hourlyRate.
     and_then (throw_if (bi_service_id inp = []) Service_Required) (\<lambda>_.
     and_then (assertReason (bi_reason inp)) (\<lambda>_.
     case clients (bi_client_id inp) of None \<Rightarrow> Inl Client_Missing | Some default_currency \<Rightarrow>
       let totalMinutes = js_round (dbl (hours * 60));
           rate = (case hourlyRate of None \<Rightarrow> 0 | Some r \<Rightarrow> js_round r)
       in and_then (insert_block \<lparr>hb_block_id = blockId, hb_client_id = bi_client_id inp, hb_service_id = bi_service_id inp,
            hb_total_minutes = totalMinutes, hb_remaining_minutes = totalMinutes, hb_hourly_rate = rate,
            hb_purchase_amount = (if rate > 0 then js_round (dbl (hours * of_int rate)) else 0),
            hb_currency_code = (if truthy default_currency then the default_currency else ''USD''), hb_status = Block_Active,
            hb_purchased_at = Some now, hb_expiration_date = bi_expiration_date inp, hb_source_invoice_id = None,
            hb_source_invoice_charge_id = None, hb_source_type = Source_Grant, hb_replenishment_bucket_usage_id = None,
            hb_first_allocated_at = None, hb_voided_at = None, hb_voided_by = None, hb_void_reason = None,
            hb_created_by = Some user, hb_notes = trimmed_notes (bi_notes inp), hb_created_at = Some now, hb_updated_at = now\<rparr> db)
          (\<lambda>db1. and_then (resolveScopeServiceIds blockId (bi_scope_service_ids inp) db1) (\<lambda>db2.
            Inr (writeAudit \<lparr>bu_block_id = blockId, bu_type = Audit_Grant, bu_minutes_delta = None,
              bu_reason = map_option js_trim (bi_reason inp), bu_created_by = Some user, bu_metadata = No_Metadata\<rparr> db2)))))))))"

section \<open>Lifecycle of a block\<close>

definition adjustHourBlockRemaining :: "bool \<Rightarrow> string \<Rightarrow> int \<Rightarrow> string \<Rightarrow> rat option \<Rightarrow> string option
    \<Rightarrow> block_store \<Rightarrow> block_error + block_store" where
  "adjustHourBlockRemaining allowed user now blockId minutesDelta reason db =
     and_then (throw_if (\<not> allowed) Permission_Denied) (\<lambda>_.
     and_then (assertReason reason) (\<lambda>_.
     case minutesDelta of None \<Rightarrow> Inl Hours_Positive | Some delta \<Rightarrow>
     and_then (find_block blockId db) (\<lambda>block.
     and_then (throw_if (hb_status block = Block_Expired \<or> hb_status block = Block_Voided) Cannot_Adjust) (\<lambda>_.
     and_then (int_column (max 0 (dbl (of_int (hb_remaining_minutes block) + delta)))) (\<lambda>newRemaining.
     and_then (update_blocks (\<lambda>b. hb_block_id b = blockId) (\<lambda>b. b\<lparr>hb_remaining_minutes := newRemaining, hb_updated_at := now\<rparr>) db) (\<lambda>db1.
     and_then (int_column delta) (\<lambda>minutes_delta.
       Inr (writeAudit \<lparr>bu_block_id = blockId, bu_type = Audit_Adjustment, bu_minutes_delta = Some minutes_delta,
         bu_reason = map_option js_trim reason, bu_created_by = Some user,
         bu_metadata = Previous_Remaining (hb_remaining_minutes block)\<rparr> db1))))))))"

definition updateHourBlockExpiration :: "bool \<Rightarrow> string \<Rightarrow> int \<Rightarrow> string \<Rightarrow> int option \<Rightarrow> block_store \<Rightarrow> block_error + block_store" where
  "updateHourBlockExpiration allowed user now blockId newDate db =
     and_then (throw_if (\<not> allowed) Permission_Denied) (\<lambda>_.
     and_then (find_block blockId db) (\<lambda>block.
     and_then (throw_if (hb_status block = Block_Voided) Update_Expiration_Voided) (\<lambda>_.
     and_then (update_blocks (\<lambda>b. hb_block_id b = blockId) (\<lambda>b. b\<lparr>hb_expiration_date := newDate, hb_updated_at := now\<rparr>) db) (\<lambda>db1.
       Inr (writeAudit \<lparr>bu_block_id = blockId, bu_type = Audit_Expiration_Change, bu_minutes_delta = None, bu_reason = None,
         bu_created_by = Some user, bu_metadata = Expiration_Dates (hb_expiration_date block) newDate\<rparr> db1)))))"

definition manuallyExpireHourBlock :: "bool \<Rightarrow> string \<Rightarrow> int \<Rightarrow> string \<Rightarrow> string option \<Rightarrow> block_store \<Rightarrow> block_error + block_store" where
  "manuallyExpireHourBlock allowed user now blockId reason db =
     and_then (throw_if (\<not> allowed) Permission_Denied) (\<lambda>_.
     and_then (assertReason reason) (\<lambda>_.
     and_then (find_block blockId db) (\<lambda>block.
     and_then (throw_if (hb_status block = Block_Voided) Expire_Voided) (\<lambda>_.
     and_then (throw_if (hb_status block = Block_Pending) Expire_Pending) (\<lambda>_.
     and_then (update_blocks (\<lambda>b. hb_block_id b = blockId) (\<lambda>b. b\<lparr>hb_status := Block_Expired, hb_updated_at := now\<rparr>) db) (\<lambda>db1.
       Inr (writeAudit \<lparr>bu_block_id = blockId, bu_type = Audit_Manual_Expiration, bu_minutes_delta = None,
         bu_reason = map_option js_trim reason, bu_created_by = Some user,
         bu_metadata = Remaining_At_Expiration (hb_remaining_minutes block)\<rparr> db1)))))))"

definition has_allocations :: "block_store \<Rightarrow> string \<Rightarrow> bool" where
  "has_allocations db blockId \<longleftrightarrow> list_ex (\<lambda>a. ba_block_id a = blockId) (bs_allocations db)"

definition voidHourBlock :: "bool \<Rightarrow> string \<Rightarrow> int \<Rightarrow> string \<Rightarrow> string option \<Rightarrow> block_store \<Rightarrow> block_error + block_store" where
  "voidHourBlock allowed user now blockId reason db =
     and_then (throw_if (\<not> allowed) Permission_Denied) (\<lambda>_.
     and_then (assertReason reason) (\<lambda>_.
     and_then (find_block blockId db) (\<lambda>block.
     and_then (throw_if (hb_status block \<noteq> Block_Pending \<and> hb_status block \<noteq> Block_Active) Only_Pending_Or_Active_Void) (\<lambda>_.
     and_then (throw_if (hb_first_allocated_at block \<noteq> None) Block_Used) (\<lambda>_.
     and_then (throw_if (has_allocations db blockId) Block_Used) (\<lambda>_.
     and_then (update_blocks (\<lambda>b. hb_block_id b = blockId) (\<lambda>b. b\<lparr>hb_status := Block_Voided, hb_voided_at := Some now,
         hb_voided_by := Some user, hb_void_reason := map_option js_trim reason, hb_updated_at := now\<rparr>) db) (\<lambda>db1.
       Inr (writeAudit \<lparr>bu_block_id = blockId, bu_type = Audit_Void, bu_minutes_delta = None,
         bu_reason = map_option js_trim reason, bu_created_by = Some user, bu_metadata = No_Metadata\<rparr> db1))))))))"

section \<open>The nightly expiration\<close>

definition expired_candidate :: "int \<Rightarrow> string option \<Rightarrow> hour_block \<Rightarrow> bool" where
  "expired_candidate tenantToday clientId b \<longleftrightarrow> hb_status b = Block_Active
     \<and> (case hb_expiration_date b of None \<Rightarrow> False | Some d \<Rightarrow> d < tenantToday) \<and> hb_remaining_minutes b > 0
     \<and> (truthy clientId \<longrightarrow> hb_client_id b = the clientId)"

fun expire_all :: "int \<Rightarrow> hour_block list \<Rightarrow> block_store \<Rightarrow> block_error + block_store" where
  "expire_all now [] db = Inr db"
| "expire_all now (block # blocks) db =
     and_then (update_blocks (\<lambda>b. hb_block_id b = hb_block_id block) (\<lambda>b. b\<lparr>hb_status := Block_Expired, hb_updated_at := now\<rparr>) db)
       (\<lambda>db1. expire_all now blocks (writeAudit \<lparr>bu_block_id = hb_block_id block, bu_type = Audit_Auto_Expiration,
          bu_minutes_delta = None, bu_reason = Some ''Auto-expired by nightly job'', bu_created_by = None,
          bu_metadata = Auto_Expiration (hb_expiration_date block) (hb_remaining_minutes block)\<rparr> db1))"

definition by_block_id :: "hour_block \<Rightarrow> hour_block \<Rightarrow> int" where
  "by_block_id a b = locale_compare (hb_block_id a) (hb_block_id b)"

definition expiredHourBlocksHandler :: "int \<Rightarrow> int \<Rightarrow> string option \<Rightarrow> block_store \<Rightarrow> block_error + block_store" where
  "expiredHourBlocksHandler tenantToday now clientId db =
     expire_all now (js_sort by_block_id (filter (expired_candidate tenantToday clientId) (bs_blocks db))) db"

section \<open>The invoice of a block\<close>

record invoice_charge =
  ic_item_id :: string
  ic_invoice_id :: string
  ic_quantity :: cell
  ic_unit_price :: cell
  ic_service_id :: "string option"

definition resolvePurchaseLineForBlock :: "invoice_charge list \<Rightarrow> string \<Rightarrow> hour_block \<Rightarrow> invoice_charge option" where
  "resolvePurchaseLineForBlock charges invoiceId block =
     (if \<not> truthy (hb_source_invoice_charge_id block) then None
      else List.find (\<lambda>l. Some (ic_item_id l) = hb_source_invoice_charge_id block \<and> ic_invoice_id l = invoiceId) charges)"

definition voidPendingBlockAtFinalization :: "string \<Rightarrow> string option \<Rightarrow> int \<Rightarrow> string \<Rightarrow> block_audit_metadata
    \<Rightarrow> block_store \<Rightarrow> block_error + block_store" where
  "voidPendingBlockAtFinalization blockId userId now reason metadata db =
     and_then (update_blocks (\<lambda>b. hb_block_id b = blockId \<and> hb_status b = Block_Pending) (\<lambda>b. b\<lparr>hb_status := Block_Voided,
         hb_voided_at := Some now, hb_voided_by := userId, hb_void_reason := Some reason, hb_updated_at := now\<rparr>) db)
       (\<lambda>db1. Inr (writeAudit \<lparr>bu_block_id = blockId, bu_type = Audit_Void, bu_minutes_delta = None, bu_reason = Some reason,
         bu_created_by = userId, bu_metadata = metadata\<rparr> db1))"

definition activate_block :: "invoice_charge list \<Rightarrow> string \<Rightarrow> string option \<Rightarrow> int \<Rightarrow> hour_block \<Rightarrow> block_store \<Rightarrow> block_error + block_store" where
  "activate_block charges invoiceId userId now block db =
     (case resolvePurchaseLineForBlock charges invoiceId block of
        None \<Rightarrow> voidPendingBlockAtFinalization (hb_block_id block) userId now
          ''Purchase line removed from the invoice before finalization''
          (Source_Invoice invoiceId (hb_source_invoice_charge_id block)) db
      | Some line \<Rightarrow>
          let quantity = cell_number (ic_quantity line);
              unitPrice = cell_number (ic_unit_price line);
              totalMinutes = (case quantity of None \<Rightarrow> 0 | Some q \<Rightarrow> js_round (dbl (q * 60)))
          in if quantity = None \<or> the quantity \<le> 0 \<or> totalMinutes \<le> 0
             then voidPendingBlockAtFinalization (hb_block_id block) userId now
               ''Purchase line no longer has a positive quantity at finalization''
               (Source_Invoice invoiceId (Some (ic_item_id line))) db
             else case unitPrice of None \<Rightarrow> Inl Invalid_Integer
             | Some price \<Rightarrow>
                 and_then (update_blocks (\<lambda>b. hb_block_id b = hb_block_id block \<and> hb_status b = Block_Pending)
                   (\<lambda>b. b\<lparr>hb_status := Block_Active, hb_purchased_at := Some now, hb_updated_at := now,
                      hb_total_minutes := totalMinutes, hb_remaining_minutes := totalMinutes, hb_hourly_rate := js_round price,
                      hb_purchase_amount := js_round (dbl (the quantity * price)),
                      hb_service_id := or_else (ic_service_id line) (hb_service_id block),
                      hb_source_invoice_charge_id := Some (ic_item_id line)\<rparr>) db)
                 (\<lambda>db1. Inr (writeAudit \<lparr>bu_block_id = hb_block_id block, bu_type = Audit_Purchase, bu_minutes_delta = None,
                   bu_reason = None, bu_created_by = userId,
                   bu_metadata = Synced_Line invoiceId (ic_item_id line) (the quantity) price\<rparr> db1)))"

fun activate_all :: "invoice_charge list \<Rightarrow> string \<Rightarrow> string option \<Rightarrow> int \<Rightarrow> hour_block list \<Rightarrow> block_store \<Rightarrow> block_error + block_store" where
  "activate_all charges invoiceId userId now [] db = Inr db"
| "activate_all charges invoiceId userId now (b # bs) db =
     and_then (activate_block charges invoiceId userId now b db) (activate_all charges invoiceId userId now bs)"

definition activateHourBlocksForFinalizedInvoice :: "invoice_charge list \<Rightarrow> string \<Rightarrow> string option \<Rightarrow> int
    \<Rightarrow> block_store \<Rightarrow> block_error + block_store" where
  "activateHourBlocksForFinalizedInvoice charges invoiceId userId now db =
     activate_all charges invoiceId userId now (js_sort by_block_id
       (filter (\<lambda>b. hb_source_invoice_id b = Some invoiceId \<and> hb_status b = Block_Pending) (bs_blocks db))) db"

fun deactivate_all :: "string \<Rightarrow> string \<Rightarrow> int \<Rightarrow> hour_block list \<Rightarrow> block_store \<Rightarrow> block_error + block_store" where
  "deactivate_all invoiceId userId now [] db = Inr db"
| "deactivate_all invoiceId userId now (block # blocks) db =
     (if hb_status block \<noteq> Block_Active then deactivate_all invoiceId userId now blocks db
      else if hb_first_allocated_at block \<noteq> None \<or> has_allocations db (hb_block_id block)
        then Inl (Unfinalize_Used (hb_block_id block))
      else and_then (update_blocks (\<lambda>b. hb_block_id b = hb_block_id block)
          (\<lambda>b. b\<lparr>hb_status := Block_Pending, hb_purchased_at := None, hb_updated_at := now\<rparr>) db)
        (\<lambda>db1. deactivate_all invoiceId userId now blocks (writeAudit \<lparr>bu_block_id = hb_block_id block,
          bu_type = Audit_Purchase_Reversal, bu_minutes_delta = None, bu_reason = Some ''Invoice unfinalized'',
          bu_created_by = Some userId, bu_metadata = Source_Invoice invoiceId None\<rparr> db1)))"

definition deactivateHourBlocksForUnfinalizedInvoice :: "string \<Rightarrow> string \<Rightarrow> int \<Rightarrow> block_store \<Rightarrow> block_error + block_store" where
  "deactivateHourBlocksForUnfinalizedInvoice invoiceId userId now db =
     deactivate_all invoiceId userId now
       (js_sort by_block_id (filter (\<lambda>b. hb_source_invoice_id b = Some invoiceId) (bs_blocks db))) db"

fun void_linked :: "string \<Rightarrow> string \<Rightarrow> int \<Rightarrow> hour_block list \<Rightarrow> block_store \<Rightarrow> block_error + block_store" where
  "void_linked invoiceId userId now [] db = Inr db"
| "void_linked invoiceId userId now (block # blocks) db =
     (if hb_status block = Block_Pending
      then and_then (update_blocks (\<lambda>b. hb_block_id b = hb_block_id block \<and> hb_status b = Block_Pending)
          (\<lambda>b. b\<lparr>hb_status := Block_Voided, hb_voided_at := Some now, hb_voided_by := Some userId,
             hb_void_reason := Some ''Draft purchase invoice deleted'', hb_updated_at := now, hb_source_invoice_id := None\<rparr>) db)
        (\<lambda>db1. void_linked invoiceId userId now blocks
          (if list_ex (\<lambda>b. hb_block_id b = hb_block_id block \<and> hb_status b = Block_Pending) (bs_blocks db)
           then writeAudit \<lparr>bu_block_id = hb_block_id block, bu_type = Audit_Void, bu_minutes_delta = None,
             bu_reason = Some ''Draft purchase invoice deleted'', bu_created_by = Some userId,
             bu_metadata = Source_Invoice invoiceId None\<rparr> db1 else db1))
      else and_then (update_blocks (\<lambda>b. hb_block_id b = hb_block_id block \<and> hb_status b = Block_Voided)
          (\<lambda>b. b\<lparr>hb_source_invoice_id := None, hb_updated_at := now\<rparr>) db)
        (void_linked invoiceId userId now blocks))"

definition voidPendingHourBlocksForDeletedInvoice :: "string \<Rightarrow> string \<Rightarrow> int \<Rightarrow> block_store \<Rightarrow> block_error + block_store" where
  "voidPendingHourBlocksForDeletedInvoice invoiceId userId now db =
     (let linkedBlocks = js_sort by_block_id (filter (\<lambda>b. hb_source_invoice_id b = Some invoiceId) (bs_blocks db))
      in case List.find (\<lambda>b. hb_status b \<noteq> Block_Pending \<and> hb_status b \<noteq> Block_Voided) linkedBlocks of
           Some b \<Rightarrow> Inl (Delete_Linked (hb_block_id b))
         | None \<Rightarrow> void_linked invoiceId userId now linkedBlocks db)"

section \<open>Saving and deleting an entry\<close>

text \<open>The burn of a saved entry runs in a savepoint: an error undoes it and leaves the save alone.\<close>

definition burn_on_save :: "(int \<Rightarrow> int) \<Rightarrow> int \<Rightarrow> bool \<Rightarrow> time_entry \<Rightarrow> block_store \<Rightarrow> block_store" where
  "burn_on_save local_day now updated entry db =
     (case and_then (if updated then reverseTimeEntryAllocations now (te_entry_id entry) db else Inr db) (\<lambda>db1.
        if truthy (te_service_id entry) \<and> or_else (te_billable_duration entry) 0 > 0
        then let blockClientId = resolveClientIdForWorkItem db1 (te_work_item_id entry) (te_work_item_type entry)
          in if truthy blockClientId \<and> \<not> truthy (te_contract_line_id entry)
             then and_then (allocateTimeEntry local_day now (the blockClientId) entry db1) (\<lambda>(_, db2). Inr db2)
             else Inr db1
        else Inr db1) of
      Inl _ \<Rightarrow> db | Inr db' \<Rightarrow> db')"

definition delete_entry :: "int \<Rightarrow> string \<Rightarrow> block_store \<Rightarrow> block_error + block_store" where
  "delete_entry now entryId db = and_then (reverseTimeEntryAllocations now entryId db)
     (\<lambda>db1. Inr (db1\<lparr>bs_entries := filter (\<lambda>e. te_entry_id e \<noteq> entryId) (bs_entries db1)\<rparr>))"

section \<open>Writes from other parts\<close>

text \<open>
  Merging a client into another moves its blocks (\<open>moveClientOwnedRows\<close>, the entry \<open>hour_blocks\<close> of the list).
  The rest follows from foreign keys: deleting a client deletes its blocks with their scopes, allocations and audit,
  deleting an invoice line or an invoice unlinks the blocks sold with it, and deleting entries deletes their
  allocations. The service of the API and the deletion of a work item delete entries without a reversal, so the
  minutes are not given back.
\<close>

definition moveClientBlocks :: "string \<Rightarrow> string \<Rightarrow> block_store \<Rightarrow> block_store" where
  "moveClientBlocks sourceClientId targetClientId db = db\<lparr>bs_blocks := map (\<lambda>b. if hb_client_id b = sourceClientId
     then b\<lparr>hb_client_id := targetClientId\<rparr> else b) (bs_blocks db)\<rparr>"

definition delete_client_cascade :: "string \<Rightarrow> block_store \<Rightarrow> block_store" where
  "delete_client_cascade clientId db =
     (let gone = map hb_block_id (filter (\<lambda>b. hb_client_id b = clientId) (bs_blocks db))
      in db\<lparr>bs_blocks := filter (\<lambda>b. hb_client_id b \<noteq> clientId) (bs_blocks db),
           bs_scopes := filter (\<lambda>(i, _). i \<notin> set gone) (bs_scopes db),
           bs_allocations := filter (\<lambda>a. ba_block_id a \<notin> set gone) (bs_allocations db),
           bs_audit := filter (\<lambda>r. bu_block_id r \<notin> set gone) (bs_audit db)\<rparr>)"

definition delete_line_cascade :: "string \<Rightarrow> block_store \<Rightarrow> block_store" where
  "delete_line_cascade itemId db = db\<lparr>bs_blocks := map (\<lambda>b. if hb_source_invoice_charge_id b = Some itemId
     then b\<lparr>hb_source_invoice_charge_id := None\<rparr> else b) (bs_blocks db)\<rparr>"

definition delete_invoice_cascade :: "string \<Rightarrow> block_store \<Rightarrow> block_store" where
  "delete_invoice_cascade invoiceId db = db\<lparr>bs_blocks := map (\<lambda>b. if hb_source_invoice_id b = Some invoiceId
     then b\<lparr>hb_source_invoice_id := None\<rparr> else b) (bs_blocks db)\<rparr>"

definition delete_entries_cascade :: "(time_entry \<Rightarrow> bool) \<Rightarrow> block_store \<Rightarrow> block_store" where
  "delete_entries_cascade P db =
     (let gone = map te_entry_id (filter P (bs_entries db))
      in db\<lparr>bs_entries := filter (\<lambda>e. \<not> P e) (bs_entries db),
           bs_allocations := filter (\<lambda>a. ba_time_entry_id a \<notin> set gone) (bs_allocations db)\<rparr>)"

definition deleteTimeEntryByService :: "string \<Rightarrow> block_store \<Rightarrow> block_store" where
  "deleteTimeEntryByService entryId = delete_entries_cascade (\<lambda>e. te_entry_id e = entryId)"

definition deleteWorkItem :: "string \<Rightarrow> block_store \<Rightarrow> block_store" where
  "deleteWorkItem workItemId = delete_entries_cascade (\<lambda>e. te_work_item_id e = Some workItemId)"

section \<open>The system\<close>

text \<open>
  A write is one committed transaction: an action on a block, a hook of its invoice, a job, the burn of a saved
  or deleted entry, a merge of clients, a deletion elsewhere, or any change to the other tables. A step is a write
  or the deletion of a client, which alone makes blocks disappear.
\<close>

inductive hb_write :: "(int \<Rightarrow> int) \<Rightarrow> block_store \<Rightarrow> block_store \<Rightarrow> bool" for local_day where
  sold: "createHourBlockPurchaseInvoiceInternal i now invoice line currency creator subject inp hours rate db = Inr db' \<Longrightarrow> hb_write local_day db db'"
| granted: "grantHourBlock allowed user i now clients inp db = Inr db' \<Longrightarrow> hb_write local_day db db'"
| adjusted: "adjustHourBlockRemaining allowed user now i delta reason db = Inr db' \<Longrightarrow> hb_write local_day db db'"
| dated: "updateHourBlockExpiration allowed user now i date db = Inr db' \<Longrightarrow> hb_write local_day db db'"
| expired: "manuallyExpireHourBlock allowed user now i reason db = Inr db' \<Longrightarrow> hb_write local_day db db'"
| voided: "voidHourBlock allowed user now i reason db = Inr db' \<Longrightarrow> hb_write local_day db db'"
| auto_expired: "expiredHourBlocksHandler tenantToday now client db = Inr db' \<Longrightarrow> hb_write local_day db db'"
| finalized: "activateHourBlocksForFinalizedInvoice charges invoice creator now db = Inr db' \<Longrightarrow> hb_write local_day db db'"
| unfinalized: "deactivateHourBlocksForUnfinalizedInvoice invoice user now db = Inr db' \<Longrightarrow> hb_write local_day db db'"
| draft_deleted: "voidPendingHourBlocksForDeletedInvoice invoice user now db = Inr db' \<Longrightarrow> hb_write local_day db db'"
| saved: "updated \<or> (\<forall>a \<in> set (bs_allocations db). ba_time_entry_id a \<noteq> te_entry_id e)
    \<Longrightarrow> hb_write local_day db (burn_on_save local_day now updated e db)"
| deleted: "delete_entry now entry db = Inr db' \<Longrightarrow> hb_write local_day db db'"
| reconciled: "reconcileClientAllocations local_day row_order now client db = Inr (n, db') \<Longrightarrow> hb_write local_day db db'"
| elsewhere: "bs_blocks db' = bs_blocks db \<Longrightarrow> bs_allocations db' = bs_allocations db \<Longrightarrow> distinct (map te_entry_id (bs_entries db'))
    \<Longrightarrow> hb_write local_day db db'"
| merged: "hb_write local_day db (moveClientBlocks sourceClient targetClient db)"
| line_deleted: "hb_write local_day db (delete_line_cascade item db)"
| invoice_deleted: "hb_write local_day db (delete_invoice_cascade invoice db)"
| deleted_by_service: "hb_write local_day db (deleteTimeEntryByService entry db)"
| work_item_deleted: "hb_write local_day db (deleteWorkItem item db)"

inductive hb_step :: "(int \<Rightarrow> int) \<Rightarrow> block_store \<Rightarrow> block_store \<Rightarrow> bool" for local_day where
  written: "hb_write local_day db db' \<Longrightarrow> hb_step local_day db db'"
| client_deleted: "hb_step local_day db (delete_client_cascade client db)"

inductive_cases hb_stepE: "hb_step local_day db db'"

inductive hb_runs :: "(int \<Rightarrow> int) \<Rightarrow> block_store \<Rightarrow> block_store \<Rightarrow> bool" for local_day where
  stay: "hb_runs local_day db db"
| step: "hb_runs local_day db db1 \<Longrightarrow> hb_step local_day db1 db2 \<Longrightarrow> hb_runs local_day db db2"

text \<open>The runs in which a block is never deleted.\<close>

inductive hb_runs_with :: "(int \<Rightarrow> int) \<Rightarrow> string \<Rightarrow> block_store \<Rightarrow> block_store \<Rightarrow> bool" for local_day i where
  stay_with: "hb_runs_with local_day i db db"
| step_with: "hb_runs_with local_day i db db1 \<Longrightarrow> hb_step local_day db1 db2 \<Longrightarrow> i \<in> hb_block_id ` set (bs_blocks db2)
    \<Longrightarrow> hb_runs_with local_day i db db2"

definition empty_blocks :: "block_store \<Rightarrow> bool" where
  "empty_blocks db \<longleftrightarrow> bs_blocks db = [] \<and> bs_allocations db = [] \<and> distinct (map te_entry_id (bs_entries db))"

text \<open>
  The invariant: the tables are well formed, a block that entries draw from is marked as used, and a pending or
  voided block has never been used. \<open>evolves\<close>: no block is removed, a mark of use, an expiration and a void are final.
\<close>

definition marked :: "block_store \<Rightarrow> bool" where
  "marked db \<longleftrightarrow> (\<forall>a \<in> set (bs_allocations db). \<forall>b \<in> set (bs_blocks db). hb_block_id b = ba_block_id a \<longrightarrow> hb_first_allocated_at b \<noteq> None)"

definition unused :: "block_store \<Rightarrow> bool" where
  "unused db \<longleftrightarrow> (\<forall>b \<in> set (bs_blocks db). hb_status b \<in> {Block_Pending, Block_Voided} \<longrightarrow> hb_first_allocated_at b = None)"

definition hb_invariant :: "block_store \<Rightarrow> bool" where
  "hb_invariant db \<longleftrightarrow> store_ok db \<and> marked db \<and> unused db"

definition block_evolves :: "hour_block \<Rightarrow> hour_block \<Rightarrow> bool" where
  "block_evolves b b' \<longleftrightarrow> hb_block_id b' = hb_block_id b
     \<and> (hb_first_allocated_at b \<noteq> None \<longrightarrow> hb_first_allocated_at b' = hb_first_allocated_at b)
     \<and> (hb_status b = Block_Voided \<longrightarrow> hb_status b' = Block_Voided) \<and> (hb_status b = Block_Expired \<longrightarrow> hb_status b' = Block_Expired)"

definition evolves :: "block_store \<Rightarrow> block_store \<Rightarrow> bool" where
  "evolves db db' \<longleftrightarrow> (\<forall>b \<in> set (bs_blocks db). \<exists>b' \<in> set (bs_blocks db'). block_evolves b b')"

definition sound_change :: "block_store \<Rightarrow> block_store \<Rightarrow> bool" where
  "sound_change db db' \<longleftrightarrow> (hb_invariant db \<longrightarrow> hb_invariant db' \<and> evolves db db')"

lemma block_evolves_refl [simp]: "block_evolves b b"
  by (simp add: block_evolves_def)

lemma evolves_same: "bs_blocks db' = bs_blocks db \<Longrightarrow> evolves db db'"
  unfolding evolves_def using block_evolves_refl by metis

lemma evolves_trans: "evolves db1 db2 \<Longrightarrow> evolves db2 db3 \<Longrightarrow> evolves db1 db3"
  unfolding evolves_def block_evolves_def by (metis (no_types, lifting))

lemma sound_refl [simp]: "sound_change db db"
  by (simp add: sound_change_def evolves_same)

lemma sound_trans: "sound_change db1 db2 \<Longrightarrow> sound_change db2 db3 \<Longrightarrow> sound_change db1 db3"
  unfolding sound_change_def using evolves_trans by blast

lemma sound_same: "bs_blocks db' = bs_blocks db \<Longrightarrow> bs_allocations db' = bs_allocations db \<Longrightarrow> distinct (map te_entry_id (bs_entries db'))
    \<Longrightarrow> sound_change db db'"
  by (simp add: sound_change_def hb_invariant_def store_ok_def marked_def unused_def evolves_same)

lemma sound_writeAudit [simp]: "sound_change db (writeAudit r db') \<longleftrightarrow> sound_change db db'"
  by (simp add: sound_change_def hb_invariant_def store_ok_def marked_def unused_def evolves_def writeAudit_def)

lemma same_block: "hb_invariant db \<Longrightarrow> b \<in> set (bs_blocks db) \<Longrightarrow> b' \<in> set (bs_blocks db) \<Longrightarrow> hb_block_id b = hb_block_id b' \<Longrightarrow> b = b'"
  unfolding hb_invariant_def store_ok_def distinct_map by (metis inj_onD)

lemma find_block_in: "find_block i db = Inr b \<Longrightarrow> b \<in> set (bs_blocks db) \<and> hb_block_id b = i"
  by (auto simp: find_block_def split: option.splits dest: find_SomeD)

text \<open>An update that keeps identity and mark, and moves the status only where it may.\<close>

lemma sound_update:
  assumes upd: "update_blocks P f db = Inr db'"
    and f: "\<And>b. hb_invariant db \<Longrightarrow> b \<in> set (bs_blocks db) \<Longrightarrow> P b \<Longrightarrow> block_evolves b (f b) \<and> hb_first_allocated_at (f b) = hb_first_allocated_at b
      \<and> (hb_status (f b) \<in> {Block_Pending, Block_Voided} \<longrightarrow> hb_first_allocated_at b = None)"
  shows "sound_change db db'"
  unfolding sound_change_def
proof
  assume inv: "hb_invariant db"
  let ?g = "\<lambda>b. if P b then f b else b"
  have db': "db' = db\<lparr>bs_blocks := map ?g (bs_blocks db)\<rparr>" and checks: "\<forall>b \<in> set (bs_blocks db). P b \<longrightarrow> block_checks (f b)"
    using upd by (auto simp: update_blocks_def list_all_iff split: if_splits)
  have ids: "b \<in> set (bs_blocks db) \<Longrightarrow> hb_block_id (?g b) = hb_block_id b" for b using f [OF inv] by (auto simp: block_evolves_def)
  have names: "map hb_block_id (bs_blocks db') = map hb_block_id (bs_blocks db)" using ids by (simp add: db')
  then have images: "hb_block_id ` set (bs_blocks db') = hb_block_id ` set (bs_blocks db)" by (metis list.set_map)
  have "list_all block_checks (bs_blocks db')"
    using inv checks by (auto simp: hb_invariant_def store_ok_def list_all_iff db')
  then have "store_ok db'" unfolding store_ok_def names images
    using inv by (simp add: hb_invariant_def store_ok_def db')
  moreover have "b \<in> set (bs_blocks db) \<Longrightarrow> P b \<Longrightarrow> hb_block_id (f b) = hb_block_id b" for b
    using f [OF inv] by (auto simp: block_evolves_def)
  then have "marked db'" using inv f [OF inv] by (auto simp: hb_invariant_def marked_def db')
  moreover have "unused db'" using inv f [OF inv] by (auto simp: hb_invariant_def unused_def db')
  moreover have "evolves db db'"
    unfolding evolves_def
  proof
    fix b assume b: "b \<in> set (bs_blocks db)"
    then have "?g b \<in> set (bs_blocks db')" by (auto simp: db')
    moreover have "block_evolves b (?g b)" using f [OF inv b] by simp
    ultimately show "\<exists>b' \<in> set (bs_blocks db'). block_evolves b b'" by blast
  qed
  ultimately show "hb_invariant db' \<and> evolves db db'" by (simp add: hb_invariant_def)
qed

text \<open>Burns and reversals.\<close>

lemma sound_reversed:
  assumes P: "\<And>a. P a \<Longrightarrow> ba_time_entry_id a = e" and rev: "reverse_where now P db = Inr db'"
  shows "sound_change db db'"
  unfolding sound_change_def
proof
  assume inv: "hb_invariant db"
  let ?g = "on_block (drawn (filter P (bs_allocations db))) (restore_block now)"
  have kept: "hb_block_id (?g b) = hb_block_id b" "hb_first_allocated_at (?g b) = hb_first_allocated_at b"
    "hb_status (?g b) = hb_status b" "hb_client_id (?g b) = hb_client_id b" for b
    by (simp_all add: on_block_def split: option.split)
  have "store_ok db" using inv by (simp add: hb_invariant_def)
  from reverse_where_conserves [OF this P rev] have db': "db' = reversed now P db" "store_ok db'" by auto
  moreover have "marked db'" using inv by (auto simp: hb_invariant_def marked_def db'(1) reversed_def kept)
  moreover have "unused db'" using inv by (auto simp: hb_invariant_def unused_def db'(1) reversed_def kept)
  moreover have "evolves db db'" by (auto simp: evolves_def block_evolves_def db'(1) reversed_def kept)
  ultimately show "hb_invariant db' \<and> evolves db db'" by (simp add: hb_invariant_def)
qed

lemma sound_allocate:
  assumes fresh: "hb_invariant db \<Longrightarrow> \<forall>a \<in> set (bs_allocations db). ba_time_entry_id a = te_entry_id e \<longrightarrow> ba_block_id a \<notin> client_blocks db c"
    and alloc: "allocateTimeEntry local_day now c e db = Inr (as, db')"
  shows "sound_change db db'"
  unfolding sound_change_def
proof
  assume inv: "hb_invariant db"
  then have ok: "store_ok db" by (simp add: hb_invariant_def)
  let ?as = "burn_of local_day c e db"
  let ?g = "on_block ?as (burn_block now)"
  have db': "db' = burned now (te_entry_id e) ?as db" using alloc unfolding allocate_closed [OF ok fresh [OF inv]] by blast
  have kept: "hb_block_id (?g b) = hb_block_id b" "hb_status (?g b) = hb_status b" "hb_client_id (?g b) = hb_client_id b"
    "hb_first_allocated_at b \<noteq> None \<Longrightarrow> hb_first_allocated_at (?g b) = hb_first_allocated_at b" for b
    by (auto simp: on_block_def split: option.split)
  have active: "hb_status b = Block_Active" if b: "b \<in> set (bs_blocks db)" and m: "map_of ?as (hb_block_id b) = Some m" for b m
  proof -
    from burn_of_bounds(2) [OF ok map_of_SomeD [OF m]] obtain b' d where
      b': "b' \<in> set (bs_blocks db)" "hb_block_id b' = hb_block_id b" "burnable db c (or_else (te_service_id e) []) d b'" by blast
    have "b' = b" by (rule same_block [OF inv b'(1) b b'(2)])
    then show ?thesis using b'(3) by (simp add: burnable_def)
  qed
  have "store_ok db'" unfolding db' using allocate_conserves [OF ok fresh [OF inv]] by blast
  moreover have "marked db'"
    unfolding marked_def
  proof (intro ballI impI)
    fix a x assume a: "a \<in> set (bs_allocations db')" and x: "x \<in> set (bs_blocks db')" and eq: "hb_block_id x = ba_block_id a"
    obtain b where b: "b \<in> set (bs_blocks db)" "x = ?g b" using x by (auto simp: db' burned_def)
    show "hb_first_allocated_at x \<noteq> None"
    proof (cases "a \<in> set (bs_allocations db)")
      case True
      then have "hb_first_allocated_at b \<noteq> None" using inv b eq kept(1) by (auto simp: hb_invariant_def marked_def)
      then show ?thesis using b kept(4) by auto
    next
      case False
      then have "a \<in> set (allocation_rows (te_entry_id e) ?as)" using a by (simp add: db' burned_def)
      then have "ba_block_id a \<in> fst ` set ?as" by (force simp: allocation_rows_def)
      then obtain m where "map_of ?as (hb_block_id b) = Some m"
        using eq b kept(1) by (metis map_of_eq_None_iff not_Some_eq)
      then show ?thesis by (simp add: b on_block_def)
    qed
  qed
  moreover have "unused db'"
    unfolding unused_def
  proof (intro ballI impI)
    fix x assume x: "x \<in> set (bs_blocks db')" and st: "hb_status x \<in> {Block_Pending, Block_Voided}"
    obtain b where b: "b \<in> set (bs_blocks db)" "x = ?g b" using x by (auto simp: db' burned_def)
    have "map_of ?as (hb_block_id b) = None" using active [OF b(1)] st b kept(2) by (cases "map_of ?as (hb_block_id b)") auto
    then have "x = b" by (simp add: b on_block_def)
    then show "hb_first_allocated_at x = None" using inv b st by (auto simp: hb_invariant_def unused_def)
  qed
  moreover have "evolves db db'" unfolding evolves_def
  proof
    fix b assume "b \<in> set (bs_blocks db)"
    then have "?g b \<in> set (bs_blocks db')" by (simp add: db' burned_def)
    moreover have "block_evolves b (?g b)" using kept by (auto simp: block_evolves_def)
    ultimately show "\<exists>b' \<in> set (bs_blocks db'). block_evolves b b'" by blast
  qed
  ultimately show "hb_invariant db' \<and> evolves db db'" by (simp add: hb_invariant_def)
qed

lemma sound_if: "(hb_invariant db \<Longrightarrow> sound_change db db') \<Longrightarrow> sound_change db db'"
  by (simp add: sound_change_def)

lemma sound_reverse_entry: "reverseTimeEntryAllocations now i db = Inr db' \<Longrightarrow> sound_change db db'"
  by (rule sound_if, rule sound_reversed [where P = "\<lambda>a. ba_time_entry_id a = i" and e = i])
    (simp_all add: reverse_entry_where hb_invariant_def)

lemma sound_reconcile_entry:
  assumes run: "reconcile_entry local_day now c e (n, db) = Inr (n', db')"
  shows "sound_change db db'"
proof (rule sound_if)
  assume inv: "hb_invariant db"
  then have ok: "store_ok db" by (simp add: hb_invariant_def)
  let ?P = "\<lambda>a. ba_time_entry_id a = te_entry_id e \<and> ba_block_id a \<in> client_blocks db c"
  obtain db1 where rev: "reverseClientTimeEntryAllocations now c (te_entry_id e) db = Inr db1"
    using run by (cases "reverseClientTimeEntryAllocations now c (te_entry_id e) db") (auto simp: reconcile_entry_def)
  then have w: "reverse_where now ?P db = Inr db1" using reverse_client_where [OF ok] by simp
  have s1: "sound_change db db1" by (rule sound_reversed [OF _ w, of "te_entry_id e"]) simp
  have db1: "db1 = reversed now ?P db" using reverse_where_conserves [OF ok _ w, of "te_entry_id e"] by simp
  have fresh: "\<forall>a \<in> set (bs_allocations db1). ba_time_entry_id a = te_entry_id e \<longrightarrow> ba_block_id a \<notin> client_blocks db1 c"
    unfolding db1 by (rule reversed_fresh [OF ok]) simp
  have "db' = db1 \<or> (\<exists>as. allocateTimeEntry local_day now c e db1 = Inr (as, db'))"
    using run by (auto simp: reconcile_entry_def rev result_simps split: if_splits)
  then show "sound_change db db'" using s1 sound_allocate [OF fresh] sound_trans [OF s1] by blast
qed

lemma sound_reconcile_loop: "reconcile_loop local_day now c es (n, db) = Inr (n', db') \<Longrightarrow> sound_change db db'"
proof (induction es arbitrary: n db)
  case Nil
  then show ?case by simp
next
  case (Cons e es)
  then obtain m db1 where step: "reconcile_entry local_day now c e (n, db) = Inr (m, db1)"
    "reconcile_loop local_day now c es (m, db1) = Inr (n', db')" by (auto simp: result_simps)
  show ?case by (rule sound_trans [OF sound_reconcile_entry [OF step(1)] Cons.IH [OF step(2)]])
qed

text \<open>Actions and hooks.\<close>

lemma sound_insert: "insert_block b db = Inr db' \<Longrightarrow> hb_first_allocated_at b = None \<Longrightarrow> sound_change db db'"
proof -
  assume ins: "insert_block b db = Inr db'" and new: "hb_first_allocated_at b = None"
  then have db': "db' = db\<lparr>bs_blocks := bs_blocks db @ [b]\<rparr>" "hb_block_id b \<notin> hb_block_id ` set (bs_blocks db)" "block_checks b"
    by (auto simp: insert_block_def split: if_splits)
  show "sound_change db db'" unfolding sound_change_def
  proof
    assume inv: "hb_invariant db"
    then have "a \<in> set (bs_allocations db) \<Longrightarrow> hb_block_id b \<noteq> ba_block_id a" for a
      using db'(2) by (auto simp: hb_invariant_def store_ok_def)
    then have "hb_invariant db'" using inv db' new by (auto simp: hb_invariant_def store_ok_def marked_def unused_def)
    moreover have "evolves db db'" unfolding evolves_def
    proof
      fix x assume "x \<in> set (bs_blocks db)"
      then show "\<exists>b' \<in> set (bs_blocks db'). block_evolves x b'" by (intro bexI [where x = x]) (simp_all add: db')
    qed
    ultimately show "hb_invariant db' \<and> evolves db db'" by blast
  qed
qed

lemma sound_elsewhere: "bs_blocks db' = bs_blocks db \<Longrightarrow> bs_allocations db' = bs_allocations db \<Longrightarrow> bs_entries db' = bs_entries db
    \<Longrightarrow> sound_change db db'"
  by (simp add: sound_change_def hb_invariant_def store_ok_def marked_def unused_def evolves_same)

lemma sound_scopes: "resolveScopeServiceIds i ss db = Inr db' \<Longrightarrow> sound_change db db'"
  by (auto simp: resolveScopeServiceIds_def intro!: sound_elsewhere split: if_splits)

lemma sound_insert_scopes: "insert_block b db = Inr db1 \<Longrightarrow> resolveScopeServiceIds i ss db1 = Inr db2 \<Longrightarrow> hb_first_allocated_at b = None
    \<Longrightarrow> sound_change db db2"
  by (rule sound_trans [OF sound_insert sound_scopes])

lemma sound_sold: "createHourBlockPurchaseInvoiceInternal i now invoice line currency creator subject inp hours rate db = Inr db' \<Longrightarrow> sound_change db db'"
  unfolding createHourBlockPurchaseInvoiceInternal_def Let_def and_then_Inr_iff
  by (elim exE conjE, rule sound_trans, erule sound_insert, simp, erule sound_scopes)

lemma sound_granted: "grantHourBlock allowed user i now clients inp db = Inr db' \<Longrightarrow> sound_change db db'"
  unfolding grantHourBlock_def Let_def
  by (auto split: option.splits simp: result_simps) (erule (1) sound_insert_scopes, simp)+

lemma sound_update_one:
  assumes found: "find_block i db = Inr blk" and upd: "update_blocks (\<lambda>b. hb_block_id b = i) f db = Inr db'"
    and f: "hb_invariant db \<Longrightarrow> blk \<in> set (bs_blocks db) \<Longrightarrow> block_evolves blk (f blk) \<and> hb_first_allocated_at (f blk) = hb_first_allocated_at blk
      \<and> (hb_status (f blk) \<in> {Block_Pending, Block_Voided} \<longrightarrow> hb_first_allocated_at blk = None)"
  shows "sound_change db db'"
proof (rule sound_update [OF upd])
  fix b assume inv: "hb_invariant db" and b: "b \<in> set (bs_blocks db)" "hb_block_id b = i"
  have blk: "blk \<in> set (bs_blocks db)" "hb_block_id blk = i" using find_block_in [OF found] by auto
  have "b = blk" using same_block [OF inv b(1) blk(1)] b(2) blk(2) by simp
  then show "block_evolves b (f b) \<and> hb_first_allocated_at (f b) = hb_first_allocated_at b
      \<and> (hb_status (f b) \<in> {Block_Pending, Block_Voided} \<longrightarrow> hb_first_allocated_at b = None)"
    using f [OF inv blk(1)] by simp
qed

lemma sound_adjusted: "adjustHourBlockRemaining allowed user now i delta reason db = Inr db' \<Longrightarrow> sound_change db db'"
  unfolding adjustHourBlockRemaining_def
  by (auto split: option.splits simp: result_simps)
    (erule (1) sound_update_one, auto simp: block_evolves_def hb_invariant_def unused_def)

lemma sound_dated: "updateHourBlockExpiration allowed user now i date db = Inr db' \<Longrightarrow> sound_change db db'"
  unfolding updateHourBlockExpiration_def
  by (auto simp: result_simps) (erule (1) sound_update_one, auto simp: block_evolves_def hb_invariant_def unused_def)

lemma sound_expired: "manuallyExpireHourBlock allowed user now i reason db = Inr db' \<Longrightarrow> sound_change db db'"
  unfolding manuallyExpireHourBlock_def
  by (auto simp: result_simps) (erule (1) sound_update_one, simp add: block_evolves_def)

lemma sound_voided: "voidHourBlock allowed user now i reason db = Inr db' \<Longrightarrow> sound_change db db'"
  unfolding voidHourBlock_def
  by (auto simp: result_simps) (erule (1) sound_update_one, auto simp: block_evolves_def)+

text \<open>The loops: what is still to be handled is as it was selected.\<close>

lemma update_keeps_others:
  assumes "update_blocks (\<lambda>b. hb_block_id b = i) f db = Inr db'" "x \<in> set (bs_blocks db)" "hb_block_id x \<noteq> i"
  shows "x \<in> set (bs_blocks db')"
  using assms by (auto simp: update_blocks_def split: if_splits)

lemma later_block: "distinct (map hb_block_id (b # bs)) \<Longrightarrow> x \<in> set bs \<Longrightarrow> hb_block_id x \<noteq> hb_block_id b"
  by (metis distinct.simps(2) image_eqI list.set_map list.simps(9))

lemma sound_expire_all:
  "expire_all now bs db = Inr db' \<Longrightarrow> set bs \<subseteq> set (bs_blocks db) \<Longrightarrow> \<forall>b \<in> set bs. hb_status b = Block_Active
   \<Longrightarrow> distinct (map hb_block_id bs) \<Longrightarrow> sound_change db db'"
proof (induction bs arbitrary: db)
  case Nil
  then show ?case by simp
next
  case (Cons b bs)
  let ?r = "\<lparr>bu_block_id = hb_block_id b, bu_type = Audit_Auto_Expiration, bu_minutes_delta = None,
    bu_reason = Some ''Auto-expired by nightly job'', bu_created_by = None,
    bu_metadata = Auto_Expiration (hb_expiration_date b) (hb_remaining_minutes b)\<rparr>"
  from Cons.prems(1) obtain db1 where upd: "update_blocks (\<lambda>x. hb_block_id x = hb_block_id b)
      (\<lambda>b. b\<lparr>hb_status := Block_Expired, hb_updated_at := now\<rparr>) db = Inr db1" and rest: "expire_all now bs (writeAudit ?r db1) = Inr db'"
    by (auto simp: result_simps)
  have "sound_change db db1"
  proof (rule sound_update [OF upd])
    fix x assume "hb_invariant db" "x \<in> set (bs_blocks db)" "hb_block_id x = hb_block_id b"
    then have "x = b" using Cons.prems(2) same_block by auto
    then show "block_evolves x (x\<lparr>hb_status := Block_Expired, hb_updated_at := now\<rparr>)
        \<and> hb_first_allocated_at (x\<lparr>hb_status := Block_Expired, hb_updated_at := now\<rparr>) = hb_first_allocated_at x
        \<and> (hb_status (x\<lparr>hb_status := Block_Expired, hb_updated_at := now\<rparr>) \<in> {Block_Pending, Block_Voided} \<longrightarrow> hb_first_allocated_at x = None)"
      using Cons.prems(3) by (simp add: block_evolves_def)
  qed
  moreover have "set bs \<subseteq> set (bs_blocks (writeAudit ?r db1))"
  proof
    fix x assume "x \<in> set bs"
    then have "x \<in> set (bs_blocks db)" "hb_block_id x \<noteq> hb_block_id b" using Cons.prems(2) later_block [OF Cons.prems(4)] by auto
    then show "x \<in> set (bs_blocks (writeAudit ?r db1))" using update_keeps_others [OF upd] by (simp add: writeAudit_def)
  qed
  then have "sound_change (writeAudit ?r db1) db'" using Cons.IH [OF rest] Cons.prems(3,4) by simp
  ultimately show ?case by (intro sound_trans [of db "writeAudit ?r db1" db']) simp_all
qed

lemma linked_blocks:
  "set (js_sort by_block_id (filter P (bs_blocks db))) \<subseteq> set (bs_blocks db)"
  "distinct (map hb_block_id (bs_blocks db)) \<Longrightarrow> distinct (map hb_block_id (js_sort by_block_id (filter P (bs_blocks db))))"
  by (auto simp: distinct_map_filter)

lemma sound_auto_expired: "expiredHourBlocksHandler tenantToday now client db = Inr db' \<Longrightarrow> sound_change db db'"
proof (rule sound_if)
  assume run: "expiredHourBlocksHandler tenantToday now client db = Inr db'" and inv: "hb_invariant db"
  let ?bs = "js_sort by_block_id (filter (expired_candidate tenantToday client) (bs_blocks db))"
  have "distinct (map hb_block_id (bs_blocks db))" using inv by (simp add: hb_invariant_def store_ok_def)
  then have "distinct (map hb_block_id ?bs)" by (rule linked_blocks(2))
  moreover have "expire_all now ?bs db = Inr db'" using run by (simp add: expiredHourBlocksHandler_def)
  moreover have "\<forall>b \<in> set ?bs. hb_status b = Block_Active" by (simp add: expired_candidate_def)
  ultimately show "sound_change db db'" using sound_expire_all linked_blocks(1) by blast
qed

lemma sound_activate_block: "activate_block charges invoice creator now blk db = Inr db' \<Longrightarrow> sound_change db db'"
  unfolding activate_block_def voidPendingBlockAtFinalization_def Let_def
  by (auto split: option.splits if_splits simp: result_simps)
    (erule sound_update, auto simp: block_evolves_def hb_invariant_def unused_def)+

lemma sound_finalized: "activateHourBlocksForFinalizedInvoice charges invoice creator now db = Inr db' \<Longrightarrow> sound_change db db'"
proof -
  have "activate_all charges invoice creator now bs db = Inr db' \<Longrightarrow> sound_change db db'" for bs db
    by (induction bs arbitrary: db) (auto simp: result_simps intro: sound_trans sound_activate_block)
  then show "activateHourBlocksForFinalizedInvoice charges invoice creator now db = Inr db' \<Longrightarrow> sound_change db db'"
    by (simp add: activateHourBlocksForFinalizedInvoice_def)
qed

lemma sound_deactivate_all:
  "deactivate_all invoice user now bs db = Inr db' \<Longrightarrow> set bs \<subseteq> set (bs_blocks db) \<Longrightarrow> distinct (map hb_block_id bs) \<Longrightarrow> sound_change db db'"
proof (induction bs arbitrary: db)
  case Nil
  then show ?case by simp
next
  case (Cons b bs)
  show ?case
  proof (cases "hb_status b = Block_Active")
    case False
    then show ?thesis using Cons by simp
  next
    case True
    let ?r = "\<lparr>bu_block_id = hb_block_id b, bu_type = Audit_Purchase_Reversal, bu_minutes_delta = None,
      bu_reason = Some ''Invoice unfinalized'', bu_created_by = Some user, bu_metadata = Source_Invoice invoice None\<rparr>"
    let ?f = "\<lambda>b. b\<lparr>hb_status := Block_Pending, hb_purchased_at := None, hb_updated_at := now\<rparr>"
    from Cons.prems(1) True obtain db1 where upd: "update_blocks (\<lambda>x. hb_block_id x = hb_block_id b) ?f db = Inr db1"
      and rest: "deactivate_all invoice user now bs (writeAudit ?r db1) = Inr db'" and new: "hb_first_allocated_at b = None"
      by (auto simp: result_simps split: if_splits)
    have "sound_change db db1"
    proof (rule sound_update [OF upd])
      fix x assume "hb_invariant db" "x \<in> set (bs_blocks db)" "hb_block_id x = hb_block_id b"
      then have "x = b" using Cons.prems(2) same_block by auto
      then show "block_evolves x (?f x) \<and> hb_first_allocated_at (?f x) = hb_first_allocated_at x
          \<and> (hb_status (?f x) \<in> {Block_Pending, Block_Voided} \<longrightarrow> hb_first_allocated_at x = None)"
        using True new by (simp add: block_evolves_def)
    qed
    moreover have "set bs \<subseteq> set (bs_blocks (writeAudit ?r db1))"
    proof
      fix x assume "x \<in> set bs"
      then have "x \<in> set (bs_blocks db)" "hb_block_id x \<noteq> hb_block_id b" using Cons.prems(2) later_block [OF Cons.prems(3)] by auto
      then show "x \<in> set (bs_blocks (writeAudit ?r db1))" using update_keeps_others [OF upd] by (simp add: writeAudit_def)
    qed
    then have "sound_change (writeAudit ?r db1) db'" using Cons.IH [OF rest] Cons.prems(3) by simp
    ultimately show ?thesis by (intro sound_trans [of db "writeAudit ?r db1" db']) simp_all
  qed
qed

lemma sound_unfinalized: "deactivateHourBlocksForUnfinalizedInvoice invoice user now db = Inr db' \<Longrightarrow> sound_change db db'"
proof (rule sound_if)
  assume run: "deactivateHourBlocksForUnfinalizedInvoice invoice user now db = Inr db'" and inv: "hb_invariant db"
  have "distinct (map hb_block_id (bs_blocks db))" using inv by (simp add: hb_invariant_def store_ok_def)
  from sound_deactivate_all [OF run [unfolded deactivateHourBlocksForUnfinalizedInvoice_def] linked_blocks(1) linked_blocks(2) [OF this]]
  show "sound_change db db'" .
qed

lemma sound_draft_deleted: "voidPendingHourBlocksForDeletedInvoice invoice user now db = Inr db' \<Longrightarrow> sound_change db db'"
proof -
  have "void_linked invoice user now bs db = Inr db' \<Longrightarrow> sound_change db db'" for bs db
  proof (induction bs arbitrary: db)
    case Nil
    then show ?case by simp
  next
    case (Cons b bs)
    show ?case
    proof (cases "hb_status b = Block_Pending")
      case True
      obtain db1 where upd: "update_blocks (\<lambda>x. hb_block_id x = hb_block_id b \<and> hb_status x = Block_Pending)
          (\<lambda>b. b\<lparr>hb_status := Block_Voided, hb_voided_at := Some now, hb_voided_by := Some user,
             hb_void_reason := Some ''Draft purchase invoice deleted'', hb_updated_at := now, hb_source_invoice_id := None\<rparr>) db = Inr db1"
        and rest: "\<exists>db2. void_linked invoice user now bs db2 = Inr db' \<and> (db2 = db1 \<or> (\<exists>r. db2 = writeAudit r db1))"
        using Cons.prems True by (auto simp: result_simps split: if_splits)
      have "sound_change db db1"
        by (rule sound_update [OF upd]) (auto simp: block_evolves_def hb_invariant_def unused_def)
      moreover obtain db2 where "void_linked invoice user now bs db2 = Inr db'" "sound_change db1 db2" using rest by auto
      ultimately show ?thesis using Cons.IH sound_trans by blast
    next
      case False
      obtain db1 where upd: "update_blocks (\<lambda>x. hb_block_id x = hb_block_id b \<and> hb_status x = Block_Voided)
          (\<lambda>b. b\<lparr>hb_source_invoice_id := None, hb_updated_at := now\<rparr>) db = Inr db1"
        and rest: "void_linked invoice user now bs db1 = Inr db'"
        using Cons.prems False by (auto simp: result_simps)
      have "sound_change db db1"
        by (rule sound_update [OF upd]) (auto simp: block_evolves_def hb_invariant_def unused_def)
      then show ?thesis using Cons.IH [OF rest] sound_trans by blast
    qed
  qed
  then show "voidPendingHourBlocksForDeletedInvoice invoice user now db = Inr db' \<Longrightarrow> sound_change db db'"
    by (auto simp: voidPendingHourBlocksForDeletedInvoice_def Let_def split: option.splits)
qed

lemma sound_saved:
  assumes "updated \<or> (\<forall>a \<in> set (bs_allocations db). ba_time_entry_id a \<noteq> te_entry_id e)"
  shows "sound_change db (burn_on_save local_day now updated e db)"
proof (rule sound_if)
  assume inv: "hb_invariant db"
  let ?db' = "burn_on_save local_day now updated e db"
  consider "?db' = db" | db1 where "(if updated then reverseTimeEntryAllocations now (te_entry_id e) db else Inr db) = Inr db1"
      "?db' = db1 \<or> (\<exists>c as. allocateTimeEntry local_day now c e db1 = Inr (as, ?db'))"
  proof (cases "if updated then reverseTimeEntryAllocations now (te_entry_id e) db else Inr db")
    case (Inl err)
    then have "?db' = db" unfolding burn_on_save_def Inl by simp
    then show thesis using that(1) by blast
  next
    case (Inr db1)
    have "?db' = db \<or> ?db' = db1 \<or> (\<exists>c as. allocateTimeEntry local_day now c e db1 = Inr (as, ?db'))"
      unfolding burn_on_save_def Inr and_then_simps Let_def
      by (auto split: sum.splits prod.splits simp: and_then_def)
    then show thesis using that Inr by blast
  qed
  then show "sound_change db ?db'"
  proof cases
    case 1
    then show ?thesis by simp
  next
    case 2
    have rev: "sound_change db db1 \<and> (\<forall>a \<in> set (bs_allocations db1). ba_time_entry_id a \<noteq> te_entry_id e)"
    proof (cases updated)
      case True
      then have r: "reverseTimeEntryAllocations now (te_entry_id e) db = Inr db1" using 2(1) by simp
      have "store_ok db" using inv by (simp add: hb_invariant_def)
      from sound_reverse_entry [OF r] reverse_entry_conserves [OF this r] show ?thesis by blast
    next
      case False
      then show ?thesis using 2(1) assms by auto
    qed
    have "sound_change db1 ?db'" if a: "allocateTimeEntry local_day now c e db1 = Inr (as, ?db')" for c as
      by (rule sound_allocate [OF _ a]) (use rev in blast)
    then show ?thesis using 2(2) rev sound_trans by auto
  qed
qed

lemma sound_deleted: "delete_entry now i db = Inr db' \<Longrightarrow> sound_change db db'"
proof -
  assume "delete_entry now i db = Inr db'"
  then obtain db1 where rev: "reverseTimeEntryAllocations now i db = Inr db1"
    and db': "db' = db1\<lparr>bs_entries := filter (\<lambda>e. te_entry_id e \<noteq> i) (bs_entries db1)\<rparr>" by (auto simp: delete_entry_def result_simps)
  have "sound_change db1 db'"
  proof (rule sound_if)
    assume "hb_invariant db1"
    then show "sound_change db1 db'" by (intro sound_same) (auto simp: db' hb_invariant_def store_ok_def distinct_map_filter)
  qed
  then show "sound_change db db'" using sound_reverse_entry [OF rev] sound_trans by blast
qed

lemmas sound_steps = sound_sold sound_granted sound_adjusted sound_dated sound_expired sound_voided sound_auto_expired
  sound_finalized sound_unfinalized sound_draft_deleted sound_saved sound_deleted

lemma sound_map:
  assumes db': "bs_blocks db' = map f (bs_blocks db)" "bs_allocations db' = bs_allocations db" "bs_entries db' = bs_entries db"
    and f: "\<And>b. hb_block_id (f b) = hb_block_id b" "\<And>b. hb_status (f b) = hb_status b"
      "\<And>b. hb_first_allocated_at (f b) = hb_first_allocated_at b" "\<And>b. block_checks (f b) = block_checks b"
  shows "sound_change db db'"
proof (rule sound_if)
  assume inv: "hb_invariant db"
  have ids: "map hb_block_id (bs_blocks db') = map hb_block_id (bs_blocks db)" by (simp add: db'(1) f(1) o_def)
  have names: "distinct (map hb_block_id (bs_blocks db')) = distinct (map hb_block_id (bs_blocks db))"
    "hb_block_id ` set (bs_blocks db') = hb_block_id ` set (bs_blocks db)" 
    unfolding list.set_map [symmetric] ids by (rule refl)+
  have "list_all block_checks (bs_blocks db') = list_all block_checks (bs_blocks db)" by (simp add: db'(1) list.pred_map o_def f(4))
  then have "store_ok db'" using inv names by (simp add: hb_invariant_def store_ok_def db'(2,3))
  moreover have "marked db'" "unused db'" using inv by (auto simp: hb_invariant_def marked_def unused_def db' f)
  moreover have "evolves db db'" by (auto simp: evolves_def block_evolves_def db'(1) f)
  ultimately show "sound_change db db'" by (simp add: sound_change_def hb_invariant_def)
qed

lemma sound_delete_entries: "sound_change db (delete_entries_cascade P db)"
  by (auto simp: sound_change_def delete_entries_cascade_def Let_def hb_invariant_def store_ok_def marked_def unused_def
      distinct_map_filter intro: evolves_same)

lemma sound_moved: "sound_change db (moveClientBlocks s t db)"
  by (rule sound_map [where f = "\<lambda>b. if hb_client_id b = s then b\<lparr>hb_client_id := t\<rparr> else b"])
    (auto simp: moveClientBlocks_def block_checks_def)

lemma sound_line_deleted: "sound_change db (delete_line_cascade i db)"
  by (rule sound_map [where f = "\<lambda>b. if hb_source_invoice_charge_id b = Some i then b\<lparr>hb_source_invoice_charge_id := None\<rparr> else b"])
    (auto simp: delete_line_cascade_def block_checks_def)

lemma sound_invoice_deleted: "sound_change db (delete_invoice_cascade i db)"
  by (rule sound_map [where f = "\<lambda>b. if hb_source_invoice_id b = Some i then b\<lparr>hb_source_invoice_id := None\<rparr> else b"])
    (auto simp: delete_invoice_cascade_def block_checks_def)

lemma sound_entries_deleted: "sound_change db (deleteTimeEntryByService i db)" "sound_change db (deleteWorkItem i db)"
  by (simp_all add: deleteTimeEntryByService_def deleteWorkItem_def sound_delete_entries)

lemmas sound_cascades = sound_moved sound_line_deleted sound_invoice_deleted sound_entries_deleted

lemma sound_write: "hb_write local_day db db' \<Longrightarrow> sound_change db db'"
  by (induction rule: hb_write.induct)
    (erule sound_steps | (unfold reconcileClientAllocations_def, erule sound_reconcile_loop) | (erule (2) sound_same)
      | rule sound_cascades)+

text \<open>The deletion of a client takes its blocks and leaves the others as they are.\<close>

lemma client_deletion:
  "bs_blocks (delete_client_cascade c db) = filter (\<lambda>b. hb_client_id b \<noteq> c) (bs_blocks db)"
  "hb_invariant db \<Longrightarrow> hb_invariant (delete_client_cascade c db)"
proof -
  show "hb_invariant (delete_client_cascade c db)" if inv: "hb_invariant db"
  proof -
    have "ba_block_id a \<in> hb_block_id ` set (filter (\<lambda>b. hb_client_id b \<noteq> c) (bs_blocks db))"
      if "a \<in> set (bs_allocations db)" "ba_block_id a \<notin> hb_block_id ` {b \<in> set (bs_blocks db). hb_client_id b = c}" for a
    proof -
      have "ba_block_id a \<in> hb_block_id ` set (bs_blocks db)" using inv that(1) by (simp add: hb_invariant_def store_ok_def)
      with that(2) show ?thesis by fastforce
    qed
    with inv show ?thesis
      by (auto simp: delete_client_cascade_def Let_def hb_invariant_def store_ok_def marked_def unused_def distinct_map_filter
          list_all_iff)
  qed
qed (simp add: delete_client_cascade_def Let_def)

lemma step_invariant: "hb_step local_day db db' \<Longrightarrow> hb_invariant db \<Longrightarrow> hb_invariant db'"
  by (induction rule: hb_step.induct) (auto dest: sound_write simp: sound_change_def client_deletion)

lemma step_evolves:
  assumes "hb_step local_day db db'" "hb_invariant db" "b \<in> set (bs_blocks db)" "hb_block_id b \<in> hb_block_id ` set (bs_blocks db')"
  shows "\<exists>b' \<in> set (bs_blocks db'). block_evolves b b'"
  using assms(1)
proof (cases rule: hb_step.cases)
  case written
  then show ?thesis using sound_write assms(2,3) unfolding sound_change_def evolves_def by blast
next
  case (client_deleted c)
  then obtain x where x: "x \<in> set (bs_blocks db')" "x \<in> set (bs_blocks db)" "hb_block_id x = hb_block_id b"
    using assms(4) by (auto simp: client_deletion)
  then have "x = b" using same_block [OF assms(2) x(2) assms(3)] by simp
  with x(1) show ?thesis using block_evolves_refl by blast
qed

lemma step_removes:
  assumes "hb_step local_day db db'" "hb_invariant db" "b \<in> set (bs_blocks db)" "hb_block_id b \<notin> hb_block_id ` set (bs_blocks db')"
  shows "db' = delete_client_cascade (hb_client_id b) db"
  using assms(1)
proof (cases rule: hb_step.cases)
  case written
  then obtain b' where b': "b' \<in> set (bs_blocks db')" "block_evolves b b'"
    using sound_write assms(2,3) unfolding sound_change_def evolves_def by blast
  then have "hb_block_id b' = hb_block_id b" by (simp add: block_evolves_def)
  then have "hb_block_id b \<in> hb_block_id ` set (bs_blocks db')" using b'(1) by (metis imageI)
  with assms(4) show ?thesis by contradiction
next
  case (client_deleted c)
  have "hb_client_id b = c"
  proof (rule ccontr)
    assume "hb_client_id b \<noteq> c"
    then have "b \<in> set (bs_blocks db')" using assms(3) client_deleted by (simp add: client_deletion)
    with assms(4) show False by blast
  qed
  with client_deleted show ?thesis by simp
qed

lemma runs_invariant: "hb_runs local_day db db' \<Longrightarrow> hb_invariant db \<Longrightarrow> hb_invariant db'"
  by (induction rule: hb_runs.induct) (blast intro: step_invariant)+

lemma runs_with_evolves:
  "hb_runs_with local_day i db db' \<Longrightarrow> hb_invariant db \<Longrightarrow> b \<in> set (bs_blocks db) \<Longrightarrow> hb_block_id b = i
   \<Longrightarrow> hb_invariant db' \<and> (\<exists>b' \<in> set (bs_blocks db'). block_evolves b b')"
proof (induction rule: hb_runs_with.induct)
  case (stay_with db)
  then show ?case using block_evolves_refl by blast
next
  case (step_with db db1 db2)
  then obtain b1 where b1: "hb_invariant db1" "b1 \<in> set (bs_blocks db1)" "block_evolves b b1" by blast
  then have "hb_block_id b1 = i" using step_with.prems(3) by (simp add: block_evolves_def)
  then obtain b2 where b2: "b2 \<in> set (bs_blocks db2)" "block_evolves b1 b2"
    using step_evolves [OF step_with.hyps(2) b1(1,2)] step_with.hyps(3) by blast
  have "block_evolves b b2" using b1(3) b2(2) unfolding block_evolves_def by (metis (no_types, lifting))
  with b2(1) show ?case using step_invariant [OF step_with.hyps(2) b1(1)] by blast
qed

lemma empty_invariant: "empty_blocks db \<Longrightarrow> hb_invariant db"
  by (simp add: empty_blocks_def hb_invariant_def store_ok_def marked_def unused_def)

text \<open>
  C6: whatever is done to the blocks, from an empty ledger on: identifiers stay unique, no balance is negative, no
  entry draws twice from a block, every allocation is positive and on a block marked as used, and a pending or
  voided block has never been used: no allocation draws from it.
\<close>

theorem hour_block_ledger_invariant:
  assumes "empty_blocks db0" "hb_runs local_day db0 db"
  shows "store_ok db \<and> (\<forall>b \<in> set (bs_blocks db). 0 \<le> hb_remaining_minutes b
      \<and> (has_allocations db (hb_block_id b) \<longrightarrow> hb_first_allocated_at b \<noteq> None)
      \<and> (hb_status b \<in> {Block_Pending, Block_Voided} \<longrightarrow> hb_first_allocated_at b = None \<and> \<not> has_allocations db (hb_block_id b)))"
proof -
  have inv: "hb_invariant db"
    by (rule runs_invariant [OF assms(2) empty_invariant [OF assms(1)]])
  then have ok: "store_ok db" by (simp add: hb_invariant_def)
  have m: "has_allocations db (hb_block_id b) \<Longrightarrow> hb_first_allocated_at b \<noteq> None" if "b \<in> set (bs_blocks db)" for b
    using inv that by (auto simp: hb_invariant_def marked_def has_allocations_def list_ex_iff)
  have "0 \<le> hb_remaining_minutes b" if "b \<in> set (bs_blocks db)" for b
    using ok that by (auto simp: store_ok_def list_all_iff block_checks_def)
  then show ?thesis using ok m inv unfolding hb_invariant_def unused_def by blast
qed

text \<open>
  C11: as long as its client is not deleted, a block that has ever been used keeps its mark for good and is never
  voided and never pending again, even when all its burns have been taken back, and an expired and a voided block
  stay that. A merge may move the block to another client; only the deletion of the client that owns it removes it.
\<close>

theorem used_block_never_voided:
  assumes "empty_blocks db0" "hb_runs local_day db0 db" "b \<in> set (bs_blocks db)" "hb_runs_with local_day (hb_block_id b) db db'"
  shows "\<exists>b' \<in> set (bs_blocks db'). hb_block_id b' = hb_block_id b
    \<and> (hb_first_allocated_at b \<noteq> None \<longrightarrow> hb_first_allocated_at b' = hb_first_allocated_at b
        \<and> hb_status b' \<noteq> Block_Voided \<and> hb_status b' \<noteq> Block_Pending)
    \<and> (hb_status b = Block_Voided \<longrightarrow> hb_status b' = Block_Voided)
    \<and> (hb_status b = Block_Expired \<longrightarrow> hb_status b' = Block_Expired)
    \<and> (\<forall>db''. hb_step local_day db' db'' \<longrightarrow> hb_block_id b \<notin> hb_block_id ` set (bs_blocks db'')
        \<longrightarrow> db'' = delete_client_cascade (hb_client_id b') db')"
proof -
  have inv: "hb_invariant db"
    by (rule runs_invariant [OF assms(2) empty_invariant [OF assms(1)]])
  obtain b' where b': "hb_invariant db'" "b' \<in> set (bs_blocks db')" "block_evolves b b'"
    using runs_with_evolves [OF assms(4) inv assms(3) refl] by blast
  have "hb_status b' \<in> {Block_Pending, Block_Voided} \<Longrightarrow> hb_first_allocated_at b' = None"
    using b'(1,2) by (auto simp: hb_invariant_def unused_def)
  moreover have "db'' = delete_client_cascade (hb_client_id b') db'"
    if "hb_step local_day db' db''" "hb_block_id b \<notin> hb_block_id ` set (bs_blocks db'')" for db''
    using step_removes [OF that(1) b'(1,2)] that(2) b'(3) by (simp add: block_evolves_def)
  ultimately show ?thesis using b'(2,3) by (intro bexI [of _ b']) (auto simp: block_evolves_def)
qed

text \<open>A block of two hours is granted and an entry of ninety minutes saved; later the block is expired.\<close>

definition start_store :: block_store where
  "start_store = sample_store [] [] [sample_entry ''e'' ''s'' 90 20454] []"

definition sample_grant :: block_input where
  "sample_grant = \<lparr>bi_client_id = ''c'', bi_service_id = ''s'', bi_hours = Some 2, bi_hourly_rate = Some (Some 12000),
     bi_expiration_date = None, bi_scope_service_ids = [], bi_reason = Some ''migration'', bi_notes = None\<rparr>"

definition granted_store :: block_store where
  "granted_store = (case grantHourBlock True ''u'' ''b'' 5 (\<lambda>_. Some None) sample_grant start_store of Inr d \<Rightarrow> d | Inl _ \<Rightarrow> start_store)"

definition used_store :: block_store where
  "used_store = burn_on_save id 7 False (sample_entry ''e'' ''s'' 90 20454) granted_store"

definition expired_later :: block_store where
  "expired_later = (case manuallyExpireHourBlock True ''u'' 9 ''b'' (Some ''closed'') used_store of Inr d \<Rightarrow> d | Inl _ \<Rightarrow> used_store)"

lemma start_empty: "empty_blocks start_store"
  by code_simp

lemma sum_value: "(case r of Inr _ \<Rightarrow> True | Inl _ \<Rightarrow> False) \<Longrightarrow> r = Inr (case r of Inr d \<Rightarrow> d | Inl _ \<Rightarrow> db)"
  by (cases r) auto

lemma start_runs: "hb_runs id start_store used_store" "hb_runs_with id ''b'' used_store expired_later"
proof -
  have "grantHourBlock True ''u'' ''b'' 5 (\<lambda>_. Some None) sample_grant start_store = Inr granted_store"
    unfolding granted_store_def by (rule sum_value) code_simp
  then have "hb_runs id start_store granted_store" by (intro hb_runs.step [OF hb_runs.stay] hb_step.written hb_write.granted)
  moreover have "hb_step id granted_store used_store"
    unfolding used_store_def by (rule hb_step.written, rule hb_write.saved) code_simp
  ultimately show "hb_runs id start_store used_store" by (rule hb_runs.step)
  have "manuallyExpireHourBlock True ''u'' 9 ''b'' (Some ''closed'') used_store = Inr expired_later"
    unfolding expired_later_def by (rule sum_value) code_simp
  moreover have "''b'' \<in> set (map hb_block_id (bs_blocks expired_later))" by code_simp
  ultimately show "hb_runs_with id ''b'' used_store expired_later"
    by (intro step_with [OF stay_with] hb_step.written hb_write.expired) simp_all
qed

theorem hour_block_ledger_invariant_witness:
  "store_ok used_store \<and> has_allocations used_store ''b''"
proof -
  have "has_allocations used_store ''b''" by code_simp
  then show ?thesis using hour_block_ledger_invariant [OF start_empty start_runs(1)] by blast
qed

theorem used_block_never_voided_witness:
  "\<exists>b \<in> set (bs_blocks used_store). \<exists>b' \<in> set (bs_blocks expired_later). hb_first_allocated_at b = Some 7
    \<and> hb_block_id b' = hb_block_id b \<and> hb_first_allocated_at b' = Some 7 \<and> hb_status b' \<noteq> Block_Voided"
proof -
  have "list_ex (\<lambda>b. hb_block_id b = ''b'' \<and> hb_first_allocated_at b = Some 7) (bs_blocks used_store)" by code_simp
  then obtain b where b: "b \<in> set (bs_blocks used_store)" "hb_block_id b = ''b''" "hb_first_allocated_at b = Some 7"
    by (auto simp: list_ex_iff)
  have "hb_runs_with id (hb_block_id b) used_store expired_later" using start_runs(2) b(2) by simp
  from used_block_never_voided [OF start_empty start_runs(1) b(1) this] obtain b' where
    "b' \<in> set (bs_blocks expired_later)" "hb_block_id b' = hb_block_id b" "hb_first_allocated_at b' = Some 7"
    "hb_status b' \<noteq> Block_Voided" using b(3) by auto
  with b show ?thesis by blast
qed

section \<open>Finalizing and unfinalizing the invoice\<close>

text \<open>A pending block after its invoice has been finalized.\<close>

definition finalized :: "invoice_charge list \<Rightarrow> string \<Rightarrow> string option \<Rightarrow> int \<Rightarrow> hour_block \<Rightarrow> hour_block" where
  "finalized charges invoice creator now b =
     (case resolvePurchaseLineForBlock charges invoice b of
        None \<Rightarrow> b\<lparr>hb_status := Block_Voided, hb_voided_at := Some now, hb_voided_by := creator,
          hb_void_reason := Some ''Purchase line removed from the invoice before finalization'', hb_updated_at := now\<rparr>
      | Some line \<Rightarrow>
          (case cell_number (ic_quantity line) of
             Some q \<Rightarrow> if 0 < q \<and> 0 < js_round (dbl (q * 60))
               then b\<lparr>hb_status := Block_Active, hb_purchased_at := Some now, hb_updated_at := now,
                 hb_total_minutes := js_round (dbl (q * 60)), hb_remaining_minutes := js_round (dbl (q * 60)),
                 hb_hourly_rate := js_round (or_else (cell_number (ic_unit_price line)) 0),
                 hb_purchase_amount := js_round (dbl (q * or_else (cell_number (ic_unit_price line)) 0)),
                 hb_service_id := or_else (ic_service_id line) (hb_service_id b), hb_source_invoice_charge_id := Some (ic_item_id line)\<rparr>
               else b\<lparr>hb_status := Block_Voided, hb_voided_at := Some now, hb_voided_by := creator,
                 hb_void_reason := Some ''Purchase line no longer has a positive quantity at finalization'', hb_updated_at := now\<rparr>
           | None \<Rightarrow> b\<lparr>hb_status := Block_Voided, hb_voided_at := Some now, hb_voided_by := creator,
               hb_void_reason := Some ''Purchase line no longer has a positive quantity at finalization'', hb_updated_at := now\<rparr>))"

lemma finalized_id [simp]: "hb_block_id (finalized charges invoice creator now b) = hb_block_id b"
  by (simp add: finalized_def split: option.split)

lemma only_block:
  assumes "distinct (map hb_block_id bs)" "blk \<in> set bs"
  shows "map (\<lambda>b. if hb_block_id b = hb_block_id blk then f b else b) bs = map (\<lambda>b. if hb_block_id b = hb_block_id blk then f blk else b) bs"
  using assms by (auto simp: distinct_map dest: inj_onD)

lemma activate_block_closed:
  assumes ids: "distinct (map hb_block_id (bs_blocks db))" and blk: "blk \<in> set (bs_blocks db)" "hb_status blk = Block_Pending"
    and run: "activate_block charges invoice creator now blk db = Inr db'"
  shows "bs_blocks db' = map (\<lambda>b. if hb_block_id b = hb_block_id blk then finalized charges invoice creator now b else b) (bs_blocks db)"
proof -
  have one: "b \<in> set (bs_blocks db) \<Longrightarrow> hb_block_id b = hb_block_id blk \<Longrightarrow> b = blk" for b
    using ids blk(1) unfolding distinct_map by (metis inj_onD)
  have upd: "bs_blocks db1 = map (\<lambda>b. if hb_block_id b = hb_block_id blk then f b else b) (bs_blocks db)"
    if "update_blocks (\<lambda>b. hb_block_id b = hb_block_id blk \<and> hb_status b = Block_Pending) f db = Inr db1" for f db1
  proof -
    have pending: "b \<in> set (bs_blocks db) \<Longrightarrow> hb_block_id b = hb_block_id blk \<Longrightarrow> hb_status b = Block_Pending" for b
      using one blk(2) by metis
    have "bs_blocks db1 = map (\<lambda>b. if hb_block_id b = hb_block_id blk \<and> hb_status b = Block_Pending then f b else b) (bs_blocks db)"
      using that by (auto simp: update_blocks_def split: if_splits)
    then show ?thesis using pending by auto
  qed
  let ?fin = "finalized charges invoice creator now"
  have "\<exists>f db1. update_blocks (\<lambda>b. hb_block_id b = hb_block_id blk \<and> hb_status b = Block_Pending) f db = Inr db1
      \<and> bs_blocks db' = bs_blocks db1 \<and> f blk = ?fin blk"
  proof (cases "resolvePurchaseLineForBlock charges invoice blk")
    case None
    then show ?thesis using run
      by (fastforce simp: activate_block_def voidPendingBlockAtFinalization_def result_simps writeAudit_def finalized_def)
  next
    case line: (Some line)
    show ?thesis
    proof (cases "\<exists>q. cell_number (ic_quantity line) = Some q \<and> 0 < q \<and> 0 < js_round (dbl (q * 60))")
      case False
      then have "?fin blk = blk\<lparr>hb_status := Block_Voided, hb_voided_at := Some now, hb_voided_by := creator,
          hb_void_reason := Some ''Purchase line no longer has a positive quantity at finalization'', hb_updated_at := now\<rparr>"
        using line by (auto simp: finalized_def split: option.splits)
      moreover have "voidPendingBlockAtFinalization (hb_block_id blk) creator now
          ''Purchase line no longer has a positive quantity at finalization''
          (Source_Invoice invoice (Some (ic_item_id line))) db = Inr db'"
        using run line False by (cases "cell_number (ic_quantity line)") (auto simp: activate_block_def Let_def split: if_splits)
      ultimately show ?thesis
        by (fastforce simp: voidPendingBlockAtFinalization_def result_simps writeAudit_def)
    next
      case True
      then obtain q where q: "cell_number (ic_quantity line) = Some q" "0 < q" "0 < js_round (dbl (q * 60))" by blast
      then obtain price where price: "cell_number (ic_unit_price line) = Some price"
        using run line by (auto simp: activate_block_def Let_def split: option.splits)
      show ?thesis using run line q price
        by (fastforce simp: activate_block_def Let_def result_simps writeAudit_def finalized_def)
    qed
  qed
  then obtain f db1 where f: "update_blocks (\<lambda>b. hb_block_id b = hb_block_id blk \<and> hb_status b = Block_Pending) f db = Inr db1"
    "bs_blocks db' = bs_blocks db1" "f blk = ?fin blk" by blast
  show ?thesis unfolding f(2) upd [OF f(1)] using one f(3) by (intro map_cong) auto
qed

lemma activate_all_closed:
  "distinct (map hb_block_id (bs_blocks db)) \<Longrightarrow> set bs \<subseteq> set (bs_blocks db) \<Longrightarrow> \<forall>b \<in> set bs. hb_status b = Block_Pending
   \<Longrightarrow> distinct (map hb_block_id bs) \<Longrightarrow> activate_all charges invoice creator now bs db = Inr db'
   \<Longrightarrow> bs_blocks db' = map (\<lambda>b. if hb_block_id b \<in> hb_block_id ` set bs then finalized charges invoice creator now b else b) (bs_blocks db)"
proof (induction bs arbitrary: db)
  case Nil
  then show ?case by simp
next
  case (Cons blk bs)
  let ?f = "finalized charges invoice creator now"
  obtain db1 where step: "activate_block charges invoice creator now blk db = Inr db1"
    and rest: "activate_all charges invoice creator now bs db1 = Inr db'" using Cons.prems(5) by (auto simp: result_simps)
  have db1: "bs_blocks db1 = map (\<lambda>b. if hb_block_id b = hb_block_id blk then ?f b else b) (bs_blocks db)"
    by (rule activate_block_closed [OF Cons.prems(1) _ _ step]) (use Cons.prems in auto)
  have new: "hb_block_id x \<noteq> hb_block_id blk" if "x \<in> set bs" for x by (rule later_block [OF Cons.prems(4) that])
  have "map hb_block_id (bs_blocks db1) = map hb_block_id (bs_blocks db)" by (simp add: db1)
  moreover have "set bs \<subseteq> set (bs_blocks db1)"
  proof
    fix x assume x: "x \<in> set bs"
    then have "x \<in> set (bs_blocks db)" using Cons.prems(2) by auto
    then show "x \<in> set (bs_blocks db1)" using new [OF x] by (auto simp: db1)
  qed
  ultimately have "bs_blocks db' = map (\<lambda>b. if hb_block_id b \<in> hb_block_id ` set bs then ?f b else b) (bs_blocks db1)"
    using Cons.IH [OF _ _ _ _ rest] Cons.prems by simp
  moreover have "hb_block_id blk \<notin> hb_block_id ` set bs" using Cons.prems(4) by simp
  ultimately show ?case by (simp add: db1)
qed

lemma sorted_linked: "set (js_sort by_block_id xs) = set xs"
  by simp

lemma finalize_closed:
  assumes ok: "store_ok db" and run: "activateHourBlocksForFinalizedInvoice charges invoice creator now db = Inr db'"
  shows "bs_blocks db' = map (\<lambda>b. if hb_source_invoice_id b = Some invoice \<and> hb_status b = Block_Pending
      then finalized charges invoice creator now b else b) (bs_blocks db)"
proof -
  let ?P = "\<lambda>b. hb_source_invoice_id b = Some invoice \<and> hb_status b = Block_Pending"
  have ids: "distinct (map hb_block_id (bs_blocks db))" using ok by (simp add: store_ok_def)
  have all: "bs_blocks db' = map (\<lambda>b. if hb_block_id b \<in> hb_block_id ` set (js_sort by_block_id (filter ?P (bs_blocks db)))
      then finalized charges invoice creator now b else b) (bs_blocks db)"
    by (rule activate_all_closed [OF ids linked_blocks(1) _ linked_blocks(2) [OF ids] run [unfolded activateHourBlocksForFinalizedInvoice_def]]) simp
  have "hb_block_id b \<in> hb_block_id ` set (js_sort by_block_id (filter ?P (bs_blocks db))) \<longleftrightarrow> ?P b" if b: "b \<in> set (bs_blocks db)" for b
  proof
    assume "hb_block_id b \<in> hb_block_id ` set (js_sort by_block_id (filter ?P (bs_blocks db)))"
    then obtain x where "x \<in> set (bs_blocks db)" "?P x" "hb_block_id x = hb_block_id b" by auto
    moreover from this have "x = b" using b ids unfolding distinct_map by (metis inj_onD)
    ultimately show "?P b" by simp
  qed (use b in auto)
  then show ?thesis unfolding all by (intro map_cong) auto
qed



text \<open>A purchase of two hours for two dollars each, and its finalization.\<close>

definition sample_line :: invoice_charge where
  "sample_line = \<lparr>ic_item_id = ''line'', ic_invoice_id = ''inv'', ic_quantity = Cell_Text ''2.5'', ic_unit_price = Cell_Number 12000,
     ic_service_id = Some ''s''\<rparr>"

definition sold_store :: block_store where
  "sold_store = (case createHourBlockPurchaseInvoiceInternal ''b'' 5 ''inv'' ''line'' ''USD'' None None sample_grant 2 12000 start_store of
     Inr d \<Rightarrow> d | Inl _ \<Rightarrow> start_store)"

definition finalized_store :: block_store where
  "finalized_store = (case activateHourBlocksForFinalizedInvoice [sample_line] ''inv'' None 6 sold_store of Inr d \<Rightarrow> d | Inl _ \<Rightarrow> sold_store)"

lemma sold_runs: "hb_runs id start_store sold_store"
proof -
  have "createHourBlockPurchaseInvoiceInternal ''b'' 5 ''inv'' ''line'' ''USD'' None None sample_grant 2 12000 start_store = Inr sold_store"
    unfolding sold_store_def by (rule sum_value) code_simp
  then show ?thesis by (intro hb_runs.step [OF hb_runs.stay] hb_step.written hb_write.sold)
qed

lemma sample_finalized: "activateHourBlocksForFinalizedInvoice [sample_line] ''inv'' None 6 sold_store = Inr finalized_store"
  unfolding finalized_store_def by (rule sum_value) code_simp


text \<open>Unfinalizing, in closed form.\<close>

definition unfinalized :: "int \<Rightarrow> hour_block \<Rightarrow> hour_block" where
  "unfinalized now b = b\<lparr>hb_status := Block_Pending, hb_purchased_at := None, hb_updated_at := now\<rparr>"

lemma deactivate_all_closed:
  "distinct (map hb_block_id (bs_blocks db)) \<Longrightarrow> list_all block_checks (bs_blocks db) \<Longrightarrow> set bs \<subseteq> set (bs_blocks db)
   \<Longrightarrow> distinct (map hb_block_id bs)
   \<Longrightarrow> \<forall>b \<in> set bs. hb_status b = Block_Active \<longrightarrow> hb_first_allocated_at b = None \<and> \<not> has_allocations db (hb_block_id b)
   \<Longrightarrow> \<exists>db'. deactivate_all invoice user now bs db = Inr db' \<and> bs_blocks db' = map (\<lambda>b. if hb_block_id b \<in> hb_block_id ` set bs
      \<and> hb_status b = Block_Active then unfinalized now b else b) (bs_blocks db)"
proof (induction bs arbitrary: db)
  case Nil
  then show ?case by simp
next
  case (Cons blk bs)
  have new: "hb_block_id blk \<notin> hb_block_id ` set bs" using Cons.prems(4) by simp
  have one: "b \<in> set (bs_blocks db) \<Longrightarrow> hb_block_id b = hb_block_id blk \<Longrightarrow> b = blk" for b
    using Cons.prems(1,3) unfolding distinct_map by (metis inj_onD list.set_intros(1) subsetD)
  show ?case
  proof (cases "hb_status blk = Block_Active")
    case False
    obtain db' where ih: "deactivate_all invoice user now bs db = Inr db'" "bs_blocks db' = map (\<lambda>b. if hb_block_id b \<in> hb_block_id ` set bs
        \<and> hb_status b = Block_Active then unfinalized now b else b) (bs_blocks db)" using Cons.IH [of db] Cons.prems by auto
    then show ?thesis using False one by (auto intro!: exI [of _ db'] map_cong)
  next
    case True
    let ?f = "\<lambda>b. b\<lparr>hb_status := Block_Pending, hb_purchased_at := None, hb_updated_at := now\<rparr>"
    let ?r = "\<lparr>bu_block_id = hb_block_id blk, bu_type = Audit_Purchase_Reversal, bu_minutes_delta = None,
      bu_reason = Some ''Invoice unfinalized'', bu_created_by = Some user, bu_metadata = Source_Invoice invoice None\<rparr>"
    let ?db1 = "db\<lparr>bs_blocks := map (\<lambda>b. if hb_block_id b = hb_block_id blk then ?f b else b) (bs_blocks db)\<rparr>"
    have upd: "update_blocks (\<lambda>b. hb_block_id b = hb_block_id blk) ?f db = Inr ?db1"
      using Cons.prems(2) by (auto simp: update_blocks_def list_all_iff block_checks_def)
    have others: "set bs \<subseteq> set (bs_blocks (writeAudit ?r ?db1))"
    proof
      fix x assume "x \<in> set bs"
      then have "x \<in> set (bs_blocks db)" "hb_block_id x \<noteq> hb_block_id blk" using Cons.prems(3) later_block [OF Cons.prems(4)] by auto
      then show "x \<in> set (bs_blocks (writeAudit ?r ?db1))" using update_keeps_others [OF upd] by (simp add: writeAudit_def)
    qed
    have ids: "map hb_block_id (bs_blocks (writeAudit ?r ?db1)) = map hb_block_id (bs_blocks db)" by (simp add: writeAudit_def)
    have checks: "list_all block_checks (bs_blocks (writeAudit ?r ?db1))"
      using Cons.prems(2) by (auto simp: writeAudit_def list_all_iff block_checks_def)
    have "\<exists>db'. deactivate_all invoice user now bs (writeAudit ?r ?db1) = Inr db' \<and> bs_blocks db' = map (\<lambda>b. if hb_block_id b \<in> hb_block_id ` set bs
        \<and> hb_status b = Block_Active then unfinalized now b else b) (bs_blocks (writeAudit ?r ?db1))"
    proof (rule Cons.IH [OF _ checks others])
      show "distinct (map hb_block_id (bs_blocks (writeAudit ?r ?db1)))" unfolding ids by (rule Cons.prems(1))
    qed (use Cons.prems(4,5) in \<open>simp_all add: has_allocations_def writeAudit_def\<close>)
    then obtain db' where ih: "deactivate_all invoice user now bs (writeAudit ?r ?db1) = Inr db'" "bs_blocks db' = map (\<lambda>b. if hb_block_id b \<in> hb_block_id ` set bs
        \<and> hb_status b = Block_Active then unfinalized now b else b) (bs_blocks (writeAudit ?r ?db1))" by blast
    have "deactivate_all invoice user now (blk # bs) db = Inr db'"
      using Cons.prems(5) True upd ih(1) by simp
    moreover have "bs_blocks db' = map (\<lambda>b. if hb_block_id b \<in> hb_block_id ` set (blk # bs)
        \<and> hb_status b = Block_Active then unfinalized now b else b) (bs_blocks db)"
      unfolding ih(2) using new one True by (auto simp: writeAudit_def unfinalized_def)
    ultimately show ?thesis by blast
  qed
qed

text \<open>
  C34: unfinalizing an invoice right after finalizing it succeeds and undoes the activation: every block of the
  draft that was activated is pending again, not bought and not burnable, with the minutes of the finalized
  line; those that finalizing voided stay voided.
\<close>

theorem finalize_unfinalize_round_trip:
  assumes "empty_blocks db0" "hb_runs local_day db0 db"
    and "\<forall>b \<in> set (bs_blocks db). hb_source_invoice_id b = Some invoice \<longrightarrow> hb_status b = Block_Pending"
    and "activateHourBlocksForFinalizedInvoice charges invoice creator now db = Inr db1"
  shows "\<exists>db2. deactivateHourBlocksForUnfinalizedInvoice invoice user now' db1 = Inr db2
    \<and> bs_blocks db2 = map (\<lambda>b. if hb_source_invoice_id b = Some invoice
        then (if hb_status (finalized charges invoice creator now b) = Block_Active
          then unfinalized now' (finalized charges invoice creator now b) else finalized charges invoice creator now b)
        else b) (bs_blocks db)"
proof -
  let ?fin = "finalized charges invoice creator now"
  let ?linked = "\<lambda>b. hb_source_invoice_id b = Some invoice"
  have inv: "hb_invariant db"
    by (rule runs_invariant [OF assms(2) empty_invariant [OF assms(1)]])
  then have inv1: "hb_invariant db1" using sound_finalized [OF assms(4)] by (simp add: sound_change_def)
  then have ok1: "distinct (map hb_block_id (bs_blocks db1))" "list_all block_checks (bs_blocks db1)"
    by (auto simp: hb_invariant_def store_ok_def)
  have "store_ok db" using inv by (simp add: hb_invariant_def)
  from finalize_closed [OF this assms(4)] assms(3)
  have db1: "bs_blocks db1 = map (\<lambda>b. if ?linked b then ?fin b else b) (bs_blocks db)" by auto
  have source: "hb_source_invoice_id (?fin b) = hb_source_invoice_id b" "hb_first_allocated_at (?fin b) = hb_first_allocated_at b" for b
    by (simp_all add: finalized_def split: option.split)
  let ?bs = "js_sort by_block_id (filter ?linked (bs_blocks db1))"
  have clean: "hb_first_allocated_at b = None \<and> \<not> has_allocations db1 (hb_block_id b)" if b: "b \<in> set ?bs" for b
  proof -
    obtain x where x: "x \<in> set (bs_blocks db)" "b = (if ?linked x then ?fin x else x)" using b by (auto simp: db1)
    have "?linked x" using x b source by (auto split: if_splits)
    then have "hb_first_allocated_at x = None" using inv assms(3) x(1) by (auto simp: hb_invariant_def unused_def)
    then have "hb_first_allocated_at b = None" using x(2) source by simp
    moreover have "b \<in> set (bs_blocks db1)" using b by simp
    moreover have "marked db1" using inv1 by (simp add: hb_invariant_def)
    ultimately show ?thesis unfolding marked_def has_allocations_def list_ex_iff by metis
  qed
  obtain db2 where db2: "deactivate_all invoice user now' ?bs db1 = Inr db2" "bs_blocks db2 = map (\<lambda>b. if hb_block_id b \<in> hb_block_id ` set ?bs
      \<and> hb_status b = Block_Active then unfinalized now' b else b) (bs_blocks db1)"
    using deactivate_all_closed [OF ok1 linked_blocks(1) linked_blocks(2) [OF ok1(1)], where invoice = invoice and user = user and now = now'] clean by blast
  have member: "hb_block_id b \<in> hb_block_id ` set ?bs \<longleftrightarrow> ?linked b" if b: "b \<in> set (bs_blocks db1)" for b
  proof
    assume "hb_block_id b \<in> hb_block_id ` set ?bs"
    then obtain x where "x \<in> set (bs_blocks db1)" "?linked x" "hb_block_id x = hb_block_id b" by auto
    moreover from this have "x = b" using b ok1(1) unfolding distinct_map by (metis inj_onD)
    ultimately show "?linked b" by simp
  qed (use b in auto)
  have "bs_blocks db2 = map (\<lambda>b. if ?linked b \<and> hb_status b = Block_Active then unfinalized now' b else b) (bs_blocks db1)"
    unfolding db2(2) using member by (intro map_cong) auto
  then have "bs_blocks db2 = map (\<lambda>b. if ?linked b
      then (if hb_status (?fin b) = Block_Active then unfinalized now' (?fin b) else ?fin b) else b) (bs_blocks db)"
    unfolding db1 by (auto simp: source)
  then show ?thesis using db2(1) by (simp add: deactivateHourBlocksForUnfinalizedInvoice_def)
qed

theorem finalize_unfinalize_round_trip_witness:
  "\<exists>db2. deactivateHourBlocksForUnfinalizedInvoice ''inv'' ''u'' 8 finalized_store = Inr db2"
proof -
  have "\<forall>b \<in> set (bs_blocks sold_store). hb_source_invoice_id b = Some ''inv'' \<longrightarrow> hb_status b = Block_Pending" by code_simp
  from finalize_unfinalize_round_trip [OF start_empty sold_runs this sample_finalized] show ?thesis by blast
qed
end
