(* ===== verification/Hour_Block_Charges.thy ===== *)
theory Hour_Block_Charges
  imports Hour_Blocks Js_Numbers
begin

text \<open>
  Hour blocks on an invoice: the informational lines of \<open>compute/computeHourBlockCharges.ts\<close>, the rows that
  \<open>billingEngine.ts\<close> loads for them, and the minutes of an entry that it bills by the hour.
\<close>

section \<open>Burn rows\<close>

record burn_row =
  br_block_id :: string
  br_service_id :: string
  br_service_name :: "string option"
  br_remaining_minutes :: int
  br_time_entry_id :: string
  br_minutes :: int
  br_billable_duration :: int

record burn_aggregate =
  ag_block_id :: string
  ag_service_id :: string
  ag_service_name :: string
  ag_hours_used :: rat
  ag_hours_remaining :: rat
  ag_covered_entry_ids :: "string list"

text \<open>The four maps of the loop; \<open>byBlock\<close> and \<open>allocatedByEntry\<close> are walked later, in insertion order.\<close>

record block_burn =
  bb_block_id :: string
  bb_service_id :: string
  bb_service_name :: string
  bb_remaining_minutes :: int
  bb_minutes_used :: int
  bb_covered_entry_ids :: "string list"

record burn_maps =
  bm_allocated_by_entry :: "(string \<times> int) list"
  bm_entry_durations :: "string \<Rightarrow> int option"
  bm_first_block_by_entry :: "string \<Rightarrow> string option"
  bm_by_block :: "block_burn list"

definition row_minutes :: "burn_row \<Rightarrow> int" where
  "row_minutes row = max 0 (br_minutes row)"

definition new_block_burn :: "burn_row \<Rightarrow> block_burn" where
  "new_block_burn row = \<lparr>bb_block_id = br_block_id row, bb_service_id = br_service_id row,
     bb_service_name = (if truthy (br_service_name row) then the (br_service_name row) else ''Prepaid hour block''),
     bb_remaining_minutes = max 0 (br_remaining_minutes row), bb_minutes_used = row_minutes row, bb_covered_entry_ids = []\<rparr>"

definition add_burn_row :: "burn_maps \<Rightarrow> burn_row \<Rightarrow> burn_maps" where
  "add_burn_row maps row = maps
     \<lparr>bm_by_block := map_upsert bb_block_id (br_block_id row) (new_block_burn row)
        (\<lambda>g. g\<lparr>bb_minutes_used := bb_minutes_used g + row_minutes row\<rparr>) (bm_by_block maps),
      bm_allocated_by_entry := map_upsert fst (br_time_entry_id row) (br_time_entry_id row, row_minutes row)
        (\<lambda>(e, n). (e, n + row_minutes row)) (bm_allocated_by_entry maps),
      bm_entry_durations := (bm_entry_durations maps)(br_time_entry_id row \<mapsto> max 0 (br_billable_duration row)),
      bm_first_block_by_entry := (if bm_first_block_by_entry maps (br_time_entry_id row) = None
        then (bm_first_block_by_entry maps)(br_time_entry_id row \<mapsto> br_block_id row) else bm_first_block_by_entry maps)\<rparr>"

definition burn_maps_of :: "burn_row list \<Rightarrow> burn_maps" where
  "burn_maps_of rows = foldl add_burn_row \<lparr>bm_allocated_by_entry = [], bm_entry_durations = Map.empty,
     bm_first_block_by_entry = Map.empty, bm_by_block = []\<rparr> rows"

text \<open>A fully covered entry is put on the line of its first block; \<open>Set.add\<close> adds it once.\<close>

definition cover_entry :: "burn_maps \<Rightarrow> block_burn list \<Rightarrow> string \<times> int \<Rightarrow> block_burn list" where
  "cover_entry maps by_block entry_minutes = (case entry_minutes of (e, n) \<Rightarrow>
     if n \<ge> or_else (bm_entry_durations maps e) 0
     then (case bm_first_block_by_entry maps e of
         None \<Rightarrow> by_block
       | Some i \<Rightarrow> if i = [] then by_block else map (\<lambda>g. if bb_block_id g = i \<and> e \<notin> set (bb_covered_entry_ids g)
           then g\<lparr>bb_covered_entry_ids := bb_covered_entry_ids g @ [e]\<rparr> else g) by_block)
     else by_block)"

definition finish_burn :: "block_burn \<Rightarrow> burn_aggregate" where
  "finish_burn g = \<lparr>ag_block_id = bb_block_id g, ag_service_id = bb_service_id g, ag_service_name = bb_service_name g,
     ag_hours_used = dbl (of_int (bb_minutes_used g) / 60), ag_hours_remaining = dbl (of_int (bb_remaining_minutes g) / 60),
     ag_covered_entry_ids = bb_covered_entry_ids g\<rparr>"

definition aggregateHourBlockBurnRows :: "burn_row list \<Rightarrow> burn_aggregate list" where
  "aggregateHourBlockBurnRows rows = (let maps = burn_maps_of rows
     in map finish_burn (foldl (cover_entry maps) (bm_by_block maps) (bm_allocated_by_entry maps)))"

section \<open>Lines\<close>

record hour_block_charge =
  hc_block_id :: string
  hc_service_id :: string
  hc_service_name :: string
  hc_hours_used :: rat
  hc_hours_remaining :: rat
  hc_covered_entry_ids :: "string list"
  hc_rate :: int
  hc_total :: int
  hc_tax_amount :: int
  hc_tax_rate :: int
  hc_is_taxable :: bool
  hc_service_period_start :: iso8601
  hc_service_period_end :: iso8601
  hc_billing_timing :: due_position

definition computeHourBlockCharges :: "iso8601 \<times> iso8601 \<Rightarrow> burn_aggregate list \<Rightarrow> hour_block_charge list" where
  "computeHourBlockCharges billingPeriod blocks = map (\<lambda>block. \<lparr>hc_block_id = ag_block_id block, hc_service_id = ag_service_id block,
     hc_service_name = ag_service_name block, hc_hours_used = ag_hours_used block, hc_hours_remaining = ag_hours_remaining block,
     hc_covered_entry_ids = ag_covered_entry_ids block, hc_rate = 0, hc_total = 0, hc_tax_amount = 0, hc_tax_rate = 0,
     hc_is_taxable = False, hc_service_period_start = fst billingPeriod, hc_service_period_end = snd billingPeriod,
     hc_billing_timing = Arrears\<rparr>) (filter (\<lambda>block. \<not> ag_hours_used block \<le> 0) blocks)"

text \<open>
  The rows of the invoice window. \<open>in_window\<close> is the condition on the approval status and the times of an entry,
  \<open>service_name\<close> the catalog.
\<close>

definition burn_rows :: "block_store \<Rightarrow> string \<Rightarrow> (time_entry \<Rightarrow> bool) \<Rightarrow> (string \<Rightarrow> string option) \<Rightarrow> burn_row list" where
  "burn_rows db clientId in_window service_name = concat (map (\<lambda>a. concat (map (\<lambda>b.
     map (\<lambda>e. \<lparr>br_block_id = hb_block_id b, br_service_id = hb_service_id b, br_service_name = service_name (hb_service_id b),
        br_remaining_minutes = hb_remaining_minutes b, br_time_entry_id = ba_time_entry_id a, br_minutes = ba_minutes a,
        br_billable_duration = or_else (te_billable_duration e) 0\<rparr>)
       (filter (\<lambda>e. te_entry_id e = ba_time_entry_id a \<and> \<not> te_invoiced e \<and> te_contract_line_id e = None \<and> in_window e) (bs_entries db)))
     (filter (\<lambda>b. hb_block_id b = ba_block_id a \<and> hb_client_id b = clientId) (bs_blocks db)))) (bs_allocations db))"

definition calculateHourBlockUsageCharges :: "block_store \<Rightarrow> string \<Rightarrow> (time_entry \<Rightarrow> bool) \<Rightarrow> (string \<Rightarrow> string option)
    \<Rightarrow> iso8601 \<times> iso8601 \<Rightarrow> hour_block_charge list" where
  "calculateHourBlockUsageCharges db clientId in_window service_name billingPeriod =
     computeHourBlockCharges billingPeriod (aggregateHourBlockBurnRows (burn_rows db clientId in_window service_name))"

text \<open>The minutes of an unresolved entry that are billed by the hour; none means no charge.\<close>

definition block_allocated_minutes :: "block_store \<Rightarrow> string \<Rightarrow> int" where
  "block_allocated_minutes db e = sum_list (map ba_minutes (filter (\<lambda>a. ba_time_entry_id a = e) (bs_allocations db)))"

definition hourly_minutes :: "block_store \<Rightarrow> time_entry \<Rightarrow> int option" where
  "hourly_minutes db e =
     (let blockAllocatedMinutes = max 0 (block_allocated_minutes db (te_entry_id e));
          billableMinutes = max 0 (or_else (te_billable_duration e) 0 - blockAllocatedMinutes)
      in if billableMinutes \<le> 0 then None else Some billableMinutes)"

text \<open>
  The entries that a contract line bills by the hour: \<open>elsewhere\<close> is the rest of the query, on the work item, the
  client, the approval, the service period, buckets and projects. Their minutes are billed whole: the query does
  not look at the blocks.
\<close>

definition loadTimeBasedObligation :: "string \<Rightarrow> string list \<Rightarrow> string list \<Rightarrow> (time_entry \<Rightarrow> bool) \<Rightarrow> block_store \<Rightarrow> time_entry list" where
  "loadTimeBasedObligation contractLineId configuredServiceIds uniquelyAssignableServiceIds elsewhere db =
     filter (\<lambda>e. \<not> te_invoiced e \<and> te_service_id e \<in> Some ` set configuredServiceIds
       \<and> or_else (te_billable_duration e) 0 > 0
       \<and> (te_contract_line_id e = Some contractLineId
          \<or> te_contract_line_id e = None \<and> te_service_id e \<in> Some ` set uniquelyAssignableServiceIds)
       \<and> elsewhere e) (bs_entries db)"

section \<open>Each covered entry on one line\<close>

lemma map_upsert_eq:
  "distinct (map gkey gs) \<Longrightarrow> map_upsert gkey k c x gs = (if k \<in> gkey ` set gs then map (\<lambda>g. if gkey g = k then x g else g) gs else gs @ [c])"
proof (induction gs)
  case Nil
  then show ?case by simp
next
  case (Cons g gs)
  show ?case
  proof (cases "gkey g = k")
    case True
    then have "\<forall>h \<in> set gs. gkey h \<noteq> k" using Cons.prems by (metis distinct.simps(2) image_eqI list.set_map list.simps(9))
    then have "map (\<lambda>g. if gkey g = k then x g else g) gs = gs" by (intro map_idI) simp
    then show ?thesis using True by simp
  next
    case False
    then show ?thesis using Cons by auto
  qed
qed

definition entry_rows :: "burn_row list \<Rightarrow> string \<Rightarrow> burn_row list" where
  "entry_rows rows e = filter (\<lambda>r. br_time_entry_id r = e) rows"

definition minutes_where :: "(burn_row \<Rightarrow> bool) \<Rightarrow> burn_row list \<Rightarrow> int" where
  "minutes_where P rows = sum_list (map row_minutes (filter P rows))"

lemma minutes_where_snoc: "minutes_where P (rows @ [r]) = minutes_where P rows + (if P r then row_minutes r else 0)"
  by (simp add: minutes_where_def)

lemma minutes_where_none: "k \<notin> f ` set rows \<Longrightarrow> minutes_where (\<lambda>r. f r = k) rows = 0"
proof -
  assume "k \<notin> f ` set rows"
  then have "filter (\<lambda>r. f r = k) rows = []" by (auto simp: filter_empty_conv)
  then show ?thesis by (simp add: minutes_where_def)
qed

lemma burn_maps_snoc: "burn_maps_of (rows @ [r]) = add_burn_row (burn_maps_of rows) r"
  by (simp add: burn_maps_of_def)

lemma burn_maps_blocks:
  "map bb_block_id (bm_by_block (burn_maps_of rows)) = js_unique (map br_block_id rows)
   \<and> (\<forall>g \<in> set (bm_by_block (burn_maps_of rows)). bb_covered_entry_ids g = []
        \<and> bb_minutes_used g = minutes_where (\<lambda>r. br_block_id r = bb_block_id g) rows)"
proof (induction rows rule: rev_induct)
  case Nil
  show ?case by (simp add: burn_maps_of_def)
next
  case (snoc r rows)
  let ?gs = "bm_by_block (burn_maps_of rows)"
  have keys: "bb_block_id ` set ?gs = br_block_id ` set rows" using snoc by (metis js_unique_simps(1) list.set_map)
  have "distinct (map bb_block_id ?gs)" using snoc by simp
  from map_upsert_eq [OF this]
  have step: "bm_by_block (burn_maps_of (rows @ [r])) = (if br_block_id r \<in> br_block_id ` set rows
      then map (\<lambda>g. if bb_block_id g = br_block_id r then g\<lparr>bb_minutes_used := bb_minutes_used g + row_minutes r\<rparr> else g) ?gs
      else ?gs @ [new_block_burn r])"
    by (simp add: burn_maps_snoc add_burn_row_def keys)
  show ?case
  proof (cases "br_block_id r \<in> br_block_id ` set rows")
    case True
    have "map bb_block_id (bm_by_block (burn_maps_of (rows @ [r]))) = map bb_block_id ?gs" using True by (simp add: step)
    then show ?thesis using True snoc by (auto simp: step minutes_where_snoc)
  next
    case False
    then have "minutes_where (\<lambda>x. br_block_id x = br_block_id r) rows = 0" by (rule minutes_where_none)
    moreover have "g \<in> set ?gs \<Longrightarrow> br_block_id r \<noteq> bb_block_id g" for g using False keys by auto
    ultimately show ?thesis using False snoc by (auto simp: step minutes_where_snoc new_block_burn_def)
  qed
qed

lemma burn_maps_entries:
  "map fst (bm_allocated_by_entry (burn_maps_of rows)) = js_unique (map br_time_entry_id rows)
   \<and> (\<forall>(e, n) \<in> set (bm_allocated_by_entry (burn_maps_of rows)). n = minutes_where (\<lambda>r. br_time_entry_id r = e) rows)"
proof (induction rows rule: rev_induct)
  case Nil
  show ?case by (simp add: burn_maps_of_def)
next
  case (snoc r rows)
  let ?gs = "bm_allocated_by_entry (burn_maps_of rows)"
  have keys: "fst ` set ?gs = br_time_entry_id ` set rows" using snoc by (metis js_unique_simps(1) list.set_map)
  have "distinct (map fst ?gs)" using snoc by simp
  from map_upsert_eq [OF this]
  have step: "bm_allocated_by_entry (burn_maps_of (rows @ [r])) = (if br_time_entry_id r \<in> br_time_entry_id ` set rows
      then map (\<lambda>g. if fst g = br_time_entry_id r then (case g of (e, n) \<Rightarrow> (e, n + row_minutes r)) else g) ?gs
      else ?gs @ [(br_time_entry_id r, row_minutes r)])"
    by (simp add: burn_maps_snoc add_burn_row_def keys)
  show ?case
  proof (cases "br_time_entry_id r \<in> br_time_entry_id ` set rows")
    case True
    have "map fst (bm_allocated_by_entry (burn_maps_of (rows @ [r]))) = map fst ?gs" using True by (auto simp: step split_beta)
    then show ?thesis using True snoc by (auto simp: step minutes_where_snoc split: if_splits)
  next
    case False
    then have "minutes_where (\<lambda>x. br_time_entry_id x = br_time_entry_id r) rows = 0" by (rule minutes_where_none)
    moreover have "br_time_entry_id r \<noteq> e" if "(e, n) \<in> set ?gs" for e n
    proof -
      have "e \<in> fst ` set ?gs" using imageI [OF that, of fst] by simp
      then show ?thesis using False unfolding keys by auto
    qed
    ultimately show ?thesis using False snoc by (auto simp: step minutes_where_snoc)
  qed
qed

lemma burn_maps_rows:
  "bm_entry_durations (burn_maps_of rows) e = (if entry_rows rows e = [] then None else Some (max 0 (br_billable_duration (last (entry_rows rows e)))))
   \<and> bm_first_block_by_entry (burn_maps_of rows) e = (if entry_rows rows e = [] then None else Some (br_block_id (hd (entry_rows rows e))))"
proof (induction rows rule: rev_induct)
  case Nil
  show ?case by (simp add: burn_maps_of_def entry_rows_def)
next
  case (snoc r rows)
  then show ?case by (auto simp: burn_maps_snoc add_burn_row_def entry_rows_def)
qed

definition covers :: "burn_maps \<Rightarrow> string \<Rightarrow> string \<times> int \<Rightarrow> bool" where
  "covers maps i p \<longleftrightarrow> or_else (bm_entry_durations maps (fst p)) 0 \<le> snd p \<and> bm_first_block_by_entry maps (fst p) = Some i \<and> i \<noteq> []"

lemma disjoint_insert: "A \<subseteq> insert x B \<Longrightarrow> x \<notin> C \<Longrightarrow> B \<inter> C = {} \<Longrightarrow> A \<inter> C = {}"
  by blast

lemma cover_closed:
  "distinct (map fst as) \<Longrightarrow> \<forall>g \<in> set gs. set (bb_covered_entry_ids g) \<inter> fst ` set as = {} \<Longrightarrow>
   foldl (cover_entry maps) gs as = map (\<lambda>g. g\<lparr>bb_covered_entry_ids := bb_covered_entry_ids g @ map fst (filter (covers maps (bb_block_id g)) as)\<rparr>) gs"
proof (induction as arbitrary: gs)
  case Nil
  then show ?case by simp
next
  case (Cons p as)
  let ?add = "\<lambda>g. if covers maps (bb_block_id g) p then g\<lparr>bb_covered_entry_ids := bb_covered_entry_ids g @ [fst p]\<rparr> else g"
  have fresh: "g \<in> set gs \<Longrightarrow> fst p \<notin> set (bb_covered_entry_ids g)" for g using Cons.prems(2) by auto
  have step: "cover_entry maps gs p = map ?add gs"
    using fresh by (cases p) (auto simp: cover_entry_def covers_def split: option.split intro!: map_idI [symmetric])
  have "foldl (cover_entry maps) (map ?add gs) as = map (\<lambda>g. g\<lparr>bb_covered_entry_ids := bb_covered_entry_ids g
      @ map fst (filter (covers maps (bb_block_id g)) as)\<rparr>) (map ?add gs)"
  proof (rule Cons.IH)
    show "distinct (map fst as)" using Cons.prems(1) by simp
    have p: "fst p \<notin> fst ` set as" using Cons.prems(1) by simp
    have sub: "set (bb_covered_entry_ids (?add g)) \<subseteq> insert (fst p) (set (bb_covered_entry_ids g))" for g by auto
    have disj: "g \<in> set gs \<Longrightarrow> set (bb_covered_entry_ids g) \<inter> fst ` set as = {}" for g using Cons.prems(2) by fastforce
    have "set (bb_covered_entry_ids (?add g)) \<inter> fst ` set as = {}" if "g \<in> set gs" for g
      by (rule disjoint_insert [OF sub p disj [OF that]])
    then show "\<forall>g \<in> set (map ?add gs). set (bb_covered_entry_ids g) \<inter> fst ` set as = {}"
      unfolding set_map by blast
  qed
  then show ?case by (simp add: step)
qed

lemma covered_entries:
  assumes "\<forall>r \<in> set rows. br_block_id r \<noteq> []"
  shows "map ag_block_id (aggregateHourBlockBurnRows rows) = js_unique (map br_block_id rows)
    \<and> (\<forall>g \<in> set (aggregateHourBlockBurnRows rows).
        ag_hours_used g = dbl (of_int (sum_list (map row_minutes (filter (\<lambda>r. br_block_id r = ag_block_id g) rows))) / 60)
        \<and> distinct (ag_covered_entry_ids g)
        \<and> (\<forall>e. e \<in> set (ag_covered_entry_ids g) \<longleftrightarrow> (\<exists>r rest. filter (\<lambda>r. br_time_entry_id r = e) rows = r # rest \<and> br_block_id r = ag_block_id g
            \<and> max 0 (br_billable_duration (last (r # rest))) \<le> sum_list (map row_minutes (r # rest)))))"
proof -
  let ?m = "burn_maps_of rows"
  let ?as = "bm_allocated_by_entry ?m"
  have dist: "distinct (map fst ?as)" using burn_maps_entries [of rows] by simp
  have closed: "aggregateHourBlockBurnRows rows
      = map (\<lambda>g. finish_burn (g\<lparr>bb_covered_entry_ids := map fst (filter (covers ?m (bb_block_id g)) ?as)\<rparr>)) (bm_by_block ?m)"
    unfolding aggregateHourBlockBurnRows_def Let_def
    by (subst cover_closed [OF dist]) (use burn_maps_blocks [of rows] in auto)
  have "map ag_block_id (aggregateHourBlockBurnRows rows) = map bb_block_id (bm_by_block ?m)"
    by (simp add: closed finish_burn_def)
  moreover have "ag_hours_used g = dbl (of_int (sum_list (map row_minutes (filter (\<lambda>r. br_block_id r = ag_block_id g) rows))) / 60)
      \<and> distinct (ag_covered_entry_ids g)
      \<and> (e \<in> set (ag_covered_entry_ids g) \<longleftrightarrow> (\<exists>r rest. filter (\<lambda>r. br_time_entry_id r = e) rows = r # rest \<and> br_block_id r = ag_block_id g
            \<and> max 0 (br_billable_duration (last (r # rest))) \<le> sum_list (map row_minutes (r # rest))))"
    if g: "g \<in> set (aggregateHourBlockBurnRows rows)" for g e
  proof -
    obtain b where b: "b \<in> set (bm_by_block ?m)" "g = finish_burn (b\<lparr>bb_covered_entry_ids := map fst (filter (covers ?m (bb_block_id b)) ?as)\<rparr>)"
      using g by (auto simp: closed)
    have id: "ag_block_id g = bb_block_id b" and cov: "ag_covered_entry_ids g = map fst (filter (covers ?m (bb_block_id b)) ?as)"
      by (simp_all add: b(2) finish_burn_def)
    have hours: "ag_hours_used g = dbl (of_int (sum_list (map row_minutes (filter (\<lambda>r. br_block_id r = ag_block_id g) rows))) / 60)"
      using burn_maps_blocks [of rows] b by (simp add: finish_burn_def minutes_where_def)
    have one: "distinct (ag_covered_entry_ids g)" unfolding cov using dist by (simp add: distinct_map_filter)
    have "bb_block_id b \<in> br_block_id ` set rows" using burn_maps_blocks [of rows] b(1) by (metis image_eqI js_unique_simps(1) list.set_map)
    then have named: "bb_block_id b \<noteq> []" using assms by auto
    have entries: "fst ` set ?as = br_time_entry_id ` set rows" using burn_maps_entries [of rows] by (metis js_unique_simps(1) list.set_map)
    have "e \<in> set (ag_covered_entry_ids g) \<longleftrightarrow> (\<exists>n. (e, n) \<in> set ?as \<and> covers ?m (bb_block_id b) (e, n))"
      unfolding cov by force
    also have "\<dots> \<longleftrightarrow> entry_rows rows e \<noteq> [] \<and> br_block_id (hd (entry_rows rows e)) = bb_block_id b
        \<and> max 0 (br_billable_duration (last (entry_rows rows e))) \<le> sum_list (map row_minutes (entry_rows rows e))"
    proof -
      have total: "(e, n) \<in> set ?as \<Longrightarrow> n = sum_list (map row_minutes (entry_rows rows e))" for n
        using burn_maps_entries [of rows] by (auto simp: minutes_where_def entry_rows_def)
      have "entry_rows rows e \<noteq> [] \<Longrightarrow> \<exists>n. (e, n) \<in> set ?as"
      proof -
        assume "entry_rows rows e \<noteq> []"
        then have "e \<in> br_time_entry_id ` set rows" by (auto simp: entry_rows_def filter_empty_conv)
        then have "e \<in> fst ` set ?as" unfolding entries .
        then show ?thesis by force
      qed
      then show ?thesis using total named by (auto simp: covers_def burn_maps_rows split: if_splits)
    qed
    also have "\<dots> \<longleftrightarrow> (\<exists>r rest. filter (\<lambda>r. br_time_entry_id r = e) rows = r # rest \<and> br_block_id r = ag_block_id g
            \<and> max 0 (br_billable_duration (last (r # rest))) \<le> sum_list (map row_minutes (r # rest)))"
      unfolding id entry_rows_def by (cases "filter (\<lambda>r. br_time_entry_id r = e) rows") auto
    finally show ?thesis using hours one by blast
  qed
  ultimately show ?thesis using burn_maps_blocks [of rows] by simp
qed

text \<open>
  C38: there is one line per block, in the order the rows name them, with the minutes its rows drew; an entry
  whose minutes over all its blocks reach its billable duration is listed on exactly one line, that of the block
  its first row names, and any other entry on none.
\<close>

theorem covered_entry_on_one_line:
  assumes "\<forall>r \<in> set rows. br_block_id r \<noteq> []"
  shows "map ag_block_id (aggregateHourBlockBurnRows rows) = js_unique (map br_block_id rows)
    \<and> (\<forall>g \<in> set (aggregateHourBlockBurnRows rows).
        ag_hours_used g = dbl (of_int (sum_list (map row_minutes (filter (\<lambda>r. br_block_id r = ag_block_id g) rows))) / 60)
        \<and> distinct (ag_covered_entry_ids g)
        \<and> (\<forall>e. e \<in> set (ag_covered_entry_ids g) \<longleftrightarrow> (\<exists>r rest. filter (\<lambda>r. br_time_entry_id r = e) rows = r # rest \<and> br_block_id r = ag_block_id g
            \<and> max 0 (br_billable_duration (last (r # rest))) \<le> sum_list (map row_minutes (r # rest)))))"
  by (rule covered_entries [OF assms])

text \<open>An entry over two blocks, covered by both together.\<close>

definition sample_rows :: "burn_row list" where
  "sample_rows = [\<lparr>br_block_id = ''b1'', br_service_id = ''s'', br_service_name = None, br_remaining_minutes = 0,
       br_time_entry_id = ''e'', br_minutes = 60, br_billable_duration = 90\<rparr>,
     \<lparr>br_block_id = ''b2'', br_service_id = ''s'', br_service_name = None, br_remaining_minutes = 90,
       br_time_entry_id = ''e'', br_minutes = 30, br_billable_duration = 90\<rparr>]"

theorem covered_entry_on_one_line_witness:
  "map ag_block_id (aggregateHourBlockBurnRows sample_rows) = [''b1'', ''b2'']
   \<and> map ag_covered_entry_ids (aggregateHourBlockBurnRows sample_rows) = [[''e''], []]"
proof -
  have named: "\<forall>r \<in> set sample_rows. br_block_id r \<noteq> []" by (simp add: sample_rows_def)
  have "js_unique (map br_block_id sample_rows) = [''b1'', ''b2'']" by code_simp
  moreover have "map ag_covered_entry_ids (aggregateHourBlockBurnRows sample_rows) = [[''e''], []]" by code_simp
  ultimately show ?thesis using covered_entry_on_one_line [OF named] by simp
qed

lemma filter_at_most_one:
  assumes "distinct (map k xs)" "\<And>x. P x \<Longrightarrow> k x = v"
  shows "filter P xs = [] \<or> (\<exists>x. filter P xs = [x])"
  using assms(1)
proof (induction xs)
  case Nil
  then show ?case by simp
next
  case (Cons x xs)
  have "P x \<Longrightarrow> filter P xs = []" using Cons.prems assms(2) by (auto simp: filter_empty_conv)
  then show ?case using Cons by auto
qed

lemma joined_at_most_one:
  "xs = [] \<or> (\<exists>b. xs = [b]) \<Longrightarrow> ys = [] \<or> (\<exists>y. ys = [y])
   \<Longrightarrow> concat (map (\<lambda>b. map (f b) ys) xs) = [] \<or> (\<exists>b x. concat (map (\<lambda>b. map (f b) ys) xs) = [f b x])"
  by (elim disjE exE) (simp_all, blast)

lemma burn_rows_minutes:
  assumes ok: "store_ok db"
  shows "sum_list (map row_minutes (filter (\<lambda>r. br_time_entry_id r = e) (burn_rows db c in_window service_name))) \<le> block_allocated_minutes db e"
proof -
  let ?es = "\<lambda>a. filter (\<lambda>e. te_entry_id e = ba_time_entry_id a \<and> \<not> te_invoiced e \<and> te_contract_line_id e = None \<and> in_window e) (bs_entries db)"
  let ?bs = "\<lambda>a. filter (\<lambda>b. hb_block_id b = ba_block_id a \<and> hb_client_id b = c) (bs_blocks db)"
  let ?row = "\<lambda>a b e. \<lparr>br_block_id = hb_block_id b, br_service_id = hb_service_id b, br_service_name = service_name (hb_service_id b),
        br_remaining_minutes = hb_remaining_minutes b, br_time_entry_id = ba_time_entry_id a, br_minutes = ba_minutes a,
        br_billable_duration = or_else (te_billable_duration e) 0\<rparr>"
  let ?F = "\<lambda>a. concat (map (\<lambda>b. map (?row a b) (?es a)) (?bs a))"
  have bound: "sum_list (map row_minutes (filter (\<lambda>r. br_time_entry_id r = e) (?F a))) \<le> (if ba_time_entry_id a = e then ba_minutes a else 0)"
    if a: "0 < ba_minutes a" for a
  proof -
    have bs1: "?bs a = [] \<or> (\<exists>b. ?bs a = [b])"
      using ok by (intro filter_at_most_one [where k = hb_block_id and v = "ba_block_id a"]) (auto simp: store_ok_def)
    have es1: "?es a = [] \<or> (\<exists>x. ?es a = [x])"
      using ok by (intro filter_at_most_one [where k = te_entry_id and v = "ba_time_entry_id a"]) (auto simp: store_ok_def)
    from joined_at_most_one [where f = "?row a", OF bs1 es1] show ?thesis
    proof (elim disjE exE)
      assume F: "?F a = []"
      show ?thesis unfolding F using a by simp
    next
      fix b x assume F: "?F a = [?row a b x]"
      show ?thesis unfolding F using a by (simp add: row_minutes_def)
    qed
  qed
  have "\<forall>a \<in> set as. 0 < ba_minutes a \<Longrightarrow> sum_list (map row_minutes (filter (\<lambda>r. br_time_entry_id r = e) (concat (map ?F as))))
      \<le> sum_list (map ba_minutes (filter (\<lambda>a. ba_time_entry_id a = e) as))" for as
  proof (induction as)
    case Nil
    then show ?case by simp
  next
    case (Cons a as)
    then have "sum_list (map row_minutes (filter (\<lambda>r. br_time_entry_id r = e) (concat (map ?F as))))
      \<le> sum_list (map ba_minutes (filter (\<lambda>a. ba_time_entry_id a = e) as))" by simp
    moreover have "sum_list (map row_minutes (filter (\<lambda>r. br_time_entry_id r = e) (?F a))) \<le> (if ba_time_entry_id a = e then ba_minutes a else 0)"
      by (rule bound) (use Cons.prems in simp)
    ultimately show ?case by (simp only: list.map concat.simps filter_append map_append sum_list_append filter.simps) (simp split: if_splits)
  qed
  moreover have "\<forall>a \<in> set (bs_allocations db). 0 < ba_minutes a" using ok by (simp add: store_ok_def)
  ultimately show ?thesis unfolding burn_rows_def block_allocated_minutes_def by blast
qed

text \<open>
  C8: no minute of an unresolved entry, one that no contract line bills, is paid twice. The minutes drawn from blocks
  and the minutes billed by the hour at the catalog rate make up its billable duration (or the minutes drawn, when
  the entry was shortened since), and an entry that a line of the invoice lists as covered by blocks is not billed
  by the hour at all. Entries billed through a contract line are not offset by blocks and are outside this property.
\<close>

theorem unresolved_minutes_paid_once:
  assumes "store_ok db" "e \<in> set (bs_entries db)" "te_billable_duration e = Some d" "\<forall>b \<in> set (bs_blocks db). hb_block_id b \<noteq> []"
  shows "block_allocated_minutes db (te_entry_id e) + or_else (hourly_minutes db e) 0 = max d (block_allocated_minutes db (te_entry_id e))
    \<and> (\<forall>g \<in> set (aggregateHourBlockBurnRows (burn_rows db c in_window service_name)).
        te_entry_id e \<in> set (ag_covered_entry_ids g) \<longrightarrow> hourly_minutes db e = None)"
proof -
  let ?rows = "burn_rows db c in_window service_name"
  have nonneg: "0 \<le> block_allocated_minutes db (te_entry_id e)"
    unfolding block_allocated_minutes_def by (rule sum_list_nonneg) (use assms(1) in \<open>auto simp: store_ok_def less_imp_le\<close>)
  have named: "\<forall>r \<in> set ?rows. br_block_id r \<noteq> []" using assms(4) by (auto simp: burn_rows_def)
  have duration: "br_billable_duration r = d" if r: "r \<in> set ?rows" "br_time_entry_id r = te_entry_id e" for r
  proof -
    obtain x where "x \<in> set (bs_entries db)" "te_entry_id x = te_entry_id e" "br_billable_duration r = or_else (te_billable_duration x) 0"
      using r by (auto simp: burn_rows_def)
    moreover from this have "x = e" using assms(1,2) unfolding store_ok_def distinct_map by (metis inj_onD)
    ultimately show ?thesis by (simp add: assms(3))
  qed
  have "hourly_minutes db e = None" if g: "g \<in> set (aggregateHourBlockBurnRows ?rows)" "te_entry_id e \<in> set (ag_covered_entry_ids g)" for g
  proof -
    obtain r rest where rows: "filter (\<lambda>r. br_time_entry_id r = te_entry_id e) ?rows = r # rest"
      "max 0 (br_billable_duration (last (r # rest))) \<le> sum_list (map row_minutes (r # rest))"
      using covered_entries [OF named] g by blast
    have "last (r # rest) \<in> set (filter (\<lambda>r. br_time_entry_id r = te_entry_id e) ?rows)" unfolding rows(1) by (rule last_in_set) simp
    then have "br_billable_duration (last (r # rest)) = d" using duration by (simp only: set_filter mem_Collect_eq)
    then have "d \<le> block_allocated_minutes db (te_entry_id e)"
      using rows burn_rows_minutes [OF assms(1), of "te_entry_id e" c in_window service_name] by simp
    then show ?thesis by (simp add: hourly_minutes_def assms(3) Let_def)
  qed
  then show ?thesis using nonneg by (auto simp: hourly_minutes_def assms(3) Let_def)
qed

text \<open>Ninety minutes, sixty of them drawn from a block.\<close>

definition partly_covered :: block_store where
  "partly_covered = sample_store [sample_block ''b1'' Block_Active None 60 0] [\<lparr>ba_block_id = ''b1'', ba_time_entry_id = ''e'', ba_minutes = 60\<rparr>]
     [sample_entry ''e'' ''s'' 90 20454] []"

theorem unresolved_minutes_paid_once_witness:
  "60 + or_else (hourly_minutes partly_covered (sample_entry ''e'' ''s'' 90 20454)) 0 = 90"
proof -
  have ok: "store_ok partly_covered" by code_simp
  have e: "sample_entry ''e'' ''s'' 90 20454 \<in> set (bs_entries partly_covered)" "te_billable_duration (sample_entry ''e'' ''s'' 90 20454) = Some 90"
    "\<forall>b \<in> set (bs_blocks partly_covered). hb_block_id b \<noteq> []"
    "block_allocated_minutes partly_covered (te_entry_id (sample_entry ''e'' ''s'' 90 20454)) = 60"
    by (simp_all add: partly_covered_def sample_store_def sample_entry_def sample_block_def block_allocated_minutes_def)
  show ?thesis using unresolved_minutes_paid_once [OF ok e(1,2,3)] unfolding e(4) by simp
qed

text \<open>
  An unassigned entry whose service only one contract line offers is billed whole by that line, although a
  block has paid for sixty of its minutes.
\<close>

lemma contract_line_ignores_blocks:
  "map (\<lambda>e. (te_entry_id e, te_billable_duration e)) (loadTimeBasedObligation ''l'' [''s''] [''s''] (\<lambda>_. True) partly_covered)
     = [(''e'', Some 90)]
   \<and> block_allocated_minutes partly_covered ''e'' = 60"
  by code_simp

end
