(* ===== verification/Spec2Isabelle.thy ===== *)
theory Spec2Isabelle
  imports Materialization Edit_Requests Backfill Run_Targets Ledger_Views
    Invoice_Claims Fixed_Rates Hour_Block_Ledger Hour_Block_Charges
begin

text \<open>
  Recurring billing and prepaid hours of AlgaPSA: a verification library beside the TypeScript sources.

  The program. A contract line bills a client period after period. The periods are persisted in a ledger, the table
  \<open>recurring_service_periods\<close>; invoicing claims rows of it. A line counts its periods on one of two cadences: on
  the billing cycle of its client, or in months from its own anchor. Writers of the ledger are the nightly sweeps, the
  actions that change a contract, the edits of a user, the repair of an operator, and the invoice itself. Beside the
  ledger there are prepaid hour blocks, drawn by time entries in first-in first-out order, sold and activated by
  invoices. Paths below are relative to \<open>src/\<close>; B is \<open>shared/billingClients\<close>, P is \<open>packages/billing/src\<close>.

  The theories, in the order they build on each other.

  Foundations. \<open>Prelude\<close>: results, orders as comparators, sorting as \<open>Array.prototype.sort\<close> does it (stable),
  maps in insertion order, tilings of ranges, the locale \<open>comparator\<close>. \<open>Temporal_Dates\<close>: dates as day numbers;
  the functions of the Temporal package and of date-fns are fields of a record \<open>temporal\<close>, and \<open>iso_calendar\<close>
  states their documented behaviour. \<open>Recurring_Types\<close>: the interfaces of
  \<open>packages/types/src/interfaces/recurringTiming.interfaces.ts\<close>. \<open>Js_Doubles\<close>: doubles and their rounding.
  \<open>Js_Numbers\<close>: numbers read from columns and texts.

  Generation. \<open>Recurring_Timing\<close> (B/recurringTiming.ts): due periods, settlements by covered days, grouping into
  invoice candidates. \<open>Cycle_Anchors\<close> (B/billingCycleAnchors.ts): anchors of a billing cycle and the period of a
  date. \<open>Contract_Cadence\<close>, \<open>Client_Cadence\<close>: the two generators. \<open>Generation_Horizon\<close>: how far ahead,
  continuity of what there is, the keys of schedules and periods. \<open>Materialization\<close>: the records of both cadences
  with their invoice windows, and their bounds. \<open>Month_End_Close\<close> (B/calendarMonthEndClosePolicy.ts).

  The life of a period. \<open>Period_Lifecycle\<close>: transitions, permissions, linkage, provenance, governance, display.
  \<open>Period_Edits\<close>, \<open>Edit_Requests\<close>: boundary edits, skip, defer, and the requests with their error texts.
  \<open>Regeneration\<close>, \<open>Backfill\<close>, \<open>Day_Coverage\<close>: reconciling a schedule with new candidates; no day of an
  obligation is covered twice. \<open>Due_Work\<close>, \<open>Run_Targets\<close>, \<open>Ledger_Views\<close>: what is due, in which
  windows a run bills, and the read side.

  The ledger. \<open>Ledger_Table\<close>: rows, the check and unique constraints of the migrations, and every statement that
  writes rows. \<open>Ledger_Writes\<close>: rows and records are read and written back, writers in closed form.
  \<open>Contract_Replenishment\<close> and \<open>Contract_Sync\<close>
  (P/actions/contractCadenceServicePeriodMaterialization.ts), \<open>Client_Replenishment\<close>
  (B/clientCadenceScheduleRegeneration.ts), \<open>Schedule_Repair\<close> (P/actions/recurringServicePeriodActions.ts): the
  three planners over the table. \<open>Ledger_System\<close>: one step relation over all writers, its reachable tables and
  their invariants. \<open>Invoice_Claims\<close>: the claims of an invoice, their release, and races with the planners.

  Rates and prepaid hours. \<open>Fixed_Rates\<close> (B/resolveFixedLineRate.ts): which rate governs a fixed line and its
  services. \<open>Hour_Blocks\<close> (B/hourBlockService.ts): eligibility, the burn of an entry, its reversal, the nightly
  reconcile, derived balances. \<open>Hour_Block_Ledger\<close> (P/actions/hourBlockActions.ts,
  P/services/prepaidReplenishmentSettlement.ts, P/actions/invoiceModification.ts, the expiration job of
  \<open>packages/jobs\<close>, the entry actions of \<open>packages/scheduling\<close>, the merge of clients and the foreign keys by which
  deletions elsewhere reach the blocks): the life of a block and the step relation over these writers.
  \<open>Hour_Block_Charges\<close> (P/lib/billing/compute/computeHourBlockCharges.ts, parts of billingEngine.ts): the lines of
  an invoice that account for drawn minutes, and which entries are billed by the hour.

  How code and model correspond. A definition has the name of its function; a helper with a name of its own stands for
  a part of one. Interfaces are records, unions of string literals are datatypes, optional and nullable fields are
  options, a thrown error is the left value of a sum. A table is the list of its rows, a statement either returns the
  table after it or the error that aborts its transaction. Texts are lists of characters; an instant is a number of
  milliseconds. A number is the rational that its double holds; where the code computes with fractions the result is
  rounded as a double is (\<open>dbl\<close>). Counts of days, minutes and cents are integers. Columns of type \<open>integer\<close> are
  checked against their 32 bits. Loops are structural recursions, or functions with a measure;
  a loop whose end depends on the calendar is a partial function, and that it ends is a theorem
  (\<open>boundary_search_terminates\<close>).

  What the lemmas show. The generators tile their range without gap or overlap, so that a plan covers its horizon
  exactly (for client cadence when the anchor's month is a boundary month) and a settlement covers every active day
  once. A regeneration keeps what was billed or edited, covers every candidate, and run twice over records nobody has
  touched changes nothing the second time. The synchronization of a contract line refines its plan on records: the live
  rows it leaves are the plan's active records; for the client replenishment and the operator repair it is shown that
  they supersede only free generated rows and add only generated ones. In every reachable ledger the constraints hold
  and a claimed row stays. The days of a contract line are covered at most once in a process at UTC or west of it, as
  long as no operator repairs a single schedule; east of UTC and after such a repair they need not be. A claim changes
  exactly the free rows it asks for, and the sweep goes on after the failure of a line. A burn, a reversal and the
  reconcile conserve the minutes of hour blocks; an adjustment changes them on purpose, and deleting entries through
  the API or with their work item loses the minutes they drew. No balance is negative, the burn is FIFO, a used block
  is never voided, and of an entry that no contract line bills no minute is paid twice; a contract line that bills an
  unassigned entry ignores what blocks have paid. What the code does not do, against its comments, is shown by closed
  lemmas next to the theories they concern.

  Bounds. Client cadence generation stops after 100 periods of a gap and the scan of the tenant sweep after 500
  batches, as in the code; theorems that need the whole range say so with the cap as a hypothesis. No theorem rests on
  fuel of its own.

  What the theorems assume, always as a named hypothesis: \<open>iso_calendar\<close>, the calendar of the Temporal package;
  the offset of the process from UTC where date columns are read back; \<open>arranges\<close>, that the database returns each
  row once in some order. Permissions, clocks, new identifiers and rows of tables that are only read are arguments.

  Not modelled. Locks: a transaction is one step, as its row locks make it; the races that remain between a plan and
  its write are modelled in \<open>Invoice_Claims\<close>. Logging, error texts shown to users and the wording of explanations.
  Deletion of a whole tenant. The arithmetic of the other charge families, taxes, credits and documents, bucket pools,
  the workflow runtime, tickets, projects, inventory, integrations and the user interface: they are other parts of the
  product, over tables that the modelled parts do not write.
\<close>

end
